(* ===== verification/Prelude.thy ===== *)
theory Prelude
  imports Main "HOL-Library.Multiset" "HOL-Library.Char_ord" "HOL-Library.List_Lexorder"
    "HOL-Library.Product_Lexorder"
begin

text \<open>
  Shared vocabulary of the development: Go's strings (as lists of bytes), the
  handful of functions of Go's \<open>strings\<close>, \<open>fmt\<close> and \<open>strconv\<close> packages that the modelled
  code calls, the wrap-around of Go's \<open>int64\<close>, the result type of operations that
  can fail, and the generic lemmas on sorted tables that several components use.

  A Go \<open>string\<close> is a sequence of bytes and is modelled as \<open>string\<close>, a list of
  \<open>char\<close>, one per byte. Unix times, durations in seconds and Go's \<open>int\<close>/\<open>int64\<close> are
  modelled as \<open>int\<close>; where the code can overflow, \<open>i64\<close> writes the wrap-around out.
\<close>

section \<open>Proof-automation collections\<close>

named_theorems result_elims \<open>inversion rules: what a successful result says about the guards\<close>
named_theorems frame_simps \<open>what an operation leaves unchanged\<close>
named_theorems string_laws \<open>laws of the modelled string functions\<close>

section \<open>Types shared by the components\<close>

type_synonym unix = int

text \<open>The outcome of a fallible operation: \<open>Inl\<close> an error, \<open>Inr\<close> a value.\<close>

type_synonym ('e, 'a) result = "'e + 'a"

abbreviation is_ok :: "('e, 'a) result \<Rightarrow> bool" where
  "is_ok r \<equiv> (\<exists>a. r = Inr a)"

text \<open>A guard of a handler: the error if the condition fails, the continuation otherwise.\<close>

definition guard :: "bool \<Rightarrow> 'e \<Rightarrow> ('e, 'a) result \<Rightarrow> ('e, 'a) result" where
  "guard b e k = (if b then k else Inl e)"

lemma guard_True [simp]: "guard True e k = k"
  and guard_False [simp]: "guard False e k = Inl e"
  by (simp_all add: guard_def)

lemma guard_InrD [result_elims]: "guard b e k = Inr a \<longleftrightarrow> b \<and> k = Inr a"
  by (auto simp: guard_def)

lemma guard_split: "P (guard b e k) \<longleftrightarrow> (b \<longrightarrow> P k) \<and> (\<not> b \<longrightarrow> P (Inl e))"
  by (simp add: guard_def)

section \<open>Machine integers\<close>

text \<open>Go's \<open>int64\<close> arithmetic wraps around in two's complement.\<close>

definition i64 :: "int \<Rightarrow> int" where
  "i64 x = (x + 2 ^ 63) mod 2 ^ 64 - 2 ^ 63"

lemma i64_bounds: "- (2 ^ 63) \<le> i64 x" "i64 x < 2 ^ 63"
  by (simp_all add: i64_def)

lemma i64_id: "- (2 ^ 63) \<le> x \<Longrightarrow> x < 2 ^ 63 \<Longrightarrow> i64 x = x"
  by (simp add: i64_def)

lemma i64_idem [simp]: "i64 (i64 x) = i64 x"
  by (rule i64_id) (rule i64_bounds)+

section \<open>Go strings\<close>

text \<open>\<open>strings.HasPrefix\<close>, \<open>strings.TrimPrefix\<close>, \<open>strings.HasSuffix\<close>, \<open>strings.TrimSuffix\<close>.\<close>

fun has_prefix :: "string \<Rightarrow> string \<Rightarrow> bool" where
  "has_prefix s [] = True"
| "has_prefix [] (p # ps) = False"
| "has_prefix (c # s) (p # ps) = (c = p \<and> has_prefix s ps)"

definition trim_prefix :: "string \<Rightarrow> string \<Rightarrow> string" where
  "trim_prefix s p = (if has_prefix s p then drop (length p) s else s)"

definition has_suffix :: "string \<Rightarrow> string \<Rightarrow> bool" where
  "has_suffix s p = has_prefix (rev s) (rev p)"

definition trim_suffix :: "string \<Rightarrow> string \<Rightarrow> string" where
  "trim_suffix s p = (if has_suffix s p then take (length s - length p) s else s)"

lemma has_prefix_append [simp]: "has_prefix (p @ s) p"
  by (induction p) auto

lemma has_prefix_iff [string_laws]: "has_prefix s p \<longleftrightarrow> (\<exists>t. s = p @ t)"
  by (induction s p rule: has_prefix.induct) auto

lemma trim_prefix_append [simp]: "trim_prefix (p @ s) p = s"
  by (simp add: trim_prefix_def)

lemma trim_prefix_eq_self [string_laws]: "p \<noteq> [] \<Longrightarrow> trim_prefix s p = s \<longleftrightarrow> \<not> has_prefix s p"
  by (auto simp: trim_prefix_def has_prefix_iff)

lemma has_suffix_append [simp]: "has_suffix (s @ p) p"
  by (simp add: has_suffix_def)

lemma has_suffix_iff [string_laws]: "has_suffix s p \<longleftrightarrow> (\<exists>t. s = t @ p)"
proof
  assume "has_suffix s p"
  then obtain t where "rev s = rev p @ t" by (auto simp: has_suffix_def has_prefix_iff)
  then have "s = rev t @ p" by (metis rev_append rev_rev_ident)
  then show "\<exists>t. s = t @ p" by blast
qed auto

lemma trim_suffix_append [simp]: "trim_suffix (s @ p) p = s"
  by (simp add: trim_suffix_def)

text \<open>\<open>strings.Contains\<close> and \<open>strings.ContainsAny\<close>.\<close>

fun contains :: "string \<Rightarrow> string \<Rightarrow> bool" where
  "contains [] p = (p = [])"
| "contains (c # s) p = (has_prefix (c # s) p \<or> contains s p)"

definition contains_any :: "string \<Rightarrow> string \<Rightarrow> bool" where
  "contains_any s chars = list_ex (\<lambda>c. c \<in> set chars) s"

lemma contains_iff [string_laws]: "contains s p \<longleftrightarrow> (\<exists>a b. s = a @ p @ b)"
proof (induction s)
  case Nil
  then show ?case by auto
next
  case (Cons c s)
  have "(\<exists>a b. c # s = a @ p @ b) \<longleftrightarrow> (\<exists>b. c # s = p @ b) \<or> (\<exists>a b. s = a @ p @ b)"
  proof (safe, goal_cases)
    case (1 a b)
    then show ?case by (cases a) auto
  next
    case (2 b)
    then show ?case by (intro exI [of _ "[]"] exI [of _ b]) simp
  next
    case (3 a b)
    then show ?case by (intro exI [of _ "c # a"] exI [of _ b]) simp
  qed
  with Cons.IH show ?case by (simp add: has_prefix_iff)
qed

text \<open>\<open>strings.Join\<close>.\<close>

fun str_join :: "string \<Rightarrow> string list \<Rightarrow> string" where
  "str_join sep [] = []"
| "str_join sep [s] = s"
| "str_join sep (s # t # ss) = s @ sep @ str_join sep (t # ss)"

text \<open>
  A join with a one-byte separator can be taken apart again when no part contains the
  separator, and only then: \<open>str_join\<close> is not injective in general.
\<close>

lemma append_sep_eq:
  assumes "c \<notin> set a" and "c \<notin> set b" and "a @ c # x = b @ c # y"
  shows "a = b \<and> x = y"
  using assms
proof (induction a arbitrary: b)
  case Nil
  then show ?case by (cases b) auto
next
  case (Cons d a)
  then show ?case by (cases b) auto
qed

lemma str_join_inject:
  assumes "length ss = length ts" and "\<forall>s \<in> set ss. c \<notin> set s" and "\<forall>t \<in> set ts. c \<notin> set t"
    and "str_join [c] ss = str_join [c] ts"
  shows "ss = ts"
  using assms
proof (induction ss arbitrary: ts rule: str_join.induct [of "\<lambda>_ ss. _ ss" "[c]"])
  case (3 sep s t ss)
  from "3.prems"(1) obtain s' t' ss' where ts: "ts = s' # t' # ss'"
    by (cases ts; cases "tl ts") auto
  from "3.prems" ts have "s @ c # str_join [c] (t # ss) = s' @ c # str_join [c] (t' # ss')" by simp
  with "3.prems"(2,3) ts have "s = s' \<and> str_join [c] (t # ss) = str_join [c] (t' # ss')"
    by (intro append_sep_eq) auto
  with "3.IH" [of "t' # ss'"] "3.prems" ts show ?case by simp
next
  case 1
  then show ?case by simp
next
  case 2
  then show ?case by (cases ts) (auto simp: Suc_length_conv)
qed

text \<open>\<open>fmt.Sprintf("%d", n)\<close>: decimal notation.\<close>

definition digit :: "nat \<Rightarrow> char" where
  "digit d = char_of (48 + d)"

fun udigits :: "nat \<Rightarrow> string" where
  "udigits n = (if n < 10 then [digit n] else udigits (n div 10) @ [digit (n mod 10)])"

declare udigits.simps [simp del]

definition itoa :: "int \<Rightarrow> string" where
  "itoa i = (if i < 0 then ''-'' @ udigits (nat (- i)) else udigits (nat i))"

definition digits_val :: "string \<Rightarrow> nat" where
  "digits_val s = foldl (\<lambda>a c. a * 10 + (of_char c - 48)) 0 s"

lemma of_char_digit: "d < 10 \<Longrightarrow> (of_char (digit d) :: nat) = 48 + d"
  by (simp add: digit_def)

lemma digits_val_udigits: "digits_val (udigits n) = n"
proof (induction n rule: udigits.induct)
  case (1 n)
  show ?case
  proof (cases "n < 10")
    case True
    then show ?thesis
      by (subst udigits.simps) (simp add: digits_val_def of_char_digit)
  next
    case False
    with "1.IH" have "digits_val (udigits (n div 10)) = n div 10" by simp
    with False show ?thesis
      by (subst udigits.simps) (simp add: digits_val_def of_char_digit)
  qed
qed

lemma udigits_chars: "c \<in> set (udigits n) \<Longrightarrow> 48 \<le> (of_char c :: nat) \<and> (of_char c :: nat) < 58"
proof (induction n rule: udigits.induct)
  case (1 n)
  show ?case
  proof (cases "n < 10")
    case True
    with "1.prems" have "c = digit n" by (simp add: udigits.simps [of n])
    with True show ?thesis by (simp add: of_char_digit)
  next
    case False
    with "1.prems" have "c \<in> set (udigits (n div 10)) \<or> c = digit (n mod 10)"
      by (auto simp: udigits.simps [of n])
    with False "1.IH" show ?thesis by (auto simp: of_char_digit)
  qed
qed

lemma udigits_no_bar: "CHR ''|'' \<notin> set (udigits n)"
  using udigits_chars [of "CHR ''|''" n] by auto

lemma udigits_no_minus: "CHR ''-'' \<notin> set (udigits n)"
  using udigits_chars [of "CHR ''-''" n] by auto

lemma itoa_no_bar: "CHR ''|'' \<notin> set (itoa i)"
  by (simp add: itoa_def udigits_no_bar)

lemma udigits_inject: "udigits m = udigits n \<longleftrightarrow> m = n"
  using digits_val_udigits [of m] digits_val_udigits [of n] by metis

lemma udigits_not_minus: "udigits m \<noteq> CHR ''-'' # xs"
  using udigits_no_minus [of m] by auto

lemma itoa_inject [string_laws]: "itoa i = itoa j \<longleftrightarrow> i = j"
proof (cases "i < 0"; cases "j < 0")
qed (auto simp: itoa_def udigits_inject udigits_not_minus udigits_not_minus [symmetric])

section \<open>Tables ordered by a key\<close>

text \<open>
  A SQL table is a list of rows whose order carries no meaning; an \<open>ORDER BY\<close> is
  \<open>sort_key\<close>. A new row is put in front, so the ordered table after an insert is
  \<open>insort_key\<close> of the ordered table before it.
\<close>

lemma insort_key_last:
  "(\<And>y. y \<in> set xs \<Longrightarrow> f y < f x) \<Longrightarrow> insort_key f x xs = xs @ [x]"
  by (induction xs) force+

lemma insort_key_between:
  assumes "\<And>y. y \<in> set pre \<Longrightarrow> f y < f x" and "\<And>y. y \<in> set post \<Longrightarrow> f x < f y"
  shows "insort_key f x (pre @ post) = pre @ x # post"
  using assms
proof (induction pre)
  case Nil
  then show ?case by (cases post) (force dest: less_imp_le)+
next
  case (Cons p pre)
  then have "\<not> f x \<le> f p" by (simp add: not_le)
  with Cons show ?case by simp
qed

lemma filter_sort_key: "filter P (sort_key f xs) = sort_key f (filter P xs)"
  by (simp add: filter_sort)

text \<open>Lookup by a unique key in a list of rows.\<close>

lemma find_Some_iff_distinct:
  assumes "distinct (map f rows)" and "r \<in> set rows"
  shows "List.find (\<lambda>x. f x = f r) rows = Some r"
  using assms by (induction rows) (auto simp: image_iff)

text \<open>With distinct keys an association list can be read from either end.\<close>

lemma map_of_rev_distinct:
  assumes "distinct (map fst kv)"
  shows "map_of (rev kv) = map_of kv"
proof
  fix k
  have d: "distinct (map fst (rev kv))" using assms by (simp add: rev_map [symmetric])
  have "map_of (rev kv) k = Some v \<longleftrightarrow> map_of kv k = Some v" for v
    using assms by (simp only: map_of_eq_Some_iff [OF d] map_of_eq_Some_iff [OF assms] set_rev)
  then show "map_of (rev kv) k = map_of kv k" by (metis not_Some_eq)
qed

lemma find_in: "List.find P xs = Some x \<Longrightarrow> x \<in> set xs \<and> P x"
  by (induction xs) (auto split: if_splits)

lemma filter_map_none:
  "(\<And>x. P x \<Longrightarrow> \<not> Q x \<and> \<not> Q (f x)) \<Longrightarrow> filter Q (map (\<lambda>x. if P x then f x else x) xs) = filter Q xs"
  by (induction xs) auto

text \<open>A filter that keeps exactly the middle part, or exactly the two outer parts, of a list.\<close>

lemma filter_middle:
  assumes "\<And>x. x \<in> set a \<Longrightarrow> \<not> P x" and "\<And>x. x \<in> set b \<Longrightarrow> P x" and "\<And>x. x \<in> set c \<Longrightarrow> \<not> P x"
  shows "filter P (a @ b @ c) = b"
proof -
  have "filter P a = []" "filter P b = b" "filter P c = []"
    using assms by (simp_all add: filter_empty_conv filter_id_conv)
  then show ?thesis by simp
qed

lemma filter_outer:
  assumes "\<And>x. x \<in> set a \<Longrightarrow> P x" and "\<And>x. x \<in> set b \<Longrightarrow> \<not> P x" and "\<And>x. x \<in> set c \<Longrightarrow> P x"
  shows "filter P (a @ b @ c) = a @ c"
proof -
  have "filter P a = a" "filter P b = []" "filter P c = c"
    using assms by (simp_all add: filter_empty_conv filter_id_conv)
  then show ?thesis by simp
qed

end
