(* ===== verification/Crypto.thy ===== *)
theory Crypto
  imports Prelude
begin

text \<open>
  \<open>packages/server/internal/crypto/crypto.go\<close>: secrets at rest (AES-256-GCM under
  \<open>SECRETS_ENCRYPTION_KEY\<close>) and the keyed signatures over audit rows.

  The package variable \<open>encKey\<close> (nil when the operator opted out in development) is the
  argument of type \<open>string option\<close>. The primitives of Go's standard library are the
  fields of \<open>crypto_prims\<close>; what the code relies on is stated as \<open>prims_ok\<close>: a base64
  decoder inverts the encoder, GCM opens what it sealed under the same key and nonce,
  and SHA-256 and HMAC-SHA256 produce 32 bytes. Random nonces are arguments.
\<close>

section \<open>Primitives of the standard library\<close>

record crypto_prims =
  sha256 :: "string \<Rightarrow> string"
  hmac_sha256 :: "string \<Rightarrow> string \<Rightarrow> string"
  b64_encode :: "string \<Rightarrow> string"
  b64_decode :: "string \<Rightarrow> string option"
  gcm_seal :: "string \<Rightarrow> string \<Rightarrow> string \<Rightarrow> string"
  gcm_open :: "string \<Rightarrow> string \<Rightarrow> string \<Rightarrow> string option"

definition nonce_size :: nat where
  "nonce_size = 12"

definition prims_ok :: "crypto_prims \<Rightarrow> bool" where
  "prims_ok P \<longleftrightarrow> (\<forall>x. b64_decode P (b64_encode P x) = Some x)
     \<and> (\<forall>k n x. gcm_open P k n (gcm_seal P k n x) = Some x)
     \<and> (\<forall>x. length (sha256 P x) = 32) \<and> (\<forall>k x. length (hmac_sha256 P k x) = 32)"

section \<open>Start-up\<close>

datatype key_state = Fatal_exit | Dev_plaintext | Key_loaded string

definition crypto_init :: "crypto_prims \<Rightarrow> string \<Rightarrow> string \<Rightarrow> key_state" where
  "crypto_init P keyB64 devFlag =
     (let devModeAllowPlaintext = (devFlag = ''1'') in
      if keyB64 = [] then (if devModeAllowPlaintext then Dev_plaintext else Fatal_exit)
      else case b64_decode P keyB64 of
        None \<Rightarrow> Fatal_exit
      | Some key \<Rightarrow> if length key \<noteq> 32 then Fatal_exit else Key_loaded key)"

fun enc_key_of :: "key_state \<Rightarrow> string option" where
  "enc_key_of (Key_loaded k) = Some k"
| "enc_key_of Dev_plaintext = None"
| "enc_key_of Fatal_exit = None"

definition Enabled :: "string option \<Rightarrow> bool" where
  "Enabled encKey = (encKey \<noteq> None)"

datatype crypto_error = Err_key_required | Err_rand | Err_base64 | Err_too_short | Err_gcm_open
  | Err_bad_key_length nat

definition MustBeEnabled :: "string option \<Rightarrow> (crypto_error, unit) result" where
  "MustBeEnabled encKey = (if encKey \<noteq> None then Inr () else Inl Err_key_required)"

definition SetKeyForTests :: "crypto_prims \<Rightarrow> string \<Rightarrow> (crypto_error, string option) result" where
  "SetKeyForTests P keyB64 = (case b64_decode P keyB64 of
       None \<Rightarrow> Inl Err_base64
     | Some key \<Rightarrow> if length key \<noteq> 32 then Inl (Err_bad_key_length (length key)) else Inr (Some key))"

section \<open>Encrypt and Decrypt\<close>

definition encPrefix :: string where
  "encPrefix = ''enc:''"

text \<open>\<open>nonce\<close> is what \<open>io.ReadFull(rand.Reader, nonce)\<close> delivered; \<open>None\<close> is its failure.\<close>

definition Encrypt :: "crypto_prims \<Rightarrow> string option \<Rightarrow> string option \<Rightarrow> string
    \<Rightarrow> (crypto_error, string) result" where
  "Encrypt P encKey nonce plaintext =
     (case encKey of
        None \<Rightarrow> Inr plaintext
      | Some key \<Rightarrow>
          if plaintext = [] then Inr plaintext
          else case nonce of
            None \<Rightarrow> Inl Err_rand
          | Some n \<Rightarrow> Inr (encPrefix @ b64_encode P (n @ gcm_seal P key n plaintext)))"

definition Decrypt :: "crypto_prims \<Rightarrow> string option \<Rightarrow> string \<Rightarrow> (crypto_error, string) result" where
  "Decrypt P encKey val =
     (case encKey of
        None \<Rightarrow> Inr val
      | Some key \<Rightarrow>
          if \<not> has_prefix val encPrefix then Inr val
          else case b64_decode P (trim_prefix val encPrefix) of
            None \<Rightarrow> Inl Err_base64
          | Some dat \<Rightarrow>
              if length dat < nonce_size then Inl Err_too_short
              else case gcm_open P key (take nonce_size dat) (drop nonce_size dat) of
                None \<Rightarrow> Inl Err_gcm_open
              | Some plain \<Rightarrow> Inr plain)"

section \<open>Signatures\<close>

definition hexdigits :: string where
  "hexdigits = ''0123456789abcdef''"

definition hexEncode :: "string \<Rightarrow> string" where
  "hexEncode b = concat (map (\<lambda>v. [hexdigits ! (of_char v div 16), hexdigits ! (of_char v mod 16)]) b)"

definition HMACSHA256 :: "crypto_prims \<Rightarrow> string option \<Rightarrow> string \<Rightarrow> string \<Rightarrow> string" where
  "HMACSHA256 P encKey domain msg =
     (case encKey of
        None \<Rightarrow> hexEncode (sha256 P (domain @ ''|'' @ msg))
      | Some key \<Rightarrow>
          (let derived = sha256 P (key @ CHR 0x00 # ''signature'' @ CHR 0x00 # domain)
           in hexEncode (hmac_sha256 P derived msg)))"

section \<open>Lemmas\<close>

lemma length_hexEncode: "length (hexEncode b) = 2 * length b"
  by (induction b) (auto simp: hexEncode_def)

lemma hexdigits_distinct: "i < 16 \<Longrightarrow> j < 16 \<Longrightarrow> hexdigits ! i = hexdigits ! j \<longleftrightarrow> i = j"
  by (rule nth_eq_iff_index_eq) (simp_all add: hexdigits_def)

lemma hexEncode_Cons: "hexEncode (v # b) =
    hexdigits ! (of_char v div 16) # hexdigits ! (of_char v mod 16) # hexEncode b"
  by (simp add: hexEncode_def)

lemma hexEncode_Nil [simp]: "hexEncode [] = []"
  by (simp add: hexEncode_def)

lemma byte_eq_by_nibbles:
  assumes "hexdigits ! (of_char v div 16) = hexdigits ! (of_char w div 16)"
    and "hexdigits ! (of_char v mod 16) = hexdigits ! (of_char w mod 16)"
  shows "v = w"
proof -
  have lt: "(of_char c :: nat) div 16 < 16" for c
    by (rule less_mult_imp_div_less) simp
  from assms have "(of_char v :: nat) div 16 = of_char w div 16" "(of_char v :: nat) mod 16 = of_char w mod 16"
    using lt by (auto simp: hexdigits_distinct)
  then have "(of_char v :: nat) = of_char w" by (metis div_mult_mod_eq)
  then show ?thesis by simp
qed

lemma hexEncode_inject: "hexEncode a = hexEncode b \<longleftrightarrow> a = b"
proof
  assume "hexEncode a = hexEncode b"
  then show "a = b"
  proof (induction a arbitrary: b)
    case Nil
    then show ?case by (cases b) (auto simp: hexEncode_Cons)
  next
    case (Cons v a)
    then show ?case by (cases b) (auto simp: hexEncode_Cons intro: byte_eq_by_nibbles)
  qed
qed simp

lemma length_HMACSHA256: "prims_ok P \<Longrightarrow> length (HMACSHA256 P k d m) = 64"
  by (auto simp: HMACSHA256_def length_hexEncode prims_ok_def Let_def split: option.split)

lemma HMACSHA256_nonempty: "prims_ok P \<Longrightarrow> HMACSHA256 P k d m \<noteq> []"
  using length_HMACSHA256 [of P k d m] by auto

text \<open>A toy instance of the primitives, to evaluate witnesses on: not used by the model.\<close>

definition toy_hash :: "string \<Rightarrow> string" where
  "toy_hash x = hd (x @ ''0'') # (x @ ''000000'') ! 5 # last (CHR ''0'' # x) # replicate 29 CHR ''0''"

definition toy_prims :: crypto_prims where
  "toy_prims = \<lparr>sha256 = toy_hash, hmac_sha256 = (\<lambda>k. toy_hash),
     b64_encode = id, b64_decode = Some,
     gcm_seal = (\<lambda>k n x. x), gcm_open = (\<lambda>k n x. Some x)\<rparr>"

lemma prims_ok_toy: "prims_ok toy_prims"
  by (simp add: prims_ok_def toy_prims_def toy_hash_def)

end
