(* ===== verification/AuditChain.thy ===== *)
theory AuditChain
  imports Crypto
begin

text \<open>
  \<open>packages/server/internal/events/audit_chain.go\<close> and the audit writers of
  \<open>events.go\<close>: a per-tenant hash chain over the rows of \<open>audit_logs\<close>. A row's signature
  covers the previous row's signature; a compaction record (CR) stands for a deleted
  range and hands the verifier the signature of the last deleted row.

  State: the table \<open>audit_logs\<close>, a list of \<open>audit_row\<close>. NULL columns are read through
  \<open>COALESCE(..., '')\<close> everywhere, so a column is a plain string. \<open>auditChainMu\<close> makes every
  operation atomic: an operation is a function from the table to the new table. New ids
  and the clock are arguments. Failures of database statements that the code survives
  are arguments as well (\<open>True\<close> means that the statement fails).

  Parameters: the primitives and the key of \<open>Crypto\<close>, and \<open>encoding/json\<close> on the details
  of a compaction record.
\<close>

section \<open>Data\<close>

record audit_row =
  ar_id :: string
  ar_tenant :: string
  ar_user :: string
  ar_action :: string
  ar_rtype :: string
  ar_resid :: string
  ar_details :: string
  ar_ip :: string
  ar_ts :: int
  ar_sig :: string
  ar_seq :: int

type_synonym audit_db = "audit_row list"

record compactionDetails =
  cd_FirstDeletedID :: string
  cd_LastDeletedID :: string
  cd_Count :: nat
  cd_EndSig :: string
  cd_CutoffUnix :: int

record audit_env =
  ae_prims :: crypto_prims
  ae_key :: "string option"
  ae_marshal :: "compactionDetails \<Rightarrow> string"
  ae_unmarshal :: "string \<Rightarrow> compactionDetails option"

definition ascii :: "string \<Rightarrow> bool" where
  "ascii s \<longleftrightarrow> (\<forall>c \<in> set s. (of_char c :: nat) < 128)"

text \<open>What the code relies on: \<open>json.Unmarshal\<close> recovers an ASCII \<open>end_sig\<close> that \<open>json.Marshal\<close> wrote.\<close>

definition env_ok :: "audit_env \<Rightarrow> bool" where
  "env_ok E \<longleftrightarrow> prims_ok (ae_prims E) \<and>
     (\<forall>d. ascii (cd_EndSig d) \<longrightarrow>
        (\<exists>d'. ae_unmarshal E (ae_marshal E d) = Some d' \<and> cd_EndSig d' = cd_EndSig d))"

definition AuditCompactionAction :: string where
  "AuditCompactionAction = ''audit.compaction''"

section \<open>Signatures\<close>

definition canonicalAuditPayload ::
  "string \<Rightarrow> string \<Rightarrow> string \<Rightarrow> string \<Rightarrow> string \<Rightarrow> string \<Rightarrow> string \<Rightarrow> string \<Rightarrow> int \<Rightarrow> string" where
  "canonicalAuditPayload i tenantID userID action resourceType resourceID details ipAddress createdAt =
     str_join ''|'' [i, tenantID, userID, action, resourceType, resourceID, details, ipAddress,
       itoa createdAt]"

definition auditSignature :: "audit_env \<Rightarrow> string \<Rightarrow> string \<Rightarrow> string" where
  "auditSignature E prevSig payload =
     HMACSHA256 (ae_prims E) (ae_key E) ''audit-chain'' (prevSig @ CHR 0x0A # payload)"

definition compactionEndSig :: "audit_env \<Rightarrow> string \<Rightarrow> string" where
  "compactionEndSig E detailsJSON =
     (case ae_unmarshal E detailsJSON of None \<Rightarrow> [] | Some d \<Rightarrow> cd_EndSig d)"

section \<open>Writing a row\<close>

text \<open>\<open>... WHERE tenant_id = ? ORDER BY chain_seq ASC\<close>\<close>

definition chain_of :: "string \<Rightarrow> audit_db \<Rightarrow> audit_row list" where
  "chain_of tenantID db = sort_key ar_seq (filter (\<lambda>r. ar_tenant r = tenantID) db)"

definition loadLastAuditState :: "audit_env \<Rightarrow> string \<Rightarrow> audit_db \<Rightarrow> string \<times> int" where
  "loadLastAuditState E tenantID db =
     (case rev (chain_of tenantID db) of
        [] \<Rightarrow> ([], 0)
      | r # _ \<Rightarrow>
          let sq = ar_seq r; end = compactionEndSig E (ar_details r) in
          if ar_action r = AuditCompactionAction \<and> end \<noteq> [] then (end, sq)
          else (ar_sig r, sq))"

definition AuditLogTenantSync ::
  "audit_env \<Rightarrow> bool \<Rightarrow> bool \<Rightarrow> string \<Rightarrow> int \<Rightarrow> string \<Rightarrow> string \<Rightarrow> string \<Rightarrow> string \<Rightarrow> string \<Rightarrow> string \<Rightarrow> string
    \<Rightarrow> audit_db \<Rightarrow> audit_db" where
  "AuditLogTenantSync E load_fails insert_fails newID now
       tenantID0 userID action resourceType resourceID details ipAddress db =
     (let tenantID = (if tenantID0 = [] then ''default'' else tenantID0);
          (prevSig, prevSeq) = (if load_fails then ([], 0) else loadLastAuditState E tenantID db);
          sg = auditSignature E prevSig
                 (canonicalAuditPayload newID tenantID userID action resourceType resourceID details ipAddress now);
          sq = prevSeq + 1
      in if insert_fails then db
         else \<lparr>ar_id = newID, ar_tenant = tenantID, ar_user = userID, ar_action = action,
                ar_rtype = resourceType, ar_resid = resourceID, ar_details = details, ar_ip = ipAddress,
                ar_ts = now, ar_sig = sg, ar_seq = sq\<rparr> # db)"

definition AuditLog ::
  "audit_env \<Rightarrow> bool \<Rightarrow> bool \<Rightarrow> string \<Rightarrow> int \<Rightarrow> string \<Rightarrow> string \<Rightarrow> string \<Rightarrow> string \<Rightarrow> string \<Rightarrow> string
    \<Rightarrow> audit_db \<Rightarrow> audit_db" where
  "AuditLog E load_fails insert_fails newID now userID action resourceType resourceID details ipAddress =
     AuditLogTenantSync E load_fails insert_fails newID now ''default'' userID action resourceType resourceID
       details ipAddress"

section \<open>Verification\<close>

record verify_result =
  vr_TenantID :: string
  vr_OK :: bool
  vr_Total :: nat
  vr_Verified :: nat
  vr_FirstBadID :: string
  vr_Reason :: string

definition row_payload :: "string \<Rightarrow> audit_row \<Rightarrow> string" where
  "row_payload tenantID r = canonicalAuditPayload (ar_id r) tenantID (ar_user r) (ar_action r)
     (ar_rtype r) (ar_resid r) (ar_details r) (ar_ip r) (ar_ts r)"

fun verify_loop :: "audit_env \<Rightarrow> string \<Rightarrow> string \<Rightarrow> verify_result \<Rightarrow> audit_row list \<Rightarrow> verify_result" where
  "verify_loop E tenantID prev res [] = res"
| "verify_loop E tenantID prev res (r # rs) =
     (let res1 = res\<lparr>vr_Total := Suc (vr_Total res)\<rparr>;
          expected = auditSignature E prev (row_payload tenantID r)
      in if ar_sig r = [] then
           res1\<lparr>vr_OK := False, vr_FirstBadID := ar_id r, vr_Reason := ''missing signature''\<rparr>
         else if ar_sig r \<noteq> expected then
           res1\<lparr>vr_OK := False, vr_FirstBadID := ar_id r, vr_Reason := ''signature mismatch''\<rparr>
         else
           let res2 = res1\<lparr>vr_Verified := Suc (vr_Verified res1)\<rparr> in
           if ar_action r = AuditCompactionAction then
             let end = compactionEndSig E (ar_details r) in
             if end = [] then
               res2\<lparr>vr_OK := False, vr_FirstBadID := ar_id r,
                     vr_Reason := ''compaction record missing end_sig''\<rparr>
             else verify_loop E tenantID end res2 rs
           else verify_loop E tenantID (ar_sig r) res2 rs)"

definition fresh_result :: "string \<Rightarrow> verify_result" where
  "fresh_result tenantID = \<lparr>vr_TenantID = tenantID, vr_OK = True, vr_Total = 0, vr_Verified = 0,
     vr_FirstBadID = [], vr_Reason = []\<rparr>"

definition verifyOneTenant :: "audit_env \<Rightarrow> string \<Rightarrow> audit_db \<Rightarrow> verify_result" where
  "verifyOneTenant E tenantID db = verify_loop E tenantID [] (fresh_result tenantID) (chain_of tenantID db)"

definition listTenantsWithAuditRows :: "audit_db \<Rightarrow> string list" where
  "listTenantsWithAuditRows db = sort (remdups (map ar_tenant db))"

definition VerifyAuditChain :: "audit_env \<Rightarrow> string \<Rightarrow> audit_db \<Rightarrow> verify_result list" where
  "VerifyAuditChain E tenantID db =
     map (\<lambda>t. verifyOneTenant E t db)
       (if tenantID = [] then listTenantsWithAuditRows db else [tenantID])"

section \<open>The chain as a predicate\<close>

text \<open>What the verifier's loop accepts, row by row, and the previous signature it carries on.\<close>

definition next_prev :: "audit_env \<Rightarrow> audit_row \<Rightarrow> string" where
  "next_prev E r = (if ar_action r = AuditCompactionAction then compactionEndSig E (ar_details r)
                    else ar_sig r)"

definition row_ok :: "audit_env \<Rightarrow> string \<Rightarrow> string \<Rightarrow> audit_row \<Rightarrow> bool" where
  "row_ok E tenantID prev r \<longleftrightarrow> ar_sig r \<noteq> []
     \<and> ar_sig r = auditSignature E prev (row_payload tenantID r) \<and> next_prev E r \<noteq> []"

fun linked :: "audit_env \<Rightarrow> string \<Rightarrow> string \<Rightarrow> audit_row list \<Rightarrow> bool" where
  "linked E tenantID prev [] = True"
| "linked E tenantID prev (r # rs) = (row_ok E tenantID prev r \<and> linked E tenantID (next_prev E r) rs)"

fun head_after :: "audit_env \<Rightarrow> string \<Rightarrow> audit_row list \<Rightarrow> string" where
  "head_after E prev [] = prev"
| "head_after E prev (r # rs) = head_after E (next_prev E r) rs"

lemma linked_append [simp]:
  "linked E t prev (xs @ ys) \<longleftrightarrow> linked E t prev xs \<and> linked E t (head_after E prev xs) ys"
  by (induction xs arbitrary: prev) auto

lemma head_after_snoc [simp]: "head_after E prev (xs @ [r]) = next_prev E r"
  by (induction xs arbitrary: prev) auto

lemma head_after_append [simp]: "head_after E prev (xs @ ys) = head_after E (head_after E prev xs) ys"
  by (induction xs arbitrary: prev) auto

lemma auditSignature_nonempty: "env_ok E \<Longrightarrow> auditSignature E p m \<noteq> []"
  by (simp add: auditSignature_def env_ok_def HMACSHA256_nonempty)

lemma linked_signed: "linked E t prev xs \<Longrightarrow> x \<in> set xs \<Longrightarrow> ar_sig x \<noteq> []"
  by (induction xs arbitrary: prev) (auto simp: row_ok_def)

lemma linked_sig_form: "linked E t prev xs \<Longrightarrow> x \<in> set xs \<Longrightarrow> \<exists>p m. ar_sig x = auditSignature E p m"
  by (induction xs arbitrary: prev) (auto simp: row_ok_def)

lemma verify_loop_linked:
  "linked E t prev rs \<Longrightarrow> verify_loop E t prev res rs =
     res\<lparr>vr_Total := vr_Total res + length rs, vr_Verified := vr_Verified res + length rs\<rparr>"
proof (induction rs arbitrary: prev res)
  case Nil
  then show ?case by simp
next
  case (Cons r rs)
  then show ?case by (auto simp: row_ok_def next_prev_def Let_def split: if_splits)
qed

lemma verify_loop_OK_D:
  "vr_OK (verify_loop E t prev res rs) \<Longrightarrow> linked E t prev rs"
proof (induction rs arbitrary: prev res)
  case Nil
  then show ?case by simp
next
  case (Cons r rs)
  then show ?case by (auto simp: row_ok_def next_prev_def Let_def split: if_splits)
qed

lemma verify_loop_OK: "vr_OK res \<Longrightarrow> vr_OK (verify_loop E t prev res rs) \<longleftrightarrow> linked E t prev rs"
  using verify_loop_OK_D verify_loop_linked by fastforce

lemma verifyOneTenant_OK: "vr_OK (verifyOneTenant E t db) \<longleftrightarrow> linked E t [] (chain_of t db)"
  by (simp add: verifyOneTenant_def verify_loop_OK fresh_result_def)

text \<open>The first row that breaks the chain is the one reported.\<close>

lemma verify_loop_first_bad:
  assumes "linked E t prev pre" and "ar_sig r \<noteq> []"
    and "ar_sig r \<noteq> auditSignature E (head_after E prev pre) (row_payload t r)"
  shows "vr_FirstBadID (verify_loop E t prev res (pre @ r # post)) = ar_id r
     \<and> vr_Reason (verify_loop E t prev res (pre @ r # post)) = ''signature mismatch''
     \<and> \<not> vr_OK (verify_loop E t prev res (pre @ r # post))"
  using assms
proof (induction pre arbitrary: prev res)
  case Nil
  then show ?case by (simp add: Let_def)
next
  case (Cons q pre)
  then show ?case by (auto simp: row_ok_def next_prev_def Let_def)
qed

section \<open>Writing keeps the chain\<close>

lemma chain_of_Cons: "chain_of t (r # db) =
    (if ar_tenant r = t then insort_key ar_seq r (chain_of t db) else chain_of t db)"
  by (simp add: chain_of_def)

lemma set_chain_of: "set (chain_of t db) = {r \<in> set db. ar_tenant r = t}"
  by (simp add: chain_of_def)

lemma chain_of_last:
  "rev (chain_of t db) = r # rs \<Longrightarrow> q \<in> set (chain_of t db) \<Longrightarrow> ar_seq q \<le> ar_seq r"
proof -
  assume rev: "rev (chain_of t db) = r # rs" and q: "q \<in> set (chain_of t db)"
  have "sorted (map ar_seq (chain_of t db))" by (simp add: chain_of_def)
  moreover from rev have "chain_of t db = rev rs @ [r]" by (metis rev.simps(2) rev_rev_ident)
  ultimately show ?thesis using q by (auto simp: sorted_append)
qed

lemma loadLast_seq: "q \<in> set (chain_of t db) \<Longrightarrow> ar_seq q < snd (loadLastAuditState E t db) + 1"
proof (cases "rev (chain_of t db)")
  case (Cons r rs)
  moreover assume "q \<in> set (chain_of t db)"
  ultimately have "ar_seq q \<le> ar_seq r" using chain_of_last by blast
  with Cons show ?thesis by (simp add: loadLastAuditState_def Let_def)
qed simp

lemma loadLast_head:
  assumes "linked E t [] (chain_of t db)"
  shows "fst (loadLastAuditState E t db) = head_after E [] (chain_of t db)"
proof (cases "rev (chain_of t db)")
  case Nil
  then show ?thesis by (simp add: loadLastAuditState_def)
next
  case (Cons r rs)
  then have eq: "chain_of t db = rev rs @ [r]" by (metis rev.simps(2) rev_rev_ident)
  with assms have "next_prev E r \<noteq> []" by (simp add: row_ok_def)
  with Cons eq show ?thesis by (auto simp: loadLastAuditState_def next_prev_def Let_def)
qed

text \<open>The row a successful write adds.\<close>

definition logged_row :: "audit_env \<Rightarrow> string \<Rightarrow> int \<Rightarrow> string \<Rightarrow> string \<Rightarrow> string \<Rightarrow> string \<Rightarrow> string
    \<Rightarrow> string \<Rightarrow> string \<Rightarrow> audit_db \<Rightarrow> audit_row" where
  "logged_row E i now t u a rt ri det ip db =
     \<lparr>ar_id = i, ar_tenant = t, ar_user = u, ar_action = a, ar_rtype = rt, ar_resid = ri,
      ar_details = det, ar_ip = ip, ar_ts = now,
      ar_sig = auditSignature E (fst (loadLastAuditState E t db))
                 (canonicalAuditPayload i t u a rt ri det ip now),
      ar_seq = snd (loadLastAuditState E t db) + 1\<rparr>"

definition eff_tenant :: "string \<Rightarrow> string" where
  "eff_tenant t = (if t = [] then ''default'' else t)"

lemma AuditLogTenantSync_ok:
  "AuditLogTenantSync E False False i now t u a rt ri det ip db =
     logged_row E i now (eff_tenant t) u a rt ri det ip db # db"
  by (simp add: AuditLogTenantSync_def logged_row_def eff_tenant_def Let_def split: prod.split)

lemma chain_of_logged:
  "chain_of t (logged_row E i now t u a rt ri det ip db # db) =
     chain_of t db @ [logged_row E i now t u a rt ri det ip db]"
  using loadLast_seq [of _ t db E]
  by (simp add: chain_of_Cons insort_key_last logged_row_def)

lemma logged_row_ok:
  assumes "env_ok E" and "a \<noteq> AuditCompactionAction" and "linked E t [] (chain_of t db)"
  shows "row_ok E t (head_after E [] (chain_of t db)) (logged_row E i now t u a rt ri det ip db)"
  using assms auditSignature_nonempty [OF assms(1)] loadLast_head [OF assms(3)]
  by (simp add: row_ok_def logged_row_def next_prev_def row_payload_def)

lemma logged_linked:
  assumes "env_ok E" and "a \<noteq> AuditCompactionAction" and "linked E t [] (chain_of t db)"
  shows "linked E t [] (chain_of t (logged_row E i now t u a rt ri det ip db # db))"
  using assms logged_row_ok [OF assms] by (simp add: chain_of_logged)

lemma chain_of_logged_other [frame_simps]:
  "t' \<noteq> t \<Longrightarrow> chain_of t' (logged_row E i now t u a rt ri det ip db # db) = chain_of t' db"
  by (simp add: chain_of_Cons logged_row_def)

end
