(* ===== verification/AuditRetention.thy ===== *)
theory AuditRetention
  imports AuditChain
begin

text \<open>
  The two operations of \<open>audit_chain.go\<close> that rewrite history: \<open>CompactAuditChainForTenant\<close>,
  which retention calls, and \<open>BackfillAuditChain\<close>, which signs the rows of an older schema.
  Both hold \<open>auditChainMu\<close>; the deletes and the insert of a compaction are separate
  statements, each of which can fail (\<open>compact_faults\<close>).
\<close>

section \<open>Compaction\<close>

datatype compact_error = Err_tenant_required | Err_list | Err_unsigned | Err_predecessor
  | Err_delete string | Err_insert_CR

record compact_faults =
  cf_list :: bool
  cf_pred :: bool
  cf_delete :: "string \<Rightarrow> bool"
  cf_insert :: bool

definition no_faults :: compact_faults where
  "no_faults = \<lparr>cf_list = False, cf_pred = False, cf_delete = (\<lambda>_. False), cf_insert = False\<rparr>"

text \<open>\<open>DELETE FROM audit_logs WHERE id = ?\<close> for each row, stopping at the first failure.\<close>

fun delete_rows :: "(string \<Rightarrow> bool) \<Rightarrow> string list \<Rightarrow> audit_db \<Rightarrow> audit_db \<times> string option" where
  "delete_rows bad [] db = (db, None)"
| "delete_rows bad (i # is) db =
     (if bad i then (db, Some i) else delete_rows bad is (filter (\<lambda>r. ar_id r \<noteq> i) db))"

definition pred_sig :: "string \<Rightarrow> int \<Rightarrow> audit_db \<Rightarrow> string" where
  "pred_sig tenantID sq db =
     (case rev (filter (\<lambda>r. ar_seq r < sq) (chain_of tenantID db)) of [] \<Rightarrow> [] | r # _ \<Rightarrow> ar_sig r)"

definition compaction_record ::
  "audit_env \<Rightarrow> string \<Rightarrow> int \<Rightarrow> string \<Rightarrow> int \<Rightarrow> string \<Rightarrow> audit_row list \<Rightarrow> audit_row" where
  "compaction_record E crID crTS tenantID cutoff prevSig toDelete =
     (let first = hd toDelete; lst = last toDelete;
          det = \<lparr>cd_FirstDeletedID = ar_id first, cd_LastDeletedID = ar_id lst,
                 cd_Count = length toDelete, cd_EndSig = ar_sig lst, cd_CutoffUnix = cutoff\<rparr>;
          detJSON = ae_marshal E det
      in \<lparr>ar_id = crID, ar_tenant = tenantID, ar_user = ''system'', ar_action = AuditCompactionAction,
          ar_rtype = ''audit_log'', ar_resid = [], ar_details = detJSON, ar_ip = [], ar_ts = crTS,
          ar_sig = auditSignature E prevSig
             (canonicalAuditPayload crID tenantID ''system'' AuditCompactionAction ''audit_log'' [] detJSON [] crTS),
          ar_seq = ar_seq first\<rparr>)"

definition CompactAuditChainForTenant ::
  "audit_env \<Rightarrow> compact_faults \<Rightarrow> string \<Rightarrow> int \<Rightarrow> string \<Rightarrow> int \<Rightarrow> audit_db
    \<Rightarrow> (compact_error, nat \<times> string) result \<times> audit_db" where
  "CompactAuditChainForTenant E F crID crTS tenantID cutoffUnix db =
     (if tenantID = [] then (Inl Err_tenant_required, db)
      else if cf_list F then (Inl Err_list, db)
      else let toDelete = filter (\<lambda>r. ar_ts r < cutoffUnix) (chain_of tenantID db) in
        if toDelete = [] then (Inr (0, []), db)
        else if ar_sig (hd toDelete) = [] \<or> ar_sig (last toDelete) = [] then (Inl Err_unsigned, db)
        else if cf_pred F then (Inl Err_predecessor, db)
        else
          let prevSig = pred_sig tenantID (ar_seq (hd toDelete)) db;
              cr = compaction_record E crID crTS tenantID cutoffUnix prevSig toDelete
          in case delete_rows (cf_delete F) (map ar_id toDelete) db of
               (db1, Some i) \<Rightarrow> (Inl (Err_delete i), db1)
             | (db1, None) \<Rightarrow>
                 if cf_insert F then (Inl Err_insert_CR, db1)
                 else (Inr (length toDelete, crID), cr # db1))"

section \<open>Backfill\<close>

datatype backfill_error = Err_update string

text \<open>
  The loop over the rows in \<open>(tenant_id, created_at, id)\<close> order: \<open>prevByTenant\<close> and
  \<open>seqByTenant\<close> are Go maps, whose missing keys read as the zero value. The result is the
  table after the updates; \<open>bad\<close> says which \<open>UPDATE\<close> fails, and the rows not reached stay.
\<close>

fun backfill_loop ::
  "audit_env \<Rightarrow> (string \<Rightarrow> bool) \<Rightarrow> (string \<Rightarrow> string) \<Rightarrow> (string \<Rightarrow> int) \<Rightarrow> nat \<Rightarrow> audit_row list
    \<Rightarrow> (backfill_error, nat) result \<times> audit_row list" where
  "backfill_loop E bad prevByTenant seqByTenant updated [] = (Inr updated, [])"
| "backfill_loop E bad prevByTenant seqByTenant updated (r # rs) =
     (let tid = ar_tenant r; prev = prevByTenant tid; sq = seqByTenant tid + 1;
          wantSig = auditSignature E prev (row_payload tid r);
          needSig = (ar_sig r = []); needSeq = (ar_seq r = 0);
          sg = (if needSig then wantSig else ar_sig r)
      in if (needSig \<or> needSeq) \<and> bad (ar_id r) then (Inl (Err_update (ar_id r)), r # rs)
         else
           let r' = (if needSig \<or> needSeq then r\<lparr>ar_sig := sg, ar_seq := sq\<rparr> else r);
               end = compactionEndSig E (ar_details r);
               prev' = (if ar_action r = AuditCompactionAction \<and> end \<noteq> [] then end else sg);
               (res, rs') = backfill_loop E bad (prevByTenant(tid := prev')) (seqByTenant(tid := sq))
                  (if needSig \<or> needSeq then Suc updated else updated) rs
           in (res, r' # rs'))"

definition backfill_order :: "audit_db \<Rightarrow> audit_row list" where
  "backfill_order db = sort_key (\<lambda>r. (ar_tenant r, ar_ts r, ar_id r)) db"

definition BackfillAuditChain ::
  "audit_env \<Rightarrow> (string \<Rightarrow> bool) \<Rightarrow> audit_db \<Rightarrow> (backfill_error, nat) result \<times> audit_db" where
  "BackfillAuditChain E bad db = backfill_loop E bad (\<lambda>_. []) (\<lambda>_. 0) 0 (backfill_order db)"

section \<open>Lemmas on compaction\<close>

lemma delete_rows_ok: "delete_rows (\<lambda>_. False) is db = (filter (\<lambda>r. ar_id r \<notin> set is) db, None)"
  by (induction "is" arbitrary: db) (auto intro: filter_cong)

text \<open>Row ids are a primary key.\<close>

definition ids_unique :: "audit_db \<Rightarrow> bool" where
  "ids_unique db \<longleftrightarrow> distinct (map ar_id db)"

lemma chain_after_delete:
  assumes "ids_unique db" and "set dels \<subseteq> set (chain_of t db)"
  shows "chain_of t (filter (\<lambda>r. ar_id r \<notin> set (map ar_id dels)) db) = filter (\<lambda>r. r \<notin> set dels) (chain_of t db)"
proof -
  have "ar_id r \<in> ar_id ` set dels \<longleftrightarrow> r \<in> set dels" if "r \<in> set db" for r
    using assms that by (auto simp: ids_unique_def distinct_map set_chain_of dest: inj_onD)
  then have "filter (\<lambda>r. ar_id r \<notin> set (map ar_id dels)) db = filter (\<lambda>r. r \<notin> set dels) db"
    by (auto intro: filter_cong)
  then show ?thesis by (simp add: chain_of_def filter_sort_key conj_commute)
qed

lemma ascii_hexEncode: "ascii (hexEncode b)"
proof -
  have nib: "(of_char (hexdigits ! i) :: nat) < 128" if "i < 16" for i
  proof -
    have "hexdigits ! i \<in> set hexdigits" using that by (intro nth_mem) (simp add: hexdigits_def)
    then show ?thesis by (auto simp: hexdigits_def)
  qed
  have "(of_char v :: nat) div 16 < 16" for v by (rule less_mult_imp_div_less) simp
  then show ?thesis by (induction b) (auto simp: ascii_def hexEncode_Cons nib)
qed

lemma ascii_auditSignature: "ascii (auditSignature E p m)"
  by (auto simp: auditSignature_def HMACSHA256_def Let_def ascii_hexEncode split: option.split)

lemma compactionEndSig_marshal:
  "env_ok E \<Longrightarrow> ascii (cd_EndSig d) \<Longrightarrow> compactionEndSig E (ae_marshal E d) = cd_EndSig d"
  by (fastforce simp: env_ok_def compactionEndSig_def)

lemma compaction_record_next:
  assumes "env_ok E" and "ascii (ar_sig (last dels))"
  shows "next_prev E (compaction_record E i ts t c p dels) = ar_sig (last dels)"
  using assms by (simp add: next_prev_def compaction_record_def Let_def compactionEndSig_marshal)

lemma compaction_record_sig:
  "ar_sig (compaction_record E i ts t c p dels) =
     auditSignature E p (row_payload t (compaction_record E i ts t c p dels))"
  by (simp add: compaction_record_def row_payload_def Let_def)

lemma compaction_record_seq [simp]:
  "ar_seq (compaction_record E i ts t c p dels) = ar_seq (hd dels)"
  "ar_tenant (compaction_record E i ts t c p dels) = t"
  "ar_id (compaction_record E i ts t c p dels) = i"
  by (simp_all add: compaction_record_def Let_def)

text \<open>
  The range a compaction removes: the chain splits into the rows before it, the rows
  older than the cutoff, and the rows after it.
\<close>

definition compact_split :: "string \<Rightarrow> int \<Rightarrow> audit_db \<Rightarrow> audit_row list \<Rightarrow> audit_row list \<Rightarrow> audit_row list \<Rightarrow> bool" where
  "compact_split t cutoff db pre dels post \<longleftrightarrow> chain_of t db = pre @ dels @ post \<and> dels \<noteq> []
     \<and> (\<forall>r \<in> set pre. cutoff \<le> ar_ts r) \<and> (\<forall>r \<in> set dels. ar_ts r < cutoff) \<and> (\<forall>r \<in> set post. cutoff \<le> ar_ts r)
     \<and> distinct (map ar_seq (chain_of t db)) \<and> ids_unique db \<and> t \<noteq> []"

lemma compact_split_dels:
  "compact_split t cutoff db pre dels post \<Longrightarrow> filter (\<lambda>r. ar_ts r < cutoff) (chain_of t db) = dels"
  using filter_middle [of pre "\<lambda>r. ar_ts r < cutoff" dels post] by (simp add: compact_split_def not_less)

lemma chain_strict:
  assumes "chain_of t db = xs @ ys" and "distinct (map ar_seq (chain_of t db))" and "x \<in> set xs" and "y \<in> set ys"
  shows "ar_seq x < ar_seq y"
proof -
  have "sorted (map ar_seq (xs @ ys))" using assms(1) by (metis chain_of_def sorted_sort_key)
  with assms have "ar_seq x \<le> ar_seq y" and "ar_seq x \<noteq> ar_seq y" by (auto simp: sorted_append)
  then show ?thesis by simp
qed

lemma compact_split_seqs:
  assumes "compact_split t cutoff db pre dels post"
  shows "\<And>r. r \<in> set pre \<Longrightarrow> ar_seq r < ar_seq (hd dels)" "\<And>r. r \<in> set post \<Longrightarrow> ar_seq (hd dels) < ar_seq r"
    "\<And>r. r \<in> set dels \<Longrightarrow> ar_seq (hd dels) \<le> ar_seq r"
proof -
  note S = assms [unfolded compact_split_def]
  from S have eq: "chain_of t db = pre @ dels @ post" and dis: "distinct (map ar_seq (chain_of t db))"
    by blast+
  from S have hd_in: "hd dels \<in> set dels" by simp
  show "ar_seq r < ar_seq (hd dels)" if "r \<in> set pre" for r
    by (rule chain_strict [OF _ dis, of pre "dels @ post"]) (use eq that hd_in in simp_all)
  show "ar_seq (hd dels) < ar_seq r" if "r \<in> set post" for r
    by (rule chain_strict [OF _ dis, of "pre @ dels" post]) (use eq that hd_in in simp_all)
  have "sorted (map ar_seq (pre @ dels @ post))" using S by (metis chain_of_def sorted_sort_key)
  then show "ar_seq (hd dels) \<le> ar_seq r" if "r \<in> set dels" for r
    using that by (cases dels) (auto simp: sorted_append)
qed

lemma compact_pred_sig:
  assumes "compact_split t cutoff db pre dels post"
  shows "pred_sig t (ar_seq (hd dels)) db = (if pre = [] then [] else ar_sig (last pre))"
proof -
  note less = compact_split_seqs [OF assms]
  have "filter (\<lambda>r. ar_seq r < ar_seq (hd dels)) (pre @ (dels @ post) @ []) = pre @ []"
    by (rule filter_outer) (use less in \<open>fastforce simp: not_less\<close>)+
  then have "filter (\<lambda>r. ar_seq r < ar_seq (hd dels)) (chain_of t db) = pre"
    using assms by (simp add: compact_split_def)
  then show ?thesis by (cases pre rule: rev_cases) (simp_all add: pred_sig_def)
qed

lemma compact_ok:
  assumes S: "compact_split t cutoff db pre dels post"
    and signed: "ar_sig (hd dels) \<noteq> []" "ar_sig (last dels) \<noteq> []"
  shows "CompactAuditChainForTenant E no_faults crID crTS t cutoff db =
     (Inr (length dels, crID),
      compaction_record E crID crTS t cutoff (if pre = [] then [] else ar_sig (last pre)) dels
        # filter (\<lambda>r. ar_id r \<notin> set (map ar_id dels)) db)"
  using S compact_split_dels [OF S] compact_pred_sig [OF S] signed
  by (simp add: CompactAuditChainForTenant_def no_faults_def delete_rows_ok compact_split_def Let_def)

lemma compact_chain:
  assumes S: "compact_split t cutoff db pre dels post"
    and signed: "ar_sig (hd dels) \<noteq> []" "ar_sig (last dels) \<noteq> []"
  shows "chain_of t (snd (CompactAuditChainForTenant E no_faults crID crTS t cutoff db)) =
     pre @ compaction_record E crID crTS t cutoff (if pre = [] then [] else ar_sig (last pre)) dels # post"
proof -
  note less = compact_split_seqs [OF S]
  have "distinct (pre @ dels @ post)"
    using S by (metis compact_split_def distinct_map)
  then have "filter (\<lambda>r. r \<notin> set dels) (pre @ dels @ post) = pre @ post"
    by (intro filter_outer) auto
  then have "chain_of t (filter (\<lambda>r. ar_id r \<notin> set (map ar_id dels)) db) = pre @ post"
    using S by (subst chain_after_delete) (auto simp: compact_split_def)
  then show ?thesis
    using less by (simp add: compact_ok [OF S signed] chain_of_Cons insort_key_between)
qed

lemma compact_chain_other:
  assumes S: "compact_split t cutoff db pre dels post" and "t' \<noteq> t"
    and signed: "ar_sig (hd dels) \<noteq> []" "ar_sig (last dels) \<noteq> []"
  shows "chain_of t' (snd (CompactAuditChainForTenant E no_faults crID crTS t cutoff db)) = chain_of t' db"
proof -
  have "set dels \<subseteq> set (chain_of t db)" using S by (auto simp: compact_split_def)
  then have *: "ar_tenant d = t \<and> d \<in> set db" if "d \<in> set dels" for d
    using that by (auto simp: set_chain_of)
  have "ar_id r \<notin> ar_id ` set dels" if "r \<in> set db" "ar_tenant r = t'" for r
    using * S that assms(2) by (auto simp: compact_split_def ids_unique_def distinct_map dest: inj_onD)
  then have "filter (\<lambda>r. ar_tenant r = t' \<and> ar_id r \<notin> ar_id ` set dels) db = filter (\<lambda>r. ar_tenant r = t') db"
    by (auto intro: filter_cong)
  then show ?thesis
    using assms(2) by (simp add: compact_ok [OF S signed] chain_of_Cons) (simp add: chain_of_def conj_commute)
qed

text \<open>The predecessor signature the compaction signs is the one the verifier has at that point.\<close>

lemma compact_linked:
  assumes E: "env_ok E" and S: "compact_split t cutoff db pre dels post"
    and L: "linked E t [] (chain_of t db)"
    and pre: "pre = [] \<or> ar_action (last pre) \<noteq> AuditCompactionAction"
    and dels: "ar_action (last dels) \<noteq> AuditCompactionAction"
  shows "linked E t [] (chain_of t (snd (CompactAuditChainForTenant E no_faults crID crTS t cutoff db)))"
proof -
  from S L have L3: "linked E t [] pre" "linked E t (head_after E [] pre) dels"
      "linked E t (head_after E (head_after E [] pre) dels) post"
    by (auto simp: compact_split_def)
  from S obtain ds d where ds: "dels = ds @ [d]" by (cases dels rule: rev_cases) (auto simp: compact_split_def)
  have sig_d: "ar_sig (last dels) \<noteq> []" "ascii (ar_sig (last dels))" and "ar_sig (hd dels) \<noteq> []"
    using L3(2) ds by (auto simp: row_ok_def ascii_auditSignature) (cases ds; auto simp: row_ok_def)
  have prev: "(if pre = [] then [] else ar_sig (last pre)) = head_after E [] pre"
    using pre by (cases pre rule: rev_cases) (auto simp: next_prev_def)
  have post: "head_after E (head_after E [] pre) dels = ar_sig (last dels)"
    using dels ds by (simp add: next_prev_def)
  show ?thesis
    using L3 prev post sig_d E
    by (simp add: compact_chain [OF S \<open>ar_sig (hd dels) \<noteq> []\<close> sig_d(1)] row_ok_def
        compaction_record_next auditSignature_nonempty flip: compaction_record_sig)
       (metis auditSignature_nonempty compaction_record_sig)
qed

section \<open>Lemmas on the backfill\<close>

abbreviation no_bad :: "string \<Rightarrow> bool" where
  "no_bad \<equiv> (\<lambda>_. False)"

text \<open>A row of the schema before the chain existed.\<close>

definition fresh_row :: "audit_row \<Rightarrow> bool" where
  "fresh_row r \<longleftrightarrow> ar_sig r = [] \<and> ar_seq r = 0 \<and> ar_action r \<noteq> AuditCompactionAction"

lemma backfill_fresh:
  assumes "env_ok E" and "\<forall>r \<in> set rs. fresh_row r" and "\<forall>t. 0 \<le> seqm t"
  shows "fst (backfill_loop E no_bad prevm seqm u rs) = Inr (u + length rs)
    \<and> linked E t (prevm t) (filter (\<lambda>r. ar_tenant r = t) (snd (backfill_loop E no_bad prevm seqm u rs)))
    \<and> sorted (map ar_seq (filter (\<lambda>r. ar_tenant r = t) (snd (backfill_loop E no_bad prevm seqm u rs))))
    \<and> (\<forall>r \<in> set (snd (backfill_loop E no_bad prevm seqm u rs)). seqm (ar_tenant r) < ar_seq r \<and> ar_sig r \<noteq> [])"
  using assms(2,3)
proof (induction rs arbitrary: prevm seqm u)
  case Nil
  then show ?case by simp
next
  case (Cons r rs)
  let ?w = "auditSignature E (prevm (ar_tenant r)) (row_payload (ar_tenant r) r)"
  let ?L = "backfill_loop E no_bad (prevm(ar_tenant r := ?w)) (seqm(ar_tenant r := seqm (ar_tenant r) + 1)) (Suc u) rs"
  from Cons.prems have fr: "fresh_row r" by simp
  have pos: "\<forall>t. 0 \<le> (seqm(ar_tenant r := seqm (ar_tenant r) + 1)) t" using Cons.prems(2) by simp
  have fr_rs: "\<forall>q \<in> set rs. fresh_row q" using Cons.prems(1) by simp
  note IH = Cons.IH [OF fr_rs pos, where u = "Suc u" and prevm = "prevm(ar_tenant r := ?w)"]
  have step: "backfill_loop E no_bad prevm seqm u (r # rs) =
      (fst ?L, r\<lparr>ar_sig := ?w, ar_seq := seqm (ar_tenant r) + 1\<rparr> # snd ?L)"
    using fr by (simp add: fresh_row_def Let_def split: prod.split)
  have pay: "row_payload t (r\<lparr>ar_sig := x, ar_seq := y\<rparr>) = row_payload t r" for t x y
    by (simp add: row_payload_def)
  have ok: "row_ok E (ar_tenant r) (prevm (ar_tenant r)) (r\<lparr>ar_sig := ?w, ar_seq := y\<rparr>)"
    and nxt: "next_prev E (r\<lparr>ar_sig := ?w, ar_seq := y\<rparr>) = ?w" for y
    using fr auditSignature_nonempty [OF assms(1)] by (simp_all add: row_ok_def next_prev_def fresh_row_def pay)
  have bound: "seqm (ar_tenant q) < ar_seq q \<and> ar_sig q \<noteq> []
      \<and> (ar_tenant q = ar_tenant r \<longrightarrow> seqm (ar_tenant r) + 1 < ar_seq q)" if "q \<in> set (snd ?L)" for q
  proof -
    from IH that have "(seqm(ar_tenant r := seqm (ar_tenant r) + 1)) (ar_tenant q) < ar_seq q \<and> ar_sig q \<noteq> []"
      by blast
    then show ?thesis by (auto split: if_splits)
  qed
  have IHt: "fst ?L = Inr (Suc u + length rs)"
    "linked E t ((prevm(ar_tenant r := ?w)) t) (filter (\<lambda>r. ar_tenant r = t) (snd ?L))"
    "sorted (map ar_seq (filter (\<lambda>r. ar_tenant r = t) (snd ?L)))"
    using IH by blast+
  have "linked E t (prevm t) (filter (\<lambda>r. ar_tenant r = t) (r\<lparr>ar_sig := ?w, ar_seq := y\<rparr> # snd ?L))" for y
    using IHt(2) ok [of y] nxt [of y] by (cases "t = ar_tenant r") simp_all
  moreover have "sorted (map ar_seq (filter (\<lambda>r. ar_tenant r = t) (r\<lparr>ar_sig := ?w, ar_seq := seqm (ar_tenant r) + 1\<rparr> # snd ?L)))"
    using IHt(3) bound by (auto simp: less_imp_le)
  moreover have "\<forall>q \<in> set (r\<lparr>ar_sig := ?w, ar_seq := seqm (ar_tenant r) + 1\<rparr> # snd ?L).
      seqm (ar_tenant q) < ar_seq q \<and> ar_sig q \<noteq> []"
    using bound auditSignature_nonempty [OF assms(1)] by auto
  ultimately show ?case
    unfolding step using IHt(1) by simp
qed

lemma chain_of_sorted:
  "sorted (map ar_seq (filter (\<lambda>r. ar_tenant r = t) db)) \<Longrightarrow> chain_of t db = filter (\<lambda>r. ar_tenant r = t) db"
  unfolding chain_of_def by (rule sort_key_id_if_sorted)

text \<open>What a row keeps in every backfill: everything but an empty signature and a zero sequence number.\<close>

definition backfilled :: "audit_row \<Rightarrow> audit_row \<Rightarrow> bool" where
  "backfilled r r' \<longleftrightarrow> r' = r\<lparr>ar_sig := ar_sig r', ar_seq := ar_seq r'\<rparr> \<and> (ar_sig r \<noteq> [] \<longrightarrow> ar_sig r' = ar_sig r)"

lemma backfill_loop_step:
  "backfill_loop E bad prevm seqm u (r # rs) = (Inl (Err_update (ar_id r)), r # rs) \<or>
   (\<exists>r' prevm' seqm' u'. backfilled r r' \<and> backfill_loop E bad prevm seqm u (r # rs) =
      (fst (backfill_loop E bad prevm' seqm' u' rs), r' # snd (backfill_loop E bad prevm' seqm' u' rs)))"
proof (cases "(ar_sig r = [] \<or> ar_seq r = 0) \<and> bad (ar_id r)")
  case True
  then show ?thesis by (auto simp: Let_def)
next
  case False
  let ?sg = "if ar_sig r = [] then auditSignature E (prevm (ar_tenant r)) (row_payload (ar_tenant r) r) else ar_sig r"
  let ?sq = "seqm (ar_tenant r) + 1"
  let ?es = "compactionEndSig E (ar_details r)"
  let ?r = "if ar_sig r = [] \<or> ar_seq r = 0 then r\<lparr>ar_sig := ?sg, ar_seq := ?sq\<rparr> else r"
  let ?L = "backfill_loop E bad
      (prevm(ar_tenant r := if ar_action r = AuditCompactionAction \<and> ?es \<noteq> [] then ?es else ?sg))
      (seqm(ar_tenant r := ?sq)) (if ar_sig r = [] \<or> ar_seq r = 0 then Suc u else u) rs"
  have "backfill_loop E bad prevm seqm u (r # rs) = (fst ?L, ?r # snd ?L)"
    using False unfolding backfill_loop.simps(2) Let_def case_prod_beta by (simp only: if_False)
  moreover have "backfilled r ?r" by (simp add: backfilled_def)
  ultimately show ?thesis by blast
qed

lemma backfill_keeps:
  "list_all2 backfilled rs (snd (backfill_loop E bad prevm seqm u rs))"
proof (induction rs arbitrary: prevm seqm u)
  case Nil
  then show ?case by simp
next
  case (Cons r rs)
  have refl: "list_all2 backfilled xs xs" for xs
    by (rule list_all2_refl) (simp add: backfilled_def)
  show ?case
    using backfill_loop_step [of E bad prevm seqm u r rs] Cons.IH refl [of "r # rs"]
    by (metis list_all2_Cons snd_conv)
qed

lemma backfill_settled:
  "\<forall>r \<in> set rs. ar_sig r \<noteq> [] \<and> ar_seq r \<noteq> 0 \<Longrightarrow> backfill_loop E bad prevm seqm u rs = (Inr u, rs)"
  by (induction rs arbitrary: prevm seqm) (auto simp: Let_def split: prod.splits)

end
