(* ===== verification/AuditProps.thy ===== *)
theory AuditProps
  imports AuditRetention
begin

text \<open>
  The properties of the audit chain: what the writers, the verifier, retention and the
  backfill guarantee together, and where the chain's promise ends.
\<close>

section \<open>Sequences of writes\<close>

datatype audit_write = Audit_write (aw_id: string) (aw_now: int) (aw_tenant: string) (aw_user: string)
  (aw_action: string) (aw_rtype: string) (aw_resid: string) (aw_details: string) (aw_ip: string)

fun run_write :: "audit_env \<Rightarrow> audit_write \<Rightarrow> audit_db \<Rightarrow> audit_db" where
  "run_write E (Audit_write i now t u a rt ri det ip) db =
     AuditLogTenantSync E False False i now t u a rt ri det ip db"

definition run_writes :: "audit_env \<Rightarrow> audit_write list \<Rightarrow> audit_db \<Rightarrow> audit_db" where
  "run_writes E ws db = fold (run_write E) ws db"

lemma run_write_linked:
  assumes "env_ok E" and "aw_action w \<noteq> AuditCompactionAction" and "\<forall>t. linked E t [] (chain_of t db)"
  shows "\<forall>t. linked E t [] (chain_of t (run_write E w db))"
proof
  fix t
  obtain i now t0 u a rt ri det ip where w: "w = Audit_write i now t0 u a rt ri det ip" by (cases w)
  with assms show "linked E t [] (chain_of t (run_write E w db))"
    by (cases "t = eff_tenant t0") (simp_all add: AuditLogTenantSync_ok logged_linked chain_of_logged_other)
qed

lemma run_writes_linked:
  assumes "env_ok E" and "\<forall>w \<in> set ws. aw_action w \<noteq> AuditCompactionAction"
    and "\<forall>t. linked E t [] (chain_of t db)"
  shows "\<forall>t. linked E t [] (chain_of t (run_writes E ws db))"
  using assms(2,3)
proof (induction ws arbitrary: db)
  case Nil
  then show ?case by (simp add: run_writes_def)
next
  case (Cons w ws)
  then have "\<forall>t. linked E t [] (chain_of t (run_write E w db))"
    using run_write_linked [OF assms(1)] by simp
  with Cons show ?case by (simp add: run_writes_def)
qed

lemma run_write_length:
  "length (chain_of t (run_write E w db)) =
     length (chain_of t db) + (if eff_tenant (aw_tenant w) = t then 1 else 0)"
proof -
  obtain i now t0 u a rt ri det ip where w: "w = Audit_write i now t0 u a rt ri det ip" by (cases w)
  then show ?thesis
    by (cases "t = eff_tenant t0") (simp_all add: AuditLogTenantSync_ok chain_of_logged chain_of_logged_other)
qed

lemma run_writes_length:
  "length (chain_of t (run_writes E ws db)) =
     length (chain_of t db) + length (filter (\<lambda>w. eff_tenant (aw_tenant w) = t) ws)"
  by (induction ws arbitrary: db) (simp_all add: run_writes_def run_write_length)

section \<open>Tampering with a table\<close>

lemma sort_key_map:
  assumes "\<And>x. f (g x) = f x"
  shows "sort_key f (map g xs) = map g (sort_key f xs)"
proof -
  have "insort_key f (g x) (map g ys) = map g (insort_key f x ys)" for x ys
    by (induction ys) (simp_all add: assms)
  then show ?thesis by (induction xs) simp_all
qed

definition overwrite_row :: "audit_row \<Rightarrow> audit_row \<Rightarrow> audit_db \<Rightarrow> audit_db" where
  "overwrite_row r r' db = map (\<lambda>x. if x = r then r' else x) db"

lemma chain_of_overwrite:
  assumes "ar_tenant r' = ar_tenant r" and "ar_seq r' = ar_seq r"
  shows "chain_of t (overwrite_row r r' db) = map (\<lambda>x. if x = r then r' else x) (chain_of t db)"
proof -
  have "filter (\<lambda>x. ar_tenant x = t) (overwrite_row r r' db) =
      map (\<lambda>x. if x = r then r' else x) (filter (\<lambda>x. ar_tenant x = t) db)"
    unfolding overwrite_row_def using assms(1) by (induction db) auto
  then show ?thesis unfolding chain_of_def using assms(2) by (simp add: sort_key_map)
qed

definition remove_rows :: "audit_row list \<Rightarrow> audit_db \<Rightarrow> audit_db" where
  "remove_rows dels db = filter (\<lambda>r. r \<notin> set dels) db"

lemma chain_of_remove: "chain_of t (remove_rows dels db) = filter (\<lambda>r. r \<notin> set dels) (chain_of t db)"
  by (simp add: chain_of_def remove_rows_def filter_sort_key conj_commute)

text \<open>A concrete environment for the witnesses.\<close>

definition toy_env :: audit_env where
  "toy_env = \<lparr>ae_prims = toy_prims, ae_key = Some ''k'', ae_marshal = cd_EndSig,
     ae_unmarshal = (\<lambda>s. Some \<lparr>cd_FirstDeletedID = [], cd_LastDeletedID = [], cd_Count = 0,
        cd_EndSig = s, cd_CutoffUnix = 0\<rparr>)\<rparr>"

lemma env_ok_toy: "env_ok toy_env"
  by (simp add: env_ok_def toy_env_def prims_ok_toy)

lemma toy_signature: "auditSignature toy_env p m = auditSignature toy_env p' m' \<longleftrightarrow>
    hd (p @ [CHR 0x0A]) = hd (p' @ [CHR 0x0A])
    \<and> (p @ CHR 0x0A # m @ ''000000'') ! 5 = (p' @ CHR 0x0A # m' @ ''000000'') ! 5 \<and> last (CHR 0x0A # m) = last (CHR 0x0A # m')"
  by (auto simp: auditSignature_def HMACSHA256_def toy_env_def toy_prims_def toy_hash_def hexEncode_inject
      Let_def hd_append)

lemma itoa_nonempty: "itoa i \<noteq> []"
proof -
  have "udigits n \<noteq> []" for n by (subst udigits.simps) simp
  then show ?thesis by (simp add: itoa_def)
qed

lemma last_row_payload: "last (c # row_payload t r) = last (itoa (ar_ts r))"
  by (simp add: row_payload_def canonicalAuditPayload_def itoa_nonempty)

lemma no_newline_in_signature: "CHR 0x0A \<notin> set (auditSignature E p m)"
proof -
  have nib: "hexdigits ! i \<noteq> CHR 0x0A" if "i < 16" for i
  proof -
    have "hexdigits ! i \<in> set hexdigits" using that by (intro nth_mem) (simp add: hexdigits_def)
    then show ?thesis by (auto simp: hexdigits_def)
  qed
  have "(of_char v :: nat) div 16 < 16" for v by (rule less_mult_imp_div_less) simp
  with nib [THEN not_sym] have "CHR 0x0A \<notin> set (hexEncode b)" for b
    by (induction b) (simp_all add: hexEncode_Cons)
  then show ?thesis by (auto simp: auditSignature_def HMACSHA256_def Let_def split: option.split)
qed

section \<open>Properties\<close>



text \<open>
  However many rows are written, by however many callers, in whatever order: starting
  from an empty table, verification of every tenant succeeds and counts exactly the rows
  written for that tenant.
\<close>

theorem audit_run_verifies:
  assumes "env_ok E" and "\<forall>w \<in> set ws. aw_action w \<noteq> AuditCompactionAction"
  shows "vr_OK (verifyOneTenant E t (run_writes E ws []))
    \<and> vr_Verified (verifyOneTenant E t (run_writes E ws [])) =
        length (filter (\<lambda>w. eff_tenant (aw_tenant w) = t) ws)"
proof -
  have "linked E t [] (chain_of t (run_writes E ws []))"
    using run_writes_linked [OF assms, of "[]"] by (simp add: chain_of_def)
  from verify_loop_linked [OF this] this show ?thesis
    by (simp add: verifyOneTenant_def verify_loop_OK fresh_result_def run_writes_length) (simp add: chain_of_def)
qed

theorem audit_run_verifies_witness:
  "vr_Verified (verifyOneTenant toy_env ''default'' (run_writes toy_env
     [Audit_write ''r1'' 7 '''' ''u'' ''a'' ''x'' ''y'' '''' '''', Audit_write ''r2'' 8 ''t2'' ''u'' ''a'' ''x'' ''y'' '''' '''',
      Audit_write ''r3'' 9 ''default'' ''u'' ''a'' ''x'' ''y'' '''' ''''] [])) = 2"
proof -
  have h: "\<forall>w \<in> set [Audit_write ''r1'' 7 '''' ''u'' ''a'' ''x'' ''y'' '''' '''',
      Audit_write ''r2'' 8 ''t2'' ''u'' ''a'' ''x'' ''y'' '''' '''', Audit_write ''r3'' 9 ''default'' ''u'' ''a'' ''x'' ''y'' '''' ''''].
      aw_action w \<noteq> AuditCompactionAction" by (simp add: AuditCompactionAction_def)
  show ?thesis using audit_run_verifies [OF env_ok_toy h, of "''default''"] by (simp add: eff_tenant_def)
qed


definition wit_log :: "string \<Rightarrow> string \<Rightarrow> int \<Rightarrow> audit_db \<Rightarrow> audit_db" where
  "wit_log i a now db = logged_row toy_env i now ''t1'' ''u'' a ''x'' ''y'' '''' i db # db"

definition wit_db :: audit_db where
  "wit_db = wit_log ''r3'' ''a'' 9 (wit_log ''r2'' ''a'' 8 (wit_log ''r1'' ''a'' 7 []))"

definition wit_row :: "nat \<Rightarrow> audit_row" where
  "wit_row n = chain_of ''t1'' wit_db ! n"

lemma chain_of_wit_log: "chain_of ''t1'' (wit_log i a now db) = chain_of ''t1'' db @ [hd (wit_log i a now db)]"
  by (simp add: wit_log_def chain_of_logged)

lemma wit_log_fields [simp]: "ar_id (hd (wit_log i a now db)) = i" "ar_ts (hd (wit_log i a now db)) = now"
  "ar_action (hd (wit_log i a now db)) = a" "ar_tenant (hd (wit_log i a now db)) = ''t1''"
  by (simp_all add: wit_log_def logged_row_def)

lemma wit_chain: "chain_of ''t1'' wit_db = [wit_row 0, wit_row 1, wit_row 2]"
  and wit_rows: "map ar_id [wit_row 0, wit_row 1, wit_row 2] = [''r1'', ''r2'', ''r3'']"
    "map ar_ts [wit_row 0, wit_row 1, wit_row 2] = [7, 8, 9]"
    "\<forall>r \<in> set [wit_row 0, wit_row 1, wit_row 2]. ar_action r = ''a''"
  by (simp_all add: wit_db_def wit_row_def chain_of_wit_log chain_of_def [of _ "[]"])

lemma wit_distinct: "distinct [wit_row 0, wit_row 1, wit_row 2]"
  using wit_rows(1) by auto

lemma wit_sig: "ar_sig (wit_row 0) = auditSignature toy_env [] (row_payload ''t1'' (wit_row 0))" "next_prev toy_env (wit_row 0) = ar_sig (wit_row 0)"
  by (simp_all add: wit_db_def wit_row_def chain_of_wit_log chain_of_def [of _ "[]"] next_prev_def
      AuditCompactionAction_def) (simp add: wit_log_def logged_row_def row_payload_def loadLastAuditState_def chain_of_def)

lemma wit_head_no_newline: "hd (next_prev toy_env (wit_row 0) @ [CHR 0x0A]) \<noteq> CHR 0x0A"
  using auditSignature_nonempty [OF env_ok_toy] no_newline_in_signature [of toy_env]
  by (simp add: wit_sig hd_append) (metis hd_in_set)

lemma wit_ok: "vr_OK (verifyOneTenant toy_env ''t1'' wit_db)"
  unfolding verifyOneTenant_OK wit_db_def wit_log_def
  by (intro logged_linked env_ok_toy) (simp_all add: AuditCompactionAction_def chain_of_def)


text \<open>
  Deleting rows from inside a chain without a compaction record is detected: the
  verifier stops with ''signature mismatch'' at the first row after the gap.
\<close>

theorem audit_gap_detected:
  assumes "vr_OK (verifyOneTenant E t db)" and "chain_of t db = pre @ dels @ r # post"
    and "(set pre \<union> set (r # post)) \<inter> set dels = {}"
    and "auditSignature E (head_after E [] pre) (row_payload t r) \<noteq>
         auditSignature E (head_after E [] (pre @ dels)) (row_payload t r)"
  shows "\<not> vr_OK (verifyOneTenant E t (remove_rows dels db))
    \<and> vr_FirstBadID (verifyOneTenant E t (remove_rows dels db)) = ar_id r
    \<and> vr_Reason (verifyOneTenant E t (remove_rows dels db)) = ''signature mismatch''"
proof -
  from assms(1,2) have L: "linked E t [] pre" "row_ok E t (head_after E [] (pre @ dels)) r"
    by (simp_all add: verifyOneTenant_OK)
  have "chain_of t (remove_rows dels db) = pre @ r # post"
    unfolding chain_of_remove assms(2) by (rule filter_outer) (use assms(3) in auto)
  moreover have "ar_sig r \<noteq> []" "ar_sig r \<noteq> auditSignature E (head_after E [] pre) (row_payload t r)"
    using L(2) assms(4) by (auto simp: row_ok_def)
  ultimately show ?thesis
    using verify_loop_first_bad [OF L(1), of r] by (simp add: verifyOneTenant_def)
qed

theorem audit_gap_detected_witness:
  "vr_Reason (verifyOneTenant toy_env ''t1'' (remove_rows [wit_row 0] wit_db)) = ''signature mismatch''"
proof -
  have c: "chain_of ''t1'' wit_db = [] @ [wit_row 0] @ wit_row 1 # [wit_row 2]" by (simp add: wit_chain)
  have n: "(set [] \<union> set (wit_row 1 # [wit_row 2])) \<inter> set [wit_row 0] = {}" using wit_distinct by auto
  have d: "auditSignature toy_env (head_after toy_env [] []) (row_payload ''t1'' (wit_row 1)) \<noteq>
      auditSignature toy_env (head_after toy_env [] ([] @ [wit_row 0])) (row_payload ''t1'' (wit_row 1))"
    using wit_head_no_newline by (simp add: toy_signature)
  show ?thesis using audit_gap_detected [OF wit_ok c n d] by simp
qed

text \<open>
  Where the promise ends: cutting off the newest rows of a chain is not detected. Every
  prefix of a verified chain verifies, although migration 042 promises that deleting a row
  breaks the chain.
\<close>

theorem audit_truncation_undetected:
  assumes "vr_OK (verifyOneTenant E t db)" and "chain_of t db = kept @ newest" and "set kept \<inter> set newest = {}"
  shows "vr_OK (verifyOneTenant E t (remove_rows newest db))
    \<and> vr_Total (verifyOneTenant E t (remove_rows newest db)) = length kept"
proof -
  have "chain_of t (remove_rows newest db) = kept"
    unfolding chain_of_remove assms(2) using filter_outer [of kept "\<lambda>r. r \<notin> set newest" newest "[]"] assms(3)
    by (simp add: disjoint_iff)
  moreover have "linked E t [] kept" using assms(1,2) by (simp add: verifyOneTenant_OK)
  ultimately show ?thesis
    using verify_loop_linked [of E t "[]" kept] by (simp add: verifyOneTenant_def verify_loop_OK fresh_result_def)
qed

theorem audit_truncation_undetected_witness:
  "vr_OK (verifyOneTenant toy_env ''t1'' (remove_rows [wit_row 1, wit_row 2] wit_db))"
proof -
  have c: "chain_of ''t1'' wit_db = [wit_row 0] @ [wit_row 1, wit_row 2]" by (simp add: wit_chain)
  have n: "set [wit_row 0] \<inter> set [wit_row 1, wit_row 2] = {}" using wit_distinct by auto
  show ?thesis using audit_truncation_undetected [OF wit_ok c n] by simp
qed

text \<open>
  C2. Retention keeps the chain verifiable: compacting a range of a verified chain whose
  predecessor and whose last row are ordinary rows deletes exactly that range, reports
  its size, and leaves a chain that verifies, with the compaction record in place of the
  range; the other tenants' reports do not change.
\<close>

theorem audit_compaction_keeps_chain:
  assumes "env_ok E" and "compact_split t cutoff db pre dels post" and "vr_OK (verifyOneTenant E t db)"
    and "pre = [] \<or> ar_action (last pre) \<noteq> AuditCompactionAction"
    and "ar_action (last dels) \<noteq> AuditCompactionAction"
  shows "fst (CompactAuditChainForTenant E no_faults crID crTS t cutoff db) = Inr (length dels, crID)
    \<and> vr_OK (verifyOneTenant E t (snd (CompactAuditChainForTenant E no_faults crID crTS t cutoff db)))
    \<and> map ar_id (chain_of t (snd (CompactAuditChainForTenant E no_faults crID crTS t cutoff db))) =
        map ar_id pre @ crID # map ar_id post
    \<and> (\<forall>t'. t' \<noteq> t \<longrightarrow> verifyOneTenant E t' (snd (CompactAuditChainForTenant E no_faults crID crTS t cutoff db)) =
        verifyOneTenant E t' db)"
proof -
  from assms(3) have L: "linked E t [] (chain_of t db)" by (simp add: verifyOneTenant_OK)
  with assms(2) have "linked E t (head_after E [] pre) dels" and "dels \<noteq> []" by (auto simp: compact_split_def)
  then have sg: "ar_sig (hd dels) \<noteq> []" "ar_sig (last dels) \<noteq> []"
    using linked_signed by auto
  let ?r = "CompactAuditChainForTenant E no_faults crID crTS t cutoff db"
  have "fst ?r = Inr (length dels, crID)" by (simp add: compact_ok [OF assms(2) sg])
  moreover have "vr_OK (verifyOneTenant E t (snd ?r))"
    unfolding verifyOneTenant_OK by (rule compact_linked [OF assms(1,2) L assms(4,5)])
  moreover have "map ar_id (chain_of t (snd ?r)) = map ar_id pre @ crID # map ar_id post"
    by (simp add: compact_chain [OF assms(2) sg])
  moreover have "verifyOneTenant E t' (snd ?r) = verifyOneTenant E t' db" if "t' \<noteq> t" for t'
    unfolding verifyOneTenant_def compact_chain_other [OF assms(2) that sg] ..
  ultimately show ?thesis by blast
qed

lemma wit_ids_unique: "ids_unique wit_db"
  by (simp add: ids_unique_def wit_db_def wit_log_def logged_row_def)

lemma wit_seqs: "map ar_seq [wit_row 0, wit_row 1, wit_row 2] = [1, 2, 3]"
  by (simp add: wit_db_def wit_row_def chain_of_wit_log chain_of_def [of _ "[]"])
     (simp add: wit_log_def logged_row_def loadLastAuditState_def chain_of_Cons chain_of_def [of _ "[]"] Let_def)

lemma wit_split: "compact_split ''t1'' 8 wit_db [] [wit_row 0] [wit_row 1, wit_row 2]"
  using wit_chain wit_rows(2) wit_seqs wit_ids_unique by (simp add: compact_split_def)

theorem audit_compaction_keeps_chain_witness:
  "vr_OK (verifyOneTenant toy_env ''t1'' (snd (CompactAuditChainForTenant toy_env no_faults ''cr'' 100 ''t1'' 8 wit_db)))"
proof -
  have a: "ar_action (last [wit_row 0]) \<noteq> AuditCompactionAction"
    using wit_rows(3) by (simp add: AuditCompactionAction_def)
  show ?thesis
    using audit_compaction_keeps_chain [OF env_ok_toy wit_split wit_ok _ a] by simp
qed

text \<open>
  A defect of retention: when the row before the compacted range is itself a compaction
  record (the marker a previous night left behind, which carries a recent \<open>created_at\<close> and
  so survives), the new record is signed over the marker's own signature, while the
  verifier expects the marker's \<open>end_sig\<close>. The verifier then reports the freshly written
  compaction record as tampered, on a table nobody tampered with.
\<close>

theorem audit_second_compaction_breaks_chain:
  assumes "compact_split t cutoff db (pre @ [marker]) dels post" and "vr_OK (verifyOneTenant E t db)"
    and "ar_action marker = AuditCompactionAction"
    and "\<And>m. auditSignature E (ar_sig marker) m \<noteq> auditSignature E (compactionEndSig E (ar_details marker)) m"
    and "env_ok E"
  shows "fst (CompactAuditChainForTenant E no_faults crID crTS t cutoff db) = Inr (length dels, crID)
    \<and> \<not> vr_OK (verifyOneTenant E t (snd (CompactAuditChainForTenant E no_faults crID crTS t cutoff db)))
    \<and> vr_FirstBadID (verifyOneTenant E t (snd (CompactAuditChainForTenant E no_faults crID crTS t cutoff db))) = crID
    \<and> vr_Reason (verifyOneTenant E t (snd (CompactAuditChainForTenant E no_faults crID crTS t cutoff db))) =
        ''signature mismatch''"
proof -
  from assms(2) have L: "linked E t [] (chain_of t db)" by (simp add: verifyOneTenant_OK)
  with assms(1) have Lp: "linked E t [] (pre @ [marker])"
    and Ld: "linked E t (head_after E [] (pre @ [marker])) dels" and "dels \<noteq> []" by (auto simp: compact_split_def)
  then have sg: "ar_sig (hd dels) \<noteq> []" "ar_sig (last dels) \<noteq> []"
    using linked_signed [OF Ld] by auto
  let ?cr = "compaction_record E crID crTS t cutoff (ar_sig marker) dels"
  have "head_after E [] (pre @ [marker]) = compactionEndSig E (ar_details marker)"
    using assms(3) by (simp add: next_prev_def)
  then have "ar_sig ?cr \<noteq> auditSignature E (head_after E [] (pre @ [marker])) (row_payload t ?cr)" "ar_sig ?cr \<noteq> []"
    using assms(4) auditSignature_nonempty [OF assms(5)] compaction_record_sig [of E crID crTS t cutoff "ar_sig marker" dels]
    by metis+
  from verify_loop_first_bad [OF Lp this(2,1)] compact_chain [OF assms(1) sg, of E crID crTS] show ?thesis
    by (simp add: compact_ok [OF assms(1) sg] verifyOneTenant_def)
qed

lemma nth_5: "(a # b # c # d # e # f # xs) ! 5 = f"
  by (simp add: eval_nat_numeral)

lemma toy_sig_5: "auditSignature toy_env p m ! 5 = hexdigits ! (of_char (last (CHR 0x0A # m)) mod 16)"
  by (simp add: auditSignature_def HMACSHA256_def toy_env_def toy_prims_def toy_hash_def hexEncode_Cons Let_def nth_5)

lemma length_auditSignature: "env_ok E \<Longrightarrow> length (auditSignature E p m) = 64"
  by (simp add: auditSignature_def length_HMACSHA256 env_ok_def)

definition wit_marker :: audit_row where
  "wit_marker = compaction_record toy_env ''c1'' 100 ''t1'' 8 [] [wit_row 0]"

definition wit_db1 :: audit_db where
  "wit_db1 = snd (CompactAuditChainForTenant toy_env no_faults ''c1'' 100 ''t1'' 8 wit_db)"

lemma wit_signed: "ar_sig (hd [wit_row 0]) \<noteq> []" "ar_sig (last [wit_row 0]) \<noteq> []"
  by (simp_all add: wit_sig auditSignature_nonempty [OF env_ok_toy])

lemma wit_chain1: "chain_of ''t1'' wit_db1 = [wit_marker, wit_row 1, wit_row 2]"
  using compact_chain [OF wit_split wit_signed] by (simp add: wit_db1_def wit_marker_def)

lemma wit_marker_fields: "ar_ts wit_marker = 100" "ar_seq wit_marker = 1" "ar_action wit_marker = AuditCompactionAction"
  "compactionEndSig toy_env (ar_details wit_marker) = ar_sig (wit_row 0)"
  using wit_seqs by (simp_all add: wit_marker_def compaction_record_def Let_def compactionEndSig_def toy_env_def)

lemma wit_ids: "''c1'' \<notin> ar_id ` set wit_db"
  by (simp add: wit_db_def wit_log_def logged_row_def)

lemma wit_split1: "compact_split ''t1'' 9 wit_db1 ([] @ [wit_marker]) [wit_row 1] [wit_row 2]"
proof -
  have "ids_unique wit_db1"
    using wit_ids_unique wit_ids
    by (auto simp: wit_db1_def compact_ok [OF wit_split wit_signed] ids_unique_def intro: distinct_map_filter)
  then show ?thesis using wit_chain1 wit_rows(2) wit_seqs wit_marker_fields by (simp add: compact_split_def)
qed

lemma wit_marker_clash:
  "auditSignature toy_env (ar_sig wit_marker) m \<noteq>
   auditSignature toy_env (compactionEndSig toy_env (ar_details wit_marker)) m"
proof -
  have "ar_sig wit_marker ! 5 = CHR ''0''"
    unfolding compaction_record_sig [of toy_env "''c1''" 100 "''t1''" 8 "[]", folded wit_marker_def] wit_marker_def
      compaction_record_sig [of toy_env "''c1''" 100 "''t1''" 8 "[]"] toy_sig_5 last_row_payload
    by (simp add: compaction_record_def Let_def itoa_def udigits.simps digit_def hexdigits_def)
  moreover have "ar_sig (wit_row 0) ! 5 = CHR ''7''"
    unfolding wit_sig(1) toy_sig_5 last_row_payload
    using wit_rows(2) by (simp add: itoa_def udigits.simps digit_def hexdigits_def)
  moreover have "length (ar_sig wit_marker) = 64" "length (ar_sig (wit_row 0)) = 64"
    by (simp_all add: wit_sig wit_marker_def compaction_record_sig length_auditSignature [OF env_ok_toy])
  ultimately show ?thesis by (simp add: toy_signature wit_marker_fields nth_append)
qed

lemma wit_ok1: "vr_OK (verifyOneTenant toy_env ''t1'' wit_db1)"
proof -
  have a: "ar_action (last [wit_row 0]) \<noteq> AuditCompactionAction"
    using wit_rows(3) by (simp add: AuditCompactionAction_def)
  show ?thesis
    unfolding verifyOneTenant_OK wit_db1_def
    by (rule compact_linked [OF env_ok_toy wit_split _ _ a]) (use wit_ok in \<open>simp_all add: verifyOneTenant_OK\<close>)
qed

theorem audit_second_compaction_breaks_chain_witness:
  "vr_OK (verifyOneTenant toy_env ''t1'' wit_db1)
    \<and> \<not> vr_OK (verifyOneTenant toy_env ''t1'' (snd (CompactAuditChainForTenant toy_env no_faults ''c2'' 101 ''t1'' 9 wit_db1)))"
  using audit_second_compaction_breaks_chain [OF wit_split1 wit_ok1 wit_marker_fields(3) wit_marker_clash env_ok_toy] wit_ok1
  by simp

text \<open>
  The signed payload is ambiguous: its fields are joined with ''|'' and not escaped, so
  moving a ''|''-separated piece from the end of \<open>details\<close> to the front of \<open>ip_address\<close> leaves
  the signature valid. A row altered this way still verifies, wherever it is in the chain.
\<close>

theorem audit_field_shift_undetected:
  assumes "vr_OK (verifyOneTenant E t db)" and "ar_action r \<noteq> AuditCompactionAction"
    and "ar_details r = d @ ''|'' @ x"
  shows "vr_OK (verifyOneTenant E t (overwrite_row r (r\<lparr>ar_details := d, ar_ip := x @ ''|'' @ ar_ip r\<rparr>) db))"
proof -
  define r' where "r' = r\<lparr>ar_details := d, ar_ip := x @ ''|'' @ ar_ip r\<rparr>"
  have keep: "ar_sig r' = ar_sig r" "ar_tenant r' = ar_tenant r" "ar_seq r' = ar_seq r"
    by (simp_all add: r'_def)
  have pay: "row_payload t r' = row_payload t r"
    using assms(3) by (simp add: r'_def row_payload_def canonicalAuditPayload_def)
  have nxt: "next_prev E r' = next_prev E r" using assms(2) by (simp add: r'_def next_prev_def)
  have "linked E t p xs \<Longrightarrow> linked E t p (map (\<lambda>y. if y = r then r' else y) xs)" for p xs
    by (induction xs arbitrary: p) (auto simp: row_ok_def pay nxt keep)
  then show ?thesis
    using assms(1) unfolding r'_def [symmetric] by (simp add: verifyOneTenant_OK chain_of_overwrite [OF keep(2,3)])
qed

theorem audit_field_shift_undetected_witness:
  "vr_OK (verifyOneTenant toy_env ''t1''
     (let r = logged_row toy_env ''r1'' 7 ''t1'' ''u'' ''a'' ''x'' ''y'' ''evil|ok'' ''ip'' []
      in overwrite_row r (r\<lparr>ar_details := ''evil'', ar_ip := ''ok|ip''\<rparr>) [r]))"
proof -
  let ?r = "logged_row toy_env ''r1'' 7 ''t1'' ''u'' ''a'' ''x'' ''y'' ''evil|ok'' ''ip'' []"
  have v: "vr_OK (verifyOneTenant toy_env ''t1'' [?r])"
    unfolding verifyOneTenant_OK
    by (intro logged_linked env_ok_toy) (simp_all add: AuditCompactionAction_def chain_of_def)
  have a: "ar_action ?r \<noteq> AuditCompactionAction" and d: "ar_details ?r = ''evil'' @ ''|'' @ ''ok''"
    and ip: "ar_ip ?r = ''ip''" by (simp_all add: logged_row_def AuditCompactionAction_def)
  show ?thesis
    using audit_field_shift_undetected [OF v a d] unfolding Let_def ip by simp
qed

text \<open>
  Without ''|'' in the fields the payload determines the row: two rows with the same
  canonical payload then agree in every covered field.
\<close>

theorem audit_payload_injective:
  assumes "\<forall>f \<in> set [i, t, u, a, rt, ri, det, ip]. CHR ''|'' \<notin> set f"
    and "\<forall>f \<in> set [i', t', u', a', rt', ri', det', ip']. CHR ''|'' \<notin> set f"
    and "canonicalAuditPayload i t u a rt ri det ip ts = canonicalAuditPayload i' t' u' a' rt' ri' det' ip' ts'"
  shows "(i, t, u, a, rt, ri, det, ip, ts) = (i', t', u', a', rt', ri', det', ip', ts')"
proof -
  have "[i, t, u, a, rt, ri, det, ip, itoa ts] = [i', t', u', a', rt', ri', det', ip', itoa ts']"
    by (rule str_join_inject [where c = "CHR ''|''"])
       (use assms in \<open>simp_all add: canonicalAuditPayload_def itoa_no_bar\<close>)
  then show ?thesis by (simp add: itoa_inject)
qed

theorem audit_payload_injective_witness:
  "canonicalAuditPayload ''r'' ''t'' ''u'' ''a'' '''' '''' ''d'' ''ip'' 7 \<noteq>
   canonicalAuditPayload ''r'' ''t'' ''u'' ''a'' '''' '''' ''di'' ''p'' 7"
  using audit_payload_injective [of "''r''" "''t''" "''u''" "''a''" "''''" "''''" "''d''" "''ip''"
      "''r''" "''t''" "''u''" "''a''" "''''" "''''" "''di''" "''p''" 7 7] by auto

text \<open>
  The backfill turns a table of unsigned rows into verified chains for every tenant, and
  running it again changes nothing.
\<close>

theorem audit_backfill_verifies:
  assumes "env_ok E" and "\<forall>r \<in> set db. fresh_row r"
  shows "fst (BackfillAuditChain E no_bad db) = Inr (length db)
    \<and> vr_OK (verifyOneTenant E t (snd (BackfillAuditChain E no_bad db)))
    \<and> length (snd (BackfillAuditChain E no_bad db)) = length db
    \<and> set (snd (BackfillAuditChain E no_bad (snd (BackfillAuditChain E no_bad db)))) = set (snd (BackfillAuditChain E no_bad db))"
proof -
  let ?L = "backfill_loop E no_bad (\<lambda>_. []) (\<lambda>_. 0) 0 (backfill_order db)"
  have fr: "\<forall>r \<in> set (backfill_order db). fresh_row r" using assms(2) by (simp add: backfill_order_def)
  have len: "length (snd ?L) = length (backfill_order db)"
    by (rule list_all2_lengthD [OF backfill_keeps, symmetric])
  note F = backfill_fresh [OF assms(1) fr, where seqm = "\<lambda>_. 0" and u = 0 and prevm = "\<lambda>_. []"]
  have signed: "\<forall>r \<in> set (snd ?L). ar_sig r \<noteq> [] \<and> ar_seq r \<noteq> 0" using F [of t] by fastforce
  have "backfill_loop E no_bad (\<lambda>_. []) (\<lambda>_. 0) 0 (backfill_order (snd ?L)) = (Inr 0, backfill_order (snd ?L))"
    by (rule backfill_settled) (use signed in \<open>simp add: backfill_order_def\<close>)
  with F [of t] len show ?thesis
    by (simp add: BackfillAuditChain_def verifyOneTenant_OK chain_of_sorted backfill_order_def)
qed

theorem audit_backfill_verifies_witness:
  "fst (BackfillAuditChain toy_env no_bad [\<lparr>ar_id = ''a'', ar_tenant = ''t'', ar_user = [], ar_action = ''x'', ar_rtype = [],
     ar_resid = [], ar_details = [], ar_ip = [], ar_ts = 5, ar_sig = [], ar_seq = 0\<rparr>]) = Inr 1"
proof -
  have "\<forall>r \<in> set [\<lparr>ar_id = ''a'', ar_tenant = ''t'', ar_user = [], ar_action = ''x'', ar_rtype = [],
     ar_resid = [], ar_details = [], ar_ip = [], ar_ts = 5, ar_sig = [], ar_seq = 0\<rparr>]. fresh_row r"
    by (simp add: fresh_row_def AuditCompactionAction_def)
  from audit_backfill_verifies [OF env_ok_toy this] show ?thesis by simp
qed

end
