(* ===== verification/Http.thy ===== *)
theory Http
  imports Prelude
begin

text \<open>
  The part of the web framework that the handlers rely on, and the middlewares that only
  look at the request (\<open>internal/auth/auth.go\<close>): role gates, the cross-site request
  forgery check, the choice of the rate-limit bucket and of the cookie flag.

  A request is a record of what the handlers read from it; a missing cookie, header or
  query value reads as the empty string, as in the framework. The request's locals, which one
  middleware sets for the next, are a record of strings with the empty string for an
  unset entry, which is what \<open>x, _ := c.Locals(k).(string)\<close> yields. A middleware returns
  the error response that stops the request, or the locals with which the next handler
  runs. The environment is a function from names to values, empty when unset.
\<close>

section \<open>Requests and responses\<close>

type_synonym env = "string \<Rightarrow> string"

record request =
  r_method :: string
  r_path :: string
  r_protocol :: string
  r_ip :: string
  r_cookies :: "string \<Rightarrow> string"
  r_headers :: "string \<Rightarrow> string"

record locals =
  l_auth_type :: string
  l_user_id :: string
  l_user_role :: string
  l_tenant_id :: string
  l_device_id :: string
  l_hostname :: string
  l_customer_id :: string
  l_customer_device_id :: string

definition no_locals :: locals where
  "no_locals = \<lparr>l_auth_type = [], l_user_id = [], l_user_role = [], l_tenant_id = [],
     l_device_id = [], l_hostname = [], l_customer_id = [], l_customer_device_id = []\<rparr>"

text \<open>An error response: the status code and the \<open>error\<close> field of its body.\<close>

datatype http_error = HttpError (http_status: nat) (http_text: string)

section \<open>ASCII case\<close>

text \<open>\<open>strings.ToLower\<close> and \<open>strings.EqualFold\<close> on ASCII text.\<close>

definition lower_char :: "char \<Rightarrow> char" where
  "lower_char c = (let n = (of_char c :: nat) in if 65 \<le> n \<and> n \<le> 90 then char_of (n + 32) else c)"

definition to_lower :: "string \<Rightarrow> string" where
  "to_lower s = map lower_char s"

definition equal_fold :: "string \<Rightarrow> string \<Rightarrow> bool" where
  "equal_fold a b = (to_lower a = to_lower b)"

lemma lower_char_idem [simp]: "lower_char (lower_char c) = lower_char c"
  by (simp add: lower_char_def Let_def)

lemma to_lower_idem [simp]: "to_lower (to_lower s) = to_lower s"
  by (simp add: to_lower_def)

section \<open>Roles\<close>

definition IsSuperAdmin :: "string \<Rightarrow> bool" where
  "IsSuperAdmin role = (role = ''super_admin'')"

definition SuperAdminMiddleware :: "locals \<Rightarrow> (http_error, locals) result" where
  "SuperAdminMiddleware c = guard (IsSuperAdmin (l_user_role c)) (HttpError 403 ''Forbidden'') (Inr c)"

definition AdminMiddleware :: "locals \<Rightarrow> (http_error, locals) result" where
  "AdminMiddleware c =
     guard (l_user_role c = ''admin'' \<or> l_user_role c = ''super_admin'')
       (HttpError 403 ''Forbidden'') (Inr c)"

section \<open>Cookies and cross-site request forgery\<close>

definition CookieSecure :: "env \<Rightarrow> request option \<Rightarrow> bool" where
  "CookieSecure env c =
     (if env ''SERVER_CERT'' \<noteq> [] then True
      else if (case c of None \<Rightarrow> False
           | Some r \<Rightarrow> r_protocol r = ''https''
                    \<or> equal_fold (r_headers r ''X-Forwarded-Proto'') ''https'') then True
      else has_prefix (env ''PUBLIC_URL'') ''https://'')"

definition CSRFMiddleware :: "request \<Rightarrow> locals \<Rightarrow> (http_error, locals) result" where
  "CSRFMiddleware r c =
     (if r_method r = ''GET'' \<or> r_method r = ''HEAD'' \<or> r_method r = ''OPTIONS'' then Inr c
      else if l_auth_type c \<noteq> ''user'' \<and> l_auth_type c \<noteq> ''portal'' then Inr c
      else let cookieCSRF = r_cookies r ''csrf_token''; headerCSRF = r_headers r ''X-CSRF-Token''
           in if cookieCSRF = [] \<or> headerCSRF = [] \<or> cookieCSRF \<noteq> headerCSRF
              then Inl (HttpError 403 ''Invalid CSRF token'') else Inr c)"

section \<open>Rate-limit buckets\<close>

definition rateLimitKey :: "request \<Rightarrow> locals \<Rightarrow> string" where
  "rateLimitKey r c =
     (if l_device_id c \<noteq> [] then ''agent:'' @ l_device_id c
      else if l_tenant_id c \<noteq> [] then ''tenant:'' @ l_tenant_id c
      else ''ip:'' @ r_ip r)"

lemma rateLimitKey_agents_apart:
  assumes "l_device_id c \<noteq> []" and "l_device_id d \<noteq> l_device_id c"
  shows "rateLimitKey r c \<noteq> rateLimitKey r' d"
  using assms by (simp add: rateLimitKey_def)

section \<open>Passwords\<close>

datatype pw_error = TooShort | NoUpper | NoLower | NoDigit

definition is_upper :: "char \<Rightarrow> bool" where "is_upper c = (CHR ''A'' \<le> c \<and> c \<le> CHR ''Z'')"
definition is_lower :: "char \<Rightarrow> bool" where "is_lower c = (CHR ''a'' \<le> c \<and> c \<le> CHR ''z'')"
definition is_digit :: "char \<Rightarrow> bool" where "is_digit c = (CHR ''0'' \<le> c \<and> c \<le> CHR ''9'')"

text \<open>The scan of the password: one flag per class, set by the first matching case.\<close>

fun pw_scan :: "string \<Rightarrow> bool \<times> bool \<times> bool \<Rightarrow> bool \<times> bool \<times> bool" where
  "pw_scan [] f = f"
| "pw_scan (c # cs) (u, l, d) =
     pw_scan cs (if is_upper c then (True, l, d) else if is_lower c then (u, True, d)
                 else if is_digit c then (u, l, True) else (u, l, d))"

definition ValidatePasswordStrength :: "string \<Rightarrow> (pw_error, unit) result" where
  "ValidatePasswordStrength pw =
     guard (8 \<le> length pw) TooShort
      (case pw_scan pw (False, False, False) of (hasUpper, hasLower, hasDigit) \<Rightarrow>
        guard hasUpper NoUpper (guard hasLower NoLower (guard hasDigit NoDigit (Inr ()))))"

lemma char_classes_disjoint:
  "is_upper c \<Longrightarrow> \<not> is_lower c" "is_upper c \<Longrightarrow> \<not> is_digit c" "is_lower c \<Longrightarrow> \<not> is_digit c"
  by (auto simp: is_upper_def is_lower_def is_digit_def less_eq_char_def)

lemma pw_scan_eq:
  "pw_scan pw (u, l, d) = (u \<or> list_ex is_upper pw, l \<or> list_ex is_lower pw, d \<or> list_ex is_digit pw)"
  by (induction pw "(u, l, d)" arbitrary: u l d rule: pw_scan.induct)
    (auto simp: char_classes_disjoint dest: char_classes_disjoint)

lemma ValidatePasswordStrength_ok:
  "ValidatePasswordStrength pw = Inr () \<longleftrightarrow>
     8 \<le> length pw \<and> list_ex is_upper pw \<and> list_ex is_lower pw \<and> list_ex is_digit pw"
  by (auto simp: ValidatePasswordStrength_def pw_scan_eq guard_def)

end
