(* ===== verification/Limiter.thy ===== *)
theory Limiter
  imports Http
begin

text \<open>
  The rate limiters: the per-caller limiter of \<open>internal/auth/auth.go\<close> with its counters in
  Redis (\<open>internal/redis/redis.go\<close>) or in memory, and the once-per-window limiter of the
  registration-conflict webhook (\<open>internal/events/events.go\<close>), again in both forms.

  What the clients rely on is stated once as locales: a \<open>window_counter\<close> counts the hits of
  a key inside a window; a \<open>fixed_window\<close> in addition never moves the end of an open window, a
  \<open>renewed_window\<close> moves it with every hit. Every limiter of the code is an interpretation.

  A Redis server is a map from keys to a counter and an optional expiry time; a key is gone
  from its expiry time on. \<open>INCR\<close> starts from zero and keeps the expiry, \<open>EXPIRE\<close> sets it,
  \<open>EXPIRE NX\<close> sets it only when there is none. Times and windows are integers of one unit.
\<close>

section \<open>The interface\<close>

locale window_counter =
  fixes hit :: "int \<Rightarrow> 'k \<Rightarrow> 's \<Rightarrow> bool \<times> 's"
    and view :: "int \<Rightarrow> 's \<Rightarrow> 'k \<Rightarrow> (int \<times> int) option"
    and inv :: "'s \<Rightarrow> bool"
    and cap :: int
  assumes hit_inv: "inv s \<Longrightarrow> inv (snd (hit now k s))"
    and hit_fresh: "inv s \<Longrightarrow> 0 < now \<Longrightarrow> view now s k = None \<Longrightarrow>
        \<exists>e. view now (snd (hit now k s)) k = Some (1, e)"
    and hit_live: "inv s \<Longrightarrow> view now s k = Some (n, e) \<Longrightarrow>
        \<exists>e'. view now (snd (hit now k s)) k = Some (n + 1, e')"
    and hit_capped: "inv s \<Longrightarrow> view now s k = Some (n, e) \<Longrightarrow> fst (hit now k s) \<longleftrightarrow> n + 1 \<le> cap"
    and hit_frame: "j \<noteq> k \<Longrightarrow> view t (snd (hit now k s)) j = view t s j"
    and view_later: "view now s k = Some (n, e) \<Longrightarrow> now \<le> t \<Longrightarrow> t < e \<Longrightarrow> view t s k = Some (n, e)"
    and view_over: "view now s k = Some (n, e) \<Longrightarrow> e < t \<Longrightarrow> view t s k = None"
begin

text \<open>The answers to a sequence of hits, each a time and a key.\<close>

fun answers :: "(int \<times> 'k) list \<Rightarrow> 's \<Rightarrow> bool list" where
  "answers [] s = []"
| "answers ((now, k) # hs) s = fst (hit now k s) # answers hs (snd (hit now k s))"

definition admitted :: "'k \<Rightarrow> (int \<times> 'k) list \<Rightarrow> 's \<Rightarrow> nat" where
  "admitted k hs s = length (filter (\<lambda>((_, j), b). j = k \<and> b) (zip hs (answers hs s)))"

definition final :: "(int \<times> 'k) list \<Rightarrow> 's \<Rightarrow> 's" where
  "final hs s = fold (\<lambda>(t, j) s. snd (hit t j s)) hs s"

lemma admitted_Nil [simp]: "admitted k [] s = 0"
  by (simp add: admitted_def)

lemma admitted_Cons [simp]:
  "admitted k ((now, j) # hs) s =
     (if j = k \<and> fst (hit now j s) then 1 else 0) + admitted k hs (snd (hit now j s))"
  by (auto simp: admitted_def)

lemma final_simps [simp]: "final [] s = s" "final ((t, j) # hs) s = final hs (snd (hit t j s))"
  by (simp_all add: final_def)

lemma final_inv: "inv s \<Longrightarrow> inv (final hs s)"
  by (induction hs arbitrary: s) (auto simp: hit_inv)

end

locale fixed_window = window_counter +
  assumes end_fixed: "inv s \<Longrightarrow> view now s k = Some (n, e) \<Longrightarrow>
    view now (snd (hit now k s)) k = Some (n + 1, e)"
begin

text \<open>Inside one window at most the remaining budget is admitted, whatever the other keys do.\<close>

lemma admitted_in_window:
  assumes "inv s" and "view t0 s k = Some (n, e)" and "sorted (t0 # map fst hs)"
    and "\<forall>(t, j) \<in> set hs. t < e"
  shows "int (admitted k hs s) \<le> max 0 (cap - n)"
  using assms
proof (induction hs arbitrary: s n t0)
  case (Cons h hs)
  obtain t j where h: "h = (t, j)" by (cases h)
  from Cons.prems h have ord: "t0 \<le> t" "t < e" "sorted (t # map fst hs)" by auto
  have v: "view t s k = Some (n, e)" using view_later [OF Cons.prems(2)] ord by simp
  have inv: "inv (snd (hit t j s))" by (rule hit_inv [OF Cons.prems(1)])
  show ?case
  proof (cases "j = k")
    case True
    have "view t (snd (hit t j s)) k = Some (n + 1, e)" using end_fixed [OF Cons.prems(1) v] True by simp
    from Cons.IH [OF inv this ord(3)] Cons.prems(4)
    have "int (admitted k hs (snd (hit t j s))) \<le> max 0 (cap - (n + 1))" by simp
    with hit_capped [OF Cons.prems(1) v] show ?thesis by (auto simp: h True max_def split: if_splits)
  next
    case False
    then have "view t (snd (hit t j s)) k = Some (n, e)" using v by (simp add: hit_frame)
    from Cons.IH [OF inv this ord(3)] Cons.prems(4) False show ?thesis by (simp add: h)
  qed
qed simp

text \<open>A window that starts with a fresh hit admits at most \<open>cap\<close> hits.\<close>

lemma admitted_from_fresh:
  assumes "inv s" and "1 \<le> cap" and e: "view t0 (snd (hit t0 k s)) k = Some (1, e)"
    and "sorted (t0 # map fst hs)" and "\<forall>(t, j) \<in> set hs. t < e"
  shows "int (admitted k ((t0, k) # hs) s) \<le> cap"
  using admitted_in_window [OF hit_inv [OF assms(1)] e assms(4,5)] \<open>1 \<le> cap\<close> by simp

text \<open>The lockout ends: a key is answered as if never seen once its window is over.\<close>

lemma readmitted:
  assumes "inv s" and "view t0 s k = Some (n, e)" and "\<forall>(t, j) \<in> set hs. t < e"
    and "sorted (t0 # map fst hs)" and "e < t"
  shows "view t (final hs s) k = None"
  using assms
proof (induction hs arbitrary: s n t0)
  case Nil
  then show ?case by (simp add: view_over)
next
  case (Cons h hs)
  obtain u j where h: "h = (u, j)" by (cases h)
  from Cons.prems h have ord: "t0 \<le> u" "u < e" "sorted (u # map fst hs)" by auto
  have v: "view u s k = Some (n, e)" using view_later [OF Cons.prems(2)] ord by simp
  have "\<exists>m. view u (snd (hit u j s)) k = Some (m, e)"
  proof (cases "j = k")
    case True
    with end_fixed [OF Cons.prems(1) v] show ?thesis by blast
  next
    case False
    with v show ?thesis by (simp add: hit_frame)
  qed
  then obtain m where "view u (snd (hit u j s)) k = Some (m, e)" by blast
  from Cons.IH [OF hit_inv [OF Cons.prems(1)] this _ ord(3) Cons.prems(5)] Cons.prems(3)
  show ?case by (simp add: h)
qed

end

locale renewed_window = window_counter +
  fixes window :: int
  assumes end_renewed: "inv s \<Longrightarrow> view now (snd (hit now k s)) k = Some (n, e) \<Longrightarrow> e = now + window"
begin

text \<open>
  Under sustained traffic the window never ends: once the count is at the cap, every further
  hit is refused as long as no pause reaches the window's length.
\<close>

lemma never_readmitted:
  assumes "inv s" and "view t0 s k = Some (n, t0 + window)" and "cap \<le> n"
    and "\<forall>(a, b) \<in> set (zip (t0 # ts) ts). a \<le> b \<and> b < a + window"
  shows "admitted k (map (\<lambda>t. (t, k)) ts) s = 0"
  using assms
proof (induction ts arbitrary: s n t0)
  case (Cons t ts)
  from Cons.prems(4) have t: "t0 \<le> t" "t < t0 + window" by auto
  have v: "view t s k = Some (n, t0 + window)" by (rule view_later [OF Cons.prems(2) t])
  obtain e' where e': "view t (snd (hit t k s)) k = Some (n + 1, e')"
    using hit_live [OF Cons.prems(1) v] by blast
  with end_renewed [OF Cons.prems(1)] have "view t (snd (hit t k s)) k = Some (n + 1, t + window)" by blast
  from Cons.IH [OF hit_inv [OF Cons.prems(1)] this] Cons.prems
  have "admitted k (map (\<lambda>t. (t, k)) ts) (snd (hit t k s)) = 0" by auto
  with hit_capped [OF Cons.prems(1) v] Cons.prems(3) show ?case by simp
qed simp

end

section \<open>Redis counters\<close>

type_synonym redis_kv = "string \<rightharpoonup> (int \<times> int option)"

definition redis_get :: "int \<Rightarrow> redis_kv \<Rightarrow> string \<Rightarrow> (int \<times> int option) option" where
  "redis_get now kv k = (case kv k of
       None \<Rightarrow> None
     | Some (n, None) \<Rightarrow> Some (n, None)
     | Some (n, Some e) \<Rightarrow> if now < e then Some (n, Some e) else None)"

definition redis_incr :: "int \<Rightarrow> string \<Rightarrow> redis_kv \<Rightarrow> int \<times> redis_kv" where
  "redis_incr now k kv = (case redis_get now kv k of
       None \<Rightarrow> (1, kv(k \<mapsto> (1, None)))
     | Some (n, e) \<Rightarrow> (n + 1, kv(k \<mapsto> (n + 1, e))))"

definition redis_expire :: "int \<Rightarrow> string \<Rightarrow> int \<Rightarrow> redis_kv \<Rightarrow> redis_kv" where
  "redis_expire now k window kv = (case redis_get now kv k of
       None \<Rightarrow> kv | Some (n, e) \<Rightarrow> kv(k \<mapsto> (n, Some (now + window))))"

definition redis_expire_nx :: "int \<Rightarrow> string \<Rightarrow> int \<Rightarrow> redis_kv \<Rightarrow> redis_kv" where
  "redis_expire_nx now k window kv = (case redis_get now kv k of
       None \<Rightarrow> kv
     | Some (n, e) \<Rightarrow> if e = None then kv(k \<mapsto> (n, Some (now + window))) else kv)"

definition redis_ttl :: "int \<Rightarrow> string \<Rightarrow> redis_kv \<Rightarrow> int" where
  "redis_ttl now k kv = (case redis_get now kv k of
       None \<Rightarrow> -2 | Some (n, None) \<Rightarrow> -1 | Some (n, Some e) \<Rightarrow> e - now)"

section \<open>The request limiter\<close>

text \<open>
  \<open>redis.IncrementRateLimit\<close>: \<open>allowed\<close> and \<open>resetAt\<close>. The absent client allows; a failed
  pipeline is handled by the caller.
\<close>

definition ratelimit_key :: "string \<Rightarrow> string" where
  "ratelimit_key ip = ''ratelimit:'' @ ip"

lemma ratelimit_key_inject [simp]: "ratelimit_key a = ratelimit_key b \<longleftrightarrow> a = b"
  by (simp add: ratelimit_key_def)

definition IncrementRateLimit ::
  "int \<Rightarrow> string \<Rightarrow> int \<Rightarrow> int \<Rightarrow> redis_kv option \<Rightarrow> (bool \<times> int) \<times> redis_kv option" where
  "IncrementRateLimit now ip window maxRequests client =
     (case client of
        None \<Rightarrow> ((True, now + window), None)
      | Some kv \<Rightarrow>
          let key = ratelimit_key ip;
              (cnt, kv) = redis_incr now key kv;
              kv = redis_expire now key window kv
          in if cnt > maxRequests then ((False, now + redis_ttl now key kv), Some kv)
             else ((True, now + window), Some kv))"

type_synonym mem_limits = "string \<rightharpoonup> (int \<times> int)"

text \<open>The in-memory branch: count and \<open>resetAt\<close> per key.\<close>

definition mem_hit :: "int \<Rightarrow> int \<Rightarrow> int \<Rightarrow> string \<Rightarrow> mem_limits \<Rightarrow> bool \<times> mem_limits" where
  "mem_hit maxRequests window now k st =
     (case st k of
        None \<Rightarrow> (True, st(k \<mapsto> (1, now + window)))
      | Some (cnt, resetAt) \<Rightarrow>
          if now > resetAt then (True, st(k \<mapsto> (1, now + window)))
          else (\<not> cnt + 1 > maxRequests, st(k \<mapsto> (cnt + 1, resetAt))))"

record limiter_state =
  redis_client :: "redis_kv option"
  rateLimitStore :: mem_limits

text \<open>
  \<open>RateLimiter(maxRequests, window)\<close> on the bucket of \<open>rateLimitKey\<close>. \<open>redis_err\<close> is the
  error of the Redis pipeline, on which the limiter falls through to its memory.
\<close>

definition RateLimiter ::
  "env \<Rightarrow> int \<Rightarrow> int \<Rightarrow> int \<Rightarrow> bool \<Rightarrow> request \<Rightarrow> locals \<Rightarrow> limiter_state
    \<Rightarrow> (http_error, locals) result \<times> limiter_state" where
  "RateLimiter env maxRequests window now redis_err r c st =
     (let bypass = (env ''DISABLE_RATE_LIMIT'' = ''1'');
          ip = rateLimitKey r c;
          limited = Inl (HttpError 429 ''Rate limit exceeded'')
      in if bypass then (Inr c, st)
         else if redis_client st \<noteq> None \<and> \<not> redis_err then
           (case IncrementRateLimit now ip window maxRequests (redis_client st) of
              ((allowed, resetAt), client) \<Rightarrow>
                (if allowed then Inr c else limited, st\<lparr>redis_client := client\<rparr>))
         else (case mem_hit maxRequests window now ip (rateLimitStore st) of
              (allowed, store) \<Rightarrow>
                (if allowed then Inr c else limited, st\<lparr>rateLimitStore := store\<rparr>)))"

text \<open>The pruner's tick: entries whose window is over are dropped.\<close>

definition prune_limits :: "int \<Rightarrow> mem_limits \<Rightarrow> mem_limits" where
  "prune_limits now st = (\<lambda>k. case st k of None \<Rightarrow> None
     | Some (n, resetAt) \<Rightarrow> if now > resetAt then None else Some (n, resetAt))"

section \<open>The registration-conflict limiter\<close>

definition conflict_redis_key :: "string \<Rightarrow> string \<Rightarrow> string" where
  "conflict_redis_key tenantID deviceID =
     ''webhook_ratelimit:registration_conflict:'' @ tenantID @ '':'' @ deviceID"

definition IncrementConflictWebhook ::
  "int \<Rightarrow> string \<Rightarrow> int \<Rightarrow> redis_kv \<Rightarrow> int \<times> redis_kv" where
  "IncrementConflictWebhook now key window kv =
     (case redis_incr now key kv of (n, kv) \<Rightarrow> (n, redis_expire_nx now key window kv))"

record conflict_bucket =
  windowStart :: int
  bucket_count :: int

type_synonym conflict_map = "string \<rightharpoonup> conflict_bucket"

definition conflictWebhookWindowSeconds :: int where "conflictWebhookWindowSeconds = 3600"

definition bucket_expired :: "int \<Rightarrow> conflict_bucket \<Rightarrow> bool" where
  "bucket_expired now b = (windowStart b = 0 \<or> now - windowStart b \<ge> conflictWebhookWindowSeconds)"

definition PruneConflictWebhookBuckets :: "int \<Rightarrow> conflict_map \<Rightarrow> conflict_map" where
  "PruneConflictWebhookBuckets now m =
     (\<lambda>k. case m k of None \<Rightarrow> None | Some b \<Rightarrow> if bucket_expired now b then None else Some b)"

text \<open>
  The degraded-mode branch of \<open>TriggerRegistrationConflictWebhook\<close>: \<open>at_cap\<close> says whether
  a map holds the maximal number of entries. The result is whether to fire, with which count.
\<close>

definition conflict_local ::
  "(conflict_map \<Rightarrow> bool) \<Rightarrow> int \<Rightarrow> string \<Rightarrow> conflict_map \<Rightarrow> (bool \<times> int) \<times> conflict_map" where
  "conflict_local at_cap now key m =
     (let m' = (if m key = None \<and> at_cap m then PruneConflictWebhookBuckets now m else m) in
      if m key = None \<and> at_cap m' then ((True, 1), m')
      else let bucket = (case m' key of None \<Rightarrow> \<lparr>windowStart = 0, bucket_count = 0\<rparr> | Some b \<Rightarrow> b)
           in if bucket_expired now bucket
              then ((True, 1), m'(key \<mapsto> bucket\<lparr>windowStart := now, bucket_count := 1\<rparr>))
              else ((False, bucket_count bucket + 1),
                    m'(key \<mapsto> bucket\<lparr>bucket_count := bucket_count bucket + 1\<rparr>)))"

record conflict_state =
  cf_redis :: "redis_kv option"
  cf_map :: conflict_map

text \<open>
  Whether \<open>TriggerRegistrationConflictWebhook\<close> fires the webhook, and the
  \<open>attempt_count_within_window\<close> of its payload.
\<close>

definition TriggerRegistrationConflictWebhook ::
  "(conflict_map \<Rightarrow> bool) \<Rightarrow> int \<Rightarrow> bool \<Rightarrow> string \<Rightarrow> string \<Rightarrow> conflict_state \<Rightarrow> int option \<times> conflict_state"
where
  "TriggerRegistrationConflictWebhook at_cap now redis_err tenantID deviceID st =
     (let tenantID = (if tenantID = [] then ''default'' else tenantID) in
      case (if redis_err then None else cf_redis st) of
        Some kv \<Rightarrow>
          (case IncrementConflictWebhook now (conflict_redis_key tenantID deviceID)
                  conflictWebhookWindowSeconds kv of
             (cnt, kv) \<Rightarrow> (if cnt = 1 then Some cnt else None, st\<lparr>cf_redis := Some kv\<rparr>))
      | None \<Rightarrow>
          (case conflict_local at_cap now (tenantID @ ''|'' @ deviceID) (cf_map st) of
             ((fire, fireCount), m) \<Rightarrow> (if fire then Some fireCount else None, st\<lparr>cf_map := m\<rparr>)))"

section \<open>Interpretations\<close>

definition mem_view :: "int \<Rightarrow> mem_limits \<Rightarrow> string \<Rightarrow> (int \<times> int) option" where
  "mem_view now st k = prune_limits now st k"

definition redis_hit :: "int \<Rightarrow> int \<Rightarrow> int \<Rightarrow> string \<Rightarrow> redis_kv \<Rightarrow> bool \<times> redis_kv" where
  "redis_hit maxRequests window now ip kv =
     (case IncrementRateLimit now ip window maxRequests (Some kv) of
        ((allowed, _), client) \<Rightarrow> (allowed, the client))"

text \<open>A counter with an expiry time, as a window; every limiter's key has one after a hit.\<close>

definition redis_view :: "int \<Rightarrow> redis_kv \<Rightarrow> string \<Rightarrow> (int \<times> int) option" where
  "redis_view now kv k = (case redis_get now kv k of
      Some (n, Some e) \<Rightarrow> Some (n, e) | _ \<Rightarrow> None)"

text \<open>The invariant of a Redis counter that only its limiter writes: it is positive and has an expiry.\<close>

definition redis_inv :: "(string \<Rightarrow> string) \<Rightarrow> redis_kv \<Rightarrow> bool" where
  "redis_inv prefix kv = (\<forall>k n e. kv (prefix k) = Some (n, e) \<longrightarrow> 1 \<le> n \<and> e \<noteq> None)"

interpretation mem: fixed_window "mem_hit maxRequests (int w)" mem_view "\<lambda>_. True" maxRequests
  for maxRequests w
  by unfold_locales
    (auto simp: mem_hit_def mem_view_def prune_limits_def split: option.splits if_splits)

lemma redis_hit_simp:
  "redis_hit maxRequests window now ip kv =
     (let key = ratelimit_key ip; (cnt, kv) = redis_incr now key kv
      in (\<not> cnt > maxRequests, redis_expire now key window kv))"
  by (simp add: redis_hit_def IncrementRateLimit_def Let_def split: prod.splits)

text \<open>One increment that is followed by \<open>EXPIRE\<close>, and by \<open>EXPIRE NX\<close>, as a change of the window.\<close>

lemma redis_get_same [simp]:
  "redis_get now (kv(k \<mapsto> (n, e))) k = (case e of None \<Rightarrow> Some (n, None) | Some t \<Rightarrow> if now < t then Some (n, e) else None)"
  by (simp add: redis_get_def split: option.splits)

lemma redis_get_other [simp]: "j \<noteq> k \<Longrightarrow> redis_get t (kv(k \<mapsto> v)) j = redis_get t kv j"
  by (simp add: redis_get_def)

lemma redis_incr_expire:
  "redis_expire now k window (snd (redis_incr now k kv)) =
     kv(k \<mapsto> ((case redis_get now kv k of None \<Rightarrow> 1 | Some (n, _) \<Rightarrow> n + 1), Some (now + window)))"
  by (auto simp: redis_expire_def redis_incr_def redis_get_def split: option.splits prod.splits if_splits)

lemma redis_incr_expire_nx:
  "redis_expire_nx now k window (snd (redis_incr now k kv)) =
     (case redis_get now kv k of
        None \<Rightarrow> kv(k \<mapsto> (1, Some (now + window)))
      | Some (n, None) \<Rightarrow> kv(k \<mapsto> (n + 1, Some (now + window)))
      | Some (n, Some e) \<Rightarrow> kv(k \<mapsto> (n + 1, Some e)))"
  by (auto simp: redis_expire_nx_def redis_incr_def redis_get_def split: option.splits prod.splits if_splits)

lemma fst_redis_incr: "fst (redis_incr now k kv) = (case redis_get now kv k of None \<Rightarrow> 1 | Some (n, _) \<Rightarrow> n + 1)"
  by (simp add: redis_incr_def split: option.splits prod.splits)

lemma fst_redis_hit: "fst (redis_hit maxRequests window now ip kv) \<longleftrightarrow>
    (case redis_get now kv (ratelimit_key ip) of None \<Rightarrow> 1 | Some (n, _) \<Rightarrow> n + 1) \<le> maxRequests"
  by (auto simp: redis_hit_simp Let_def fst_redis_incr [symmetric] split: prod.splits)

lemma snd_redis_hit: "snd (redis_hit maxRequests window now ip kv) =
    redis_expire now (ratelimit_key ip) window (snd (redis_incr now (ratelimit_key ip) kv))"
  by (simp add: redis_hit_simp Let_def split: prod.splits)

lemma redis_get_Some:
  "redis_get now kv k = Some (n, e) \<longleftrightarrow> kv k = Some (n, e) \<and> (case e of None \<Rightarrow> True | Some t \<Rightarrow> now < t)"
  by (auto simp: redis_get_def split: option.splits prod.splits if_splits)

lemma redis_view_Some:
  "redis_view now kv k = Some (n, e) \<longleftrightarrow> kv k = Some (n, Some e) \<and> now < e"
  by (auto simp: redis_view_def redis_get_def split: option.splits prod.splits if_splits)

lemma redis_view_over: "redis_view now kv k = Some (n, e) \<Longrightarrow> e < t \<Longrightarrow> redis_view t kv k = None"
  unfolding redis_view_Some by (simp add: redis_view_def redis_get_def)

lemma redis_view_None:
  assumes "\<And>n. kv k \<noteq> Some (n, None)"
  shows "redis_view now kv k = None \<longleftrightarrow> redis_get now kv k = None"
  using assms by (auto simp: redis_view_def redis_get_def split: option.splits prod.splits if_splits)

lemma redis_inv_no_persistent: "redis_inv prefix kv \<Longrightarrow> kv (prefix k) \<noteq> Some (n, None)"
  by (auto simp: redis_inv_def)

lemma redis_invD: "redis_inv prefix kv \<Longrightarrow> redis_get now kv (prefix k) = Some (n, e) \<Longrightarrow> 1 \<le> n \<and> e \<noteq> None"
  unfolding redis_inv_def redis_get_Some by blast

lemma redis_inv_upd: "redis_inv prefix kv \<Longrightarrow> 1 \<le> n \<Longrightarrow> redis_inv prefix (kv(x \<mapsto> (n, Some e)))"
  by (simp add: redis_inv_def)

text \<open>The request limiter in Redis renews the window with every hit.\<close>

interpretation rds: renewed_window "redis_hit maxRequests (int (Suc w))"
    "\<lambda>now kv k. redis_view now kv (ratelimit_key k)" "redis_inv ratelimit_key" maxRequests "int (Suc w)"
  for maxRequests w
proof (unfold_locales, goal_cases)
  case (1 s now k)
  then show ?case
    using redis_invD [OF 1, of now k]
    by (cases "redis_get now s (ratelimit_key k)")
      (auto simp: snd_redis_hit redis_incr_expire intro!: redis_inv_upd)
next
  case (2 s now k)
  then have "redis_get now s (ratelimit_key k) = None"
    by (simp add: redis_view_None redis_inv_no_persistent)
  then show ?case by (simp add: snd_redis_hit redis_incr_expire redis_view_Some)
next
  case (3 s now k n e)
  then have "redis_get now s (ratelimit_key k) = Some (n, Some e)"
    by (simp add: redis_view_Some redis_get_Some)
  then show ?case by (simp add: snd_redis_hit redis_incr_expire redis_view_Some)
next
  case (4 s now k n e)
  then have "redis_get now s (ratelimit_key k) = Some (n, Some e)"
    by (simp add: redis_view_Some redis_get_Some)
  then show ?case by (simp add: fst_redis_hit)
next
  case (5 j k t now s)
  then show ?case by (simp add: snd_redis_hit redis_incr_expire redis_view_def)
next
  case (6 now s k n e t)
  then show ?case by (simp add: redis_view_Some)
next
  case (7 now s k n e t)
  then show ?case by (rule redis_view_over)
next
  case (8 s now k n e)
  then show ?case by (simp add: snd_redis_hit redis_incr_expire redis_view_Some)
qed

text \<open>The conflict counter in Redis, and its in-memory fallback below the size limit.\<close>

definition conflict_redis_hit :: "int \<Rightarrow> int \<Rightarrow> string \<Rightarrow> redis_kv \<Rightarrow> bool \<times> redis_kv" where
  "conflict_redis_hit window now key kv =
     (case IncrementConflictWebhook now key window kv of (n, kv) \<Rightarrow> (n = 1, kv))"

lemma fst_conflict_redis_hit: "fst (conflict_redis_hit window now key kv) \<longleftrightarrow>
    (case redis_get now kv key of None \<Rightarrow> True | Some (n, _) \<Rightarrow> n = 0)"
  by (simp add: conflict_redis_hit_def IncrementConflictWebhook_def redis_incr_def split: option.splits prod.splits)

lemma snd_conflict_redis_hit: "snd (conflict_redis_hit window now key kv) =
    redis_expire_nx now key window (snd (redis_incr now key kv))"
  by (simp add: conflict_redis_hit_def IncrementConflictWebhook_def split: prod.splits)

interpretation cfr: fixed_window "conflict_redis_hit (int (Suc w))" redis_view "redis_inv id" 1 for w
proof (unfold_locales, goal_cases)
  case (1 s now k)
  then show ?case
    using redis_invD [OF 1, of now k]
    by (cases "redis_get now s k")
      (auto simp: snd_conflict_redis_hit redis_incr_expire_nx intro!: redis_inv_upd)
next
  case (2 s now k)
  then have "redis_get now s k = None"
    using redis_inv_no_persistent [of id s k] by (simp add: redis_view_None)
  then show ?case by (simp add: snd_conflict_redis_hit redis_incr_expire_nx redis_view_Some)
next
  case (3 s now k n e)
  then have "redis_get now s k = Some (n, Some e)" by (simp add: redis_view_Some redis_get_Some)
  with 3 show ?case by (simp add: snd_conflict_redis_hit redis_incr_expire_nx redis_view_Some)
next
  case (4 s now k n e)
  then have "redis_get now s k = Some (n, Some e)" and "1 \<le> n"
    by (auto simp: redis_view_Some redis_get_Some redis_inv_def)
  then show ?case by (simp add: fst_conflict_redis_hit)
next
  case (5 j k t now s)
  then show ?case
    by (simp add: snd_conflict_redis_hit redis_incr_expire_nx redis_view_def split: option.splits prod.splits)
next
  case (6 now s k n e t)
  then show ?case by (simp add: redis_view_Some)
next
  case (7 now s k n e t)
  then show ?case by (rule redis_view_over)
next
  case (8 s now k n e)
  then have "redis_get now s k = Some (n, Some e)" by (simp add: redis_view_Some redis_get_Some)
  with 8 show ?case by (simp add: snd_conflict_redis_hit redis_incr_expire_nx redis_view_Some)
qed

definition conflict_local_hit :: "int \<Rightarrow> string \<Rightarrow> conflict_map \<Rightarrow> bool \<times> conflict_map" where
  "conflict_local_hit now key m = (case conflict_local (\<lambda>_. False) now key m of ((fire, _), m) \<Rightarrow> (fire, m))"

definition conflict_view :: "int \<Rightarrow> conflict_map \<Rightarrow> string \<Rightarrow> (int \<times> int) option" where
  "conflict_view now m k = (case m k of None \<Rightarrow> None
     | Some b \<Rightarrow> if bucket_expired now b then None
                 else Some (bucket_count b, windowStart b + conflictWebhookWindowSeconds))"

definition conflict_inv :: "conflict_map \<Rightarrow> bool" where
  "conflict_inv m = (\<forall>k b. m k = Some b \<longrightarrow> 1 \<le> bucket_count b \<or> windowStart b = 0)"

lemma conflict_invD: "conflict_inv m \<Longrightarrow> m k = Some b \<Longrightarrow> windowStart b \<noteq> 0 \<Longrightarrow> 1 \<le> bucket_count b"
  unfolding conflict_inv_def by blast

lemma conflict_inv_upd: "conflict_inv m \<Longrightarrow> 1 \<le> bucket_count b \<or> windowStart b = 0 \<Longrightarrow> conflict_inv (m(k \<mapsto> b))"
  by (simp add: conflict_inv_def)

lemma conflict_local_hit_simp:
  "conflict_local_hit now key m =
     (let b = (case m key of None \<Rightarrow> \<lparr>windowStart = 0, bucket_count = 0\<rparr> | Some b \<Rightarrow> b)
      in if bucket_expired now b then (True, m(key \<mapsto> b\<lparr>windowStart := now, bucket_count := 1\<rparr>))
         else (False, m(key \<mapsto> b\<lparr>bucket_count := bucket_count b + 1\<rparr>)))"
  by (simp add: conflict_local_hit_def conflict_local_def Let_def)

interpretation cfl: fixed_window conflict_local_hit conflict_view conflict_inv 1
proof (unfold_locales, goal_cases)
  case (1 s now k)
  then show ?case
    by (cases "s k") (auto simp: conflict_local_hit_simp Let_def bucket_expired_def
        dest: conflict_invD intro!: conflict_inv_upd)
next
  case (4 s now k n e)
  then show ?case
    by (auto simp: conflict_local_hit_simp conflict_view_def Let_def bucket_expired_def
        dest: conflict_invD split: option.splits if_splits)
qed (auto simp: conflict_local_hit_simp conflict_view_def bucket_expired_def
      conflictWebhookWindowSeconds_def Let_def split: option.splits if_splits)

section \<open>Properties\<close>

text \<open>How many of a sequence of timed requests the limiter lets through for one bucket.\<close>

type_synonym timed_request = "int \<times> request \<times> locals"

fun served :: "env \<Rightarrow> int \<Rightarrow> int \<Rightarrow> string \<Rightarrow> timed_request list \<Rightarrow> limiter_state \<Rightarrow> nat" where
  "served env maxRequests window key [] st = 0"
| "served env maxRequests window key ((now, r, c) # rs) st =
     (case RateLimiter env maxRequests window now False r c st of (res, st') \<Rightarrow>
        (if rateLimitKey r c = key \<and> is_ok res then 1 else 0) + served env maxRequests window key rs st')"

fun limiter_after :: "env \<Rightarrow> int \<Rightarrow> int \<Rightarrow> timed_request list \<Rightarrow> limiter_state \<Rightarrow> limiter_state" where
  "limiter_after env maxRequests window [] st = st"
| "limiter_after env maxRequests window ((now, r, c) # rs) st =
     limiter_after env maxRequests window rs (snd (RateLimiter env maxRequests window now False r c st))"

definition limits_on :: "env \<Rightarrow> bool" where
  "limits_on env = (env ''DISABLE_RATE_LIMIT'' \<noteq> ''1'')"

definition hits_of :: "timed_request list \<Rightarrow> (int \<times> string) list" where
  "hits_of rs = map (\<lambda>(now, r, c). (now, rateLimitKey r c)) rs"

lemma RateLimiter_mem:
  assumes "limits_on env" and "redis_client st = None"
  shows "RateLimiter env m w now err r c st =
     (if fst (mem_hit m w now (rateLimitKey r c) (rateLimitStore st)) then Inr c
      else Inl (HttpError 429 ''Rate limit exceeded''),
      st\<lparr>rateLimitStore := snd (mem_hit m w now (rateLimitKey r c) (rateLimitStore st))\<rparr>)"
  using assms by (simp add: limits_on_def RateLimiter_def Let_def split: prod.splits)

lemma RateLimiter_redis:
  assumes "limits_on env" and "redis_client st = Some kv"
  shows "RateLimiter env m w now False r c st =
     (if fst (redis_hit m w now (rateLimitKey r c) kv) then Inr c
      else Inl (HttpError 429 ''Rate limit exceeded''),
      st\<lparr>redis_client := Some (snd (redis_hit m w now (rateLimitKey r c) kv))\<rparr>)"
  using assms by (auto simp: limits_on_def RateLimiter_def redis_hit_def IncrementRateLimit_def Let_def split: prod.splits)

lemma served_mem:
  assumes "limits_on env" and "redis_client st = None"
  shows "served env m (int w) key rs st = mem.admitted m w key (hits_of rs) (rateLimitStore st)"
  using assms(2)
  by (induction rs arbitrary: st) (auto simp: hits_of_def RateLimiter_mem [OF assms(1)])

lemma limiter_after_mem:
  assumes "limits_on env" and "redis_client st = None"
  shows "redis_client (limiter_after env m (int w) rs st) = None \<and>
     rateLimitStore (limiter_after env m (int w) rs st) = mem.final m w (hits_of rs) (rateLimitStore st)"
  using assms(2)
  by (induction rs arbitrary: st) (auto simp: hits_of_def RateLimiter_mem [OF assms(1)])

lemma served_redis:
  assumes "limits_on env" and "redis_client st = Some kv"
  shows "served env m (int (Suc w)) key rs st = rds.admitted m w key (hits_of rs) kv"
  using assms(2)
proof (induction rs arbitrary: st kv)
  case (Cons x rs)
  obtain now r c where x: "x = (now, r, c)" by (cases x)
  show ?case
    unfolding x
    using Cons.IH [of "st\<lparr>redis_client := Some (snd (redis_hit m (int (Suc w)) now (rateLimitKey r c) kv))\<rparr>"]
    by (simp only: served.simps hits_of_def list.map prod.case rds.admitted_Cons
        RateLimiter_redis [OF assms(1) Cons.prems]) auto
qed (simp add: hits_of_def del: of_nat_Suc)

text \<open>
  Without Redis, the limiter lets at most \<open>maxRequests\<close> requests of one bucket through between
  the first request of a window and the window's end, however the requests of other buckets are
  interleaved, and once the window is over the bucket's next request is let through again.
\<close>

theorem rate_limit_memory_window:
  assumes "limits_on env" and "redis_client st = None" and "1 \<le> maxRequests"
    and "rateLimitStore st key = None" and "rateLimitKey r c = key"
    and "sorted (start # map fst rs)" and "\<forall>(t, _) \<in> set rs. t < start + int w"
    and "rateLimitKey r' c' = key" and "start + int w < t"
  shows "int (served env maxRequests (int w) key ((start, r, c) # rs) st) \<le> maxRequests
    \<and> fst (RateLimiter env maxRequests (int w) t err r' c'
            (limiter_after env maxRequests (int w) ((start, r, c) # rs) st)) = Inr c'"
proof
  have v: "mem_view start (snd (mem_hit maxRequests (int w) start key (rateLimitStore st))) key = Some (1, start + int w)"
    using assms(4) by (simp add: mem_hit_def mem_view_def prune_limits_def)
  have s: "sorted (start # map fst (hits_of rs))" using assms(6) by (simp add: hits_of_def o_def case_prod_beta)
  have b: "\<forall>(u, j) \<in> set (hits_of rs). u < start + int w" using assms(7) by (auto simp: hits_of_def)
  show "int (served env maxRequests (int w) key ((start, r, c) # rs) st) \<le> maxRequests"
    using mem.admitted_from_fresh [OF TrueI assms(3) v s b]
    unfolding served_mem [OF assms(1,2)] hits_of_def by (simp add: assms(5))
  have "mem_view t (mem.final maxRequests w (hits_of ((start, r, c) # rs)) (rateLimitStore st)) key = None"
    using mem.readmitted [OF TrueI v b s assms(9)] by (simp add: hits_of_def assms(5))
  then have "fst (mem_hit maxRequests (int w) t key
      (mem.final maxRequests w (hits_of ((start, r, c) # rs)) (rateLimitStore st)))"
    by (auto simp: mem_view_def prune_limits_def mem_hit_def split: option.splits if_splits)
  with limiter_after_mem [OF assms(1,2), of maxRequests w "(start, r, c) # rs"]
  show "fst (RateLimiter env maxRequests (int w) t err r' c'
      (limiter_after env maxRequests (int w) ((start, r, c) # rs) st)) = Inr c'"
    by (simp only: RateLimiter_mem [OF assms(1)] assms(8)) simp
qed

definition probe :: request where
  "probe = \<lparr>r_method = ''POST'', r_path = ''/agent/register'', r_protocol = ''https'', r_ip = ''9.9.9.9'',
     r_cookies = (\<lambda>_. []), r_headers = (\<lambda>_. [])\<rparr>"

lemma probe_key [simp]: "rateLimitKey probe no_locals = ''ip:9.9.9.9''"
  by (simp add: rateLimitKey_def probe_def no_locals_def)

lemma rate_limit_memory_window_witness:
  "int (served (\<lambda>_. []) 2 (int 60) ''ip:9.9.9.9'' ((100, probe, no_locals) # replicate 3 (110, probe, no_locals))
          \<lparr>redis_client = None, rateLimitStore = Map.empty\<rparr>) \<le> 2
   \<and> fst (RateLimiter (\<lambda>_. []) 2 (int 60) 161 False probe no_locals
       (limiter_after (\<lambda>_. []) 2 (int 60) ((100, probe, no_locals) # replicate 3 (110, probe, no_locals))
          \<lparr>redis_client = None, rateLimitStore = Map.empty\<rparr>)) = Inr no_locals"
  by (rule rate_limit_memory_window) (simp_all add: limits_on_def numeral_3_eq_3)

text \<open>
  With Redis, every request renews the window, the refused ones included: a bucket that has
  used up its budget is refused for as long as its requests keep coming with pauses shorter than
  the window, however long that is.
\<close>

theorem rate_limit_redis_never_ends:
  assumes "limits_on env" and "redis_client st = Some kv"
    and "redis_inv ratelimit_key kv"
    and "redis_view start kv (ratelimit_key key) = Some (n, start + int (Suc w))" and "maxRequests \<le> n"
    and "\<forall>(a, b) \<in> set (zip (start # map fst rs) (map fst rs)). a \<le> b \<and> b < a + int (Suc w)"
    and "\<forall>(t, r, c) \<in> set rs. rateLimitKey r c = key"
  shows "served env maxRequests (int (Suc w)) key rs st = 0"
proof -
  have "hits_of rs = map (\<lambda>t. (t, key)) (map fst rs)"
    using assms(7) by (auto simp: hits_of_def)
  with rds.never_readmitted [OF assms(3) assms(4,5,6)] show ?thesis
    by (simp only: served_redis [OF assms(1,2)])
qed

lemma rate_limit_redis_never_ends_witness:
  "served (\<lambda>_. []) 5 (int (Suc 59)) ''ip:9.9.9.9'' (map (\<lambda>i. (130 + 30 * i, probe, no_locals)) [0, 1, 2, 3, 4, 5])
     \<lparr>redis_client = Some [ratelimit_key ''ip:9.9.9.9'' \<mapsto> (5, Some 160)], rateLimitStore = Map.empty\<rparr> = 0"
  by (rule rate_limit_redis_never_ends [where start = 100 and n = 5 and
        kv = "[ratelimit_key ''ip:9.9.9.9'' \<mapsto> (5, Some 160)]"])
    (simp_all add: limits_on_def redis_inv_def redis_view_Some)

text \<open>The fires of a sequence of conflicts, each a time, a tenant and a device.\<close>

fun conflict_fires :: "string \<Rightarrow> string \<Rightarrow> (int \<times> string \<times> string) list \<Rightarrow> conflict_state \<Rightarrow> int list" where
  "conflict_fires tid did [] st = []"
| "conflict_fires tid did ((now, t, d) # cs) st =
     (case TriggerRegistrationConflictWebhook (\<lambda>_. False) now False t d st of (fire, st') \<Rightarrow>
        (case fire of Some n \<Rightarrow> if t = tid \<and> d = did then [n] else [] | None \<Rightarrow> [])
        @ conflict_fires tid did cs st')"

definition conflict_key :: "bool \<Rightarrow> string \<Rightarrow> string \<Rightarrow> string" where
  "conflict_key use_redis tid did =
     (let tid = (if tid = [] then ''default'' else tid)
      in if use_redis then conflict_redis_key tid did else tid @ ''|'' @ did)"

lemma Trigger_redis:
  assumes "cf_redis st = Some kv"
  shows "TriggerRegistrationConflictWebhook full now False t d st =
     (if fst (conflict_redis_hit 3600 now (conflict_key True t d) kv) then Some 1 else None,
      st\<lparr>cf_redis := Some (snd (conflict_redis_hit 3600 now (conflict_key True t d) kv))\<rparr>)"
  using assms by (auto simp: TriggerRegistrationConflictWebhook_def Let_def conflict_redis_hit_def
      conflict_key_def conflictWebhookWindowSeconds_def split: prod.splits)

lemma Trigger_local:
  assumes "cf_redis st = None"
  shows "TriggerRegistrationConflictWebhook (\<lambda>_. False) now False t d st =
     (if fst (conflict_local_hit now (conflict_key False t d) (cf_map st)) then Some 1 else None,
      st\<lparr>cf_map := snd (conflict_local_hit now (conflict_key False t d) (cf_map st))\<rparr>)"
  using assms by (auto simp: TriggerRegistrationConflictWebhook_def Let_def conflict_local_hit_def
      conflict_local_def conflict_key_def split: prod.splits if_splits)

lemma fires_redis:
  assumes "cf_redis st = Some kv"
  shows "length (conflict_fires tid did cs st)
     \<le> cfr.admitted 3599 (conflict_key True tid did) (map (\<lambda>(now, t, d). (now, conflict_key True t d)) cs) kv"
  using assms
proof (induction cs arbitrary: st kv)
  case (Cons x cs)
  obtain now t d where x: "x = (now, t, d)" by (cases x)
  from Cons.IH [of "st\<lparr>cf_redis := Some (snd (conflict_redis_hit 3600 now (conflict_key True t d) kv))\<rparr>"]
  show ?case unfolding x by (auto simp: Trigger_redis [OF Cons.prems] cfr.admitted_Cons [of 3599, simplified])
qed simp

lemma fires_local:
  assumes "cf_redis st = None"
  shows "length (conflict_fires tid did cs st)
     \<le> cfl.admitted (conflict_key False tid did) (map (\<lambda>(now, t, d). (now, conflict_key False t d)) cs) (cf_map st)"
  using assms
proof (induction cs arbitrary: st)
  case (Cons x cs)
  obtain now t d where x: "x = (now, t, d)" by (cases x)
  from Cons.IH [of "st\<lparr>cf_map := snd (conflict_local_hit now (conflict_key False t d) (cf_map st))\<rparr>"]
  show ?case unfolding x by (auto simp: Trigger_local [OF Cons.prems] Cons.prems)
qed simp

definition conflict_wf :: "conflict_state \<Rightarrow> bool" where
  "conflict_wf st = (case cf_redis st of Some kv \<Rightarrow> redis_inv id kv | None \<Rightarrow> conflict_inv (cf_map st))"

definition conflict_end :: "int \<Rightarrow> conflict_state \<Rightarrow> string \<Rightarrow> string \<Rightarrow> int option" where
  "conflict_end now st tid did = map_option snd (case cf_redis st of
      Some kv \<Rightarrow> redis_view now kv (conflict_key True tid did)
    | None \<Rightarrow> conflict_view now (cf_map st) (conflict_key False tid did))"

text \<open>
  While the window of a (tenant, device) is open no further registration-conflict webhook
  fires for it, however many conflicts arrive and however those of other devices interleave. This
  holds for the counter in Redis and, below its size limit, for the map that replaces it.
\<close>

theorem conflict_webhook_once_per_window:
  assumes "conflict_wf st" and "conflict_end now st tid did = Some e"
    and "sorted (now # map fst cs)" and "\<forall>(t, _) \<in> set cs. t < e"
  shows "conflict_fires tid did cs st = []"
proof (cases "cf_redis st")
  case (Some kv)
  let ?h = "map (\<lambda>(now, t, d). (now, conflict_key True t d)) cs"
  from assms(2) Some obtain n where v: "redis_view now kv (conflict_key True tid did) = Some (n, e)"
    by (auto simp: conflict_end_def)
  have inv: "redis_inv id kv" using assms(1) Some by (simp add: conflict_wf_def)
  with v have "1 \<le> n" by (auto simp: redis_view_Some redis_inv_def)
  have "sorted (now # map fst ?h)" "\<forall>(t, j) \<in> set ?h. t < e"
    using assms(3,4) by (auto simp: o_def case_prod_beta)
  from cfr.admitted_in_window [OF inv v this, of 3599] \<open>1 \<le> n\<close> fires_redis [OF Some, of tid did cs]
  have "length (conflict_fires tid did cs st) = 0" by linarith
  then show ?thesis by simp
next
  case None
  let ?h = "map (\<lambda>(now, t, d). (now, conflict_key False t d)) cs"
  from assms(2) None obtain n where v: "conflict_view now (cf_map st) (conflict_key False tid did) = Some (n, e)"
    by (auto simp: conflict_end_def)
  have inv: "conflict_inv (cf_map st)" using assms(1) None by (simp add: conflict_wf_def)
  with v have "1 \<le> n"
    by (auto simp: conflict_view_def bucket_expired_def split: option.splits if_splits dest: conflict_invD)
  have "sorted (now # map fst ?h)" "\<forall>(t, j) \<in> set ?h. t < e"
    using assms(3,4) by (auto simp: o_def case_prod_beta)
  from cfl.admitted_in_window [OF inv v this] \<open>1 \<le> n\<close> fires_local [OF None, of tid did cs]
  show ?thesis by simp
qed

lemma conflict_webhook_once_per_window_witness:
  "conflict_fires ''t'' ''d'' [(1010, ''t'', ''d''), (1020, ''t'', ''e''), (4599, ''t'', ''d'')]
     \<lparr>cf_redis = None, cf_map = [''t|d'' \<mapsto> \<lparr>windowStart = 1000, bucket_count = 1\<rparr>]\<rparr> = []"
  by (rule conflict_webhook_once_per_window [where now = 1000 and e = 4600])
    (simp_all add: conflict_wf_def conflict_inv_def conflict_end_def conflict_view_def conflict_key_def
      bucket_expired_def conflictWebhookWindowSeconds_def)

text \<open>
  Whenever the conflict webhook fires, the attempt count in its payload is 1: the number of
  suppressed conflicts never reaches an operator, in either mode and at the size limit.
\<close>

theorem conflict_webhook_count_is_one:
  "fst (TriggerRegistrationConflictWebhook full now err tid did st) \<in> {None, Some 1}"
proof -
  have l: "fst (fst (conflict_local full now k m)) \<Longrightarrow> snd (fst (conflict_local full now k m)) = 1" for k m
    by (auto simp: conflict_local_def Let_def split: if_splits)
  show ?thesis
  proof (cases "if err then None else cf_redis st")
    case None
    then show ?thesis
      using l [of "(if tid = [] then ''default'' else tid) @ ''|'' @ did" "cf_map st"]
      by (simp add: TriggerRegistrationConflictWebhook_def Let_def case_prod_beta)
  next
    case (Some kv)
    then show ?thesis
      by (simp add: TriggerRegistrationConflictWebhook_def Let_def case_prod_beta)
  qed
qed

end
