(* ===== verification/Jwt.thy ===== *)
theory Jwt
  imports Http
begin

text \<open>
  The session tokens of \<open>internal/auth/auth.go\<close>: what the four generators put into a token,
  and what the admin validator, the portal validator and the impersonation parser accept.

  Signing and parsing are the JWT library's and are the two fields of \<open>jwt_lib\<close>. The parser
  takes the code's key function, the current time and the token; its success carries the
  claims (\<open>None\<close> when they are not a claim map) and the token's validity flag. What the
  library documents is \<open>jwt_lib_ok\<close>: an HMAC token that was signed with the key that the key
  function returns parses to its claims before \<open>exp\<close> and is an error from \<open>exp\<close> on. The
  secret \<open>JWTSecret\<close>, the clock and the random token id are arguments.
\<close>

section \<open>The library\<close>

datatype jwt_alg = AlgHMAC | AlgOther

datatype claim = CStr string | CNum int

type_synonym claims = "string \<rightharpoonup> claim"

record parsed_token =
  pt_claims :: "claims option"
  pt_valid :: bool

record jwt_lib =
  jwt_sign :: "string \<Rightarrow> claims \<Rightarrow> string option"
  jwt_parse :: "(jwt_alg \<Rightarrow> string option) \<Rightarrow> unix \<Rightarrow> string \<Rightarrow> parsed_token option"

definition jwt_lib_ok :: "jwt_lib \<Rightarrow> bool" where
  "jwt_lib_ok J \<longleftrightarrow> (\<forall>secret c e tok kf now. c ''exp'' = Some (CNum e) \<longrightarrow> kf AlgHMAC = Some secret \<longrightarrow>
     jwt_sign J secret c = Some tok \<longrightarrow>
     jwt_parse J kf now tok = (if now < e then Some \<lparr>pt_claims = Some c, pt_valid = True\<rparr> else None))"

text \<open>The key function: only HMAC-signed tokens get a key.\<close>

definition keyfunc :: "string \<Rightarrow> jwt_alg \<Rightarrow> string option" where
  "keyfunc JWTSecret m = (case m of AlgHMAC \<Rightarrow> Some JWTSecret | AlgOther \<Rightarrow> None)"

text \<open>\<open>v, _ := claims[k].(string)\<close>\<close>

definition claim_str :: "claims \<Rightarrow> string \<Rightarrow> string" where
  "claim_str c k = (case c k of Some (CStr s) \<Rightarrow> s | _ \<Rightarrow> [])"

section \<open>Generators\<close>

text \<open>\<open>now.Add(time.Duration(h) * time.Hour).Unix()\<close>; durations are \<open>int64\<close> nanoseconds.\<close>

definition add_hours :: "unix \<Rightarrow> int \<Rightarrow> unix" where
  "add_hours now h = now + i64 (h * 3600000000000) div 1000000000"

lemma add_hours_small: "0 \<le> h \<Longrightarrow> h \<le> 1000000 \<Longrightarrow> add_hours now h = now + h * 3600"
  by (simp add: add_hours_def i64_id)

definition session_claims :: "string \<Rightarrow> string \<Rightarrow> string \<Rightarrow> unix \<Rightarrow> unix \<Rightarrow> string \<Rightarrow> string \<Rightarrow> claims" where
  "session_claims sub tid role expi iat iss jti =
     [''sub'' \<mapsto> CStr sub, ''tid'' \<mapsto> CStr tid, ''role'' \<mapsto> CStr role, ''exp'' \<mapsto> CNum expi,
      ''iat'' \<mapsto> CNum iat, ''iss'' \<mapsto> CStr iss, ''jti'' \<mapsto> CStr jti]"

definition GenerateJWT ::
  "jwt_lib \<Rightarrow> string \<Rightarrow> unix \<Rightarrow> string \<Rightarrow> string \<Rightarrow> string \<Rightarrow> string \<Rightarrow> int \<Rightarrow> string option" where
  "GenerateJWT J JWTSecret now jti userID tenantID role expiryHours =
     jwt_sign J JWTSecret
       (session_claims userID tenantID role (add_hours now expiryHours) now ''vaporrmm'' jti)"

definition GenerateImpersonationJWT ::
  "jwt_lib \<Rightarrow> string \<Rightarrow> unix \<Rightarrow> string \<Rightarrow> string \<Rightarrow> string \<Rightarrow> string \<Rightarrow> string \<Rightarrow> int \<Rightarrow> string option" where
  "GenerateImpersonationJWT J JWTSecret now jti superUserID targetTenantID originalTenantID
       originalRole expiryHours =
     jwt_sign J JWTSecret
       ((session_claims superUserID targetTenantID ''admin'' (add_hours now expiryHours) now
          ''vaporrmm'' jti)
        (''imp_for'' \<mapsto> CStr superUserID, ''imp_orig_tid'' \<mapsto> CStr originalTenantID,
         ''imp_orig_role'' \<mapsto> CStr originalRole))"

definition GenerateTOTPChallenge ::
  "jwt_lib \<Rightarrow> string \<Rightarrow> unix \<Rightarrow> string \<Rightarrow> string \<Rightarrow> string \<Rightarrow> string option" where
  "GenerateTOTPChallenge J JWTSecret now jti userID tenantID =
     jwt_sign J JWTSecret
       (session_claims userID tenantID ''totp_pending'' (now + 5 * 60) now ''vaporrmm'' jti)"

definition GeneratePortalJWT ::
  "jwt_lib \<Rightarrow> string \<Rightarrow> unix \<Rightarrow> string \<Rightarrow> string \<Rightarrow> string \<Rightarrow> string \<Rightarrow> int \<Rightarrow> string option" where
  "GeneratePortalJWT J JWTSecret now jti customerID tenantID deviceID expiryHours =
     (let claims = session_claims customerID tenantID ''customer'' (add_hours now expiryHours) now
                     ''vaporrmm-portal'' jti;
          claims = (if deviceID \<noteq> [] then claims(''did'' \<mapsto> CStr deviceID) else claims)
      in jwt_sign J JWTSecret claims)"

section \<open>Validators\<close>

datatype jwt_error = Err_invalid_token | Err_invalid_claims | Err_portal_on_admin
  | Err_customer_on_admin | Err_not_portal | Err_role_mismatch | Err_missing_tenant

text \<open>What both validators do first: parse, then require a claim map and a valid token.\<close>

definition parsed_claims :: "jwt_lib \<Rightarrow> string \<Rightarrow> unix \<Rightarrow> string \<Rightarrow> (jwt_error, claims) result" where
  "parsed_claims J JWTSecret now tokenString =
     (case jwt_parse J (keyfunc JWTSecret) now tokenString of
        None \<Rightarrow> Inl Err_invalid_token
      | Some t \<Rightarrow> (case pt_claims t of
            None \<Rightarrow> Inl Err_invalid_claims
          | Some c \<Rightarrow> guard (pt_valid t) Err_invalid_claims (Inr c)))"

definition ValidateJWT ::
  "jwt_lib \<Rightarrow> string \<Rightarrow> unix \<Rightarrow> string \<Rightarrow> (jwt_error, string \<times> string \<times> string) result" where
  "ValidateJWT J JWTSecret now tokenString =
     (case parsed_claims J JWTSecret now tokenString of
        Inl e \<Rightarrow> Inl e
      | Inr c \<Rightarrow>
          if claim_str c ''iss'' = ''vaporrmm-portal'' then Inl Err_portal_on_admin
          else let userID = claim_str c ''sub'';
                   tenantID = (if claim_str c ''tid'' = [] then ''default'' else claim_str c ''tid'');
                   role = (if claim_str c ''role'' = [] then ''admin'' else claim_str c ''role'')
               in if role = ''customer'' then Inl Err_customer_on_admin
                  else Inr (userID, tenantID, role))"

definition ValidatePortalJWT ::
  "jwt_lib \<Rightarrow> string \<Rightarrow> unix \<Rightarrow> string \<Rightarrow> (jwt_error, string \<times> string \<times> string) result" where
  "ValidatePortalJWT J JWTSecret now tokenString =
     (case parsed_claims J JWTSecret now tokenString of
        Inl e \<Rightarrow> Inl e
      | Inr c \<Rightarrow>
          if claim_str c ''iss'' \<noteq> ''vaporrmm-portal'' then Inl Err_not_portal
          else if claim_str c ''role'' \<noteq> ''customer'' then Inl Err_role_mismatch
          else if claim_str c ''tid'' = [] then Inl Err_missing_tenant
          else Inr (claim_str c ''sub'', claim_str c ''tid'', claim_str c ''did''))"

text \<open>The four results \<open>(impFor, origTid, origRole, isImpersonating)\<close>.\<close>

definition ParseImpersonationClaims ::
  "jwt_lib \<Rightarrow> string \<Rightarrow> unix \<Rightarrow> string \<Rightarrow> string \<times> string \<times> string \<times> bool" where
  "ParseImpersonationClaims J JWTSecret now tokenString =
     (case parsed_claims J JWTSecret now tokenString of
        Inl _ \<Rightarrow> ([], [], [], False)
      | Inr c \<Rightarrow>
          if claim_str c ''imp_for'' = [] then ([], [], [], False)
          else (claim_str c ''imp_for'', claim_str c ''imp_orig_tid'', claim_str c ''imp_orig_role'', True))"

section \<open>Lemmas\<close>

lemma keyfunc_simps [simp]: "keyfunc s AlgHMAC = Some s" "keyfunc s AlgOther = None"
  by (simp_all add: keyfunc_def)

lemma session_claims_simps [simp]:
  "session_claims sub tid role expi iat iss jti ''sub'' = Some (CStr sub)"
  "session_claims sub tid role expi iat iss jti ''tid'' = Some (CStr tid)"
  "session_claims sub tid role expi iat iss jti ''role'' = Some (CStr role)"
  "session_claims sub tid role expi iat iss jti ''exp'' = Some (CNum expi)"
  "session_claims sub tid role expi iat iss jti ''iss'' = Some (CStr iss)"
  "session_claims sub tid role expi iat iss jti ''imp_for'' = None"
  "session_claims sub tid role expi iat iss jti ''did'' = None"
  by (simp_all add: session_claims_def)

lemma parsed_claims_signed:
  assumes "jwt_lib_ok J" and "jwt_sign J secret c = Some tok" and "c ''exp'' = Some (CNum e)"
  shows "parsed_claims J secret now tok = (if now < e then Inr c else Inl Err_invalid_token)"
  using assms by (auto simp: parsed_claims_def jwt_lib_ok_def)

lemma ValidateJWT_ok [result_elims]:
  "ValidateJWT J secret now tok = Inr (u, t, r) \<longleftrightarrow>
     (\<exists>c. parsed_claims J secret now tok = Inr c \<and> claim_str c ''iss'' \<noteq> ''vaporrmm-portal''
        \<and> u = claim_str c ''sub''
        \<and> t = (if claim_str c ''tid'' = [] then ''default'' else claim_str c ''tid'')
        \<and> r = (if claim_str c ''role'' = [] then ''admin'' else claim_str c ''role'')
        \<and> r \<noteq> ''customer'')"
  by (cases "parsed_claims J secret now tok") (auto simp: ValidateJWT_def Let_def)

lemma ValidatePortalJWT_ok [result_elims]:
  "ValidatePortalJWT J secret now tok = Inr (u, t, d) \<longleftrightarrow>
     (\<exists>c. parsed_claims J secret now tok = Inr c \<and> claim_str c ''iss'' = ''vaporrmm-portal''
        \<and> claim_str c ''role'' = ''customer'' \<and> t = claim_str c ''tid'' \<and> t \<noteq> []
        \<and> u = claim_str c ''sub'' \<and> d = claim_str c ''did'')"
  by (cases "parsed_claims J secret now tok") (auto simp: ValidatePortalJWT_def)

lemma ValidateJWT_never_customer: "ValidateJWT J secret now tok = Inr (u, t, r) \<Longrightarrow> r \<noteq> ''customer''"
  and ValidateJWT_role_nonempty: "ValidateJWT J secret now tok = Inr (u, t, r) \<Longrightarrow> r \<noteq> []"
  and ValidateJWT_tenant_nonempty: "ValidateJWT J secret now tok = Inr (u, t, r) \<Longrightarrow> t \<noteq> []"
  by (auto simp: ValidateJWT_ok split: if_splits)

text \<open>A library instance for witnesses: it signs one set of claims, under one secret.\<close>

definition toy_jwt :: "claims \<Rightarrow> jwt_lib" where
  "toy_jwt c1 = \<lparr>jwt_sign = (\<lambda>s c. if s = ''k'' \<and> c = c1 then Some ''tokA'' else None),
     jwt_parse = (\<lambda>kf now tok. if tok = ''tokA'' \<and> kf AlgHMAC = Some ''k'' then
         (case c1 ''exp'' of
            Some (CNum e) \<Rightarrow> if now < e then Some \<lparr>pt_claims = Some c1, pt_valid = True\<rparr> else None
          | _ \<Rightarrow> None) else None)\<rparr>"

lemma jwt_lib_ok_toy: "jwt_lib_ok (toy_jwt c)"
  by (auto simp: jwt_lib_ok_def toy_jwt_def split: if_splits)

lemma jwt_sign_toy: "jwt_sign (toy_jwt c) ''k'' c = Some ''tokA''"
  by (simp add: toy_jwt_def)

section \<open>Properties\<close>

lemma GenerateJWT_claims:
  assumes "jwt_lib_ok J" and "GenerateJWT J secret iat jti u t role h = Some tok"
  shows "parsed_claims J secret now tok =
     (if now < add_hours iat h then Inr (session_claims u t role (add_hours iat h) iat ''vaporrmm'' jti)
      else Inl Err_invalid_token)"
  using assms by (simp add: GenerateJWT_def parsed_claims_signed)

lemma GenerateTOTPChallenge_claims:
  assumes "jwt_lib_ok J" and "GenerateTOTPChallenge J secret iat jti u t = Some tok"
  shows "parsed_claims J secret now tok =
     (if now < iat + 5 * 60 then Inr (session_claims u t ''totp_pending'' (iat + 5 * 60) iat ''vaporrmm'' jti)
      else Inl Err_invalid_token)"
  using assms by (simp add: GenerateTOTPChallenge_def parsed_claims_signed)

lemma TOTP_challenge_role:
  assumes "jwt_lib_ok J" and "GenerateTOTPChallenge J secret iat jti u t = Some tok"
    and "ValidateJWT J secret now tok = Inr (u', t', r)"
  shows "r = ''totp_pending''"
  using assms(3) by (auto simp: ValidateJWT_ok GenerateTOTPChallenge_claims [OF assms(1,2)] claim_str_def
      split: if_splits)

lemma add_hours_day: "0 \<le> h \<Longrightarrow> h \<le> 1000000 \<Longrightarrow> now < add_hours iat h \<longleftrightarrow> now < iat + h * 3600"
  by (simp add: add_hours_small)

text \<open>
  C4. A session token issued for a user, tenant and role validates, until exactly the requested
  number of hours later, to that user, tenant and role (an empty tenant reads \<open>default\<close>, an empty
  role \<open>admin\<close>), unless the role is the portal's \<open>customer\<close>, which is refused; it is never a
  portal token and never an impersonation.
\<close>

theorem session_token_roundtrip:
  assumes "jwt_lib_ok J" and "GenerateJWT J secret iat jti u t role h = Some tok"
    and "0 \<le> h" and "h \<le> 1000000"
  shows "ValidateJWT J secret now tok =
      (if iat + h * 3600 \<le> now then Inl Err_invalid_token
       else if role = ''customer'' then Inl Err_customer_on_admin
       else Inr (u, if t = [] then ''default'' else t, if role = [] then ''admin'' else role))
    \<and> \<not> is_ok (ValidatePortalJWT J secret now tok)
    \<and> ParseImpersonationClaims J secret now tok = ([], [], [], False)"
  using GenerateJWT_claims [OF assms(1,2), of now] add_hours_small [OF assms(3,4), of iat]
  by (simp add: ValidateJWT_def ValidatePortalJWT_def ParseImpersonationClaims_def claim_str_def Let_def)

lemma session_token_roundtrip_witness:
  "ValidateJWT (toy_jwt (session_claims ''u'' [] ''user'' 86500 100 ''vaporrmm'' ''j'')) ''k'' 86499 ''tokA''
     = Inr (''u'', ''default'', ''user'')"
proof -
  let ?J = "toy_jwt (session_claims ''u'' [] ''user'' 86500 100 ''vaporrmm'' ''j'')"
  have "add_hours 100 24 = 86500" by (simp add: add_hours_small)
  then have "GenerateJWT ?J ''k'' 100 ''j'' ''u'' [] ''user'' 24 = Some ''tokA''"
    by (simp add: GenerateJWT_def jwt_sign_toy)
  from session_token_roundtrip [OF jwt_lib_ok_toy this, of 86499] show ?thesis by simp
qed

text \<open>
  An impersonation token acts as a plain \<open>admin\<close> of the target tenant under the super
  administrator's own user id and, for as long as it is valid, gives back the identity it was made
  from; it never carries the \<open>super_admin\<close> role.
\<close>

theorem impersonation_token_roundtrip:
  assumes "jwt_lib_ok J" and "GenerateImpersonationJWT J secret iat jti super target home role h = Some tok"
    and "super \<noteq> []" and "target \<noteq> []" and "0 \<le> h" and "h \<le> 1000000" and "now < iat + h * 3600"
  shows "ValidateJWT J secret now tok = Inr (super, target, ''admin'')
    \<and> ParseImpersonationClaims J secret now tok = (super, home, role, True)"
proof -
  let ?c = "(session_claims super target ''admin'' (add_hours iat h) iat ''vaporrmm'' jti)
        (''imp_for'' \<mapsto> CStr super, ''imp_orig_tid'' \<mapsto> CStr home, ''imp_orig_role'' \<mapsto> CStr role)"
  have sign: "jwt_sign J secret ?c = Some tok" using assms(2) by (simp only: GenerateImpersonationJWT_def)
  have "?c ''exp'' = Some (CNum (add_hours iat h))" by simp
  from parsed_claims_signed [OF assms(1) sign this, of now] add_hours_small [OF assms(5,6), of iat] assms(7)
  have p: "parsed_claims J secret now tok = Inr ?c" by simp
  show ?thesis
    unfolding ValidateJWT_def ParseImpersonationClaims_def p sum.case Let_def using assms(3,4)
    by (simp add: claim_str_def)
qed

lemma impersonation_token_roundtrip_witness:
  "\<exists>J. ValidateJWT J ''k'' 100 ''tokA'' = Inr (''root'', ''t2'', ''admin'')"
proof -
  let ?c = "(session_claims ''root'' ''t2'' ''admin'' 3700 100 ''vaporrmm'' ''j'')
        (''imp_for'' \<mapsto> CStr ''root'', ''imp_orig_tid'' \<mapsto> CStr ''t0'', ''imp_orig_role'' \<mapsto> CStr ''super_admin'')"
  have "add_hours 100 1 = 3700" by (simp add: add_hours_small)
  then have "GenerateImpersonationJWT (toy_jwt ?c) ''k'' 100 ''j'' ''root'' ''t2'' ''t0'' ''super_admin'' 1 = Some ''tokA''"
    by (simp only: GenerateImpersonationJWT_def jwt_sign_toy)
  from impersonation_token_roundtrip [OF jwt_lib_ok_toy this, of 100] show ?thesis by auto
qed

end
