(* ===== verification/TenantGate.thy ===== *)
theory TenantGate
  imports Http
begin

text \<open>
  The tenant gate of \<open>internal/auth/auth.go\<close>: whether a tenant may use the system, the grace
  window after a suspension, and its configuration \<open>SUSPENSION_GRACE_HOURS\<close>.

  The table \<open>tenants\<close> is a map from ids to rows; a lookup either reaches the table or fails
  (\<open>db_up\<close>), because the two failures are told apart by the code.
\<close>

record tenant_row =
  t_status :: string
  t_suspended_at :: "unix option"

type_synonym tenants = "string \<rightharpoonup> tenant_row"

text \<open>\<open>QueryRow(...).Scan\<close> on one row: the row, no row, or a database error.\<close>

datatype 'a lookup = Found 'a | NoRows | DbError

definition select_row :: "bool \<Rightarrow> (string \<rightharpoonup> 'a) \<Rightarrow> string \<Rightarrow> 'a lookup" where
  "select_row db_up tbl k = (if \<not> db_up then DbError
     else case tbl k of None \<Rightarrow> NoRows | Some r \<Rightarrow> Found r)"

text \<open>The digit loop, with Go's 64-bit \<open>int\<close> wrapping at each step.\<close>

fun grace_loop :: "string \<Rightarrow> int \<Rightarrow> int" where
  "grace_loop [] n = n"
| "grace_loop (c # cs) n =
     (if c < CHR ''0'' \<or> CHR ''9'' < c then 0
      else grace_loop cs (i64 (n * 10 + (int (of_char c) - 48))))"

definition suspensionGraceHours :: "env \<Rightarrow> int" where
  "suspensionGraceHours env = (let v = env ''SUSPENSION_GRACE_HOURS'' in if v = [] then 0 else grace_loop v 0)"

definition grace_deadline :: "env \<Rightarrow> unix \<Rightarrow> unix" where
  "grace_deadline env suspendedAt = i64 (suspendedAt + i64 (suspensionGraceHours env * 3600))"

definition TenantAllowed :: "env \<Rightarrow> unix \<Rightarrow> bool \<Rightarrow> tenants \<Rightarrow> string \<Rightarrow> bool" where
  "TenantAllowed env now db_up tenants tenantID =
     (if tenantID = [] then False
      else case select_row db_up tenants tenantID of
        NoRows \<Rightarrow> False
      | DbError \<Rightarrow> True
      | Found row \<Rightarrow>
          if t_status row = ''active'' then True
          else if t_status row = ''suspended'' then
            (case t_suspended_at row of
               None \<Rightarrow> False
             | Some sa \<Rightarrow> suspensionGraceHours env > 0 \<and> now < grace_deadline env sa)
          else False)"

definition TenantInGrace :: "env \<Rightarrow> unix \<Rightarrow> bool \<Rightarrow> tenants \<Rightarrow> string \<Rightarrow> bool \<times> unix" where
  "TenantInGrace env now db_up tenants tenantID =
     (if tenantID = [] then (False, 0)
      else case select_row db_up tenants tenantID of
        NoRows \<Rightarrow> (False, 0)
      | DbError \<Rightarrow> (False, 0)
      | Found row \<Rightarrow>
          (case t_suspended_at row of
             None \<Rightarrow> (False, 0)
           | Some sa \<Rightarrow>
               if t_status row \<noteq> ''suspended'' then (False, 0)
               else if suspensionGraceHours env \<le> 0 then (False, 0)
               else if grace_deadline env sa \<le> now then (False, 0)
               else (True, grace_deadline env sa)))"

section \<open>Lemmas\<close>

lemma select_row_simps [simp]:
  "select_row False tbl k = DbError"
  "tbl k = Some r \<Longrightarrow> select_row True tbl k = Found r"
  "tbl k = None \<Longrightarrow> select_row True tbl k = NoRows"
  by (simp_all add: select_row_def)

lemma TenantAllowed_db_down: "tenantID \<noteq> [] \<Longrightarrow> TenantAllowed env now False tenants tenantID"
  by (simp add: TenantAllowed_def)

text \<open>While the database answers, the gate is open for active tenants and during grace only.\<close>

lemma TenantAllowed_up:
  "TenantAllowed env now True tenants tid \<longleftrightarrow>
     tid \<noteq> [] \<and> (\<exists>row. tenants tid = Some row
        \<and> (t_status row = ''active'' \<or> fst (TenantInGrace env now True tenants tid)))"
  by (cases "tenants tid") (auto simp: TenantAllowed_def TenantInGrace_def split: option.splits)

lemma TenantInGrace_deadline:
  "TenantInGrace env now up tenants tid = (True, d) \<Longrightarrow> now < d"
  by (auto simp: TenantInGrace_def split: if_splits option.splits lookup.splits)

lemma grace_loop_nondigit: "\<exists>c \<in> set v. c < CHR ''0'' \<or> CHR ''9'' < c \<Longrightarrow> grace_loop v n = 0"
  by (induction v n rule: grace_loop.induct) auto

lemma TenantAllowed_no_grace:
  assumes "suspensionGraceHours env \<le> 0"
  shows "TenantAllowed env now True tenants tid \<longleftrightarrow>
     tid \<noteq> [] \<and> (\<exists>row. tenants tid = Some row \<and> t_status row = ''active'')"
  using assms
  by (cases "tenants tid") (auto simp: TenantAllowed_def split: option.splits)

end
