(* ===== verification/AgentTokens.thy ===== *)
theory AgentTokens
  imports Crypto TenantGate "HOL-Library.Word"
begin

unbundle bit_operations_syntax

text \<open>
  Agent tokens and proof of possession (\<open>internal/auth/auth.go\<close>).

  State: the cache \<open>RegisteredTokens\<close>, a map from token hashes to tokens, and the tables
  \<open>agent_tokens\<close> (a list of rows, a new row in front) and \<open>devices\<close> (here: what the
  proof-of-possession check reads and the bypass latch writes). A query
  \<open>ORDER BY created_at DESC LIMIT 1\<close> is \<open>newest\<close>. Database failures are arguments: \<open>reg_fault\<close>
  says at which statement a rotation fails. \<open>TokenMu\<close> makes a registration atomic, so each
  operation is one function on the state.
\<close>

section \<open>State\<close>

text \<open>\<open>models.AgentToken\<close>; its hash is the key of the cache.\<close>

record agent_token =
  TokenHash :: string
  DeviceID :: string
  Hostname :: string
  TenantID :: string
  ExpiresAt :: unix
  SupersededAt :: unix

text \<open>A row of \<open>agent_tokens\<close>; the nullable columns are options.\<close>

record token_row =
  k_token :: string
  k_hash :: "string option"
  k_device :: string
  k_host :: string
  k_tenant :: "string option"
  k_created :: unix
  k_expires :: unix
  k_superseded :: unix
  k_prev_hash :: "string option"
  k_prev_rotated :: "unix option"
  k_legacy :: int

record device_auth =
  d_last_seen :: "unix option"
  d_bypass_used :: int

record agent_state =
  cache :: "string \<rightharpoonup> agent_token"
  tokens :: "token_row list"
  devices :: "string \<rightharpoonup> device_auth"

definition HashToken :: "crypto_prims \<Rightarrow> string \<Rightarrow> string" where
  "HashToken P token = hexEncode (sha256 P token)"

definition AgentTokenSupersedeWindow :: int where "AgentTokenSupersedeWindow = 60"
definition AgentPoPGraceWindow :: int where "AgentPoPGraceWindow = 60"

definition or_default :: "string \<Rightarrow> string" where
  "or_default t = (if t = [] then ''default'' else t)"

text \<open>The active rows of a (tenant, device, hostname), and the newest of some rows.\<close>

definition same_agent :: "string \<Rightarrow> string \<Rightarrow> string \<Rightarrow> token_row \<Rightarrow> bool" where
  "same_agent tid did host r = (k_tenant r = Some tid \<and> k_device r = did \<and> k_host r = host)"

definition active_row :: "string \<Rightarrow> string \<Rightarrow> string \<Rightarrow> token_row \<Rightarrow> bool" where
  "active_row tid did host r = (same_agent tid did host r \<and> k_superseded r = 0)"

definition newest :: "token_row list \<Rightarrow> token_row option" where
  "newest rs = (case sort_key (\<lambda>r. - k_created r) rs of [] \<Rightarrow> None | r # _ \<Rightarrow> Some r)"

section \<open>Proof of possession\<close>

datatype PoPVerdict = PoPNoPriorToken | PoPAcceptCurrent | PoPAcceptGraceRotationAck
  | PoPAcceptGraceCrashRecovery | PoPReject

fun verdict_String :: "PoPVerdict \<Rightarrow> string" where
  "verdict_String PoPNoPriorToken = ''no_prior_token''"
| "verdict_String PoPAcceptCurrent = ''current_token''"
| "verdict_String PoPAcceptGraceRotationAck = ''grace_window_used_rotation_ack''"
| "verdict_String PoPAcceptGraceCrashRecovery = ''grace_window_used_crash_recovery''"
| "verdict_String PoPReject = ''rejected''"

text \<open>The byte loop \<open>diff |= a[i] ^ b[i]\<close>.\<close>

definition byte_of :: "char \<Rightarrow> 8 word" where
  "byte_of c = of_nat (of_char c)"

fun diff_loop :: "string \<Rightarrow> string \<Rightarrow> 8 word \<Rightarrow> 8 word" where
  "diff_loop (a # as) (b # bs) diff = diff_loop as bs (diff OR (byte_of a XOR byte_of b))"
| "diff_loop _ _ diff = diff"

definition subtleConstantTimeEqual :: "string \<Rightarrow> string \<Rightarrow> bool" where
  "subtleConstantTimeEqual a b = (if length a \<noteq> length b then False else diff_loop a b 0 = 0)"

definition VerifyAgentPoP ::
  "crypto_prims \<Rightarrow> unix \<Rightarrow> bool \<Rightarrow> bool \<Rightarrow> agent_state \<Rightarrow> string \<Rightarrow> string \<Rightarrow> string \<Rightarrow> string \<Rightarrow> PoPVerdict"
where
  "VerifyAgentPoP P now tok_up dev_up s tenantID deviceID hostname presentedToken =
     (let tenantID = or_default tenantID in
      if \<not> tok_up then PoPReject
      else case newest (filter (active_row tenantID deviceID hostname) (tokens s)) of
        None \<Rightarrow> PoPNoPriorToken
      | Some row \<Rightarrow>
         (case k_hash row of
           None \<Rightarrow> PoPReject
         | Some currentHash \<Rightarrow>
            if presentedToken = [] then PoPReject
            else let presentedHash = HashToken P presentedToken in
            if subtleConstantTimeEqual presentedHash currentHash then PoPAcceptCurrent
            else (case (k_prev_hash row, k_prev_rotated row) of
                (Some previousHash, Some previousRotatedAt) \<Rightarrow>
                  if \<not> subtleConstantTimeEqual presentedHash previousHash then PoPReject
                  else if now - previousRotatedAt \<ge> AgentPoPGraceWindow then PoPReject
                  else if \<not> dev_up then PoPAcceptGraceRotationAck
                  else (case devices s deviceID of
                      None \<Rightarrow> PoPAcceptGraceRotationAck
                    | Some d \<Rightarrow> (case d_last_seen d of
                          Some lastSeen \<Rightarrow> if lastSeen > previousRotatedAt
                                           then PoPAcceptGraceRotationAck
                                           else PoPAcceptGraceCrashRecovery
                        | None \<Rightarrow> PoPAcceptGraceCrashRecovery))
              | _ \<Rightarrow> PoPReject)))"

section \<open>The one-time bypass for agents from before proof of possession\<close>

text \<open>\<open>parse\<close> is \<open>time.Parse(time.RFC3339, _)\<close>.\<close>

definition ParseLegacyBypassCutoff ::
  "(string \<Rightarrow> unix option) \<Rightarrow> env \<Rightarrow> (unit, unix \<times> bool) result" where
  "ParseLegacyBypassCutoff parse env =
     (let cutoff = env ''VAPOR_REFUSE_LEGACY_BYPASS_AFTER'' in
      if cutoff = [] then Inr (0, False)
      else case parse cutoff of None \<Rightarrow> Inl () | Some t \<Rightarrow> Inr (t, True))"

definition IsLegacyAgentEligibleForBypass ::
  "(string \<Rightarrow> unix option) \<Rightarrow> env \<Rightarrow> unix \<Rightarrow> bool \<Rightarrow> agent_state \<Rightarrow> string \<Rightarrow> bool" where
  "IsLegacyAgentEligibleForBypass parse env now dev_up s deviceID =
     (case ParseLegacyBypassCutoff parse env of
        Inl _ \<Rightarrow> False
      | Inr (t, isSet) \<Rightarrow>
          if isSet \<and> now > t then False
          else (case select_row dev_up (devices s) deviceID of
              Found d \<Rightarrow> d_bypass_used d = 0
            | _ \<Rightarrow> False))"

definition ActiveTokenIsLegacy :: "bool \<Rightarrow> agent_state \<Rightarrow> string \<Rightarrow> string \<Rightarrow> string \<Rightarrow> bool" where
  "ActiveTokenIsLegacy tok_up s tenantID deviceID hostname =
     (if \<not> tok_up then False
      else case newest (filter (active_row (or_default tenantID) deviceID hostname) (tokens s)) of
        None \<Rightarrow> False
      | Some row \<Rightarrow> k_legacy row = 1)"

definition MarkLegacyBypassConsumed :: "string \<Rightarrow> agent_state \<Rightarrow> agent_state" where
  "MarkLegacyBypassConsumed deviceID s =
     (case devices s deviceID of
        None \<Rightarrow> s
      | Some d \<Rightarrow> s\<lparr>devices := (devices s)(deviceID \<mapsto> d\<lparr>d_bypass_used := 1\<rparr>)\<rparr>)"

text \<open>The conditional update: claimed by the caller whose statement affects one row.\<close>

definition AcquireLegacyBypass :: "bool \<Rightarrow> string \<Rightarrow> agent_state \<Rightarrow> bool \<times> agent_state" where
  "AcquireLegacyBypass dev_up deviceID s =
     (if \<not> dev_up then (False, s)
      else case devices s deviceID of
        None \<Rightarrow> (False, s)
      | Some d \<Rightarrow>
          if d_bypass_used d = 0
          then (True, s\<lparr>devices := (devices s)(deviceID \<mapsto> d\<lparr>d_bypass_used := 1\<rparr>)\<rparr>)
          else (False, s))"

section \<open>Registration of a token\<close>

datatype reg_fault = NoFault | DbNil | BeginFails | PriorReadFails | InsertFails | SupersedeFails
  | CommitFails

text \<open>The supersede mark that the loop over the cache sets.\<close>

definition cache_mark :: "string \<Rightarrow> string \<Rightarrow> string \<Rightarrow> string \<Rightarrow> unix \<Rightarrow> string \<Rightarrow> agent_token \<Rightarrow> agent_token"
where
  "cache_mark tokenHash tid did host supersedeAt h tok =
     (if h \<noteq> tokenHash \<and> TenantID tok = tid \<and> DeviceID tok = did \<and> Hostname tok = host
         \<and> SupersededAt tok = 0
      then tok\<lparr>SupersededAt := supersedeAt\<rparr> else tok)"

text \<open>
  The upsert, in both dialects: SQLite replaces the row with this hash, so that the columns it
  does not name get their defaults; Postgres updates the named columns in place.
\<close>

definition upsert_token :: "bool \<Rightarrow> token_row \<Rightarrow> token_row list \<Rightarrow> token_row list" where
  "upsert_token postgres row tbl =
     (if postgres \<and> (\<exists>r \<in> set tbl. k_hash r = k_hash row)
      then map (\<lambda>r. if k_hash r = k_hash row
                    then row\<lparr>k_token := k_token r, k_legacy := k_legacy r\<rparr> else r) tbl
      else row # filter (\<lambda>r. k_hash r \<noteq> k_hash row) tbl)"

definition supersede_rows :: "string \<Rightarrow> string \<Rightarrow> string \<Rightarrow> string \<Rightarrow> unix \<Rightarrow> token_row list \<Rightarrow> token_row list"
where
  "supersede_rows tokenHash tid did host supersedeAt tbl =
     map (\<lambda>r. if active_row tid did host r \<and> k_hash r \<noteq> Some tokenHash \<and> k_hash r \<noteq> None
              then r\<lparr>k_superseded := supersedeAt\<rparr> else r) tbl"

definition RegisterAgentToken ::
  "crypto_prims \<Rightarrow> bool \<Rightarrow> unix \<Rightarrow> reg_fault \<Rightarrow> string \<Rightarrow> string \<Rightarrow> string \<Rightarrow> string \<Rightarrow> agent_state \<Rightarrow> agent_state"
where
  "RegisterAgentToken P postgres now fault token deviceID hostname tenantID s =
     (let tenantID = or_default tenantID;
          tokenHash = HashToken P token;
          supersedeAt = now + AgentTokenSupersedeWindow;
          expiresAt = now + 90 * 24 * 60 * 60;
          cache' = (\<lambda>h. map_option (cache_mark tokenHash tenantID deviceID hostname supersedeAt h) (cache s h))
                   (tokenHash \<mapsto> \<lparr>TokenHash = tokenHash, DeviceID = deviceID, Hostname = hostname,
                      TenantID = tenantID, ExpiresAt = expiresAt, SupersededAt = 0\<rparr>);
          s' = s\<lparr>cache := cache'\<rparr>
      in if fault \<in> {DbNil, BeginFails, InsertFails, SupersedeFails, CommitFails} then s'
         else let priorHash = (if fault = PriorReadFails then None
                else case newest (filter (\<lambda>r. active_row tenantID deviceID hostname r
                              \<and> k_hash r \<noteq> Some tokenHash \<and> k_hash r \<noteq> None) (tokens s)) of
                       None \<Rightarrow> None
                     | Some r \<Rightarrow> if k_hash r = Some [] then None else k_hash r);
              row = \<lparr>k_token = [], k_hash = Some tokenHash, k_device = deviceID, k_host = hostname,
                     k_tenant = Some tenantID, k_created = now, k_expires = expiresAt,
                     k_superseded = 0, k_prev_hash = priorHash,
                     k_prev_rotated = map_option (\<lambda>_. now) priorHash, k_legacy = 0\<rparr>
              in s'\<lparr>tokens := supersede_rows tokenHash tenantID deviceID hostname supersedeAt
                                (upsert_token postgres row (tokens s))\<rparr>)"

section \<open>Start-up and pruning\<close>

text \<open>One migrated row; the loop visits the rows without a hash and updates by plain token.\<close>

definition migrate_one :: "crypto_prims \<Rightarrow> token_row \<Rightarrow> token_row list \<Rightarrow> token_row list" where
  "migrate_one P r tbl =
     map (\<lambda>q. if k_token q = k_token r
              then q\<lparr>k_hash := Some (HashToken P (k_token r)), k_token := [],
                     k_expires := k_created r + 90 * 24 * 60 * 60\<rparr> else q) tbl"

definition unhashed :: "token_row \<Rightarrow> bool" where
  "unhashed r = (k_hash r = None \<or> k_hash r = Some [])"

definition MigrateLegacyTokens :: "crypto_prims \<Rightarrow> token_row list \<Rightarrow> token_row list" where
  "MigrateLegacyTokens P tbl = fold (migrate_one P) (filter unhashed tbl) tbl"

fun load_rows :: "token_row list \<Rightarrow> (string \<rightharpoonup> agent_token) \<Rightarrow> (string \<rightharpoonup> agent_token)" where
  "load_rows [] c = c"
| "load_rows (r # rs) c =
     (case k_hash r of
        None \<Rightarrow> load_rows rs c
      | Some h \<Rightarrow> load_rows rs (c(h \<mapsto> \<lparr>TokenHash = h, DeviceID = k_device r, Hostname = k_host r,
           TenantID = (case k_tenant r of None \<Rightarrow> ''default'' | Some t \<Rightarrow> t),
           ExpiresAt = k_expires r, SupersededAt = k_superseded r\<rparr>)))"

definition LoadAgentTokens :: "crypto_prims \<Rightarrow> agent_state \<Rightarrow> agent_state" where
  "LoadAgentTokens P s =
     (let tbl = MigrateLegacyTokens P (tokens s)
      in s\<lparr>tokens := tbl, cache := load_rows tbl (cache s)\<rparr>)"

text \<open>A token that the pruner drops at \<open>now\<close>: expired, or past its supersede window.\<close>

definition token_dead :: "unix \<Rightarrow> agent_token \<Rightarrow> bool" where
  "token_dead now tok = (ExpiresAt tok > 0 \<and> now > ExpiresAt tok
     \<or> SupersededAt tok > 0 \<and> now > SupersededAt tok)"

text \<open>One tick of the pruner: the cache first, then the rows with the collected hashes.\<close>

definition pruneExpiredTokens :: "unix \<Rightarrow> agent_state \<Rightarrow> agent_state" where
  "pruneExpiredTokens now s =
     (let toDelete = (\<lambda>h. case cache s h of None \<Rightarrow> False | Some tok \<Rightarrow> token_dead now tok)
      in s\<lparr>cache := (\<lambda>h. if toDelete h then None else cache s h),
           tokens := filter (\<lambda>r. case k_hash r of None \<Rightarrow> True | Some h \<Rightarrow> \<not> toDelete h) (tokens s)\<rparr>)"

section \<open>Comparing hashes\<close>

lemma byte_of_inject: "byte_of a = byte_of b \<longleftrightarrow> a = b"
proof
  assume "byte_of a = byte_of b"
  then have "unat (byte_of a) = unat (byte_of b)" by simp
  moreover have "unat (byte_of c) = of_char c" for c
    by (simp add: byte_of_def unat_of_nat)
  ultimately show "a = b" by simp
qed simp

lemma or_eq_0: "(a OR b = (0 :: 8 word)) \<longleftrightarrow> a = 0 \<and> b = 0"
  by (metis or.left_neutral or.right_neutral word_bw_lcs(2) or_eq_0_iff)

lemma xor_eq_0: "(a XOR b = (0 :: 8 word)) \<longleftrightarrow> a = b"
  by (metis xor.assoc xor.left_neutral xor.right_neutral xor_self_eq)

lemma diff_loop_0:
  "length a = length b \<Longrightarrow> diff_loop a b d = 0 \<longleftrightarrow> d = 0 \<and> a = b"
  by (induction a b d rule: diff_loop.induct) (auto simp: or_eq_0 xor_eq_0 byte_of_inject)

lemma subtleConstantTimeEqual_iff [simp]: "subtleConstantTimeEqual a b \<longleftrightarrow> a = b"
  by (auto simp: subtleConstantTimeEqual_def diff_loop_0)

section \<open>The cache as a copy of the table\<close>

definition token_of :: "token_row \<Rightarrow> agent_token" where
  "token_of r = \<lparr>TokenHash = the (k_hash r), DeviceID = k_device r, Hostname = k_host r,
     TenantID = (case k_tenant r of None \<Rightarrow> ''default'' | Some t \<Rightarrow> t),
     ExpiresAt = k_expires r, SupersededAt = k_superseded r\<rparr>"

definition table_cache :: "token_row list \<Rightarrow> (string \<rightharpoonup> agent_token)" where
  "table_cache tbl = map_of (map (\<lambda>r. (the (k_hash r), token_of r)) tbl)"

definition row_wf :: "token_row \<Rightarrow> bool" where
  "row_wf r = (k_hash r \<noteq> None \<and> k_hash r \<noteq> Some [] \<and> k_tenant r \<noteq> None)"

text \<open>
  The invariant of the table (hashes unique, at most one active row per agent) and of the
  pair of table and cache (the cache is what the table would load).
\<close>

definition tokens_wf :: "token_row list \<Rightarrow> bool" where
  "tokens_wf tbl \<longleftrightarrow> (\<forall>r \<in> set tbl. row_wf r) \<and> distinct (map k_hash tbl)
     \<and> (\<forall>tid did host. \<forall>r \<in> set tbl. \<forall>q \<in> set tbl.
          active_row tid did host r \<longrightarrow> active_row tid did host q \<longrightarrow> r = q)"

definition agent_wf :: "agent_state \<Rightarrow> bool" where
  "agent_wf s \<longleftrightarrow> tokens_wf (tokens s) \<and> cache s = table_cache (tokens s)"

lemma table_cache_Nil [simp]: "table_cache [] = Map.empty"
  by (simp add: table_cache_def)

lemma table_cache_Cons [simp]:
  "table_cache (r # tbl) = (table_cache tbl)(the (k_hash r) \<mapsto> token_of r)"
  by (simp add: table_cache_def)

lemma table_cache_map:
  assumes "\<And>r. r \<in> set tbl \<Longrightarrow> k_hash (f r) = k_hash r"
    and "\<And>r. r \<in> set tbl \<Longrightarrow> token_of (f r) = g (the (k_hash r)) (token_of r)"
  shows "table_cache (map f tbl) h = map_option (g h) (table_cache tbl h)"
  using assms by (induction tbl) auto

lemma table_cache_filter:
  assumes "\<And>r. r \<in> set tbl \<Longrightarrow> p r = q (the (k_hash r))"
  shows "table_cache (filter p tbl) h = (if q h then table_cache tbl h else None)"
  using assms by (induction tbl) auto

lemma table_cache_replace:
  assumes "\<forall>r \<in> set tbl. row_wf r" and "k_hash row = Some h0"
    and "\<And>r. k_hash r = k_hash row \<Longrightarrow> token_of (g r) = token_of row \<and> k_hash (g r) = Some h0"
    and "\<exists>r \<in> set tbl. k_hash r = k_hash row"
  shows "table_cache (map (\<lambda>r. if k_hash r = k_hash row then g r else r) tbl)
           = (table_cache tbl)(h0 \<mapsto> token_of row)"
  using assms
proof (induction tbl)
  case (Cons a tbl)
  show ?case
  proof (cases "\<exists>r \<in> set tbl. k_hash r = k_hash row")
    case True
    with Cons show ?thesis by (auto simp: row_wf_def)
  next
    case False
    with Cons.prems have "k_hash a = k_hash row" by auto
    moreover from False have "map (\<lambda>r. if k_hash r = k_hash row then g r else r) tbl = tbl"
      by (intro map_idI) auto
    ultimately show ?thesis using Cons.prems by (simp add: fun_eq_iff)
  qed
qed simp

lemma table_cache_upsert:
  assumes "\<forall>r \<in> set tbl. row_wf r" and "k_hash row = Some h0"
  shows "table_cache (upsert_token pg row tbl) = (table_cache tbl)(h0 \<mapsto> token_of row)"
proof (cases "pg \<and> (\<exists>r \<in> set tbl. k_hash r = k_hash row)")
  case True
  then show ?thesis
    unfolding upsert_token_def
    by (simp, intro table_cache_replace) (use assms in \<open>auto simp: token_of_def\<close>)
next
  case False
  have "table_cache (filter (\<lambda>r. k_hash r \<noteq> k_hash row) tbl) h
      = (if h \<noteq> h0 then table_cache tbl h else None)" for h
    by (rule table_cache_filter) (use assms in \<open>auto simp: row_wf_def\<close>)
  with False assms show ?thesis
    by (auto simp: upsert_token_def)
qed

lemma load_rows_eq:
  assumes "\<forall>r \<in> set tbl. k_hash r \<noteq> None"
  shows "load_rows tbl c = c ++ map_of (rev (map (\<lambda>r. (the (k_hash r), token_of r)) tbl))"
  using assms
  by (induction tbl arbitrary: c) (auto simp: token_of_def map_add_def fun_eq_iff split: option.splits)

section \<open>The invariant is kept\<close>

definition new_row :: "string \<Rightarrow> unix \<Rightarrow> string \<Rightarrow> string \<Rightarrow> string \<Rightarrow> string option \<Rightarrow> token_row" where
  "new_row tokenHash now did host tid prior =
     \<lparr>k_token = [], k_hash = Some tokenHash, k_device = did, k_host = host, k_tenant = Some tid,
      k_created = now, k_expires = now + 90 * 24 * 60 * 60, k_superseded = 0, k_prev_hash = prior,
      k_prev_rotated = map_option (\<lambda>_. now) prior, k_legacy = 0\<rparr>"

lemma new_row_simps [simp]:
  "k_hash (new_row h now did host tid prior) = Some h"
  "k_tenant (new_row h now did host tid prior) = Some tid"
  "k_superseded (new_row h now did host tid prior) = 0"
  "k_prev_hash (new_row h now did host tid prior) = prior"
  "k_prev_rotated (new_row h now did host tid prior) = map_option (\<lambda>_. now) prior"
  "row_wf (new_row h now did host tid prior) \<longleftrightarrow> h \<noteq> []"
  "active_row tid' did' host' (new_row h now did host tid prior) \<longleftrightarrow> tid' = tid \<and> did' = did \<and> host' = host"
  by (auto simp: new_row_def row_wf_def active_row_def same_agent_def)

lemma set_upsert:
  assumes "r \<in> set (upsert_token pg row tbl)"
  shows "(r \<in> set tbl \<and> k_hash r \<noteq> k_hash row)
       \<or> (\<exists>t l. r = row\<lparr>k_token := t, k_legacy := l\<rparr>)"
proof -
  have "row = row\<lparr>k_token := k_token row, k_legacy := k_legacy row\<rparr>" by simp
  then have self: "\<exists>t l. row = row\<lparr>k_token := t, k_legacy := l\<rparr>" by (intro exI)
  show ?thesis
  proof (cases "pg \<and> (\<exists>r \<in> set tbl. k_hash r = k_hash row)")
    case True
    with assms show ?thesis by (auto simp: upsert_token_def)
  next
    case False
    with assms have "r = row \<or> r \<in> set tbl \<and> k_hash r \<noteq> k_hash row" by (auto simp: upsert_token_def)
    with self show ?thesis by blast
  qed
qed

lemma map_hash_upsert:
  "map k_hash (upsert_token pg row tbl) =
     (if pg \<and> k_hash row \<in> set (map k_hash tbl) then map k_hash tbl
      else k_hash row # filter (\<lambda>h. h \<noteq> k_hash row) (map k_hash tbl))"
proof (cases "pg \<and> k_hash row \<in> k_hash ` set tbl")
  case True
  then have "\<exists>r \<in> set tbl. k_hash r = k_hash row" by (metis imageE)
  with True show ?thesis by (simp add: upsert_token_def)
next
  case False
  then have "\<not> (pg \<and> (\<exists>r \<in> set tbl. k_hash r = k_hash row))" by (auto simp: image_iff)
  with False show ?thesis by (auto simp: upsert_token_def filter_map o_def)
qed

lemma distinct_upsert: "distinct (map k_hash tbl) \<Longrightarrow> distinct (map k_hash (upsert_token pg row tbl))"
  by (simp add: map_hash_upsert)

lemma hash_in_upsert: "k_hash row \<in> set (map k_hash (upsert_token pg row tbl))"
  by (simp add: map_hash_upsert)

lemma map_hash_supersede [simp]: "map k_hash (supersede_rows h tid did host t tbl) = map k_hash tbl"
  by (simp add: supersede_rows_def)

text \<open>What is active after a rotation: the new row, and the active rows of other agents.\<close>

lemma active_after_rotation:
  assumes wf: "\<forall>r \<in> set tbl. row_wf r" and t: "t \<noteq> 0" and h: "h \<noteq> []"
    and r: "r \<in> set (supersede_rows h tid did host t (upsert_token pg (new_row h now did host tid prior) tbl))"
    and act: "active_row tid' did' host' r"
  shows "(tid' = tid \<and> did' = did \<and> host' = host \<and> k_hash r = Some h)
       \<or> ((tid', did', host') \<noteq> (tid, did, host) \<and> r \<in> set tbl)"
proof -
  from r obtain q where q: "q \<in> set (upsert_token pg (new_row h now did host tid prior) tbl)"
    and r_def: "r = (if active_row tid did host q \<and> k_hash q \<noteq> Some h \<and> k_hash q \<noteq> None
                     then q\<lparr>k_superseded := t\<rparr> else q)"
    by (auto simp: supersede_rows_def)
  from act t have rq: "r = q" and cond: "\<not> (active_row tid did host q \<and> k_hash q \<noteq> Some h \<and> k_hash q \<noteq> None)"
    by (auto simp: r_def active_row_def split: if_splits)
  from set_upsert [OF q] show ?thesis
  proof (elim disjE conjE exE)
    assume "q \<in> set tbl" and "k_hash q \<noteq> k_hash (new_row h now did host tid prior)"
    with cond wf act rq show ?thesis by (auto simp: row_wf_def)
  next
    fix a l
    assume "q = new_row h now did host tid prior\<lparr>k_token := a, k_legacy := l\<rparr>"
    with act rq show ?thesis by (auto simp: active_row_def same_agent_def new_row_def)
  qed
qed

lemma row_wf_update [simp]: "row_wf (r\<lparr>k_superseded := t\<rparr>) = row_wf r" "row_wf (r\<lparr>k_token := a, k_legacy := l\<rparr>) = row_wf r"
  by (simp_all add: row_wf_def)

lemma tokens_wf_rotation:
  assumes wf: "tokens_wf tbl" and t: "t \<noteq> 0" and h: "h \<noteq> []"
  shows "tokens_wf (supersede_rows h tid did host t (upsert_token pg (new_row h now did host tid prior) tbl))"
    (is "tokens_wf ?tbl")
proof -
  have wfr: "\<forall>r \<in> set tbl. row_wf r" and dist: "distinct (map k_hash tbl)"
    and uniq: "\<And>tid did host r q. r \<in> set tbl \<Longrightarrow> q \<in> set tbl \<Longrightarrow> active_row tid did host r \<Longrightarrow>
       active_row tid did host q \<Longrightarrow> r = q"
    using wf by (auto simp: tokens_wf_def)
  have d: "distinct (map k_hash ?tbl)" using dist by (simp add: distinct_upsert)
  then have inj: "inj_on k_hash (set ?tbl)" by (simp only: distinct_map)
  have rows: "\<forall>r \<in> set ?tbl. row_wf r"
    using wfr h by (auto simp: supersede_rows_def dest!: set_upsert)
  have "r = q" if "r \<in> set ?tbl" "q \<in> set ?tbl" and a: "active_row tid' did' host' r"
    "active_row tid' did' host' q" for tid' did' host' r q
    using active_after_rotation [OF wfr t h that(1) a(1)] active_after_rotation [OF wfr t h that(2) a(2)]
  proof (elim disjE conjE)
    assume "k_hash r = Some h" "k_hash q = Some h"
    then show ?thesis using inj_onD [OF inj] that by simp
  next
    assume "r \<in> set tbl" "q \<in> set tbl"
    then show ?thesis using uniq a by blast
  qed auto
  with d rows show ?thesis by (auto simp: tokens_wf_def)
qed

lemma token_of_new_row:
  "token_of (new_row h now did host tid prior) = \<lparr>TokenHash = h, DeviceID = did, Hostname = host,
     TenantID = tid, ExpiresAt = now + 90 * 24 * 60 * 60, SupersededAt = 0\<rparr>"
  by (simp add: token_of_def new_row_def)

lemma upsert_rows_wf:
  assumes "\<forall>r \<in> set tbl. row_wf r" and "row_wf row"
  shows "\<forall>r \<in> set (upsert_token pg row tbl). row_wf r"
  using assms by (auto dest!: set_upsert)

lemma table_cache_supersede:
  assumes "\<forall>r \<in> set tbl. row_wf r"
  shows "table_cache (supersede_rows h tid did host t tbl)
       = (\<lambda>g. map_option (cache_mark h tid did host t g) (table_cache tbl g))"
proof
  fix g
  show "table_cache (supersede_rows h tid did host t tbl) g
      = map_option (cache_mark h tid did host t g) (table_cache tbl g)"
    unfolding supersede_rows_def
  proof (rule table_cache_map)
    fix r
    assume "r \<in> set tbl"
    with assms show "token_of (if active_row tid did host r \<and> k_hash r \<noteq> Some h \<and> k_hash r \<noteq> None
          then r\<lparr>k_superseded := t\<rparr> else r)
        = cache_mark h tid did host t (the (k_hash r)) (token_of r)"
      by (cases r) (auto simp: row_wf_def token_of_def cache_mark_def active_row_def same_agent_def)
  qed simp
qed

lemma HashToken_nonempty: "prims_ok P \<Longrightarrow> HashToken P tok \<noteq> []"
  unfolding HashToken_def prims_ok_def using length_hexEncode [of "sha256 P tok"] by auto

lemma newest_in: "newest rs = Some r \<Longrightarrow> r \<in> set rs"
  unfolding newest_def using set_sort [of "\<lambda>r. - k_created r" rs]
  by (metis list.case_eq_if list.set_sel(1) option.distinct(1) option.inject)

lemma newest_None: "newest rs = None \<longleftrightarrow> rs = []"
proof -
  have "sort_key (\<lambda>r. - k_created r) rs = [] \<longleftrightarrow> rs = []" by (metis set_empty set_sort)
  then show ?thesis by (auto simp: newest_def split: list.splits)
qed

text \<open>With at most one match, the newest match is the match.\<close>

lemma newest_unique:
  assumes "r \<in> set tbl" and "p r" and "\<And>q. q \<in> set tbl \<Longrightarrow> p q \<Longrightarrow> q = r"
  shows "newest (filter p tbl) = Some r"
proof (cases "newest (filter p tbl)")
  case None
  with assms(1,2) show ?thesis by (auto simp: newest_None filter_empty_conv)
next
  case (Some q)
  then have "q \<in> set tbl" and "p q" using newest_in [OF Some] by auto
  then have "q = r" by (rule assms(3))
  with Some show ?thesis by simp
qed

text \<open>A registration whose statements all succeed.\<close>

lemma Register_ok:
  assumes "agent_wf s" and "prims_ok P"
  obtains prior where "RegisterAgentToken P pg now NoFault token did host tid s =
      s\<lparr>cache := cache (RegisterAgentToken P pg now NoFault token did host tid s),
        tokens := supersede_rows (HashToken P token) (or_default tid) did host (now + 60)
          (upsert_token pg (new_row (HashToken P token) now did host (or_default tid) prior) (tokens s))\<rparr>"
    and "prior = (case newest (filter (\<lambda>r. active_row (or_default tid) did host r
            \<and> k_hash r \<noteq> Some (HashToken P token)) (tokens s)) of None \<Rightarrow> None | Some r \<Rightarrow> k_hash r)"
proof -
  have wf: "\<forall>r \<in> set (tokens s). k_hash r \<noteq> None \<and> k_hash r \<noteq> Some []"
    using assms by (auto simp: agent_wf_def tokens_wf_def row_wf_def)
  then have f: "filter (\<lambda>r. active_row (or_default tid) did host r \<and> k_hash r \<noteq> Some (HashToken P token)
        \<and> k_hash r \<noteq> None) (tokens s)
      = filter (\<lambda>r. active_row (or_default tid) did host r \<and> k_hash r \<noteq> Some (HashToken P token)) (tokens s)"
    by (intro filter_cong) auto
  have nw: "newest (filter p (tokens s)) = Some r \<Longrightarrow> k_hash r \<noteq> Some []" for p r
    using newest_in [of "filter p (tokens s)" r] wf by auto
  show ?thesis
    by (rule that [OF _ refl], unfold RegisterAgentToken_def Let_def f)
      (auto simp: new_row_def AgentTokenSupersedeWindow_def dest: nw split: option.splits)
qed

lemma Register_tokens:
  assumes "agent_wf s" and "prims_ok P"
  obtains prior where "tokens (RegisterAgentToken P pg now NoFault token did host tid s) =
        supersede_rows (HashToken P token) (or_default tid) did host (now + 60)
          (upsert_token pg (new_row (HashToken P token) now did host (or_default tid) prior) (tokens s))"
    and "prior = (case newest (filter (\<lambda>r. active_row (or_default tid) did host r
            \<and> k_hash r \<noteq> Some (HashToken P token)) (tokens s)) of None \<Rightarrow> None | Some r \<Rightarrow> k_hash r)"
proof (rule Register_ok [OF assms, of pg now token did host tid])
  fix prior
  let ?X = "RegisterAgentToken P pg now NoFault token did host tid s"
  let ?T = "supersede_rows (HashToken P token) (or_default tid) did host (now + 60)
          (upsert_token pg (new_row (HashToken P token) now did host (or_default tid) prior) (tokens s))"
  assume eq: "?X = s\<lparr>cache := cache ?X, tokens := ?T\<rparr>"
    and prior: "prior = (case newest (filter (\<lambda>r. active_row (or_default tid) did host r
            \<and> k_hash r \<noteq> Some (HashToken P token)) (tokens s)) of None \<Rightarrow> None | Some r \<Rightarrow> k_hash r)"
  have "tokens ?X = ?T" using arg_cong [OF eq, of tokens] by simp
  then show thesis using prior by (rule that)
qed

lemma Register_devices [simp]: "devices (RegisterAgentToken P pg now fault token did host tid s) = devices s"
  by (simp add: RegisterAgentToken_def Let_def)

lemma Register_wf:
  assumes wf: "agent_wf s" and P: "prims_ok P" and now: "0 \<le> now"
  shows "agent_wf (RegisterAgentToken P pg now NoFault token did host tid s)"
proof -
  let ?h = "HashToken P token" and ?t = "or_default tid"
  have rows: "\<forall>r \<in> set (tokens s). row_wf r" and c: "cache s = table_cache (tokens s)"
    using wf by (auto simp: agent_wf_def tokens_wf_def)
  obtain prior where eq: "RegisterAgentToken P pg now NoFault token did host tid s =
      s\<lparr>cache := cache (RegisterAgentToken P pg now NoFault token did host tid s),
        tokens := supersede_rows ?h ?t did host (now + 60) (upsert_token pg (new_row ?h now did host ?t prior) (tokens s))\<rparr>"
    using Register_ok [OF wf P] by blast
  let ?row = "new_row ?h now did host ?t prior"
  have T: "tokens_wf (tokens (RegisterAgentToken P pg now NoFault token did host tid s))"
    using wf now by (subst eq) (simp add: agent_wf_def tokens_wf_rotation HashToken_nonempty [OF P])
  have "\<forall>r \<in> set (upsert_token pg ?row (tokens s)). row_wf r"
    by (rule upsert_rows_wf [OF rows]) (simp add: HashToken_nonempty [OF P])
  note tc = table_cache_supersede [OF this, of ?h ?t did host "now + 60",
      unfolded table_cache_upsert [OF rows new_row_simps(1)]]
  have "table_cache (tokens (RegisterAgentToken P pg now NoFault token did host tid s))
      = (\<lambda>g. map_option (cache_mark ?h ?t did host (now + 60) g)
               (((table_cache (tokens s))(?h \<mapsto> token_of ?row)) g))"
    by (subst eq) (simp add: tc)

  also have "\<dots> = cache (RegisterAgentToken P pg now NoFault token did host tid s)"
    by (rule ext) (simp add: RegisterAgentToken_def Let_def c token_of_new_row cache_mark_def
        AgentTokenSupersedeWindow_def)
  finally show ?thesis using T by (simp add: agent_wf_def)
qed

lemma prune_wf:
  assumes "agent_wf s"
  shows "agent_wf (pruneExpiredTokens now s)"
proof -
  let ?dead = "\<lambda>h. case cache s h of None \<Rightarrow> False | Some tok \<Rightarrow> token_dead now tok"
  let ?keep = "\<lambda>r. case k_hash r of None \<Rightarrow> True | Some h \<Rightarrow> \<not> ?dead h"
  have rows: "\<forall>r \<in> set (tokens s). row_wf r" and c: "cache s = table_cache (tokens s)"
    using assms by (auto simp: agent_wf_def tokens_wf_def)
  have "table_cache (filter ?keep (tokens s)) h = (if \<not> ?dead h then table_cache (tokens s) h else None)" for h
    by (rule table_cache_filter) (use rows in \<open>auto simp: row_wf_def\<close>)
  then have "table_cache (filter ?keep (tokens s)) = cache (pruneExpiredTokens now s)"
    by (auto simp: pruneExpiredTokens_def c)
  moreover have "tokens_wf (filter ?keep (tokens s))"
    using assms by (auto simp: agent_wf_def tokens_wf_def distinct_map inj_on_def)
  ultimately show ?thesis by (simp add: agent_wf_def pruneExpiredTokens_def Let_def)
qed

lemma migrate_wf_id: "tokens_wf tbl \<Longrightarrow> MigrateLegacyTokens P tbl = tbl"
proof -
  assume "tokens_wf tbl"
  then have "filter unhashed tbl = []"
    by (auto simp: tokens_wf_def row_wf_def unhashed_def filter_empty_conv)
  then show ?thesis by (simp add: MigrateLegacyTokens_def)
qed

text \<open>A restart (empty cache, then \<open>LoadAgentTokens\<close>) restores exactly the cache.\<close>

lemma restart_id:
  assumes "agent_wf s"
  shows "LoadAgentTokens P (s\<lparr>cache := Map.empty\<rparr>) = s"
proof -
  let ?kv = "map (\<lambda>r. (the (k_hash r), token_of r)) (tokens s)"
  have wf: "tokens_wf (tokens s)" using assms by (simp add: agent_wf_def)
  then have "distinct (map k_hash (tokens s))" "\<forall>r \<in> set (tokens s). k_hash r \<noteq> None"
    by (auto simp: tokens_wf_def row_wf_def)
  then have "distinct (map (the \<circ> k_hash) (tokens s))"
    by (auto simp: distinct_map inj_on_def) (metis option.sel)
  then have d: "distinct (map fst ?kv)"
    by (simp add: o_def)
  then have "map_of (rev ?kv) = map_of ?kv"
    by (rule map_of_rev_distinct)
  with assms wf show ?thesis
    by (simp add: LoadAgentTokens_def migrate_wf_id load_rows_eq tokens_wf_def row_wf_def
        agent_wf_def table_cache_def)
qed

section \<open>What a rotation leaves behind\<close>

lemma in_upsert:
  obtains r a l where "r \<in> set (upsert_token pg row tbl)" and "r = row\<lparr>k_token := a, k_legacy := l\<rparr>"
    and "\<not> pg \<Longrightarrow> l = k_legacy row" and "\<forall>q \<in> set tbl. k_hash q \<noteq> k_hash row \<Longrightarrow> l = k_legacy row"
proof (cases "pg \<and> (\<exists>r \<in> set tbl. k_hash r = k_hash row)")
  case True
  then obtain q where "q \<in> set tbl" "k_hash q = k_hash row" by blast
  then show ?thesis
    using True by (intro that [where r = "row\<lparr>k_token := k_token q, k_legacy := k_legacy q\<rparr>"
          and a = "k_token q" and l = "k_legacy q"])
      (auto simp: upsert_token_def image_iff intro!: bexI [of _ q])
next
  case False
  then show ?thesis
    by (intro that [where r = row and a = "k_token row" and l = "k_legacy row"])
      (auto simp: upsert_token_def)
qed

lemma rotation_current:
  assumes wf: "tokens_wf tbl" and t: "t \<noteq> 0" and h: "h \<noteq> []"
    and tbl': "tbl' = supersede_rows h tid did host t (upsert_token pg (new_row h now did host tid prior) tbl)"
  obtains r where "newest (filter (active_row tid did host) tbl') = Some r" and "k_hash r = Some h"
    and "k_prev_hash r = prior" and "k_prev_rotated r = map_option (\<lambda>_. now) prior"
    and "\<not> pg \<or> (\<forall>q \<in> set tbl. k_hash q \<noteq> Some h) \<Longrightarrow> k_legacy r = 0"
proof -
  let ?row = "new_row h now did host tid prior"
  obtain r l a where r: "r \<in> set (upsert_token pg ?row tbl)" and rd: "r = ?row\<lparr>k_token := a, k_legacy := l\<rparr>"
    and l: "\<not> pg \<or> (\<forall>q \<in> set tbl. k_hash q \<noteq> Some h) \<Longrightarrow> l = 0"
    using in_upsert [of pg ?row tbl] by (metis new_row_def new_row_simps(1) token_row.select_convs(11))
  have rh: "k_hash r = Some h" and act: "active_row tid did host r"
    by (auto simp: rd active_row_def same_agent_def new_row_def)
  have r': "r \<in> set tbl'"
    unfolding tbl' supersede_rows_def using r rh by (auto simp: image_iff intro!: bexI [of _ r])
  have "tokens_wf tbl'" unfolding tbl' by (rule tokens_wf_rotation [OF wf t h])
  then have u: "\<And>q. q \<in> set tbl' \<Longrightarrow> active_row tid did host q \<Longrightarrow> q = r"
    using r' act unfolding tokens_wf_def by blast
  show ?thesis
    by (rule that [OF newest_unique [of r tbl' "active_row tid did host", OF r' act u]])
      (use rd l in \<open>auto simp: new_row_def\<close>)
qed

lemma prior_active:
  assumes wf: "tokens_wf tbl" and r: "r \<in> set tbl" "active_row tid did host r" "k_hash r = Some h0" "h0 \<noteq> h"
  shows "newest (filter (\<lambda>q. active_row tid did host q \<and> k_hash q \<noteq> Some h) tbl) = Some r"
proof (rule newest_unique)
  fix q
  assume "q \<in> set tbl" "active_row tid did host q \<and> k_hash q \<noteq> Some h"
  with wf r show "q = r" unfolding tokens_wf_def by blast
qed (use r in auto)

text \<open>
  After a re-registration that rotates an agent's token, proof of possession accepts the new
  token at any time, accepts the token it replaced for strictly less than 60 seconds - telling a
  late acknowledgement from a crash by whether the device was seen since the rotation - and
  rejects every other token and the empty one. The database dialect makes no difference.
\<close>

theorem pop_rotation_window:
  assumes wf: "agent_wf s" and P: "prims_ok P" and now0: "0 \<le> now0"
    and r: "r \<in> set (tokens s)" "active_row (or_default tid) did host r"
    and h0: "k_hash r = Some h0" "h0 \<noteq> HashToken P token"
    and s': "s' = (RegisterAgentToken P pg now0 NoFault token did host tid s)\<lparr>devices := D\<rparr>"
  shows "VerifyAgentPoP P now True dev_up s' tid did host presented =
    (if presented = [] then PoPReject
     else if HashToken P presented = HashToken P token then PoPAcceptCurrent
     else if HashToken P presented = h0 \<and> now - now0 < 60
       then (case (if dev_up then D did else None) of
               None \<Rightarrow> PoPAcceptGraceRotationAck
             | Some d \<Rightarrow> if (case d_last_seen d of None \<Rightarrow> False | Some l \<Rightarrow> now0 < l)
                       then PoPAcceptGraceRotationAck else PoPAcceptGraceCrashRecovery)
     else PoPReject)"
proof -
  let ?h = "HashToken P token" and ?t = "or_default tid"
  have twf: "tokens_wf (tokens s)" using wf by (simp add: agent_wf_def)
  obtain prior where tk: "tokens s' = supersede_rows ?h ?t did host (now0 + 60)
        (upsert_token pg (new_row ?h now0 did host ?t prior) (tokens s))"
    and prior: "prior = (case newest (filter (\<lambda>r. active_row ?t did host r \<and> k_hash r \<noteq> Some ?h)
        (tokens s)) of None \<Rightarrow> None | Some r \<Rightarrow> k_hash r)"
    by (rule Register_tokens [OF wf P, of pg now0 token did host tid]) (simp add: s')
  have prior0: "prior = Some h0" using prior_active [OF twf r h0] h0 by (simp add: prior)
  have t0: "now0 + 60 \<noteq> 0" using now0 by simp
  obtain q where q: "newest (filter (active_row ?t did host) (tokens s')) = Some q"
      "k_hash q = Some ?h" "k_prev_hash q = Some h0" "k_prev_rotated q = Some now0"
    by (rule rotation_current [OF twf t0 HashToken_nonempty [OF P] tk]) (simp add: prior0)
  have D: "devices s' = D" by (simp add: s')
  have "VerifyAgentPoP P now True dev_up s' tid did host presented =
     (if presented = [] then PoPReject
      else if HashToken P presented = ?h then PoPAcceptCurrent
      else if HashToken P presented \<noteq> h0 then PoPReject
      else if 60 \<le> now - now0 then PoPReject
      else if \<not> dev_up then PoPAcceptGraceRotationAck
      else (case D did of None \<Rightarrow> PoPAcceptGraceRotationAck
            | Some d \<Rightarrow> (case d_last_seen d of
                  Some l \<Rightarrow> if now0 < l then PoPAcceptGraceRotationAck else PoPAcceptGraceCrashRecovery
                | None \<Rightarrow> PoPAcceptGraceCrashRecovery)))"
    unfolding VerifyAgentPoP_def Let_def D AgentPoPGraceWindow_def by (simp add: q)
  then show ?thesis
    by (cases dev_up; cases "D did") (simp_all split: option.split)
qed

definition empty_state :: agent_state where
  "empty_state = \<lparr>cache = Map.empty, tokens = [], devices = Map.empty\<rparr>"

lemma empty_wf: "agent_wf empty_state"
  by (simp add: empty_state_def agent_wf_def tokens_wf_def)

lemma first_registration:
  "tokens (RegisterAgentToken P pg now NoFault token did host tid empty_state)
     = [new_row (HashToken P token) now did host (or_default tid) None]"
  by (simp add: RegisterAgentToken_def Let_def empty_state_def newest_def upsert_token_def
      supersede_rows_def new_row_def)

lemma toy_hash_apart: "HashToken toy_prims ''old'' \<noteq> HashToken toy_prims ''fresh''"
  by (simp add: HashToken_def hexEncode_inject toy_prims_def toy_hash_def)

lemma pop_rotation_window_witness:
  "VerifyAgentPoP toy_prims 1059 True True
     ((RegisterAgentToken toy_prims False 1000 NoFault ''fresh'' ''d1'' ''host'' ''t1''
        (RegisterAgentToken toy_prims False 500 NoFault ''old'' ''d1'' ''host'' ''t1'' empty_state))
      \<lparr>devices := [''d1'' \<mapsto> \<lparr>d_last_seen = Some 900, d_bypass_used = 0\<rparr>]\<rparr>)
     ''t1'' ''d1'' ''host'' ''old'' = PoPAcceptGraceCrashRecovery"
proof -
  let ?s = "RegisterAgentToken toy_prims False 500 NoFault ''old'' ''d1'' ''host'' ''t1'' empty_state"
  let ?r = "new_row (HashToken toy_prims ''old'') 500 ''d1'' ''host'' ''t1'' None"
  have wf: "agent_wf ?s" by (intro Register_wf empty_wf prims_ok_toy) simp
  have r: "?r \<in> set (tokens ?s)" by (simp add: first_registration or_default_def)
  have a: "active_row (or_default ''t1'') ''d1'' ''host'' ?r" by (simp add: or_default_def)
  show ?thesis
    by (subst pop_rotation_window [OF wf prims_ok_toy _ r a new_row_simps(1) toy_hash_apart refl])
      (simp_all add: toy_hash_apart)
qed

section \<open>Runs\<close>

datatype token_op = Op_register unix string string string string | Op_prune unix

fun token_step :: "crypto_prims \<Rightarrow> bool \<Rightarrow> token_op \<Rightarrow> agent_state \<Rightarrow> agent_state" where
  "token_step P pg (Op_register now token did host tid) s = RegisterAgentToken P pg now NoFault token did host tid s"
| "token_step P pg (Op_prune now) s = pruneExpiredTokens now s"

definition token_run :: "crypto_prims \<Rightarrow> bool \<Rightarrow> token_op list \<Rightarrow> agent_state \<Rightarrow> agent_state" where
  "token_run P pg ops s = fold (token_step P pg) ops s"

fun op_time :: "token_op \<Rightarrow> unix" where
  "op_time (Op_register now _ _ _ _) = now"
| "op_time (Op_prune now) = now"

lemma token_run_wf:
  assumes "prims_ok P" and "\<forall>op \<in> set ops. 0 \<le> op_time op" and "agent_wf s"
  shows "agent_wf (token_run P pg ops s)"
  using assms(2,3)
proof (induction ops arbitrary: s)
  case (Cons op ops)
  then have "agent_wf (token_step P pg op s)"
    by (cases op) (auto intro: Register_wf prune_wf assms(1))
  with Cons show ?case by (simp add: token_run_def)
qed (simp add: token_run_def)

lemma tokens_wf_one_active:
  assumes "tokens_wf tbl"
  shows "length (filter (active_row tid did host) tbl) \<le> 1"
proof -
  let ?l = "filter (active_row tid did host) tbl"
  have "distinct ?l" using assms by (simp add: tokens_wf_def distinct_map)
  moreover have "\<forall>r \<in> set ?l. \<forall>q \<in> set ?l. r = q"
    using assms unfolding tokens_wf_def by simp blast
  then have "card (set ?l) \<le> 1" by (simp add: card_le_Suc0_iff_eq)
  ultimately show ?thesis using distinct_card [of ?l] by simp
qed



section \<open>The bypass latch\<close>

fun acquire_all :: "string list \<Rightarrow> agent_state \<Rightarrow> bool list" where
  "acquire_all [] s = []"
| "acquire_all (d # ds) s = (case AcquireLegacyBypass True d s of (b, s') \<Rightarrow> b # acquire_all ds s')"

definition grants_to :: "string \<Rightarrow> string list \<Rightarrow> agent_state \<Rightarrow> nat" where
  "grants_to d ds s = length (filter (\<lambda>(x, b). x = d \<and> b) (zip ds (acquire_all ds s)))"

lemma acquire_used [simp]:
  "devices s d = Some r \<Longrightarrow> d_bypass_used r \<noteq> 0 \<Longrightarrow> AcquireLegacyBypass True d s = (False, s)"
  "devices s d = None \<Longrightarrow> AcquireLegacyBypass True d s = (False, s)"
  by (simp_all add: AcquireLegacyBypass_def)

lemma acquire_other: "d' \<noteq> d \<Longrightarrow> devices (snd (AcquireLegacyBypass True d' s)) d = devices s d"
  by (auto simp: AcquireLegacyBypass_def split: option.splits)

lemma grants_used: "devices s d = Some r \<Longrightarrow> d_bypass_used r \<noteq> 0 \<Longrightarrow> grants_to d ds s = 0"
proof (induction ds arbitrary: s)
  case (Cons x ds)
  then have "devices (snd (AcquireLegacyBypass True x s)) d = Some r"
    by (cases "x = d") (simp_all add: acquire_other)
  with Cons show ?case
    by (cases "x = d") (auto simp: grants_to_def split: prod.splits)
qed (simp add: grants_to_def)

text \<open>
  The one-time bypass is granted at most once per device, however many callers ask for it and
  however their requests for different devices interleave; a device that has not consumed it gets
  exactly one grant as soon as one caller asks.
\<close>

theorem bypass_granted_once:
  assumes "devices s d = Some r"
  shows "grants_to d ds s = (if d \<in> set ds \<and> d_bypass_used r = 0 then 1 else 0)"
  using assms
proof (induction ds arbitrary: s)
  case (Cons x ds)
  consider "x = d" "d_bypass_used r = 0" | "x = d" "d_bypass_used r \<noteq> 0" | "x \<noteq> d" by blast
  then show ?case
  proof cases
    case 1
    let ?s = "s\<lparr>devices := (devices s)(d \<mapsto> r\<lparr>d_bypass_used := 1\<rparr>)\<rparr>"
    have "grants_to d ds ?s = 0" by (rule grants_used [where r = "r\<lparr>d_bypass_used := 1\<rparr>"]) simp_all
    moreover have "AcquireLegacyBypass True d s = (True, ?s)"
      using 1 Cons.prems by (simp add: AcquireLegacyBypass_def)
    ultimately show ?thesis using 1 by (simp add: grants_to_def)
  next
    case 2
    with Cons.prems show ?thesis by (simp add: grants_used)
  next
    case 3
    then have "devices (snd (AcquireLegacyBypass True x s)) d = Some r"
      using Cons.prems by (simp add: acquire_other)
    with Cons.IH 3 show ?thesis by (auto simp: grants_to_def split: prod.splits)
  qed
qed (simp add: grants_to_def)

lemma bypass_granted_once_witness:
  "grants_to ''d'' [''d'', ''e'', ''d'']
     (empty_state\<lparr>devices := [''d'' \<mapsto> \<lparr>d_last_seen = None, d_bypass_used = 0\<rparr>]\<rparr>) = 1"
  by (subst bypass_granted_once [where r = "\<lparr>d_last_seen = None, d_bypass_used = 0\<rparr>"]) simp_all

end
