(* ===== verification/AuthMiddleware.thy ===== *)
theory AuthMiddleware
  imports Jwt AgentTokens
begin

text \<open>
  The three authentication middlewares of \<open>internal/auth/auth.go\<close>: admin sessions, portal
  customers and agents.

  \<open>world\<close> holds what a request meets and does not change: environment, clock, JWT library
  and secret, hash functions, and whether the database and Redis answer. \<open>auth_state\<close> holds the
  agent-token store, the session table, the Redis session cache (\<open>None\<close> when Redis is not
  configured; an entry is a user id with an expiry time), the tenants and the portal accounts.
\<close>

record world =
  w_env :: env
  w_now :: unix
  w_prims :: crypto_prims
  w_jwt :: jwt_lib
  w_secret :: string
  w_db_up :: bool
  w_redis_up :: bool

record session_row =
  s_id :: string
  s_user :: string
  s_hash :: string
  s_ip :: string
  s_agent :: string
  s_created :: unix
  s_last_seen :: unix

record customer_row =
  cu_disabled :: int
  cu_device :: "string option"

type_synonym session_cache = "string \<rightharpoonup> (string \<times> unix)"

record auth_state =
  agents :: agent_state
  sessions :: "session_row list"
  redis_sessions :: "session_cache option"
  tenant_tbl :: tenants
  customers :: "string \<times> string \<rightharpoonup> customer_row"

section \<open>The Redis session cache\<close>

definition cache_get :: "world \<Rightarrow> auth_state \<Rightarrow> string \<Rightarrow> string option" where
  "cache_get w s h = (case redis_sessions s of
       None \<Rightarrow> None
     | Some c \<Rightarrow> if \<not> w_redis_up w then None
               else (case c h of None \<Rightarrow> None | Some (u, e) \<Rightarrow> if w_now w < e then Some u else None))"

text \<open>\<open>redis.SetSession\<close>, \<open>redis.DeleteSession\<close>, \<open>redis.DeleteUserSessions\<close>; errors are logged.\<close>

definition SetSession :: "world \<Rightarrow> string \<Rightarrow> string \<Rightarrow> int \<Rightarrow> auth_state \<Rightarrow> auth_state" where
  "SetSession w tokenHash userID ttl s = (case redis_sessions s of
       None \<Rightarrow> s
     | Some c \<Rightarrow> if w_redis_up w then s\<lparr>redis_sessions := Some (c(tokenHash \<mapsto> (userID, w_now w + ttl)))\<rparr> else s)"

definition DeleteSession :: "world \<Rightarrow> string \<Rightarrow> auth_state \<Rightarrow> auth_state" where
  "DeleteSession w tokenHash s = (case redis_sessions s of
       None \<Rightarrow> s
     | Some c \<Rightarrow> if w_redis_up w then s\<lparr>redis_sessions := Some (c(tokenHash := None))\<rparr> else s)"

definition DeleteUserSessions :: "world \<Rightarrow> string \<Rightarrow> auth_state \<Rightarrow> auth_state" where
  "DeleteUserSessions w userID s = (case redis_sessions s of
       None \<Rightarrow> s
     | Some c \<Rightarrow> if w_redis_up w
         then s\<lparr>redis_sessions := Some (\<lambda>h. case c h of None \<Rightarrow> None
                  | Some (u, e) \<Rightarrow> if u = userID then None else Some (u, e))\<rparr> else s)"

section \<open>Reading the token of a request\<close>

text \<open>Cookie first, then the bearer header, with the two refusals of the code.\<close>

definition request_token :: "string \<Rightarrow> http_error \<Rightarrow> request \<Rightarrow> (http_error, string) result" where
  "request_token cookie missing r =
     (if r_cookies r cookie \<noteq> [] then Inr (r_cookies r cookie)
      else let authHeader = r_headers r ''Authorization'' in
        if authHeader = [] then Inl missing
        else if \<not> has_prefix authHeader ''Bearer '' then Inl (HttpError 401 ''Invalid authorization header'')
        else Inr (trim_prefix authHeader ''Bearer ''))"

section \<open>Admin sessions\<close>

definition portal_path :: "string \<Rightarrow> bool" where
  "portal_path path = (path = ''/api/v1/portal'' \<or> has_prefix path ''/api/v1/portal/'')"

definition session_user :: "auth_state \<Rightarrow> string \<Rightarrow> string option" where
  "session_user s tokenHash = map_option s_user (List.find (\<lambda>row. s_hash row = tokenHash) (sessions s))"

definition AuthMiddleware ::
  "world \<Rightarrow> request \<Rightarrow> locals \<Rightarrow> auth_state \<Rightarrow> (http_error, locals) result \<times> auth_state" where
  "AuthMiddleware w r c s =
     (if portal_path (r_path r) then (Inr c, s)
      else case request_token ''auth_token'' (HttpError 401 ''Missing authorization'') r of
        Inl e \<Rightarrow> (Inl e, s)
      | Inr token \<Rightarrow>
        let tokenHash = HashToken (w_prims w) token in
        if cache (agents s) tokenHash \<noteq> None
        then (Inl (HttpError 401 ''Agent tokens cannot access user endpoints''), s)
        else (case ValidateJWT (w_jwt w) (w_secret w) (w_now w) token of
          Inl _ \<Rightarrow> (Inl (HttpError 401 ''Invalid token''), s)
        | Inr (userID, tenantID, role) \<Rightarrow>
          if role = ''totp_pending'' then (Inl (HttpError 401 ''TOTP verification required''), s)
          else
          let cached = (case cache_get w s tokenHash of Some u \<Rightarrow> u | None \<Rightarrow> []) in
          (case (if cached \<noteq> [] then Some (cached, s)
                 else if \<not> w_db_up w then None
                 else map_option (\<lambda>u. (u, SetSession w tokenHash u (24 * 3600) s)) (session_user s tokenHash)) of
             None \<Rightarrow> (Inl (HttpError 401 ''Session revoked''), s)
           | Some (sessionUserID, s) \<Rightarrow>
             if sessionUserID \<noteq> userID then (Inl (HttpError 401 ''Session mismatch''), s)
             else if \<not> IsSuperAdmin role \<and> \<not> TenantAllowed (w_env w) (w_now w) (w_db_up w) (tenant_tbl s) tenantID
             then (Inl (HttpError 403 ''Tenant inactive''), s)
             else (Inr (c\<lparr>l_auth_type := ''user'', l_user_id := userID, l_user_role := role,
                          l_tenant_id := tenantID\<rparr>), s))))"

section \<open>Portal customers\<close>

definition PortalAuthMiddleware ::
  "world \<Rightarrow> request \<Rightarrow> locals \<Rightarrow> auth_state \<Rightarrow> (http_error, locals) result" where
  "PortalAuthMiddleware w r c s =
     (case request_token ''portal_token'' (HttpError 401 ''Missing portal authorization'') r of
        Inl e \<Rightarrow> Inl e
      | Inr token \<Rightarrow>
        guard (cache (agents s) (HashToken (w_prims w) token) = None)
          (HttpError 401 ''agent tokens cannot access portal'')
          (case ValidatePortalJWT (w_jwt w) (w_secret w) (w_now w) token of
             Inl _ \<Rightarrow> Inl (HttpError 401 ''Invalid portal token'')
           | Inr (customerID, tenantID, _) \<Rightarrow>
             (case (if w_db_up w then customers s (customerID, tenantID) else None) of
                None \<Rightarrow> Inl (HttpError 401 ''portal account not found'')
              | Some row \<Rightarrow>
                guard (cu_disabled row \<noteq> 1) (HttpError 403 ''portal account disabled'')
                (guard (TenantAllowed (w_env w) (w_now w) (w_db_up w) (tenant_tbl s) tenantID)
                   (HttpError 403 ''tenant inactive'')
                   (Inr (c\<lparr>l_auth_type := ''portal'', l_customer_id := customerID,
                      l_tenant_id := tenantID,
                      l_customer_device_id := (case cu_device row of None \<Rightarrow> [] | Some d \<Rightarrow> d)\<rparr>))))))"

section \<open>Agents\<close>

definition AgentAuthMiddleware ::
  "world \<Rightarrow> request \<Rightarrow> locals \<Rightarrow> auth_state \<Rightarrow> (http_error, locals) result" where
  "AgentAuthMiddleware w r c s =
     (let authHeader = r_headers r ''Authorization'' in
      guard (authHeader \<noteq> []) (HttpError 401 ''Missing authorization header'')
      (guard (has_prefix authHeader ''Bearer '') (HttpError 401 ''Invalid authorization header'')
       (let tokenHash = HashToken (w_prims w) (trim_prefix authHeader ''Bearer '') in
        case cache (agents s) tokenHash of
          None \<Rightarrow> Inl (HttpError 401 ''Invalid agent token'')
        | Some tok \<Rightarrow>
          guard (\<not> (ExpiresAt tok > 0 \<and> w_now w > ExpiresAt tok)) (HttpError 401 ''Invalid agent token'')
          (guard (\<not> (SupersededAt tok > 0 \<and> w_now w > SupersededAt tok)) (HttpError 401 ''Invalid agent token'')
          (guard (TenantAllowed (w_env w) (w_now w) (w_db_up w) (tenant_tbl s) (TenantID tok))
             (HttpError 403 ''Tenant inactive'')
             (Inr (c\<lparr>l_device_id := DeviceID tok, l_hostname := Hostname tok, l_tenant_id := TenantID tok\<rparr>)))))))"

section \<open>The first administrator\<close>

record user_row =
  u_id :: string
  u_email :: string
  u_pwhash :: string
  u_name :: string
  u_role :: string
  u_created :: unix
  u_tenant :: "string option"
  u_last_login :: "unix option"

datatype admin_outcome = Admin_unchanged | Admin_exit | Admin_created user_row string

text \<open>
  \<open>random16\<close> is the base64 text of the 16 random bytes, \<open>bcrypt\<close> the hash function with its
  failure, \<open>insert_ok\<close> whether the insert succeeds. The result carries the password.
\<close>

definition CreateDefaultAdmin ::
  "world \<Rightarrow> (string \<Rightarrow> string option) \<Rightarrow> string \<Rightarrow> string \<Rightarrow> bool \<Rightarrow> user_row list \<Rightarrow> admin_outcome" where
  "CreateDefaultAdmin w bcrypt random16 uuid insert_ok users =
     (if \<not> w_db_up w \<or> users \<noteq> [] then Admin_unchanged
      else let generated = (w_env w ''ADMIN_PASSWORD'' = []);
               password = (if generated then random16 else w_env w ''ADMIN_PASSWORD'')
           in if \<not> generated \<and> ValidatePasswordStrength password \<noteq> Inr () then Admin_exit
              else case bcrypt password of
                None \<Rightarrow> Admin_unchanged
              | Some hashedPassword \<Rightarrow>
                  if \<not> insert_ok then Admin_unchanged
                  else Admin_created \<lparr>u_id = uuid, u_email = ''admin@vaporrmm.local'',
                    u_pwhash = hashedPassword, u_name = ''Admin'', u_role = ''super_admin'',
                    u_created = w_now w, u_tenant = Some ''default'',
                    u_last_login = None\<rparr> password)"

section \<open>What an admitted request has shown\<close>

text \<open>The session evidence: a cached session, or a session row, of this user.\<close>

definition live_session :: "world \<Rightarrow> auth_state \<Rightarrow> string \<Rightarrow> string \<Rightarrow> bool" where
  "live_session w s tokenHash userID =
     (cache_get w s tokenHash = Some userID \<and> userID \<noteq> []
      \<or> w_db_up w \<and> session_user s tokenHash = Some userID)"

lemma SetSession_frame [simp, frame_simps]:
  "agents (SetSession w h u ttl s) = agents s"
  "sessions (SetSession w h u ttl s) = sessions s"
  "tenant_tbl (SetSession w h u ttl s) = tenant_tbl s"
  "customers (SetSession w h u ttl s) = customers s"
  by (simp_all add: SetSession_def split: option.split)

lemma AuthMiddleware_portal: "portal_path (r_path r) \<Longrightarrow> AuthMiddleware w r c s = (Inr c, s)"
  by (simp add: AuthMiddleware_def)

lemma AuthMiddleware_admits:
  assumes "fst (AuthMiddleware w r c s) = Inr c'" and "\<not> portal_path (r_path r)"
  obtains tok u t role where
    "request_token ''auth_token'' (HttpError 401 ''Missing authorization'') r = Inr tok"
    "cache (agents s) (HashToken (w_prims w) tok) = None"
    "ValidateJWT (w_jwt w) (w_secret w) (w_now w) tok = Inr (u, t, role)"
    "role \<noteq> ''totp_pending''"
    "live_session w s (HashToken (w_prims w) tok) u"
    "IsSuperAdmin role \<or> TenantAllowed (w_env w) (w_now w) (w_db_up w) (tenant_tbl s) t"
    "c' = c\<lparr>l_auth_type := ''user'', l_user_id := u, l_user_role := role, l_tenant_id := t\<rparr>"
proof -
  let ?T = "request_token ''auth_token'' (HttpError 401 ''Missing authorization'') r"
  from assms obtain tok where tok: "?T = Inr tok"
    by (cases ?T) (simp_all add: AuthMiddleware_def)
  let ?h = "HashToken (w_prims w) tok"
  from assms tok have ca: "cache (agents s) ?h = None"
    by (cases "cache (agents s) ?h") (simp_all add: AuthMiddleware_def Let_def)
  from assms tok ca obtain u t role where v: "ValidateJWT (w_jwt w) (w_secret w) (w_now w) tok = Inr (u, t, role)"
    by (cases "ValidateJWT (w_jwt w) (w_secret w) (w_now w) tok") (auto simp: AuthMiddleware_def Let_def)
  from assms tok ca v have ro: "role \<noteq> ''totp_pending''"
    by (auto simp: AuthMiddleware_def Let_def)
  let ?cached = "case cache_get w s ?h of Some u \<Rightarrow> u | None \<Rightarrow> []"
  let ?src = "if ?cached \<noteq> [] then Some (?cached, s) else if \<not> w_db_up w then None
              else map_option (\<lambda>u. (u, SetSession w ?h u (24 * 3600) s)) (session_user s ?h)"
  have eq: "AuthMiddleware w r c s = (case ?src of
       None \<Rightarrow> (Inl (HttpError 401 ''Session revoked''), s)
     | Some (x, s1) \<Rightarrow>
         if x \<noteq> u then (Inl (HttpError 401 ''Session mismatch''), s1)
         else if \<not> IsSuperAdmin role \<and> \<not> TenantAllowed (w_env w) (w_now w) (w_db_up w) (tenant_tbl s1) t
         then (Inl (HttpError 403 ''Tenant inactive''), s1)
         else (Inr (c\<lparr>l_auth_type := ''user'', l_user_id := u, l_user_role := role, l_tenant_id := t\<rparr>), s1))"
    unfolding AuthMiddleware_def Let_def tok sum.case v prod.case
    using assms(2) ca ro by (simp only: if_False simp_thms)
  obtain x s1 where src: "?src = Some (x, s1)"
    using assms(1) unfolding eq by (cases ?src) auto
  then have s1: "tenant_tbl s1 = tenant_tbl s"
    by (auto split: if_splits option.splits)
  from assms(1) have x: "x = u"
    and t: "IsSuperAdmin role \<or> TenantAllowed (w_env w) (w_now w) (w_db_up w) (tenant_tbl s) t"
    and c': "c' = c\<lparr>l_auth_type := ''user'', l_user_id := u, l_user_role := role, l_tenant_id := t\<rparr>"
    unfolding eq src s1 [symmetric] by (auto split: if_splits)
  have "live_session w s ?h u"
    using src x by (auto simp: live_session_def split: if_splits option.splits)
  with tok ca v ro t c' show ?thesis by (intro that)
qed

lemma PortalAuthMiddleware_admits:
  assumes "PortalAuthMiddleware w r c s = Inr c'"
  obtains tok u t d where
    "request_token ''portal_token'' (HttpError 401 ''Missing portal authorization'') r = Inr tok"
    "cache (agents s) (HashToken (w_prims w) tok) = None"
    "ValidatePortalJWT (w_jwt w) (w_secret w) (w_now w) tok = Inr (u, t, d)"
  using assms
  by (auto simp: PortalAuthMiddleware_def Let_def guard_InrD split: sum.splits)

lemma AgentAuthMiddleware_admits:
  "AgentAuthMiddleware w r c s = Inr c' \<longleftrightarrow>
     (\<exists>tok. has_prefix (r_headers r ''Authorization'') ''Bearer ''
        \<and> cache (agents s) (HashToken (w_prims w) (trim_prefix (r_headers r ''Authorization'') ''Bearer '')) = Some tok
        \<and> \<not> token_dead (w_now w) tok
        \<and> TenantAllowed (w_env w) (w_now w) (w_db_up w) (tenant_tbl s) (TenantID tok)
        \<and> c' = c\<lparr>l_device_id := DeviceID tok, l_hostname := Hostname tok, l_tenant_id := TenantID tok\<rparr>)"
  by (auto simp: AgentAuthMiddleware_def Let_def guard_InrD token_dead_def split: option.splits)

section \<open>Properties\<close>

lemma validators_exclusive:
  "ValidateJWT J secret now tok = Inr (u, t, r) \<Longrightarrow> ValidatePortalJWT J secret now tok \<noteq> Inr (u', t', d)"
  by (auto simp: ValidateJWT_ok ValidatePortalJWT_ok)

text \<open>
  C7. One bearer token opens at most one of the three doors: no token is accepted by two of the
  admin, portal and agent middlewares, in any state and whatever the requests otherwise contain.
\<close>

theorem token_scopes_disjoint:
  assumes "request_token ''auth_token'' (HttpError 401 ''Missing authorization'') r1 = Inr tok"
    and "\<not> portal_path (r_path r1)"
    and "request_token ''portal_token'' (HttpError 401 ''Missing portal authorization'') r2 = Inr tok"
    and "r_headers r3 ''Authorization'' = ''Bearer '' @ tok"
  shows "\<not> (is_ok (fst (AuthMiddleware w r1 c1 s)) \<and> is_ok (PortalAuthMiddleware w r2 c2 s))
    \<and> \<not> (is_ok (fst (AuthMiddleware w r1 c1 s)) \<and> is_ok (AgentAuthMiddleware w r3 c3 s))
    \<and> \<not> (is_ok (PortalAuthMiddleware w r2 c2 s) \<and> is_ok (AgentAuthMiddleware w r3 c3 s))"
proof -
  let ?h = "HashToken (w_prims w) tok"
  have admin: "cache (agents s) ?h = None
      \<and> (\<exists>x. ValidateJWT (w_jwt w) (w_secret w) (w_now w) tok = Inr x)"
    if "is_ok (fst (AuthMiddleware w r1 c1 s))"
    using that assms(1,2) by (auto elim: AuthMiddleware_admits)
  have portal: "cache (agents s) ?h = None
      \<and> (\<exists>x. ValidatePortalJWT (w_jwt w) (w_secret w) (w_now w) tok = Inr x)"
    if "is_ok (PortalAuthMiddleware w r2 c2 s)"
    using that assms(3) by (auto elim: PortalAuthMiddleware_admits)
  have tp: "trim_prefix (''Bearer '' @ tok) ''Bearer '' = tok" by (rule trim_prefix_append)
  have agent: "cache (agents s) ?h \<noteq> None" if "is_ok (AgentAuthMiddleware w r3 c3 s)"
    using that unfolding AgentAuthMiddleware_admits assms(4) tp by auto
  have "\<not> ((\<exists>x. ValidateJWT (w_jwt w) (w_secret w) (w_now w) tok = Inr x)
      \<and> (\<exists>x. ValidatePortalJWT (w_jwt w) (w_secret w) (w_now w) tok = Inr x))"
    using validators_exclusive by fastforce
  with admin portal agent show ?thesis by blast
qed

definition bearer_request :: "string \<Rightarrow> request" where
  "bearer_request tok = \<lparr>r_method = ''GET'', r_path = ''/api/v1/devices'', r_protocol = ''https'',
     r_ip = ''9.9.9.9'', r_cookies = (\<lambda>_. []),
     r_headers = (\<lambda>h. if h = ''Authorization'' then ''Bearer '' @ tok else [])\<rparr>"

lemma bearer_request_token: "request_token cookie e (bearer_request tok) = Inr tok"
  using trim_prefix_append [of "''Bearer ''" tok] has_prefix_append [of "''Bearer ''" tok]
  by (simp add: request_token_def bearer_request_def Let_def)

definition toy_world :: "claims \<Rightarrow> world" where
  "toy_world c = \<lparr>w_env = (\<lambda>_. []), w_now = 100, w_prims = toy_prims, w_jwt = toy_jwt c, w_secret = ''k'',
     w_db_up = True, w_redis_up = True\<rparr>"

definition toy_auth :: auth_state where
  "toy_auth = \<lparr>agents = empty_state, sessions = [], redis_sessions = None,
     tenant_tbl = [''t1'' \<mapsto> \<lparr>t_status = ''active'', t_suspended_at = None\<rparr>], customers = Map.empty\<rparr>"

lemma token_scopes_disjoint_witness:
  "\<not> (is_ok (fst (AuthMiddleware (toy_world Map.empty) (bearer_request ''tokA'') no_locals toy_auth))
      \<and> is_ok (AgentAuthMiddleware (toy_world Map.empty) (bearer_request ''tokA'') no_locals toy_auth))"
  using token_scopes_disjoint [OF bearer_request_token _ bearer_request_token, of "''tokA''" "bearer_request ''tokA''"]
  by (simp add: bearer_request_def portal_path_def)

text \<open>The chain in front of a handler of the \<open>/api/v1\<close> group behind a role gate (\<open>main.go\<close>).\<close>

definition admin_chain ::
  "(locals \<Rightarrow> (http_error, locals) result) \<Rightarrow> world \<Rightarrow> request \<Rightarrow> auth_state
    \<Rightarrow> (http_error, locals) result \<times> auth_state" where
  "admin_chain gate w r s =
     (case AuthMiddleware w r no_locals s of
        (Inl e, s') \<Rightarrow> (Inl e, s')
      | (Inr c, s') \<Rightarrow> (case CSRFMiddleware r c of Inl e \<Rightarrow> (Inl e, s') | Inr c \<Rightarrow> (gate c, s')))"

text \<open>
  C6. A handler behind the admin chain runs only for a token that is no agent token and no portal
  token, validates as an admin-side token of a user with the role \<open>admin\<close> or \<open>super_admin\<close> whose
  second factor is not pending, has a live session of that same user, belongs to an allowed
  tenant (super administrators excepted), and, on a method that changes state, comes with the
  matching cross-site-request token; the handler sees exactly that user, role and tenant.
\<close>

theorem admin_handler_guarded:
  assumes "fst (admin_chain AdminMiddleware w r s) = Inr c"
  shows "\<exists>tok u t role.
      request_token ''auth_token'' (HttpError 401 ''Missing authorization'') r = Inr tok
    \<and> cache (agents s) (HashToken (w_prims w) tok) = None
    \<and> ValidateJWT (w_jwt w) (w_secret w) (w_now w) tok = Inr (u, t, role)
    \<and> role \<in> {''admin'', ''super_admin''}
    \<and> live_session w s (HashToken (w_prims w) tok) u
    \<and> (role = ''super_admin'' \<or> TenantAllowed (w_env w) (w_now w) (w_db_up w) (tenant_tbl s) t)
    \<and> (r_method r \<in> {''GET'', ''HEAD'', ''OPTIONS''}
        \<or> r_cookies r ''csrf_token'' \<noteq> [] \<and> r_headers r ''X-CSRF-Token'' = r_cookies r ''csrf_token'')
    \<and> c = no_locals\<lparr>l_auth_type := ''user'', l_user_id := u, l_user_role := role, l_tenant_id := t\<rparr>"
proof -
  obtain c1 s' where a: "AuthMiddleware w r no_locals s = (Inr c1, s')"
    using assms by (auto simp: admin_chain_def split: prod.splits sum.splits)
  then have csrf: "CSRFMiddleware r c1 = Inr c1" and gate: "AdminMiddleware c1 = Inr c"
    using assms by (auto simp: admin_chain_def CSRFMiddleware_def Let_def split: if_splits)
  from gate have c: "c = c1" and role: "l_user_role c1 \<in> {''admin'', ''super_admin''}"
    by (auto simp: AdminMiddleware_def guard_InrD)
  have np: "\<not> portal_path (r_path r)"
  proof
    assume "portal_path (r_path r)"
    with a have "c1 = no_locals" by (simp add: AuthMiddleware_portal)
    with role show False by (simp add: no_locals_def)
  qed
  from a have "fst (AuthMiddleware w r no_locals s) = Inr c1" by simp
  then show ?thesis
  proof (rule AuthMiddleware_admits [OF _ np])
    fix tok u t ro
    assume 1: "request_token ''auth_token'' (HttpError 401 ''Missing authorization'') r = Inr tok"
      "cache (agents s) (HashToken (w_prims w) tok) = None"
      "ValidateJWT (w_jwt w) (w_secret w) (w_now w) tok = Inr (u, t, ro)"
      "live_session w s (HashToken (w_prims w) tok) u"
      and 2: "IsSuperAdmin ro \<or> TenantAllowed (w_env w) (w_now w) (w_db_up w) (tenant_tbl s) t"
      and 3: "c1 = no_locals\<lparr>l_auth_type := ''user'', l_user_id := u, l_user_role := ro, l_tenant_id := t\<rparr>"
    have "r_method r \<in> {''GET'', ''HEAD'', ''OPTIONS''}
        \<or> r_cookies r ''csrf_token'' \<noteq> [] \<and> r_headers r ''X-CSRF-Token'' = r_cookies r ''csrf_token''"
      using csrf by (auto simp: CSRFMiddleware_def 3 Let_def split: if_splits)
    moreover have "ro \<in> {''admin'', ''super_admin''}" using role by (simp add: 3)
    moreover have "ro = ''super_admin'' \<or> TenantAllowed (w_env w) (w_now w) (w_db_up w) (tenant_tbl s) t"
      using 2 by (simp add: IsSuperAdmin_def)
    ultimately show ?thesis using 1 3 c by blast
  qed
qed

definition toy_claims :: claims where
  "toy_claims = session_claims ''u1'' ''t1'' ''admin'' 200 100 ''vaporrmm'' ''j''"

definition toy_session :: "string \<Rightarrow> session_row" where
  "toy_session h = \<lparr>s_id = ''s1'', s_user = ''u1'', s_hash = h, s_ip = [], s_agent = [], s_created = 100, s_last_seen = 100\<rparr>"

lemma toy_claims_valid:
  "ValidateJWT (toy_jwt toy_claims) ''k'' 100 ''tokA'' = Inr (''u1'', ''t1'', ''admin'')"
proof -
  have "parsed_claims (toy_jwt toy_claims) ''k'' 100 ''tokA'' = Inr toy_claims"
    by (subst parsed_claims_signed [OF jwt_lib_ok_toy jwt_sign_toy, where e = 200])
      (simp_all add: toy_claims_def)
  then show ?thesis by (simp add: ValidateJWT_def Let_def toy_claims_def claim_str_def)
qed

definition toy_admin_state :: auth_state where
  "toy_admin_state = toy_auth\<lparr>sessions := [toy_session (HashToken toy_prims ''tokA'')]\<rparr>"

lemma toy_admin_chain:
  "fst (admin_chain AdminMiddleware (toy_world toy_claims) (bearer_request ''tokA'') toy_admin_state)
     = Inr (no_locals\<lparr>l_auth_type := ''user'', l_user_id := ''u1'', l_user_role := ''admin'', l_tenant_id := ''t1''\<rparr>)"
proof -
  have np: "\<not> portal_path (r_path (bearer_request ''tokA''))"
    by (simp add: bearer_request_def portal_path_def)
  have "AuthMiddleware (toy_world toy_claims) (bearer_request ''tokA'') no_locals toy_admin_state =
     (Inr (no_locals\<lparr>l_auth_type := ''user'', l_user_id := ''u1'', l_user_role := ''admin'', l_tenant_id := ''t1''\<rparr>),
      toy_admin_state)"
    using np by (simp add: AuthMiddleware_def bearer_request_token toy_world_def toy_admin_state_def toy_auth_def
        empty_state_def toy_claims_valid cache_get_def session_user_def toy_session_def SetSession_def
        TenantAllowed_def IsSuperAdmin_def)
  then show ?thesis
    by (simp add: admin_chain_def CSRFMiddleware_def AdminMiddleware_def bearer_request_def)
qed

lemma admin_handler_guarded_witness:
  "\<exists>tok u. request_token ''auth_token'' (HttpError 401 ''Missing authorization'') (bearer_request ''tokA'') = Inr tok
     \<and> live_session (toy_world toy_claims) toy_admin_state (HashToken toy_prims tok) u"
proof -
  have "w_prims (toy_world toy_claims) = toy_prims" by (simp add: toy_world_def)
  with admin_handler_guarded [OF toy_admin_chain] show ?thesis by metis
qed

lemma agent_bearer:
  "is_ok (AgentAuthMiddleware w (bearer_request tok) c s) \<longleftrightarrow>
     (\<exists>t. cache (agents s) (HashToken (w_prims w) tok) = Some t \<and> \<not> token_dead (w_now w) t
        \<and> TenantAllowed (w_env w) (w_now w) (w_db_up w) (tenant_tbl s) (TenantID t))"
proof -
  have h: "r_headers (bearer_request tok) ''Authorization'' = ''Bearer '' @ tok" by (simp add: bearer_request_def)
  have "has_prefix (''Bearer '' @ tok) ''Bearer ''" "trim_prefix (''Bearer '' @ tok) ''Bearer '' = tok"
    by (rule has_prefix_append, rule trim_prefix_append)
  then show ?thesis unfolding AgentAuthMiddleware_admits h by auto
qed

text \<open>
  After an agent's token is rotated at \<open>rot\<close>, the agent middleware accepts the new token up to
  and including its expiry 90 days later, and the token it replaced up to and including 60
  seconds after the rotation, both as long as the tenant is allowed; from then on both are
  refused. This holds whether or not the database writes of the rotation succeed.
\<close>

theorem rotated_agent_tokens:
  assumes now: "0 \<le> rot" and old: "cache g (HashToken P old) = Some old_tok"
    and t: "TenantID old_tok = or_default tid" and d: "DeviceID old_tok = did" "Hostname old_tok = host"
    and live: "SupersededAt old_tok = 0" "rot + 60 \<le> ExpiresAt old_tok"
    and ne: "HashToken P old \<noteq> HashToken P token"
    and w: "w_prims w = P"
    and s: "agents s = RegisterAgentToken P pg rot fault token did host tid g"
    and allowed: "TenantAllowed (w_env w) (w_now w) (w_db_up w) (tenant_tbl s) (or_default tid)"
  shows "(is_ok (AgentAuthMiddleware w (bearer_request token) c s) \<longleftrightarrow> w_now w \<le> rot + 90 * 24 * 3600)
    \<and> (is_ok (AgentAuthMiddleware w (bearer_request old) c s) \<longleftrightarrow> w_now w \<le> rot + 60)"
proof -
  have "cache (agents s) (HashToken P token) = Some \<lparr>TokenHash = HashToken P token, DeviceID = did,
      Hostname = host, TenantID = or_default tid, ExpiresAt = rot + 90 * 24 * 60 * 60, SupersededAt = 0\<rparr>"
    by (simp add: s RegisterAgentToken_def Let_def)
  moreover have "cache (agents s) (HashToken P old) = Some (old_tok\<lparr>SupersededAt := rot + 60\<rparr>)"
    using old t d live(1) ne
    by (simp add: s RegisterAgentToken_def Let_def cache_mark_def AgentTokenSupersedeWindow_def)
  ultimately show ?thesis
    using now live(2) allowed t by (auto simp: agent_bearer w token_dead_def)
qed

lemma rotated_agent_tokens_witness:
  "is_ok (AgentAuthMiddleware ((toy_world Map.empty)\<lparr>w_now := 160\<rparr>) (bearer_request ''old'') no_locals
     (toy_auth\<lparr>agents := RegisterAgentToken toy_prims False 100 NoFault ''fresh'' ''d'' ''h'' ''t1''
        (RegisterAgentToken toy_prims False 50 NoFault ''old'' ''d'' ''h'' ''t1'' empty_state)\<rparr>))"
proof -
  let ?w = "(toy_world Map.empty)\<lparr>w_now := 160\<rparr>"
  let ?g = "RegisterAgentToken toy_prims False 50 NoFault ''old'' ''d'' ''h'' ''t1'' empty_state"
  let ?s = "toy_auth\<lparr>agents := RegisterAgentToken toy_prims False 100 NoFault ''fresh'' ''d'' ''h'' ''t1'' ?g\<rparr>"
  let ?old = "\<lparr>TokenHash = HashToken toy_prims ''old'', DeviceID = ''d'', Hostname = ''h'', TenantID = ''t1'',
     ExpiresAt = 50 + 90 * 24 * 60 * 60, SupersededAt = 0\<rparr>"
  have old: "cache ?g (HashToken toy_prims ''old'') = Some ?old"
    by (simp add: RegisterAgentToken_def Let_def or_default_def)
  show ?thesis
    using rotated_agent_tokens [where g = ?g and old = "''old''" and old_tok = ?old and tid = "''t1''"
        and did = "''d''" and host = "''h''" and s = ?s and P = toy_prims and token = "''fresh''"
        and w = ?w and pg = False and fault = NoFault and rot = 100 and c = no_locals]
    by (simp add: old or_default_def toy_hash_apart toy_world_def toy_auth_def TenantAllowed_def)
qed

end
