(* ===== verification/Sessions.thy ===== *)
theory Sessions
  imports AuthMiddleware
begin

text \<open>
  Sign-in, sign-out and account security (\<open>internal/handlers/auth.go\<close>,
  \<open>internal/handlers/totp.go\<close>, the impersonation handlers of \<open>internal/handlers/tenants.go\<close>).

  Each handler is one function from the world, the libraries it calls, the random values it
  draws, the decoded body (\<open>None\<close> when it does not parse), the request and the state to a
  response and the new state. A database that does not answer (\<open>w_db_up\<close>) fails every statement
  of the handler. The login counters are maps to records, as in the code; Go's zero time is
  \<open>zero_time\<close>. Responses keep what later requests depend on; cookies carry the token.
\<close>

section \<open>State\<close>

definition zero_time :: unix where "zero_time = - 62135596800"

text \<open>\<open>loginAttempt\<close>\<close>

record login_attempt =
  la_count :: int
  la_last :: unix
  la_blocked :: unix

definition new_attempt :: login_attempt where
  "new_attempt = \<lparr>la_count = 0, la_last = zero_time, la_blocked = zero_time\<rparr>"

record reset_row =
  pr_user :: string
  pr_hash :: string
  pr_expires :: unix
  pr_used :: int

record totp_row =
  tt_secret :: string
  tt_enabled :: int

record backup_code =
  bc_user :: string
  bc_hash :: string
  bc_used :: int

record app_state =
  au :: auth_state
  users :: "user_row list"
  resets :: "reset_row list"
  totps :: "string \<rightharpoonup> totp_row"
  backup_codes :: "backup_code list"
  loginAttempts :: "string \<rightharpoonup> login_attempt"
  ipAttempts :: "string \<rightharpoonup> login_attempt"

text \<open>The libraries: bcrypt (hash and compare), one-time passwords, the secrets key.\<close>

record libs =
  lb_bcrypt :: "string \<Rightarrow> string option"
  lb_bcrypt_ok :: "string \<Rightarrow> string \<Rightarrow> bool"
  lb_totp_ok :: "string \<Rightarrow> string \<Rightarrow> bool"
  lb_enc_key :: "string option"

record randoms =
  rn_id :: string
  rn_jti :: string
  rn_token :: string
  rn_nonce :: "string option"

definition maxAttempts :: int where "maxAttempts = 5"
definition blockDuration :: int where "blockDuration = 15 * 60"
definition windowDuration :: int where "windowDuration = 5 * 60"
definition ipMaxAttempts :: int where "ipMaxAttempts = 20"
definition ipWindowDuration :: int where "ipWindowDuration = 5 * 60"

definition find_user :: "app_state \<Rightarrow> (user_row \<Rightarrow> bool) \<Rightarrow> user_row option" where
  "find_user s p = List.find p (users s)"

definition user_tenant :: "user_row \<Rightarrow> string" where
  "user_tenant u = (case u_tenant u of None \<Rightarrow> ''default'' | Some t \<Rightarrow> t)"

definition add_session :: "world \<Rightarrow> request \<Rightarrow> string \<Rightarrow> string \<Rightarrow> string \<Rightarrow> app_state \<Rightarrow> app_state" where
  "add_session w r sid userID tokenHash s =
     (if w_db_up w
      then s\<lparr>au := (au s)\<lparr>sessions := \<lparr>s_id = sid, s_user = userID, s_hash = tokenHash, s_ip = r_ip r,
               s_agent = r_headers r ''User-Agent'', s_created = w_now w, s_last_seen = w_now w\<rparr>
               # sessions (au s)\<rparr>\<rparr>
      else s)"

definition drop_sessions :: "(session_row \<Rightarrow> bool) \<Rightarrow> app_state \<Rightarrow> app_state" where
  "drop_sessions p s = s\<lparr>au := (au s)\<lparr>sessions := filter (\<lambda>row. \<not> p row) (sessions (au s))\<rparr>\<rparr>"

definition on_au :: "(auth_state \<Rightarrow> auth_state) \<Rightarrow> app_state \<Rightarrow> app_state" where
  "on_au f s = s\<lparr>au := f (au s)\<rparr>"

text \<open>The token of the current session, as the account handlers read it: empty if absent.\<close>

definition current_token :: "request \<Rightarrow> string" where
  "current_token r =
     (if r_cookies r ''auth_token'' \<noteq> [] then r_cookies r ''auth_token''
      else if has_prefix (r_headers r ''Authorization'') ''Bearer ''
           then trim_prefix (r_headers r ''Authorization'') ''Bearer '' else [])"

definition totp_on :: "app_state \<Rightarrow> string \<Rightarrow> bool" where
  "totp_on s userID = (case totps s userID of None \<Rightarrow> False | Some row \<Rightarrow> tt_enabled row = 1)"

section \<open>Login throttling\<close>

definition account_key :: "string \<Rightarrow> string \<Rightarrow> string" where
  "account_key email ip = to_lower email @ ''|'' @ ip"

text \<open>The bucket of the source address: refused, or the state to go on with.\<close>

definition ip_gate :: "unix \<Rightarrow> bool \<Rightarrow> string \<Rightarrow> app_state \<Rightarrow> bool \<times> app_state" where
  "ip_gate now bypass ip s =
     (case ipAttempts s ip of
        Some a \<Rightarrow>
          if bypass then (True, s\<lparr>ipAttempts := (ipAttempts s)(ip \<mapsto> new_attempt)\<rparr>)
          else let a = (if now - la_last a > ipWindowDuration then a\<lparr>la_count := 0\<rparr> else a);
                   s = s\<lparr>ipAttempts := (ipAttempts s)(ip \<mapsto> a)\<rparr>
               in (la_count a < ipMaxAttempts, s)
      | None \<Rightarrow> (True, s\<lparr>ipAttempts := (ipAttempts s)(ip \<mapsto> new_attempt)\<rparr>))"

text \<open>
  The bucket of the account: refused, or the key under which this attempt's counter is stored.
  The lookup uses \<open>acctKey\<close>, a new counter is stored under the email, as in the code.
\<close>

definition account_gate :: "unix \<Rightarrow> bool \<Rightarrow> string \<Rightarrow> string \<Rightarrow> app_state \<Rightarrow> string option \<times> app_state" where
  "account_gate now bypass email ip s =
     (let acctKey = account_key email ip in
      case loginAttempts s acctKey of
        Some a \<Rightarrow>
          let a = (if now - la_last a > windowDuration then a\<lparr>la_count := 0, la_blocked := zero_time\<rparr> else a);
              store = (\<lambda>a. s\<lparr>loginAttempts := (loginAttempts s)(acctKey \<mapsto> a)\<rparr>)
          in if \<not> bypass \<and> la_blocked a \<noteq> zero_time \<and> now - la_blocked a < blockDuration
             then (None, store a)
             else if la_blocked a \<noteq> zero_time \<and> now - la_blocked a \<ge> blockDuration
             then (Some acctKey, store (a\<lparr>la_count := 0, la_blocked := zero_time\<rparr>))
             else (Some acctKey, store a)
      | None \<Rightarrow> (Some email, s\<lparr>loginAttempts := (loginAttempts s)(email \<mapsto> new_attempt)\<rparr>))"

definition bump_account :: "unix \<Rightarrow> login_attempt \<Rightarrow> login_attempt" where
  "bump_account now a =
     (let a = a\<lparr>la_count := la_count a + 1, la_last := now\<rparr>
      in if la_count a \<ge> maxAttempts then a\<lparr>la_blocked := now\<rparr> else a)"

definition bump_ip :: "unix \<Rightarrow> login_attempt \<Rightarrow> login_attempt" where
  "bump_ip now a = a\<lparr>la_count := la_count a + 1, la_last := now\<rparr>"

definition failed_login :: "unix \<Rightarrow> string \<Rightarrow> string \<Rightarrow> app_state \<Rightarrow> app_state" where
  "failed_login now key ip s =
     s\<lparr>loginAttempts := (\<lambda>k. if k = key then map_option (bump_account now) (loginAttempts s k) else loginAttempts s k),
       ipAttempts := (\<lambda>k. if k = ip then map_option (bump_ip now) (ipAttempts s k) else ipAttempts s k)\<rparr>"

text \<open>One tick of the pruner of both maps.\<close>

definition prune_attempts :: "unix \<Rightarrow> app_state \<Rightarrow> app_state" where
  "prune_attempts now s =
     s\<lparr>loginAttempts := (\<lambda>k. case loginAttempts s k of None \<Rightarrow> None
          | Some a \<Rightarrow> if now - la_last a > windowDuration
                \<and> (la_blocked a = zero_time \<or> now - la_blocked a > blockDuration) then None else Some a),
       ipAttempts := (\<lambda>k. case ipAttempts s k of None \<Rightarrow> None
          | Some a \<Rightarrow> if now - la_last a > ipWindowDuration then None else Some a)\<rparr>"

section \<open>Login\<close>

datatype login_result = Requires_totp string | Logged_in string string

text \<open>The session that a completed login creates: token, row and cache entry.\<close>

definition start_session ::
  "world \<Rightarrow> randoms \<Rightarrow> request \<Rightarrow> string \<Rightarrow> string \<Rightarrow> string \<Rightarrow> app_state
    \<Rightarrow> (http_error, login_result) result \<times> app_state" where
  "start_session w rn r userID tenantID role s =
     (case GenerateJWT (w_jwt w) (w_secret w) (w_now w) (rn_jti rn) userID tenantID role 24 of
        None \<Rightarrow> (Inl (HttpError 500 ''Failed to generate token''), s)
      | Some token \<Rightarrow>
          let tokenHash = HashToken (w_prims w) token;
              s = add_session w r (rn_id rn) userID tokenHash s;
              s = on_au (SetSession w tokenHash userID (24 * 3600)) s
          in (Inr (Logged_in token userID), s))"

definition touch_last_login :: "world \<Rightarrow> string \<Rightarrow> app_state \<Rightarrow> app_state" where
  "touch_last_login w userID s =
     (if w_db_up w then s\<lparr>users := map (\<lambda>u. if u_id u = userID then u\<lparr>u_last_login := Some (w_now w)\<rparr> else u) (users s)\<rparr>
      else s)"

definition login ::
  "libs \<Rightarrow> world \<Rightarrow> randoms \<Rightarrow> (string \<times> string) option \<Rightarrow> request \<Rightarrow> app_state
    \<Rightarrow> (http_error, login_result) result \<times> app_state" where
  "login L w rn body r s =
     (case body of
        None \<Rightarrow> (Inl (HttpError 400 ''Invalid request body''), s)
      | Some (email, password) \<Rightarrow>
        if email = [] \<or> password = [] then (Inl (HttpError 400 ''Missing credentials''), s)
        else if CHR ''@'' \<notin> set email \<or> CHR ''.'' \<notin> set email
        then (Inl (HttpError 400 ''Invalid email''), s)
        else
        let now = w_now w; bypass = (w_env w ''DISABLE_RATE_LIMIT'' = ''1'') in
        (case ip_gate now bypass (r_ip r) s of
           (False, s) \<Rightarrow> (Inl (HttpError 429 ''Too many requests''), s)
         | (True, s) \<Rightarrow>
           (case account_gate now bypass email (r_ip r) s of
              (None, s) \<Rightarrow> (Inl (HttpError 429 ''Too many login attempts''), s)
            | (Some key, s) \<Rightarrow>
              (case (if w_db_up w then find_user s (\<lambda>u. u_email u = email) else None) of
                 None \<Rightarrow> (Inl (HttpError 401 ''Invalid credentials''), failed_login now key (r_ip r) s)
               | Some u \<Rightarrow>
                 if \<not> lb_bcrypt_ok L (u_pwhash u) password
                 then (Inl (HttpError 401 ''Invalid credentials''), failed_login now key (r_ip r) s)
                 else
                 let s = s\<lparr>loginAttempts := (loginAttempts s)(email := None)\<rparr>;
                     role = (case find_user s (\<lambda>v. u_id v = u_id u) of
                               None \<Rightarrow> ''admin'' | Some v \<Rightarrow> if u_role v = [] then ''admin'' else u_role v) in
                 if totp_on s (u_id u)
                 then (case GenerateTOTPChallenge (w_jwt w) (w_secret w) now (rn_jti rn) (u_id u) (user_tenant u) of
                         None \<Rightarrow> (Inl (HttpError 500 ''Failed to generate challenge''), s)
                       | Some ch \<Rightarrow> (Inr (Requires_totp ch), s))
                 else (case start_session w rn r (u_id u) (user_tenant u) role s of
                         (Inl e, s) \<Rightarrow> (Inl e, s)
                       | (Inr x, s) \<Rightarrow> (Inr x, touch_last_login w (u_id u) s))))))"

section \<open>Second factor\<close>

text \<open>\<open>strings.ToUpper\<close> on ASCII and the removal of one character.\<close>

definition upper_char :: "char \<Rightarrow> char" where
  "upper_char c = (let n = (of_char c :: nat) in if 97 \<le> n \<and> n \<le> 122 then char_of (n - 32) else c)"

definition without :: "char \<Rightarrow> string \<Rightarrow> string" where
  "without c s = filter (\<lambda>d. d \<noteq> c) s"

definition consume_backup :: "string \<Rightarrow> string \<Rightarrow> backup_code list \<Rightarrow> nat \<times> backup_code list" where
  "consume_backup userID codeHash codes =
     (let hit = (\<lambda>b. bc_user b = userID \<and> bc_hash b = codeHash \<and> bc_used b = 0)
      in (length (filter hit codes), map (\<lambda>b. if hit b then b\<lparr>bc_used := 1\<rparr> else b) codes))"

definition totp_login ::
  "libs \<Rightarrow> world \<Rightarrow> randoms \<Rightarrow> (string \<times> string) option \<Rightarrow> request \<Rightarrow> app_state
    \<Rightarrow> (http_error, login_result) result \<times> app_state" where
  "totp_login L w rn body r s =
     (case body of
        None \<Rightarrow> (Inl (HttpError 400 ''totp_challenge and code are required''), s)
      | Some (challenge, reqCode) \<Rightarrow>
        if challenge = [] \<or> reqCode = [] then (Inl (HttpError 400 ''totp_challenge and code are required''), s)
        else case ValidateJWT (w_jwt w) (w_secret w) (w_now w) challenge of
          Inl _ \<Rightarrow> (Inl (HttpError 401 ''Invalid or expired challenge''), s)
        | Inr (userID, tenantID, role) \<Rightarrow>
          if role \<noteq> ''totp_pending'' then (Inl (HttpError 401 ''Invalid or expired challenge''), s)
          else if \<not> w_db_up w \<or> \<not> totp_on s userID
          then (Inl (HttpError 401 ''TOTP not configured for this account''), s)
          else case Decrypt (w_prims w) (lb_enc_key L) (case totps s userID of Some t \<Rightarrow> tt_secret t | None \<Rightarrow> []) of
            Inl _ \<Rightarrow> (Inl (HttpError 500 ''Failed to read TOTP secret''), s)
          | Inr secret \<Rightarrow>
            let code = map upper_char (without CHR '' '' reqCode);
                backup = (length (without CHR ''-'' code) = 16);
                (affected, codes) = consume_backup userID (HashToken (w_prims w) code) (backup_codes s)
            in if backup \<and> affected \<noteq> 1
               then (Inl (HttpError 401 ''Invalid or already-used backup code''), s\<lparr>backup_codes := codes\<rparr>)
               else if \<not> backup \<and> \<not> lb_totp_ok L reqCode secret
               then (Inl (HttpError 401 ''Invalid TOTP code''), s)
               else let s = (if backup then s\<lparr>backup_codes := codes\<rparr> else s) in
               (case find_user s (\<lambda>u. u_id u = userID) of
                  None \<Rightarrow> (Inl (HttpError 500 ''Failed to load user''), s)
                | Some u \<Rightarrow> start_session w rn r userID tenantID (u_role u) s))"

text \<open>\<open>newSecret\<close> and \<open>codes\<close> are what the library and the random source deliver.\<close>

definition totp_setup ::
  "libs \<Rightarrow> world \<Rightarrow> randoms \<Rightarrow> string option \<Rightarrow> string list option \<Rightarrow> locals \<Rightarrow> app_state
    \<Rightarrow> (http_error, string) result \<times> app_state" where
  "totp_setup L w rn newSecret codes c s =
     (let userID = l_user_id c in
      if \<not> w_db_up w \<or> find_user s (\<lambda>u. u_id u = userID) = None
      then (Inl (HttpError 500 ''Failed to load user''), s)
      else case newSecret of
        None \<Rightarrow> (Inl (HttpError 500 ''Failed to generate TOTP secret''), s)
      | Some secret \<Rightarrow>
        (case (if Enabled (lb_enc_key L) then Encrypt (w_prims w) (lb_enc_key L) (rn_nonce rn) secret else Inr secret) of
           Inl _ \<Rightarrow> (Inl (HttpError 500 ''Failed to store TOTP secret''), s)
         | Inr encSecret \<Rightarrow>
           let s = s\<lparr>totps := (totps s)(userID \<mapsto> \<lparr>tt_secret = encSecret, tt_enabled = 0\<rparr>),
                     backup_codes := filter (\<lambda>b. bc_user b \<noteq> userID) (backup_codes s)\<rparr>
           in (case codes of
                 None \<Rightarrow> (Inl (HttpError 500 ''Failed to generate backup codes''), s)
               | Some plain \<Rightarrow>
                 (Inr secret, s\<lparr>backup_codes := rev (map (\<lambda>code. \<lparr>bc_user = userID,
                     bc_hash = HashToken (w_prims w) code, bc_used = 0\<rparr>) plain) @ backup_codes s\<rparr>))))"

definition totp_enable ::
  "libs \<Rightarrow> world \<Rightarrow> string option \<Rightarrow> locals \<Rightarrow> app_state \<Rightarrow> (http_error, unit) result \<times> app_state" where
  "totp_enable L w body c s =
     (let userID = l_user_id c in
      case body of
        None \<Rightarrow> (Inl (HttpError 400 ''6-digit code is required''), s)
      | Some code \<Rightarrow>
        if length code \<noteq> 6 then (Inl (HttpError 400 ''6-digit code is required''), s)
        else (case (if w_db_up w then totps s userID else None) of
          None \<Rightarrow> (Inl (HttpError 400 ''No TOTP setup in progress''), s)
        | Some row \<Rightarrow>
          if tt_enabled row = 1 then (Inl (HttpError 400 ''TOTP already enabled''), s)
          else case Decrypt (w_prims w) (lb_enc_key L) (tt_secret row) of
            Inl _ \<Rightarrow> (Inl (HttpError 500 ''Failed to read TOTP secret''), s)
          | Inr secret \<Rightarrow>
            if \<not> lb_totp_ok L code secret then (Inl (HttpError 400 ''Invalid TOTP code''), s)
            else let s = s\<lparr>totps := (totps s)(userID \<mapsto> row\<lparr>tt_enabled := 1\<rparr>)\<rparr>;
                     s = drop_sessions (\<lambda>x. s_user x = userID) s
                 in (Inr (), on_au (DeleteUserSessions w userID) s)))"

definition totp_disable ::
  "libs \<Rightarrow> world \<Rightarrow> string option \<Rightarrow> locals \<Rightarrow> app_state \<Rightarrow> (http_error, unit) result \<times> app_state" where
  "totp_disable L w body c s =
     (let userID = l_user_id c in
      case body of
        None \<Rightarrow> (Inl (HttpError 400 ''6-digit code is required''), s)
      | Some code \<Rightarrow>
        if length code \<noteq> 6 then (Inl (HttpError 400 ''6-digit code is required''), s)
        else (case (if w_db_up w then totps s userID else None) of
          None \<Rightarrow> (Inl (HttpError 400 ''TOTP is not enabled''), s)
        | Some row \<Rightarrow>
          if tt_enabled row = 0 then (Inl (HttpError 400 ''TOTP is not enabled''), s)
          else case Decrypt (w_prims w) (lb_enc_key L) (tt_secret row) of
            Inl _ \<Rightarrow> (Inl (HttpError 500 ''Failed to read TOTP secret''), s)
          | Inr secret \<Rightarrow>
            if \<not> lb_totp_ok L code secret then (Inl (HttpError 400 ''Invalid TOTP code''), s)
            else (Inr (), s\<lparr>totps := (totps s)(userID := None)\<rparr>)))"

section \<open>Ending sessions\<close>

definition logout :: "world \<Rightarrow> request \<Rightarrow> app_state \<Rightarrow> app_state" where
  "logout w r s =
     (let token = current_token r in
      if token = [] then s
      else let tokenHash = HashToken (w_prims w) token;
               s = (if w_db_up w then drop_sessions (\<lambda>x. s_hash x = tokenHash) s else s)
           in on_au (DeleteSession w tokenHash) s)"

text \<open>\<open>DELETE /sessions/:id\<close>\<close>

definition revoke_session ::
  "world \<Rightarrow> string \<Rightarrow> locals \<Rightarrow> app_state \<Rightarrow> (http_error, unit) result \<times> app_state" where
  "revoke_session w sessionID c s =
     (let userID = l_user_id c;
          mine = (\<lambda>x. s_id x = sessionID \<and> s_user x = userID);
          s = (case (if w_db_up w then List.find mine (sessions (au s)) else None) of
                 None \<Rightarrow> s
               | Some row \<Rightarrow> if s_hash row \<noteq> [] then on_au (DeleteSession w (s_hash row)) s else s)
      in if \<not> w_db_up w then (Inl (HttpError 500 ''Failed to revoke session''), s)
         else (Inr (), drop_sessions mine s))"

text \<open>\<open>DELETE /sessions\<close>: all but the current one.\<close>

definition revoke_other_sessions ::
  "world \<Rightarrow> request \<Rightarrow> locals \<Rightarrow> app_state \<Rightarrow> (http_error, unit) result \<times> app_state" where
  "revoke_other_sessions w r c s =
     (let userID = l_user_id c;
          token = current_token r;
          tokenHash = HashToken (w_prims w) token;
          currentSessionID =
            (if token = [] \<or> \<not> w_db_up w then []
             else case List.find (\<lambda>x. s_user x = userID \<and> s_hash x = tokenHash) (sessions (au s)) of
                    None \<Rightarrow> [] | Some row \<Rightarrow> s_id row);
          s = (if currentSessionID \<noteq> []
               then drop_sessions (\<lambda>x. s_user x = userID \<and> s_id x \<noteq> currentSessionID) s else s)
      in (Inr (), on_au (DeleteUserSessions w userID) s))"

section \<open>Passwords\<close>

text \<open>The reset link is mailed; the reset row is what the handler stores.\<close>

definition forgot_password :: "world \<Rightarrow> randoms \<Rightarrow> string option \<Rightarrow> app_state \<Rightarrow> (http_error, string option) result \<times> app_state"
where
  "forgot_password w rn body s =
     (case body of
        None \<Rightarrow> (Inl (HttpError 400 ''Email is required''), s)
      | Some email \<Rightarrow>
        if email = [] then (Inl (HttpError 400 ''Email is required''), s)
        else case (if w_db_up w then find_user s (\<lambda>u. u_email u = email) else None) of
          None \<Rightarrow> (Inr None, s)
        | Some u \<Rightarrow>
            (Inr (Some (rn_token rn)),
             s\<lparr>resets := \<lparr>pr_user = u_id u, pr_hash = HashToken (w_prims w) (rn_token rn),
                 pr_expires = w_now w + 3600, pr_used = 0\<rparr> # resets s\<rparr>))"

definition set_password :: "string \<Rightarrow> string \<Rightarrow> app_state \<Rightarrow> app_state" where
  "set_password userID pwhash s =
     s\<lparr>users := map (\<lambda>u. if u_id u = userID then u\<lparr>u_pwhash := pwhash\<rparr> else u) (users s)\<rparr>"

definition reset_password ::
  "libs \<Rightarrow> world \<Rightarrow> (string \<times> string) option \<Rightarrow> app_state \<Rightarrow> (http_error, unit) result \<times> app_state" where
  "reset_password L w body s =
     (case body of
        None \<Rightarrow> (Inl (HttpError 400 ''Token and new password are required''), s)
      | Some (token, newPassword) \<Rightarrow>
        if token = [] \<or> newPassword = [] then (Inl (HttpError 400 ''Token and new password are required''), s)
        else if ValidatePasswordStrength newPassword \<noteq> Inr () then (Inl (HttpError 400 ''weak password''), s)
        else if \<not> w_db_up w then (Inl (HttpError 500 ''Internal error''), s)
        else
        let tokenHash = HashToken (w_prims w) token;
            claim = (\<lambda>p. pr_hash p = tokenHash \<and> pr_used p = 0 \<and> pr_expires p \<ge> w_now w);
            affected = length (filter claim (resets s));
            s = s\<lparr>resets := map (\<lambda>p. if claim p then p\<lparr>pr_used := 1\<rparr> else p) (resets s)\<rparr>
        in if affected \<noteq> 1 then (Inl (HttpError 400 ''Invalid or expired token''), s)
           else (case List.find (\<lambda>p. pr_hash p = tokenHash) (resets s) of
             None \<Rightarrow> (Inl (HttpError 500 ''Internal error''), s)
           | Some p \<Rightarrow>
             (case lb_bcrypt L newPassword of
                None \<Rightarrow> (Inl (HttpError 500 ''Failed to hash password''), s)
              | Some newHash \<Rightarrow>
                  (Inr (), drop_sessions (\<lambda>x. s_user x = pr_user p) (set_password (pr_user p) newHash s)))))"

definition change_password ::
  "libs \<Rightarrow> world \<Rightarrow> (string \<times> string) option \<Rightarrow> request \<Rightarrow> locals \<Rightarrow> app_state
    \<Rightarrow> (http_error, unit) result \<times> app_state" where
  "change_password L w body r c s =
     (let userID = l_user_id c in
      case body of
        None \<Rightarrow> (Inl (HttpError 400 ''current_password and new_password are required''), s)
      | Some (currentPassword, newPassword) \<Rightarrow>
        if currentPassword = [] \<or> newPassword = []
        then (Inl (HttpError 400 ''current_password and new_password are required''), s)
        else if ValidatePasswordStrength newPassword \<noteq> Inr () then (Inl (HttpError 400 ''weak password''), s)
        else (case (if w_db_up w then find_user s (\<lambda>u. u_id u = userID) else None) of
          None \<Rightarrow> (Inl (HttpError 500 ''Failed to load user''), s)
        | Some u \<Rightarrow>
          if \<not> lb_bcrypt_ok L (u_pwhash u) currentPassword
          then (Inl (HttpError 401 ''Current password is incorrect''), s)
          else (case lb_bcrypt L newPassword of
             None \<Rightarrow> (Inl (HttpError 500 ''Failed to hash password''), s)
           | Some newHash \<Rightarrow>
               let s = set_password userID newHash s; currentToken = current_token r in
               (Inr (), if currentToken = [] then s
                  else drop_sessions (\<lambda>x. s_user x = userID
                         \<and> s_hash x \<noteq> HashToken (w_prims w) currentToken) s))))"

section \<open>Impersonation\<close>

definition start_impersonation ::
  "world \<Rightarrow> randoms \<Rightarrow> string \<Rightarrow> request \<Rightarrow> locals \<Rightarrow> app_state \<Rightarrow> (http_error, string) result \<times> app_state"
where
  "start_impersonation w rn targetTenant r c s =
     (case (if w_db_up w then tenant_tbl (au s) targetTenant else None) of
        None \<Rightarrow> (Inl (HttpError 404 ''Tenant not found''), s)
      | Some row \<Rightarrow>
        if t_status row \<noteq> ''active'' then (Inl (HttpError 403 ''Cannot impersonate a non-active tenant''), s)
        else (case GenerateImpersonationJWT (w_jwt w) (w_secret w) (w_now w) (rn_jti rn) (l_user_id c)
                     targetTenant (or_default (l_tenant_id c)) (l_user_role c) 1 of
             None \<Rightarrow> (Inl (HttpError 500 ''Failed to generate token''), s)
           | Some newToken \<Rightarrow>
               (Inr newToken, add_session w r (rn_id rn) (l_user_id c) (HashToken (w_prims w) newToken) s)))"

definition end_impersonation ::
  "world \<Rightarrow> randoms \<Rightarrow> request \<Rightarrow> app_state \<Rightarrow> (http_error, string) result \<times> app_state" where
  "end_impersonation w rn r s =
     (let token = r_cookies r ''auth_token'' in
      if token = [] then (Inl (HttpError 401 ''No session''), s)
      else case ParseImpersonationClaims (w_jwt w) (w_secret w) (w_now w) token of
        (impFor, _, _, ok) \<Rightarrow>
        if \<not> ok then (Inl (HttpError 400 ''Not currently impersonating''), s)
        else (case (if w_db_up w then find_user s (\<lambda>u. u_id u = impFor) else None) of
          None \<Rightarrow> (Inl (HttpError 401 ''Original user no longer exists''), s)
        | Some u \<Rightarrow>
          let currentRole = (if u_role u = [] then ''admin'' else u_role u) in
          (case GenerateJWT (w_jwt w) (w_secret w) (w_now w) (rn_jti rn) impFor (user_tenant u) currentRole 24 of
             None \<Rightarrow> (Inl (HttpError 500 ''Failed to generate token''), s)
           | Some newToken \<Rightarrow>
               let s = drop_sessions (\<lambda>x. s_hash x = HashToken (w_prims w) token) s
               in (Inr newToken, add_session w r (rn_id rn) impFor (HashToken (w_prims w) newToken) s))))"

section \<open>User management\<close>

record new_user =
  nu_email :: string
  nu_password :: string
  nu_name :: string
  nu_role :: string

text \<open>\<open>max_users\<close> is the tenant's cap, 0 when it cannot be read; \<open>email\<close> is unique in the table.\<close>

definition create_user ::
  "libs \<Rightarrow> world \<Rightarrow> randoms \<Rightarrow> (string \<Rightarrow> int) \<Rightarrow> new_user option \<Rightarrow> locals \<Rightarrow> app_state
    \<Rightarrow> (http_error, string) result \<times> app_state" where
  "create_user L w rn max_users body c s =
     (case body of
        None \<Rightarrow> (Inl (HttpError 400 ''Email and password are required''), s)
      | Some req \<Rightarrow>
        if nu_email req = [] \<or> nu_password req = [] then (Inl (HttpError 400 ''Email and password are required''), s)
        else if ValidatePasswordStrength (nu_password req) \<noteq> Inr () then (Inl (HttpError 400 ''weak password''), s)
        else (case lb_bcrypt L (nu_password req) of
          None \<Rightarrow> (Inl (HttpError 500 ''Failed to hash password''), s)
        | Some pwhash \<Rightarrow>
          let role = (if nu_role req = [] then ''user'' else nu_role req);
              callerRole = l_user_role c;
              valid = (role = ''admin'' \<or> role = ''user'' \<or> IsSuperAdmin callerRole \<and> role = ''super_admin'');
              newUserTenant = or_default (l_tenant_id c);
              cap = (if w_db_up w then max_users newUserTenant else 0);
              cnt = length (filter (\<lambda>u. u_tenant u = Some newUserTenant) (users s))
          in if \<not> valid then (Inl (HttpError 400 ''Invalid role''), s)
             else if \<not> IsSuperAdmin callerRole \<and> cap > 0 \<and> w_db_up w \<and> int cnt \<ge> cap
             then (Inl (HttpError 403 ''User limit reached''), s)
             else if \<not> w_db_up w \<or> find_user s (\<lambda>u. u_email u = nu_email req) \<noteq> None
             then (Inl (HttpError 500 ''Failed to create user''), s)
             else (Inr (rn_id rn), s\<lparr>users := \<lparr>u_id = rn_id rn, u_email = nu_email req, u_pwhash = pwhash,
                      u_name = nu_name req, u_role = role, u_created = w_now w,
                      u_tenant = Some newUserTenant, u_last_login = None\<rparr> # users s\<rparr>)))"

definition delete_user ::
  "world \<Rightarrow> string \<Rightarrow> locals \<Rightarrow> app_state \<Rightarrow> (http_error, unit) result \<times> app_state" where
  "delete_user w targetID c s =
     (let adminID = l_user_id c;
          hit = (\<lambda>u. u_id u = targetID
                   \<and> (IsSuperAdmin (l_user_role c) \<or> u_tenant u = Some (or_default (l_tenant_id c))))
      in if targetID = adminID then (Inl (HttpError 400 ''Cannot delete yourself''), s)
         else if \<not> w_db_up w then (Inl (HttpError 500 ''Failed to delete user''), s)
         else if \<not> list_ex hit (users s) then (Inl (HttpError 404 ''User not found''), s)
         else let s = s\<lparr>users := filter (\<lambda>u. \<not> hit u) (users s)\<rparr>;
                  s = drop_sessions (\<lambda>x. s_user x = targetID) s
              in (Inr (), on_au (DeleteUserSessions w targetID) s))"

text \<open>\<open>GET /users\<close>: everybody for the platform owner, else the caller's tenant; newest first.\<close>

definition list_users :: "world \<Rightarrow> locals \<Rightarrow> app_state \<Rightarrow> (http_error, user_row list) result" where
  "list_users w c s =
     (if \<not> w_db_up w then Inl (HttpError 500 ''Failed to query users'')
      else Inr (sort_key (\<lambda>u. - u_created u)
             (filter (\<lambda>u. IsSuperAdmin (l_user_role c) \<or> u_tenant u = Some (or_default (l_tenant_id c))) (users s))))"

section \<open>Lemmas\<close>

lemma on_au_simps [simp]:
  "au (on_au f s) = f (au s)" "users (on_au f s) = users s" "totps (on_au f s) = totps s"
  "loginAttempts (on_au f s) = loginAttempts s" "ipAttempts (on_au f s) = ipAttempts s"
  "resets (on_au f s) = resets s" "backup_codes (on_au f s) = backup_codes s"
  by (simp_all add: on_au_def)

lemma drop_sessions_simps [simp]:
  "sessions (au (drop_sessions p s)) = filter (\<lambda>x. \<not> p x) (sessions (au s))"
  "redis_sessions (au (drop_sessions p s)) = redis_sessions (au s)"
  "agents (au (drop_sessions p s)) = agents (au s)"
  "users (drop_sessions p s) = users s" "totps (drop_sessions p s) = totps s"
  "loginAttempts (drop_sessions p s) = loginAttempts s" "ipAttempts (drop_sessions p s) = ipAttempts s"
  "resets (drop_sessions p s) = resets s"
  by (simp_all add: drop_sessions_def)

lemma add_session_simps [simp]:
  "loginAttempts (add_session w r i u h s) = loginAttempts s" "ipAttempts (add_session w r i u h s) = ipAttempts s"
  "users (add_session w r i u h s) = users s" "totps (add_session w r i u h s) = totps s"
  by (simp_all add: add_session_def)

lemma start_session_simps [simp]:
  "loginAttempts (snd (start_session w rn r u t ro s)) = loginAttempts s"
  "ipAttempts (snd (start_session w rn r u t ro s)) = ipAttempts s"
  by (simp_all add: start_session_def Let_def split: option.split)

lemma touch_simps [simp]:
  "loginAttempts (touch_last_login w u s) = loginAttempts s" "ipAttempts (touch_last_login w u s) = ipAttempts s"
  by (simp_all add: touch_last_login_def)

text \<open>A token with no session row and no cache entry is refused.\<close>

lemma no_session_refused:
  assumes "session_user s (HashToken (w_prims w) tok) = None"
    and "cache_get w s (HashToken (w_prims w) tok) = None"
    and "request_token ''auth_token'' (HttpError 401 ''Missing authorization'') r = Inr tok"
    and "\<not> portal_path (r_path r)"
  shows "\<not> is_ok (fst (AuthMiddleware w r c s))"
proof
  assume "is_ok (fst (AuthMiddleware w r c s))"
  then obtain c' where "fst (AuthMiddleware w r c s) = Inr c'" by blast
  then show False
    by (rule AuthMiddleware_admits [OF _ assms(4)]) (use assms in \<open>auto simp: live_session_def\<close>)
qed

section \<open>Properties: throttling\<close>

type_synonym login_step = "world \<times> randoms \<times> (string \<times> string) option \<times> request"

fun login_run :: "libs \<Rightarrow> login_step list \<Rightarrow> app_state \<Rightarrow> (http_error, login_result) result list" where
  "login_run L [] s = []"
| "login_run L ((w, rn, body, r) # steps) s =
     (case login L w rn body r s of (res, s') \<Rightarrow> res # login_run L steps s')"

lemma ip_gate_accounts [simp]: "loginAttempts (snd (ip_gate now b ip s)) = loginAttempts s"
  by (simp add: ip_gate_def Let_def split: option.split)

lemma account_gate_ip [simp]: "ipAttempts (snd (account_gate now b e ip s)) = ipAttempts s"
  by (simp add: account_gate_def Let_def split: option.split)

text \<open>While no stored key has a bar, the lookup under the combined key finds nothing.\<close>

definition no_bar_keys :: "app_state \<Rightarrow> bool" where
  "no_bar_keys s = (\<forall>k. loginAttempts s k \<noteq> None \<longrightarrow> CHR ''|'' \<notin> set k)"

lemma account_gate_no_bar:
  assumes "no_bar_keys s"
  shows "account_gate now b email ip s = (Some email, s\<lparr>loginAttempts := (loginAttempts s)(email \<mapsto> new_attempt)\<rparr>)"
proof -
  have "CHR ''|'' \<in> set (account_key email ip)" by (simp add: account_key_def)
  with assms have "loginAttempts s (account_key email ip) = None" by (auto simp: no_bar_keys_def)
  then show ?thesis by (simp add: account_gate_def)
qed

lemma no_bar_keys_upd:
  "no_bar_keys s \<Longrightarrow> CHR ''|'' \<notin> set e \<Longrightarrow> (\<And>k. loginAttempts t k \<noteq> None \<Longrightarrow> loginAttempts s k \<noteq> None \<or> k = e)
    \<Longrightarrow> no_bar_keys t"
  unfolding no_bar_keys_def by metis

lemma login_account:
  assumes "no_bar_keys s" and "\<And>e pw. body = Some (e, pw) \<Longrightarrow> CHR ''|'' \<notin> set e"
  shows "fst (login L w rn body r s) \<noteq> Inl (HttpError 429 ''Too many login attempts'')
    \<and> no_bar_keys (snd (login L w rn body r s))"
proof (cases body)
  case None
  with assms show ?thesis by (simp add: login_def)
next
  case (Some b)
  obtain e pw where b: "body = Some (e, pw)" using Some by (cases b) auto
  with assms(2) have e: "CHR ''|'' \<notin> set e" by blast
  obtain ok s1 where g: "ip_gate (w_now w) (w_env w ''DISABLE_RATE_LIMIT'' = ''1'') (r_ip r) s = (ok, s1)" by force
  have la1: "loginAttempts s1 = loginAttempts s" using ip_gate_accounts g by (metis snd_conv)
  then have nb1: "no_bar_keys s1" using assms(1) by (simp add: no_bar_keys_def)
  note gate = account_gate_no_bar [OF nb1]
  have st: "fst (start_session w rn r u t ro x) \<noteq> Inl (HttpError 429 ''Too many login attempts'')" for u t ro x
    by (simp add: start_session_def Let_def split: option.split)
  have "no_bar_keys (snd (login L w rn body r s))"
    by (rule no_bar_keys_upd [OF assms(1) e])
      (auto simp: b login_def Let_def g gate la1 failed_login_def case_prod_beta
        split: if_splits option.splits bool.splits sum.splits)
  moreover have "fst (login L w rn body r s) \<noteq> Inl (HttpError 429 ''Too many login attempts'')"
    using st by (auto simp: b login_def Let_def g gate case_prod_beta
        split: if_splits option.splits bool.splits sum.splits)
  ultimately show ?thesis by blast
qed


definition toy_libs :: libs where
  "toy_libs = \<lparr>lb_bcrypt = Some, lb_bcrypt_ok = (=), lb_totp_ok = (\<lambda>c s. False), lb_enc_key = None\<rparr>"

definition toy_rn :: randoms where
  "toy_rn = \<lparr>rn_id = ''i'', rn_jti = ''j'', rn_token = ''t'', rn_nonce = None\<rparr>"

definition toy_user :: user_row where
  "toy_user = \<lparr>u_id = ''u1'', u_email = ''a@b.c'', u_pwhash = ''pw'', u_name = [], u_role = ''user'',
     u_created = 0, u_tenant = Some ''t1'', u_last_login = None\<rparr>"

definition toy_app :: app_state where
  "toy_app = \<lparr>au = toy_auth, users = [toy_user], resets = [], totps = Map.empty, backup_codes = [],
     loginAttempts = Map.empty, ipAttempts = Map.empty\<rparr>"

definition guess :: "string \<Rightarrow> login_step" where
  "guess pw = (toy_world Map.empty, toy_rn, Some (''a@b.c'', pw), bearer_request [])"


text \<open>What a login does to the counter of its source address.\<close>

definition wrong_credentials :: "(http_error, login_result) result \<Rightarrow> bool" where
  "wrong_credentials res = (res = Inl (HttpError 401 ''Invalid credentials''))"

lemma login_ip:
  "(\<not> wrong_credentials (fst (login L w rn body r s))
      \<and> ipAttempts (snd (login L w rn body r s)) \<in>
          {ipAttempts s, ipAttempts (snd (ip_gate (w_now w) (w_env w ''DISABLE_RATE_LIMIT'' = ''1'') (r_ip r) s))})
   \<or> (wrong_credentials (fst (login L w rn body r s))
      \<and> fst (ip_gate (w_now w) (w_env w ''DISABLE_RATE_LIMIT'' = ''1'') (r_ip r) s)
      \<and> ipAttempts (snd (login L w rn body r s)) =
          (\<lambda>k. if k = r_ip r
               then map_option (bump_ip (w_now w)) (ipAttempts (snd (ip_gate (w_now w) (w_env w ''DISABLE_RATE_LIMIT'' = ''1'') (r_ip r) s)) k)
               else ipAttempts (snd (ip_gate (w_now w) (w_env w ''DISABLE_RATE_LIMIT'' = ''1'') (r_ip r) s)) k))"
proof -
  obtain ok s1 where g: "ip_gate (w_now w) (w_env w ''DISABLE_RATE_LIMIT'' = ''1'') (r_ip r) s = (ok, s1)" by force
  have st: "\<not> wrong_credentials (fst (start_session w rn r u t ro x))" for u t ro x
    by (simp add: start_session_def Let_def wrong_credentials_def split: option.split)
  show ?thesis
  proof (cases body)
    case None
    then show ?thesis by (simp add: login_def wrong_credentials_def)
  next
    case (Some b)
    obtain e pw where b: "body = Some (e, pw)" using Some by (cases b) auto
    obtain key s2 where a: "account_gate (w_now w) (w_env w ''DISABLE_RATE_LIMIT'' = ''1'') e (r_ip r) s1 = (key, s2)" by force
    then have ip2: "ipAttempts s2 = ipAttempts s1" by (metis account_gate_ip snd_conv)
    show ?thesis
      using st by (auto simp: b login_def Let_def g a ip2 failed_login_def wrong_credentials_def case_prod_beta
        split: if_splits option.splits bool.splits sum.splits)
  qed
qed

text \<open>The counter of an address inside a stretch of time that starts with a fresh entry.\<close>

definition ip_ok :: "unix \<Rightarrow> string \<Rightarrow> nat \<Rightarrow> app_state \<Rightarrow> bool" where
  "ip_ok start ip n s = (case ipAttempts s ip of
      None \<Rightarrow> n = 0 | Some a \<Rightarrow> la_count a = int n \<and> (n = 0 \<or> start \<le> la_last a))"

lemma ip_gate_ok:
  assumes "ip_ok start ip n s" and "start \<le> now" and "now \<le> start + ipWindowDuration"
  shows "ip_ok start ip n (snd (ip_gate now False j s))
    \<and> (j = ip \<longrightarrow> fst (ip_gate now False j s) \<longrightarrow> n < 20)
    \<and> (j = ip \<longrightarrow> ipAttempts (snd (ip_gate now False j s)) ip \<noteq> None)"
proof (cases "j = ip")
  case False
  then show ?thesis
    using assms(1) by (auto simp: ip_gate_def ip_ok_def Let_def split: option.splits)
next
  case True
  show ?thesis
  proof (cases "ipAttempts s ip")
    case None
    then show ?thesis
      using assms(1) by (simp add: True ip_gate_def ip_ok_def new_attempt_def)
  next
    case (Some a)
    then have "\<not> (now - la_last a > ipWindowDuration) \<or> n = 0" and "la_count a = int n"
      using assms by (auto simp: ip_ok_def)
    then show ?thesis
      using assms(1) Some by (auto simp: True ip_gate_def ip_ok_def Let_def ipMaxAttempts_def)
  qed
qed

definition wrong_from :: "string \<Rightarrow> login_step list \<Rightarrow> (http_error, login_result) result list \<Rightarrow> nat" where
  "wrong_from ip steps ress =
     length (filter (\<lambda>((w, rn, body, r), res). r_ip r = ip \<and> wrong_credentials res) (zip steps ress))"

lemma login_ip_ok:
  assumes "ip_ok start ip n s" and "start \<le> w_now w" and "w_now w \<le> start + ipWindowDuration"
    and "w_env w ''DISABLE_RATE_LIMIT'' \<noteq> ''1''"
  shows "(\<not> (r_ip r = ip \<and> wrong_credentials (fst (login L w rn body r s))) \<and> ip_ok start ip n (snd (login L w rn body r s)))
    \<or> (r_ip r = ip \<and> wrong_credentials (fst (login L w rn body r s)) \<and> n < 20
        \<and> ip_ok start ip (Suc n) (snd (login L w rn body r s)))"
proof -
  have f: "(w_env w ''DISABLE_RATE_LIMIT'' = ''1'') = False" using assms(4) by simp
  obtain ok s1 where g: "ip_gate (w_now w) False (r_ip r) s = (ok, s1)" by force
  from ip_gate_ok [OF assms(1-3), of "r_ip r", unfolded g fst_conv snd_conv]
  have g1: "ip_ok start ip n s1" "r_ip r = ip \<Longrightarrow> ok \<Longrightarrow> n < 20" "r_ip r = ip \<Longrightarrow> ipAttempts s1 ip \<noteq> None"
    by blast+
  from login_ip [of L w rn body r s, unfolded f g fst_conv snd_conv]
  show ?thesis
  proof (elim disjE conjE)
    assume "\<not> wrong_credentials (fst (login L w rn body r s))"
      and "ipAttempts (snd (login L w rn body r s)) \<in> {ipAttempts s, ipAttempts s1}"
    with assms(1) g1(1) show ?thesis by (auto simp: ip_ok_def)
  next
    assume wc: "wrong_credentials (fst (login L w rn body r s))" and "ok"
      and ip: "ipAttempts (snd (login L w rn body r s)) =
        (\<lambda>k. if k = r_ip r then map_option (bump_ip (w_now w)) (ipAttempts s1 k) else ipAttempts s1 k)"
    show ?thesis
    proof (cases "r_ip r = ip")
      case True
      with g1 \<open>ok\<close> obtain a where a: "ipAttempts s1 ip = Some a" "la_count a = int n" "n < 20"
        by (auto simp: ip_ok_def)
      then have "ip_ok start ip (Suc n) (snd (login L w rn body r s))"
        using assms(2) True by (simp add: ip_ok_def ip bump_ip_def)
      with True wc a show ?thesis by simp
    next
      case False
      with g1(1) show ?thesis by (simp add: ip_ok_def ip)
    qed
  qed
qed



section \<open>Properties: sessions and passwords\<close>

lemma session_user_filter:
  assumes "\<And>row. s_hash row = h \<Longrightarrow> p row"
  shows "session_user (s\<lparr>sessions := filter (\<lambda>x. \<not> p x) rows\<rparr>) h = None"
  using assms by (auto simp: session_user_def find_None_iff)

lemma cache_get_DeleteSession:
  assumes "w_redis_up w"
  shows "cache_get w' (DeleteSession w h s) h = None"
  using assms by (auto simp: cache_get_def DeleteSession_def split: option.splits)

text \<open>
  After a logout that reaches the database and Redis, the token that was logged out opens no
  admin endpoint any more, at any later time and with whatever else the request contains.
\<close>

theorem logout_revokes:
  assumes "current_token r = tok" and "tok \<noteq> []" and "w_db_up w" and "w_redis_up w"
    and "w_prims w' = w_prims w"
    and "request_token ''auth_token'' (HttpError 401 ''Missing authorization'') r' = Inr tok"
    and "\<not> portal_path (r_path r')"
  shows "\<not> is_ok (fst (AuthMiddleware w' r' c (au (logout w r s))))"
proof (rule no_session_refused [OF _ _ assms(6,7)])
  let ?h = "HashToken (w_prims w) tok"
  have eq: "au (logout w r s) = DeleteSession w ?h (au (drop_sessions (\<lambda>x. s_hash x = ?h) s))"
    using assms(1-3) by (simp add: logout_def Let_def)
  have sess: "sessions (au (logout w r s)) = filter (\<lambda>x. s_hash x \<noteq> ?h) (sessions (au s))"
    by (simp add: eq DeleteSession_def split: option.split)
  show "session_user (au (logout w r s)) (HashToken (w_prims w') tok) = None"
    by (simp add: assms(5) session_user_def sess find_None_iff)
  show "cache_get w' (au (logout w r s)) (HashToken (w_prims w') tok) = None"
    unfolding eq assms(5) by (rule cache_get_DeleteSession [OF assms(4)])
qed

lemma logout_revokes_witness:
  "\<not> is_ok (fst (AuthMiddleware (toy_world toy_claims) (bearer_request ''tokA'') no_locals
     (au (logout (toy_world toy_claims) (bearer_request ''tokA'') (toy_app\<lparr>au := toy_admin_state\<rparr>)))))"
proof (rule logout_revokes [where tok = "''tokA''"])
  show "current_token (bearer_request ''tokA'') = ''tokA''"
    using trim_prefix_append [of "''Bearer ''" "''tokA''"] by (simp add: current_token_def bearer_request_def)
  show "\<not> portal_path (r_path (bearer_request ''tokA''))"
    by (simp add: bearer_request_def portal_path_def)
qed (simp_all add: toy_world_def bearer_request_token)

text \<open>A successful reset, taken apart.\<close>

lemma reset_password_ok:
  assumes "fst (reset_password L w body s) = Inr ()"
  obtains token pw p pwhash where "body = Some (token, pw)" and "token \<noteq> []" and "w_db_up w"
    and "ValidatePasswordStrength pw = Inr ()"
    and "p \<in> set (resets s)" and "pr_hash p = HashToken (w_prims w) token"
    and "snd (reset_password L w body s) = drop_sessions (\<lambda>x. s_user x = pr_user p) (set_password (pr_user p) pwhash
      (s\<lparr>resets := map (\<lambda>q. if pr_hash q = HashToken (w_prims w) token \<and> pr_used q = 0 \<and> pr_expires q \<ge> w_now w
                            then q\<lparr>pr_used := 1\<rparr> else q) (resets s)\<rparr>))"
    and "length (filter (\<lambda>q. pr_hash q = HashToken (w_prims w) token \<and> pr_used q = 0 \<and> pr_expires q \<ge> w_now w) (resets s)) = 1"
    and "lb_bcrypt L pw = Some pwhash"
proof -
  obtain token pw where b: "body = Some (token, pw)"
    using assms by (cases body) (auto simp: reset_password_def)
  let ?h = "HashToken (w_prims w) token"
  let ?claim = "\<lambda>q. pr_hash q = ?h \<and> pr_used q = 0 \<and> pr_expires q \<ge> w_now w"
  let ?rs = "map (\<lambda>q. if ?claim q then q\<lparr>pr_used := 1\<rparr> else q) (resets s)"
  have g: "token \<noteq> []" "w_db_up w" "ValidatePasswordStrength pw = Inr ()"
    using assms by (auto simp: b reset_password_def split: if_splits)
  have n: "length (filter ?claim (resets s)) = 1"
    using assms g by (simp add: b reset_password_def Let_def split: if_splits)
  obtain p' where p': "List.find (\<lambda>q. pr_hash q = ?h) ?rs = Some p'"
    using assms g n by (auto simp: b reset_password_def Let_def split: if_splits option.splits)
  obtain pwhash where h: "lb_bcrypt L pw = Some pwhash"
    using assms g n p' by (auto simp: b reset_password_def Let_def split: if_splits option.splits)
  from find_in [OF p'] have "p' \<in> set ?rs" "pr_hash p' = ?h" by blast+
  then obtain p where p: "p \<in> set (resets s)" "pr_hash p = ?h" "pr_user p = pr_user p'"
    by (auto split: if_splits)
  have "snd (reset_password L w body s) = drop_sessions (\<lambda>x. s_user x = pr_user p) (set_password (pr_user p) pwhash (s\<lparr>resets := ?rs\<rparr>))"
    using assms g n p' h p(3) by (simp add: b reset_password_def Let_def split: if_splits)
  then show ?thesis by (rule that [OF b g(1,2,3) p(1,2) _ n h])
qed

text \<open>
  A password-reset token works once: after a successful reset every further request with the
  same token is refused, whatever password it carries and whenever it comes.
\<close>

theorem reset_token_single_use:
  assumes "fst (reset_password L w (Some (token, pw)) s) = Inr ()" and "w_prims w' = w_prims w"
    and "w_now w \<le> w_now w'"
  shows "\<not> is_ok (fst (reset_password L' w' (Some (token, pw')) (snd (reset_password L w (Some (token, pw)) s))))"
proof (rule reset_password_ok [OF assms(1)])
  fix token1 pw1 p pwhash
  let ?h = "HashToken (w_prims w) token"
  let ?rs = "map (\<lambda>q. if pr_hash q = ?h \<and> pr_used q = 0 \<and> pr_expires q \<ge> w_now w
                      then q\<lparr>pr_used := 1\<rparr> else q) (resets s)"
  assume "Some (token, pw) = Some (token1, pw1)"
    and "snd (reset_password L w (Some (token, pw)) s) = drop_sessions (\<lambda>x. s_user x = pr_user p) (set_password (pr_user p) pwhash
      (s\<lparr>resets := map (\<lambda>q. if pr_hash q = HashToken (w_prims w) token1 \<and> pr_used q = 0 \<and> pr_expires q \<ge> w_now w
                            then q\<lparr>pr_used := 1\<rparr> else q) (resets s)\<rparr>))"
  then have r: "resets (snd (reset_password L w (Some (token, pw)) s)) = ?rs"
    by (simp add: set_password_def)
  have none: "filter (\<lambda>q. pr_hash q = ?h \<and> pr_used q = 0 \<and> pr_expires q \<ge> w_now w') ?rs = []"
    using assms(3) by (auto simp: filter_empty_conv)
  show ?thesis
  proof
    assume "is_ok (fst (reset_password L' w' (Some (token, pw')) (snd (reset_password L w (Some (token, pw)) s))))"
    then have "fst (reset_password L' w' (Some (token, pw')) (snd (reset_password L w (Some (token, pw)) s))) = Inr ()"
      by auto
    then show False
    proof (rule reset_password_ok)
      fix t p'
      assume "Some (token, pw') = Some (t, p')"
        and "length (filter (\<lambda>q. pr_hash q = HashToken (w_prims w') t \<and> pr_used q = 0 \<and> pr_expires q \<ge> w_now w')
               (resets (snd (reset_password L w (Some (token, pw)) s)))) = 1"
      moreover have "token = t" using \<open>Some (token, pw') = Some (t, p')\<close> by simp
      ultimately have "length (filter (\<lambda>q. pr_hash q = ?h \<and> pr_used q = 0 \<and> pr_expires q \<ge> w_now w') ?rs) = 1"
        unfolding r assms(2) by (simp only:)
      then show False unfolding none by simp
    qed
  qed
qed

definition toy_reset_app :: app_state where
  "toy_reset_app = toy_app\<lparr>resets := [\<lparr>pr_user = ''u1'', pr_hash = HashToken toy_prims ''tk'', pr_expires = 200, pr_used = 0\<rparr>]\<rparr>"

lemma toy_reset_ok: "fst (reset_password toy_libs (toy_world c) (Some (''tk'', ''Abcdefg1'')) toy_reset_app) = Inr ()"
proof -
  have "ValidatePasswordStrength ''Abcdefg1'' = Inr ()" by code_simp
  then show ?thesis
    by (simp add: reset_password_def toy_reset_app_def toy_app_def toy_libs_def toy_world_def Let_def)
qed

lemma reset_token_single_use_witness:
  "\<not> is_ok (fst (reset_password toy_libs (toy_world Map.empty) (Some (''tk'', ''Bcdefgh2''))
     (snd (reset_password toy_libs (toy_world Map.empty) (Some (''tk'', ''Abcdefg1'')) toy_reset_app))))"
  by (rule reset_token_single_use [OF toy_reset_ok]) simp_all

text \<open>With a cached session the session table is not read at all.\<close>

lemma AuthMiddleware_cached:
  assumes "request_token ''auth_token'' (HttpError 401 ''Missing authorization'') r = Inr tok"
    and "cache_get w s (HashToken (w_prims w) tok) = Some u" and "u \<noteq> []"
    and "redis_sessions s' = redis_sessions s" and "agents s' = agents s" and "tenant_tbl s' = tenant_tbl s"
  shows "fst (AuthMiddleware w r c s') = fst (AuthMiddleware w r c s)"
proof -
  have "cache_get w s' (HashToken (w_prims w) tok) = Some u"
    using assms(2,4) by (simp add: cache_get_def)
  with assms show ?thesis
    by (simp add: AuthMiddleware_def Let_def split: sum.split prod.split)
qed

lemma au_drop_sessions: "au (drop_sessions p s) = (au s)\<lparr>sessions := filter (\<lambda>x. \<not> p x) (sessions (au s))\<rparr>"
  by (simp add: drop_sessions_def)

lemma au_set_password [simp]: "au (set_password u h s) = au s"
  by (simp add: set_password_def)

lemma reset_au:
  assumes "fst (reset_password L w body s) = Inr ()"
  shows "redis_sessions (au (snd (reset_password L w body s))) = redis_sessions (au s)"
    and "agents (au (snd (reset_password L w body s))) = agents (au s)"
    and "tenant_tbl (au (snd (reset_password L w body s))) = tenant_tbl (au s)"
  by (rule reset_password_ok [OF assms], simp add: drop_sessions_def set_password_def)+

text \<open>
  Without Redis, a successful password reset ends every session of the user: no request that
  the admin middleware admits afterwards runs as that user, whatever token it carries.
\<close>

theorem password_reset_ends_sessions:
  assumes "fst (reset_password L w (Some (token, pw)) s) = Inr ()"
    and "redis_sessions (au s) = None" and "distinct (map pr_hash (resets s))"
    and "p \<in> set (resets s)" and "pr_hash p = HashToken (w_prims w) token"
    and "fst (AuthMiddleware w' r c (au (snd (reset_password L w (Some (token, pw)) s)))) = Inr c'"
    and "\<not> portal_path (r_path r)"
  shows "l_user_id c' \<noteq> pr_user p"
proof -
  let ?s = "snd (reset_password L w (Some (token, pw)) s)"
  have sess: "\<forall>x \<in> set (sessions (au ?s)). s_user x \<noteq> pr_user p"
  proof (rule reset_password_ok [OF assms(1)])
    fix t pw1 q pwhash
    assume t: "Some (token, pw) = Some (t, pw1)" and q: "q \<in> set (resets s)" "pr_hash q = HashToken (w_prims w) t"
      and eq: "?s = drop_sessions (\<lambda>x. s_user x = pr_user q) (set_password (pr_user q) pwhash
        (s\<lparr>resets := map (\<lambda>q. if pr_hash q = HashToken (w_prims w) t \<and> pr_used q = 0 \<and> pr_expires q \<ge> w_now w
                            then q\<lparr>pr_used := 1\<rparr> else q) (resets s)\<rparr>))"
    from t have "t = token" by simp
    with q assms(3-5) have "q = p" by (simp add: distinct_map inj_on_def)
    then show ?thesis unfolding eq by simp
  qed
  have nc: "redis_sessions (au ?s) = None" using reset_au(1) [OF assms(1)] assms(2) by simp
  from assms(6) show ?thesis
  proof (rule AuthMiddleware_admits [OF _ assms(7)])
    fix tok u t role
    assume live: "live_session w' (au ?s) (HashToken (w_prims w') tok) u"
      and c': "c' = c\<lparr>l_auth_type := ''user'', l_user_id := u, l_user_role := role, l_tenant_id := t\<rparr>"
    from live nc have "session_user (au ?s) (HashToken (w_prims w') tok) = Some u"
      by (simp add: live_session_def cache_get_def)
    then obtain row where "List.find (\<lambda>x. s_hash x = HashToken (w_prims w') tok) (sessions (au ?s)) = Some row"
      and "s_user row = u" by (auto simp: session_user_def)
    with sess have "u \<noteq> pr_user p" using find_in by fastforce
    with c' show ?thesis by simp
  qed
qed

text \<open>
  With Redis, a password reset and a password change leave cached sessions alone: a token whose
  session is in the cache is answered after a successful reset (and after a change made from another
  session) exactly as before it, up to the day the entry lives.
\<close>

theorem password_reset_keeps_cached_sessions:
  assumes "request_token ''auth_token'' (HttpError 401 ''Missing authorization'') r = Inr tok"
    and "cache_get w' (au s) (HashToken (w_prims w') tok) = Some u" and "u \<noteq> []"
    and "fst (reset_password L w body s) = Inr ()"
  shows "fst (AuthMiddleware w' r c (au (snd (reset_password L w body s)))) = fst (AuthMiddleware w' r c (au s))
    \<and> fst (AuthMiddleware w' r c (au (snd (change_password L w cbody r2 c2 s)))) = fst (AuthMiddleware w' r c (au s))"
proof
  show "fst (AuthMiddleware w' r c (au (snd (reset_password L w body s)))) = fst (AuthMiddleware w' r c (au s))"
    by (rule AuthMiddleware_cached [OF assms(1-3)]) (simp_all add: reset_au [OF assms(4)])
  have ch: "redis_sessions (au (snd (change_password L w cbody r2 c2 s))) = redis_sessions (au s)
      \<and> agents (au (snd (change_password L w cbody r2 c2 s))) = agents (au s)
      \<and> tenant_tbl (au (snd (change_password L w cbody r2 c2 s))) = tenant_tbl (au s)"
    by (auto simp: change_password_def Let_def drop_sessions_def split: option.splits if_splits)
  show "fst (AuthMiddleware w' r c (au (snd (change_password L w cbody r2 c2 s)))) = fst (AuthMiddleware w' r c (au s))"
    by (rule AuthMiddleware_cached [OF assms(1-3)]) (simp_all add: ch)
qed

text \<open>
  Setting up a second factor needs no code: for a user whose second factor is on, a setup request
  from any session of theirs turns it off, and the next login with the password alone is not asked
  for a code. (Turning it off through its own endpoint requires a valid code.)
\<close>

theorem totp_setup_disables_second_factor:
  assumes "w_db_up w" and "find_user s (\<lambda>u. u_id u = uid) \<noteq> None" and "l_user_id c = uid"
    and "lb_enc_key L = None \<or> rn_nonce rn \<noteq> None"
    and "\<forall>v \<in> set (users s). u_email v = email \<longrightarrow> u_id v = uid"
  shows "is_ok (fst (totp_setup L w rn (Some secret) (Some codes) c s))
    \<and> fst (login L w' rn' (Some (email, pw)) r (snd (totp_setup L w rn (Some secret) (Some codes) c s)))
        \<noteq> Inr (Requires_totp ch)"
proof -
  let ?s = "snd (totp_setup L w rn (Some secret) (Some codes) c s)"
  have "is_ok (if Enabled (lb_enc_key L) then Encrypt (w_prims w) (lb_enc_key L) (rn_nonce rn) secret
      else Inr secret)"
    using assms(4) by (auto simp: Enabled_def Encrypt_def split: option.split)
  then obtain enc where enc: "(if Enabled (lb_enc_key L) then Encrypt (w_prims w) (lb_enc_key L) (rn_nonce rn) secret
      else Inr secret) = Inr enc" by blast
  have ok: "is_ok (fst (totp_setup L w rn (Some secret) (Some codes) c s))"
    and t: "totps ?s uid = Some \<lparr>tt_secret = enc, tt_enabled = 0\<rparr>" and us: "users ?s = users s"
    using assms(1-3) enc by (auto simp: totp_setup_def Let_def)
  obtain g1 s1 where g: "ip_gate (w_now w') (w_env w' ''DISABLE_RATE_LIMIT'' = ''1'') (r_ip r) ?s = (g1, s1)" by force
  then have s1: "totps s1 = totps ?s" "users s1 = users ?s"
    by (auto simp: ip_gate_def Let_def split: option.splits if_splits)
  obtain key s2 where a: "account_gate (w_now w') (w_env w' ''DISABLE_RATE_LIMIT'' = ''1'') email (r_ip r) s1 = (key, s2)" by force
  then have s2: "totps s2 = totps ?s" "users s2 = users ?s"
    using s1 by (auto simp: account_gate_def Let_def split: option.splits if_splits)
  have st: "fst (start_session w' rn' r u tn ro x) \<noteq> Inr (Requires_totp ch)" for u tn ro x
    by (simp add: start_session_def Let_def split: option.split)
  have "\<not> totp_on s2 (u_id u)" if "find_user s2 (\<lambda>u. u_email u = email) = Some u" for u
    using find_in [OF that [unfolded find_user_def]] assms(5) t by (auto simp: totp_on_def s2 us)
  then have "fst (login L w' rn' (Some (email, pw)) r ?s) \<noteq> Inr (Requires_totp ch)"
    using st by (auto simp: login_def Let_def g a totp_on_def case_prod_beta
        split: if_splits option.splits bool.splits sum.splits)
  with ok show ?thesis by blast
qed

lemma toy_world_simps [simp]: "w_prims (toy_world c) = toy_prims" "w_redis_up (toy_world c)" "w_now (toy_world c) = 100"
  by (simp_all add: toy_world_def)

definition toy_reset2 :: app_state where
  "toy_reset2 = toy_app\<lparr>au := toy_admin_state,
     resets := [\<lparr>pr_user = ''u2'', pr_hash = HashToken toy_prims ''tk'', pr_expires = 200, pr_used = 0\<rparr>]\<rparr>"

lemma toy_reset2_ok:
  "reset_password toy_libs (toy_world c) (Some (''tk'', ''Abcdefg1'')) (toy_reset2\<lparr>au := a\<rparr>) =
     (Inr (), drop_sessions (\<lambda>x. s_user x = ''u2'') (set_password ''u2'' ''Abcdefg1''
        (toy_reset2\<lparr>au := a, resets := [\<lparr>pr_user = ''u2'', pr_hash = HashToken toy_prims ''tk'', pr_expires = 200, pr_used = 1\<rparr>]\<rparr>)))"
proof -
  have "ValidatePasswordStrength ''Abcdefg1'' = Inr ()" by code_simp
  then show ?thesis
    by (simp add: reset_password_def toy_reset2_def toy_app_def toy_libs_def toy_world_def Let_def)
qed

lemma toy_admitted:
  assumes "agents a = empty_state" and "tenant_tbl a = tenant_tbl toy_auth"
    and "session_user a (HashToken toy_prims ''tokA'') = Some ''u1''" and "redis_sessions a = None"
  shows "fst (AuthMiddleware (toy_world toy_claims) (bearer_request ''tokA'') no_locals a)
     = Inr (no_locals\<lparr>l_auth_type := ''user'', l_user_id := ''u1'', l_user_role := ''admin'', l_tenant_id := ''t1''\<rparr>)"
proof -
  have np: "\<not> portal_path (r_path (bearer_request ''tokA''))"
    by (simp add: bearer_request_def portal_path_def)
  show ?thesis
    using np assms by (simp add: AuthMiddleware_def bearer_request_token toy_world_def toy_auth_def
        empty_state_def toy_claims_valid cache_get_def SetSession_def TenantAllowed_def IsSuperAdmin_def)
qed

lemma password_reset_ends_sessions_witness:
  "l_user_id (no_locals\<lparr>l_auth_type := ''user'', l_user_id := ''u1'', l_user_role := ''admin'', l_tenant_id := ''t1''\<rparr>) \<noteq> ''u2''"
proof -
  let ?s = "snd (reset_password toy_libs (toy_world toy_claims) (Some (''tk'', ''Abcdefg1'')) toy_reset2)"
  have upd: "toy_reset2\<lparr>au := toy_admin_state\<rparr> = toy_reset2" by (simp add: toy_reset2_def)
  note ok = toy_reset2_ok [of toy_claims toy_admin_state, unfolded upd]
  have adm: "fst (AuthMiddleware (toy_world toy_claims) (bearer_request ''tokA'') no_locals (au ?s))
     = Inr (no_locals\<lparr>l_auth_type := ''user'', l_user_id := ''u1'', l_user_role := ''admin'', l_tenant_id := ''t1''\<rparr>)"
    unfolding ok snd_conv au_drop_sessions au_set_password
    by (rule toy_admitted)
      (simp_all add: toy_reset2_def toy_admin_state_def toy_auth_def session_user_def toy_session_def)
  have "l_user_id (no_locals\<lparr>l_auth_type := ''user'', l_user_id := ''u1'', l_user_role := ''admin'', l_tenant_id := ''t1''\<rparr>)
     \<noteq> pr_user \<lparr>pr_user = ''u2'', pr_hash = HashToken toy_prims ''tk'', pr_expires = 200, pr_used = 0\<rparr>"
  proof (rule password_reset_ends_sessions [OF _ _ _ _ _ adm])
    show "fst (reset_password toy_libs (toy_world toy_claims) (Some (''tk'', ''Abcdefg1'')) toy_reset2) = Inr ()"
      by (simp only: ok fst_conv)
  qed (simp_all add: toy_reset2_def toy_admin_state_def toy_auth_def toy_world_def bearer_request_def portal_path_def)
  then show ?thesis by simp
qed

lemma password_reset_keeps_cached_sessions_witness:
  "fst (AuthMiddleware (toy_world toy_claims) (bearer_request ''tokA'') no_locals
     (au (snd (reset_password toy_libs (toy_world toy_claims) (Some (''tk'', ''Abcdefg1''))
        (toy_reset2\<lparr>au := toy_auth\<lparr>redis_sessions := Some [HashToken toy_prims ''tokA'' \<mapsto> (''u2'', 500)]\<rparr>\<rparr>)))))
   = fst (AuthMiddleware (toy_world toy_claims) (bearer_request ''tokA'') no_locals
        (toy_auth\<lparr>redis_sessions := Some [HashToken toy_prims ''tokA'' \<mapsto> (''u2'', 500)]\<rparr>))"
  using password_reset_keeps_cached_sessions [OF bearer_request_token, where tok = "''tokA''" and u = "''u2''"
      and L = toy_libs and w = "toy_world toy_claims" and w' = "toy_world toy_claims"
      and body = "Some (''tk'', ''Abcdefg1'')" and c = no_locals
      and s = "toy_reset2\<lparr>au := toy_auth\<lparr>redis_sessions := Some [HashToken toy_prims ''tokA'' \<mapsto> (''u2'', 500)]\<rparr>\<rparr>"]
  by (simp add: toy_reset2_ok cache_get_def)

lemma totp_setup_disables_second_factor_witness:
  "\<forall>ch. fst (login toy_libs (toy_world Map.empty) toy_rn (Some (''a@b.c'', ''pw'')) (bearer_request [])
     (snd (totp_setup toy_libs (toy_world Map.empty) toy_rn (Some ''new'') (Some []) (no_locals\<lparr>l_user_id := ''u1''\<rparr>)
        (toy_app\<lparr>totps := [''u1'' \<mapsto> \<lparr>tt_secret = ''old'', tt_enabled = 1\<rparr>]\<rparr>))))
   \<noteq> Inr (Requires_totp ch)"
  by (intro allI, rule totp_setup_disables_second_factor [where uid = "''u1''", THEN conjunct2])
    (simp_all add: toy_world_def toy_app_def toy_user_def find_user_def toy_libs_def)

end
