(* ===== verification/AiRegistry.thy ===== *)
theory AiRegistry
  imports Complex_Main Http
begin

text \<open>
  The in-process registries of \<open>internal/ai\<close> and what is looked up in them:
  capabilities (\<open>capabilities.go\<close>), tools and the check of a tool call (\<open>tools.go\<close>), provider
  factories (\<open>registry.go\<close>), and the order of the action ladder (\<open>rungAtLeast\<close>).

  Every registry is filled by \<open>init\<close> functions, each of which registers an entry or panics. The
  locale \<open>registry\<close> states that contract once (what a lookup returns after a registration, when a
  registration panics) and derives what the program relies on: the registry after start-up does not
  depend on the order in which the \<open>init\<close> functions ran, and an entry never changes. It is
  interpreted on every registry of the code. A registry is the list of its entries; a panic is the
  error result with its message.
\<close>

section \<open>The contract of a registry\<close>

fun register_all :: "('e \<Rightarrow> 's \<Rightarrow> (string, 's) result) \<Rightarrow> 'e list \<Rightarrow> 's \<Rightarrow> (string, 's) result" where
  "register_all reg [] s = Inr s"
| "register_all reg (e # es) s = (case reg e s of Inl p \<Rightarrow> Inl p | Inr s' \<Rightarrow> register_all reg es s')"

lemma map_of_keyed:
  "distinct (map key xs) \<Longrightarrow> x \<in> set xs \<Longrightarrow> map_of (map (\<lambda>e. (key e, f e)) xs) (key x) = Some (f x)"
  by (rule map_of_is_SomeI) (auto simp: comp_def)

locale registry =
  fixes key :: "'e \<Rightarrow> string" and norm :: "'e \<Rightarrow> 'e" and valid :: "'e \<Rightarrow> bool"
    and reg :: "'e \<Rightarrow> 's \<Rightarrow> (string, 's) result" and look :: "'s \<Rightarrow> string \<Rightarrow> 'e option" and start :: 's
  assumes look_start: "look start k = None"
    and reg_accepts: "valid e \<Longrightarrow> look s (key e) = None \<Longrightarrow>
        \<exists>s'. reg e s = Inr s' \<and> look s' = (look s)(key e \<mapsto> norm e)"
    and reg_panics: "\<not> valid e \<or> look s (key e) \<noteq> None \<Longrightarrow> \<exists>p. reg e s = Inl p"
begin

lemma reg_okD: "reg e s = Inr s' \<Longrightarrow> valid e \<and> look s (key e) = None \<and> look s' = (look s)(key e \<mapsto> norm e)"
  using reg_accepts [of e s] reg_panics [of e s] by (cases "look s (key e)") auto

lemma boot_ok:
  "is_ok (register_all reg es s) \<longleftrightarrow>
     list_all valid es \<and> distinct (map key es) \<and> (\<forall>e \<in> set es. look s (key e) = None)"
proof (induction es arbitrary: s)
  case (Cons e es)
  show ?case
  proof (cases "valid e \<and> look s (key e) = None")
    case True
    then obtain s' where s': "reg e s = Inr s'" "look s' = (look s)(key e \<mapsto> norm e)"
      using reg_accepts by blast
    with True show ?thesis by (auto simp: Cons.IH) (metis imageI)+
  next
    case False
    then obtain p where "reg e s = Inl p" using reg_panics [of e s] by auto
    with False show ?thesis by auto
  qed
qed simp

lemma boot_look:
  "register_all reg es s = Inr s' \<Longrightarrow> look s' = look s ++ map_of (map (\<lambda>e. (key e, norm e)) es)"
proof (induction es arbitrary: s)
  case (Cons e es)
  from Cons.prems obtain s1 where s1: "reg e s = Inr s1" "register_all reg es s1 = Inr s'"
    by (auto split: sum.splits)
  have "is_ok (register_all reg (e # es) s)" using Cons.prems by simp
  then have "key e \<notin> key ` set es" by (simp only: boot_ok) auto
  then have "map_of (map (\<lambda>e. (key e, norm e)) es) (key e) = None"
    by (simp add: map_of_eq_None_iff image_image)
  with Cons.IH [OF s1(2)] reg_okD [OF s1(1)] show ?case
    by (auto simp: map_add_def split: option.splits)
qed simp

lemma entry_permanent:
  assumes "register_all reg es s = Inr s'" and "look s k = Some e"
  shows "look s' k = Some e"
proof -
  have "is_ok (register_all reg es s)" using assms(1) by simp
  then have "k \<notin> key ` set es" using assms(2) by (auto simp: boot_ok)
  then have "map_of (map (\<lambda>e. (key e, norm e)) es) k = None"
    by (simp add: map_of_eq_None_iff image_image)
  with boot_look [OF assms(1)] assms(2) show ?thesis by (simp add: map_add_def)
qed

lemma boot_order_irrelevant:
  assumes "mset es = mset es'" and "register_all reg es start = Inr s"
  shows "\<exists>s'. register_all reg es' start = Inr s' \<and> look s' = look s"
proof -
  have ok: "is_ok (register_all reg es start)" using assms(2) by simp
  have st: "set es = set es'" using assms(1) by (rule mset_eq_setD)
  have dm: "distinct (map key es) = distinct (map key es')"
    using assms(1) by (metis mset_eq_imp_distinct_iff mset_map)
  have "is_ok (register_all reg es' start)"
    using ok by (simp add: boot_ok st dm list_all_iff)
  then obtain s' where s': "register_all reg es' start = Inr s'" by blast
  have d: "distinct (map key es)" using ok by (simp add: boot_ok)
  have "map_of (map (\<lambda>e. (key e, norm e)) es) = map_of (map (\<lambda>e. (key e, norm e)) es')"
    by (rule map_of_eqI) (use d dm st in \<open>simp_all add: image_image map_of_keyed\<close>)
  then have "look s' = look s" by (simp add: boot_look [OF s'] boot_look [OF assms(2)])
  with s' show ?thesis by blast
qed

end

text \<open>A registry that can be listed, sorted by name.\<close>

locale listed_registry = registry +
  fixes inv :: "'b \<Rightarrow> bool" and listing :: "'b \<Rightarrow> 'a list"
  assumes inv_start: "inv start"
    and inv_reg: "inv s \<Longrightarrow> reg e s = Inr s' \<Longrightarrow> inv s'"
    and listing_look: "inv s \<Longrightarrow> e \<in> set (listing s) \<longleftrightarrow> look s (key e) = Some e"
    and listing_sorted: "inv s \<Longrightarrow> sorted_wrt (<) (map key (listing s))"
begin

lemma inv_boot: "inv s \<Longrightarrow> register_all reg es s = Inr s' \<Longrightarrow> inv s'"
  by (induction es arbitrary: s) (auto split: sum.splits dest: inv_reg)

lemma listing_determined:
  assumes "inv s" and "inv s'" and "look s = look s'"
  shows "listing s = listing s'"
proof -
  have st: "set (listing s) = set (listing s')" using assms by (auto simp: listing_look)
  then have "set (map key (listing s)) = set (map key (listing s'))" by simp
  then have k: "map key (listing s) = map key (listing s')"
    using assms by (intro strict_sorted_equal listing_sorted) simp_all
  have "inj_on key (set (listing s) \<union> set (listing s'))"
    using assms by (auto simp: inj_on_def listing_look)
  from map_inj_on [OF k this] show ?thesis .
qed

lemma boot_listing:
  assumes "mset es = mset es'" and "register_all reg es start = Inr s"
  shows "\<exists>s'. register_all reg es' start = Inr s' \<and> look s' = look s \<and> listing s' = listing s"
proof -
  obtain s' where s': "register_all reg es' start = Inr s'" "look s' = look s"
    using boot_order_irrelevant [OF assms] by blast
  moreover have "listing s' = listing s"
    by (rule listing_determined) (use s' assms(2) inv_start inv_boot in auto)
  ultimately show ?thesis by blast
qed

end

text \<open>A registry kept as an association list whose entries sit under their own key.\<close>

definition keyed_inv :: "('e \<Rightarrow> string) \<Rightarrow> (string \<times> 'e) list \<Rightarrow> bool" where
  "keyed_inv key s \<longleftrightarrow> distinct (map fst s) \<and> (\<forall>(k, e) \<in> set s. k = key e)"

lemma keyed_look: "keyed_inv key s \<Longrightarrow> map_of s k = Some e \<longleftrightarrow> (k, e) \<in> set s"
  by (simp add: keyed_inv_def map_of_eq_Some_iff)

lemma keyed_listing:
  assumes "keyed_inv key s"
  shows "e \<in> set (sort_key key (map snd s)) \<longleftrightarrow> map_of s (key e) = Some e"
    and "sorted_wrt (<) (map key (sort_key key (map snd s)))"
proof -
  show "e \<in> set (sort_key key (map snd s)) \<longleftrightarrow> map_of s (key e) = Some e"
    using assms by (force simp: keyed_look keyed_inv_def)
  have "map fst s = map key (map snd s)"
    using assms by (auto simp: keyed_inv_def)
  then have "distinct (map key (map snd s))" using assms by (metis keyed_inv_def)
  moreover have "mset (map key (sort_key key (map snd s))) = mset (map key (map snd s))"
    by (simp only: mset_map mset_sort)
  ultimately have "distinct (map key (sort_key key (map snd s)))" by (metis mset_eq_imp_distinct_iff)
  then show "sorted_wrt (<) (map key (sort_key key (map snd s)))"
    by (simp add: strict_sorted_iff)
qed

section \<open>Types\<close>

type_synonym rung = string

definition RungShadow :: rung where "RungShadow = ''shadow''"
definition RungSuggest :: rung where "RungSuggest = ''suggest''"
definition RungActLow :: rung where "RungActLow = ''act_low''"
definition RungActPolicy :: rung where "RungActPolicy = ''act_policy''"
definition RungAutonomous :: rung where "RungAutonomous = ''autonomous''"

lemmas rung_defs = RungShadow_def RungSuggest_def RungActLow_def RungActPolicy_def RungAutonomous_def

record capabilities =
  cp_Streaming :: bool
  cp_ToolCalling :: bool
  cp_Embeddings :: bool
  cp_JSONMode :: bool
  cp_MaxContext :: int

record scope_filter =
  sf_CustomerIDs :: "string list"
  sf_DeviceClassIncludes :: "string list"
  sf_DeviceClassExcludes :: "string list"
  sf_DeviceTagExcludes :: "string list"

record promotion =
  pm_PrecisionMin :: rat
  pm_FalsePositiveRateMax :: rat
  pm_LabelingRateMin :: rat
  pm_WeeksCleanRequired :: int
  pm_MinSamples :: int

record capability =
  cb_Name :: string
  cb_Category :: string
  cb_Description :: string
  cb_Stage :: int
  cb_RequiredCaps :: capabilities
  cb_DependsOn :: "string list"
  cb_DefaultRung :: rung
  cb_DefaultScope :: scope_filter
  cb_DefaultPromotion :: promotion
  cb_PreferredTaskType :: string

section \<open>Capabilities\<close>

type_synonym cap_registry = "(string \<times> capability) list"

definition with_default_rung :: "capability \<Rightarrow> capability" where
  "with_default_rung c = (if cb_DefaultRung c = [] then c\<lparr>cb_DefaultRung := RungShadow\<rparr> else c)"

definition Register :: "capability \<Rightarrow> cap_registry \<Rightarrow> (string, cap_registry) result" where
  "Register c caps =
     (if cb_Name c = [] then Inl ''ai: capability missing Name''
      else let c = with_default_rung c in
        if map_of caps (cb_Name c) \<noteq> None then Inl (''ai: capability already registered: '' @ cb_Name c)
        else Inr ((cb_Name c, c) # caps))"

definition Lookup :: "cap_registry \<Rightarrow> string \<Rightarrow> capability option" where
  "Lookup caps name = map_of caps name"

definition All :: "cap_registry \<Rightarrow> capability list" where
  "All caps = sort_key cb_Name (map snd caps)"

lemma with_default_rung_name [simp]: "cb_Name (with_default_rung c) = cb_Name c"
  by (simp add: with_default_rung_def)

interpretation cap_reg: listed_registry cb_Name with_default_rung "\<lambda>c. cb_Name c \<noteq> []" Register Lookup "[]"
  "keyed_inv cb_Name" All
proof unfold_locales
  fix s e s'
  assume "keyed_inv cb_Name s" and "Register e s = Inr s'"
  then show "keyed_inv cb_Name s'"
    by (auto simp: keyed_inv_def Register_def Let_def map_of_eq_None_iff split: if_splits)
qed (auto simp: Register_def Lookup_def Let_def All_def keyed_listing keyed_inv_def fun_eq_iff
      simp del: set_sort)

text \<open>
  Readiness probes of system features: \<open>sysFeatures\<close> maps a name to what its probe answers, an
  error or none. \<open>CheckDependencies\<close> is the list of unmet dependencies, or an error for an
  unknown capability.
\<close>

type_synonym sys_features = "string \<rightharpoonup> string option"

definition RegisterSystemFeature :: "string \<Rightarrow> string option \<Rightarrow> sys_features \<Rightarrow> sys_features" where
  "RegisterSystemFeature name ready sys = sys(name \<mapsto> ready)"

definition unmet_dep :: "cap_registry \<Rightarrow> sys_features \<Rightarrow> string \<Rightarrow> string list" where
  "unmet_dep caps sys dep =
     (case Lookup caps dep of Some _ \<Rightarrow> []
      | None \<Rightarrow> (case sys dep of
            None \<Rightarrow> [dep]
          | Some None \<Rightarrow> []
          | Some (Some err) \<Rightarrow> [dep @ '' ('' @ err @ '')'']))"

definition CheckDependencies :: "cap_registry \<Rightarrow> sys_features \<Rightarrow> string \<Rightarrow> (string, string list) result" where
  "CheckDependencies caps sys name =
     (case Lookup caps name of
        None \<Rightarrow> Inl (''ai: unknown capability '' @ name)
      | Some c \<Rightarrow> Inr (concat (map (unmet_dep caps sys) (cb_DependsOn c))))"

text \<open>A dependency once met by a capability stays met when more capabilities register.\<close>

lemma dependencies_stay_met:
  assumes "register_all Register cs caps = Inr caps'" and "CheckDependencies caps sys name = Inr []"
  shows "CheckDependencies caps' sys name = Inr []"
proof -
  from assms(2) obtain c where c: "Lookup caps name = Some c" "\<forall>d \<in> set (cb_DependsOn c). unmet_dep caps sys d = []"
    by (auto simp: CheckDependencies_def split: option.splits)
  have "unmet_dep caps' sys d = []" if "d \<in> set (cb_DependsOn c)" for d
  proof (cases "Lookup caps d")
    case None
    with c(2) that have "sys d = Some None" by (auto simp: unmet_dep_def split: option.splits)
    then show ?thesis by (auto simp: unmet_dep_def split: option.splits)
  next
    case (Some e)
    then show ?thesis using cap_reg.entry_permanent [OF assms(1) Some] by (simp add: unmet_dep_def)
  qed
  with cap_reg.entry_permanent [OF assms(1) c(1)] show ?thesis
    by (simp add: CheckDependencies_def)
qed

section \<open>The action ladder\<close>

text \<open>
  A rung is a string, as in the code; \<open>rungAtLeast\<close> compares positions in a map from rungs to
  integers whose missing entries read as 0. \<open>ladder\<close> is the specification: the five positions
  in their order, with the order class of the library.
\<close>

definition rung_order :: "rung \<Rightarrow> int" where
  "rung_order r = (case [RungShadow \<mapsto> 0, RungSuggest \<mapsto> 1, RungActLow \<mapsto> 2, RungActPolicy \<mapsto> 3, RungAutonomous \<mapsto> 4] r of
      None \<Rightarrow> 0 | Some n \<Rightarrow> n)"

definition rungAtLeast :: "rung \<Rightarrow> rung \<Rightarrow> bool" where
  "rungAtLeast actual required = (rung_order actual \<ge> rung_order required)"

datatype ladder = Shadow | Suggest | ActLow | ActPolicy | Autonomous

fun position :: "ladder \<Rightarrow> nat" where
  "position Shadow = 0"
| "position Suggest = 1"
| "position ActLow = 2"
| "position ActPolicy = 3"
| "position Autonomous = 4"

instantiation ladder :: linorder
begin

definition less_eq_ladder :: "ladder \<Rightarrow> ladder \<Rightarrow> bool" where
  "less_eq_ladder a b = (position a \<le> position b)"

definition less_ladder :: "ladder \<Rightarrow> ladder \<Rightarrow> bool" where
  "less_ladder a b = (position a < position b)"

instance
proof
  fix a b :: ladder
  show "a \<le> b \<Longrightarrow> b \<le> a \<Longrightarrow> a = b"
    by (cases a; cases b) (simp_all add: less_eq_ladder_def)
qed (auto simp: less_eq_ladder_def less_ladder_def)

end

definition ladder_of :: "rung \<Rightarrow> ladder" where
  "ladder_of r = (if r = RungSuggest then Suggest else if r = RungActLow then ActLow
     else if r = RungActPolicy then ActPolicy else if r = RungAutonomous then Autonomous else Shadow)"

lemma rung_order_position: "rung_order r = int (position (ladder_of r))"
  by (simp add: rung_order_def ladder_of_def rung_defs)

lemma rungAtLeast_ladder: "rungAtLeast a r \<longleftrightarrow> ladder_of r \<le> ladder_of a"
  by (simp add: rungAtLeast_def rung_order_position less_eq_ladder_def)

section \<open>Tools\<close>

record 'h tool_spec =
  tl_Name :: string
  tl_Description :: string
  tl_InputSchema :: string
  tl_PermittedFields :: "string list"
  tl_MinRung :: rung
  tl_Handler :: "'h option"

type_synonym 'h tool_registry = "(string \<times> 'h tool_spec) list"

record tool_def =
  td_Name :: string
  td_Description :: string
  td_InputSchema :: string

definition RegisterTool :: "'h tool_spec \<Rightarrow> 'h tool_registry \<Rightarrow> (string, 'h tool_registry) result" where
  "RegisterTool t tools =
     (if tl_Name t = [] then Inl ''ai: tool missing Name''
      else if tl_Handler t = None then Inl (''ai: tool '' @ tl_Name t @ '' missing Handler'')
      else if map_of tools (tl_Name t) \<noteq> None then Inl (''ai: tool already registered: '' @ tl_Name t)
      else Inr ((tl_Name t, t) # tools))"

definition LookupTool :: "'h tool_registry \<Rightarrow> string \<Rightarrow> 'h tool_spec option" where
  "LookupTool tools name = map_of tools name"

text \<open>The order of the list is that of the map iteration, which the language leaves open.\<close>

definition ToolDefsForRung :: "'h tool_registry \<Rightarrow> rung \<Rightarrow> tool_def list" where
  "ToolDefsForRung tools r =
     map (\<lambda>(_, t). \<lparr>td_Name = tl_Name t, td_Description = tl_Description t, td_InputSchema = tl_InputSchema t\<rparr>)
       (filter (\<lambda>(_, t). rungAtLeast r (tl_MinRung t)) tools)"

interpretation tool_reg: registry tl_Name "\<lambda>t. t" "\<lambda>t. tl_Name t \<noteq> [] \<and> tl_Handler t \<noteq> None"
  RegisterTool LookupTool "[]"
  by unfold_locales (auto simp: RegisterTool_def LookupTool_def fun_eq_iff)

text \<open>
  The check of a tool call. \<open>parse\<close> is the JSON decoder applied to an object: the names of its
  top-level fields, or none when the text is not an object (\<open>null\<close> decodes to no fields).
\<close>

datatype tool_error = Unknown_tool | Accepts_no_args | Args_not_object | Rejected_field

definition ValidateToolCallArgs ::
  "(string \<Rightarrow> string list option) \<Rightarrow> 'h tool_registry \<Rightarrow> string \<Rightarrow> string \<Rightarrow> (tool_error, unit) result" where
  "ValidateToolCallArgs parse tools name args =
     (case LookupTool tools name of
        None \<Rightarrow> Inl Unknown_tool
      | Some t \<Rightarrow>
          if tl_PermittedFields t = []
          then (if args \<noteq> [] \<and> args \<noteq> ''{}'' \<and> args \<noteq> ''null'' then Inl Accepts_no_args else Inr ())
          else (case parse args of
                  None \<Rightarrow> Inl Args_not_object
                | Some present \<Rightarrow>
                    if list_ex (\<lambda>k. k \<notin> set (tl_PermittedFields t)) present then Inl Rejected_field else Inr ()))"

lemma tool_registry_boot:
  assumes "register_all RegisterTool ts [] = Inr tools" and "LookupTool tools name = Some t"
  shows "t \<in> set ts \<and> tl_Name t = name \<and> tl_Handler t \<noteq> None"
proof -
  have ok: "\<exists>s. register_all RegisterTool ts [] = Inr s" using assms(1) by blast
  from tool_reg.boot_look [OF assms(1)] assms(2)
  have "map_of (map (\<lambda>t. (tl_Name t, t)) ts) name = Some t"
    by (simp add: LookupTool_def map_add_def split: option.splits)
  then have "(name, t) \<in> set (map (\<lambda>t. (tl_Name t, t)) ts)" by (rule map_of_SomeD)
  then show ?thesis using ok by (auto simp: tool_reg.boot_ok list_all_iff)
qed

section \<open>Free text\<close>

text \<open>
  \<open>SanitizeFreeText\<close> deletes every match of
  \<open>[\x00-\x08\x0b\x0c\x0e-\x1f]|^[ \t]*(?i:ignore|disregard|system:)\<close>. Without the multi-line flag
  \<open>^\<close> matches at the beginning of the text only, so the second alternative can match once, there,
  and every other match is a single control character. Case is folded on ASCII letters.
\<close>

definition control_char :: "char \<Rightarrow> bool" where
  "control_char c = (let n = (of_char c :: nat) in n \<le> 8 \<or> n = 11 \<or> n = 12 \<or> 14 \<le> n \<and> n \<le> 31)"

definition blank_char :: "char \<Rightarrow> bool" where
  "blank_char c = (c = CHR '' '' \<or> c = CHR 0x09)"

definition directive_rest :: "string \<Rightarrow> string option" where
  "directive_rest s =
     (let t = dropWhile blank_char s; l = to_lower t in
      if has_prefix l ''ignore'' then Some (drop 6 t)
      else if has_prefix l ''disregard'' then Some (drop 9 t)
      else if has_prefix l ''system:'' then Some (drop 7 t) else None)"

definition SanitizeFreeText :: "string \<Rightarrow> string" where
  "SanitizeFreeText s = filter (\<lambda>c. \<not> control_char c) (case directive_rest s of None \<Rightarrow> s | Some r \<Rightarrow> r)"

lemma sanitize_no_control: "c \<in> set (SanitizeFreeText s) \<Longrightarrow> \<not> control_char c"
  by (simp add: SanitizeFreeText_def)

lemma directive_rest_control: "control_char c \<Longrightarrow> directive_rest (c # s) = None"
proof -
  assume c: "control_char c"
  then have "\<not> blank_char c" by (auto simp: control_char_def blank_char_def Let_def)
  moreover have "lower_char c \<notin> {CHR ''i'', CHR ''d'', CHR ''s''}"
  proof -
    have "lower_char c = c" using c by (auto simp: control_char_def lower_char_def Let_def)
    with c show ?thesis by (auto simp: control_char_def Let_def)
  qed
  ultimately show ?thesis by (simp add: directive_rest_def Let_def to_lower_def)
qed

text \<open>One leading control character switches the removal of directives off.\<close>

lemma sanitize_bypass: "control_char c \<Longrightarrow> SanitizeFreeText (c # s) = filter (\<lambda>c. \<not> control_char c) s"
  by (simp add: SanitizeFreeText_def directive_rest_control)

end
