(* ===== verification/AiRun.thy ===== *)
theory AiRun
  imports AiRegistry Crypto
begin

text \<open>
  The chokepoint of the AI layer, \<open>internal/ai/run.go\<close>, with the daily cost caps of
  \<open>internal/ai/cost.go\<close>, the read side of the kill switches of \<open>killswitch.go\<close> and the dialect check
  of \<open>dialect.go\<close>.

  \<open>ai_state\<close> holds what \<open>Run\<close> reads and writes: the registries, the cached kill flags, the tables
  \<open>tenants\<close> (its AI columns), \<open>ai_capability_tenant_config\<close>, \<open>ai_routing_rules\<close>, \<open>ai_providers\<close> and
  \<open>ai_runs\<close> (newest row in front), and the Redis counters. A missing counter reads as 0; the key carries
  the date, so its expiry after 36 hours never cuts into the day it counts.
  \<open>rw_down q\<close> says that the database statement \<open>q\<close> fails. The provider call is a function from
  the provider and the model name to an outcome, a panic included; time stands still within the checks and
  moves from \<open>rw_now\<close> to \<open>rw_done\<close> across the call. The floating-point percentage of the autonomous
  floor is the function \<open>rw_pct\<close>. JSON codecs, the date format and the cryptographic primitives are
  fields of the world as well.
\<close>

section \<open>State\<close>

datatype ai_query = Q_cap | Q_begin | Q_lock | Q_sum | Q_commit | Q_tenant | Q_config | Q_route
  | Q_provider | Q_floor | Q_demote | Q_persist

datatype cost_kind = CostChat | CostEmbedding

record device_snapshot =
  ds_ID :: string
  ds_TenantID :: string
  ds_OSClass :: string
  ds_Tags :: "string list"

record ai_world =
  rw_now :: unix
  rw_done :: unix
  rw_postgres :: bool
  rw_redis :: bool
  rw_incr_ok :: bool
  rw_down :: "ai_query \<Rightarrow> bool"
  rw_prims :: crypto_prims
  rw_key :: "string option"
  rw_date :: "int \<Rightarrow> string"
  rw_pct :: "int \<Rightarrow> int \<Rightarrow> rat"
  rw_scope_json :: "string \<Rightarrow> scope_filter option"
  rw_devices_json :: "device_snapshot list \<Rightarrow> string"

record ai_tenant =
  at_enabled :: int
  at_status :: string
  at_chat_cap :: int
  at_embed_cap :: int

record cap_config =
  cc_enabled :: int
  cc_rung :: rung
  cc_scope :: "string option"
  cc_confidence :: int
  cc_blast_max :: int
  cc_blast_window :: int
  cc_demoted_at :: "unix option"

record route =
  rt_provider :: string
  rt_model :: string
  rt_max_cost :: "int option"
  rt_in :: "int option"
  rt_out :: "int option"

record provider_row =
  pv_tenant :: string
  pv_kind :: string
  pv_name :: string
  pv_base_url :: string
  pv_api_key :: "string option"
  pv_region :: string
  pv_trust :: string
  pv_enabled :: int

record provider_config =
  pc_ID :: string
  pc_TenantID :: string
  pc_Kind :: string
  pc_Name :: string
  pc_BaseURL :: string
  pc_APIKey :: string
  pc_Region :: string
  pc_TrustLevel :: string

record provider =
  pd_Kind :: string
  pd_Caps :: capabilities

record ai_run =
  ru_id :: string
  ru_tenant :: string
  ru_customer :: "string option"
  ru_device :: "string option"
  ru_ticket :: "string option"
  ru_capability :: "string option"
  ru_type :: string
  ru_chain :: string
  ru_provider :: string
  ru_model :: string
  ru_version :: string
  ru_trust :: string
  ru_prompt_tokens :: int
  ru_output_tokens :: int
  ru_cost :: int
  ru_output :: string
  ru_action :: "string option"
  ru_snap :: string
  ru_rung :: string
  ru_status :: string
  ru_outcome :: "string option"
  ru_signed :: string
  ru_created :: unix

type_synonym factory = "provider_config \<Rightarrow> (string, provider) result"

record ai_state =
  ai_caps :: cap_registry
  ai_sys :: sys_features
  ai_factories :: "(string \<times> factory) list"
  ai_flags :: "string \<Rightarrow> bool"
  ai_tenants :: "string \<rightharpoonup> ai_tenant"
  ai_configs :: "string \<times> string \<rightharpoonup> cap_config"
  ai_routes :: "string \<times> string \<rightharpoonup> route"
  ai_providers :: "string \<rightharpoonup> provider_row"
  ai_runs :: "ai_run list"
  ai_counters :: "string \<Rightarrow> int"

datatype ai_error = ErrAINotSupported | ErrCapabilityKilled | ErrAIDisabled | ErrTenantSuspended string
  | ErrCapabilityDisabled | ErrCapNotFound | ErrUnmetDependency "string list" | ErrBuild string
  | ErrProviderCapMismatch | ErrDemoted | ErrDemoteFailed | ErrCostCap | ErrDb ai_query | ErrScopeFilter
  | ErrNoProvider | ErrLoadProvider | ErrProviderDisabled | ErrDecrypt | ErrCall string
  | ErrAuditPersist | ErrCallAndAudit string

section \<open>Dialect, factories, kill switches\<close>

definition SupportedDialect :: "ai_world \<Rightarrow> (ai_error, unit) result" where
  "SupportedDialect w = (if rw_postgres w then Inr () else Inl ErrAINotSupported)"

definition RegisterFactory :: "string \<times> 'f \<Rightarrow> (string \<times> 'f) list \<Rightarrow> (string, (string \<times> 'f) list) result" where
  "RegisterFactory kf fs = (case kf of (kind, f) \<Rightarrow>
     if map_of fs kind \<noteq> None then Inl (''ai: provider factory already registered for kind '' @ kind)
     else Inr ((kind, f) # fs))"

definition KnownKinds :: "(string \<times> 'f) list \<Rightarrow> string list" where
  "KnownKinds fs = map fst fs"

definition Build :: "(string \<times> factory) list \<Rightarrow> provider_config \<Rightarrow> (ai_error, provider) result" where
  "Build fs cfg = (case map_of fs (pc_Kind cfg) of
       None \<Rightarrow> Inl (ErrBuild (''no factory for provider kind '' @ pc_Kind cfg))
     | Some f \<Rightarrow> (case f cfg of Inl e \<Rightarrow> Inl (ErrBuild e) | Inr p \<Rightarrow> Inr p))"

interpretation factory_reg: registry fst "\<lambda>e. e" "\<lambda>_. True" RegisterFactory
  "\<lambda>fs k. map_option (Pair k) (map_of fs k)" "[]"
  by unfold_locales (auto simp: RegisterFactory_def fun_eq_iff)

definition scopeGlobal :: string where "scopeGlobal = ''global''"
definition scopeTenant :: "string \<Rightarrow> string" where "scopeTenant t = ''tenant:'' @ t"
definition scopeCap :: "string \<Rightarrow> string" where "scopeCap c = ''capability:'' @ c"
definition scopeTenantCap :: "string \<Rightarrow> string \<Rightarrow> string" where
  "scopeTenantCap t c = ''tenant:'' @ t @ '':capability:'' @ c"

definition IsKilled :: "(string \<Rightarrow> bool) \<Rightarrow> string \<Rightarrow> string \<Rightarrow> bool" where
  "IsKilled flags tenantID capabilityID =
     (if flags scopeGlobal then True
      else if flags (scopeTenant tenantID) then True
      else if capabilityID \<noteq> [] then
        (if flags (scopeCap capabilityID) then True
         else if flags (scopeTenantCap tenantID capabilityID) then True else False)
      else False)"

section \<open>Cost caps\<close>

text \<open>Days are counted from the epoch; \<open>time.Truncate(24h)\<close> and the date format work on UTC days.\<close>

definition day_of :: "unix \<Rightarrow> int" where
  "day_of t = t div 86400"

definition dailyKey :: "ai_world \<Rightarrow> string \<Rightarrow> cost_kind \<Rightarrow> unix \<Rightarrow> string" where
  "dailyKey w tenantID kind now =
     ''ai:cost:'' @ tenantID @ '':'' @ rw_date w (day_of now) @ '':'' @
     (case kind of CostEmbedding \<Rightarrow> ''embed'' | CostChat \<Rightarrow> ''chat'')"

definition loadCap :: "ai_world \<Rightarrow> string \<Rightarrow> cost_kind \<Rightarrow> ai_state \<Rightarrow> (ai_error, int) result" where
  "loadCap w tenantID kind s =
     (if rw_down w Q_cap then Inl (ErrDb Q_cap)
      else case ai_tenants s tenantID of
        None \<Rightarrow> Inl (ErrDb Q_cap)
      | Some t \<Rightarrow> Inr (case kind of CostEmbedding \<Rightarrow> at_embed_cap t | CostChat \<Rightarrow> at_chat_cap t))"

definition incr_by :: "string \<Rightarrow> int \<Rightarrow> ai_state \<Rightarrow> ai_state" where
  "incr_by k n s = s\<lparr>ai_counters := (ai_counters s)(k := ai_counters s k + n)\<rparr>"

definition recordOnlyRedis :: "ai_world \<Rightarrow> string \<Rightarrow> cost_kind \<Rightarrow> int \<Rightarrow> ai_state \<Rightarrow> ai_state" where
  "recordOnlyRedis w tenantID kind micros s =
     (if \<not> rw_redis w then s
      else if \<not> rw_incr_ok w then s
      else incr_by (dailyKey w tenantID kind (rw_now w)) micros s)"

definition spent_today :: "string \<Rightarrow> cost_kind \<Rightarrow> unix \<Rightarrow> ai_run list \<Rightarrow> int" where
  "spent_today tenantID kind now runs =
     (let dayStart = day_of now * 86400; runType = (case kind of CostEmbedding \<Rightarrow> ''embed'' | CostChat \<Rightarrow> ''chat'')
      in sum_list (map ru_cost
           (filter (\<lambda>r. ru_tenant r = tenantID \<and> ru_created r \<ge> dayStart \<and> ru_type r = runType) runs)))"

definition reserveViaDB ::
  "ai_world \<Rightarrow> string \<Rightarrow> cost_kind \<Rightarrow> int \<Rightarrow> int \<Rightarrow> ai_state \<Rightarrow> (ai_error, unit) result" where
  "reserveViaDB w tenantID kind micros cap s =
     (if rw_down w Q_begin then Inl (ErrDb Q_begin)
      else if rw_down w Q_lock then Inl (ErrDb Q_lock)
      else if rw_down w Q_sum then Inl (ErrDb Q_sum)
      else if i64 (spent_today tenantID kind (rw_now w) (ai_runs s) + micros) > cap then Inl ErrCostCap
      else if rw_down w Q_commit then Inl (ErrDb Q_commit)
      else Inr ())"

definition ReserveCost ::
  "ai_world \<Rightarrow> string \<Rightarrow> cost_kind \<Rightarrow> int \<Rightarrow> ai_state \<Rightarrow> (ai_error, unit) result \<times> ai_state" where
  "ReserveCost w tenantID kind micros s =
     (if micros \<le> 0 then (Inr (), s)
      else case loadCap w tenantID kind s of
        Inl e \<Rightarrow> (Inl e, s)
      | Inr cap \<Rightarrow>
          if cap = 0 then (Inr (), recordOnlyRedis w tenantID kind micros s)
          else if rw_redis w \<and> rw_incr_ok w then
            let key = dailyKey w tenantID kind (rw_now w);
                s1 = incr_by key micros s
            in if ai_counters s1 key > cap then (Inl ErrCostCap, incr_by key (- micros) s1)
               else (Inr (), s1)
          else (reserveViaDB w tenantID kind micros cap s, s))"

definition ReleaseCost :: "ai_world \<Rightarrow> string \<Rightarrow> cost_kind \<Rightarrow> int \<Rightarrow> ai_state \<Rightarrow> ai_state" where
  "ReleaseCost w tenantID kind micros s =
     (if micros \<le> 0 then s
      else if rw_redis w then incr_by (dailyKey w tenantID kind (rw_done w)) (- micros) s
      else s)"

section \<open>The configuration of a run\<close>

datatype run_type = RunTypeChat | RunTypeEmbed | RunTypeToolCall

fun run_type_str :: "run_type \<Rightarrow> string" where
  "run_type_str RunTypeChat = ''chat''"
| "run_type_str RunTypeEmbed = ''embed''"
| "run_type_str RunTypeToolCall = ''tool_call''"

record input =
  in_TenantID :: string
  in_CapabilityID :: string
  in_CustomerID :: string
  in_DeviceID :: string
  in_TicketID :: string
  in_RunType :: run_type
  in_Devices :: "device_snapshot list"
  in_Estimate :: int
  in_Chain :: string

record runtime_config =
  rc_tenantStatus :: string
  rc_rung :: rung
  rc_enabled :: bool
  rc_scopeFilter :: scope_filter
  rc_confidence :: int
  rc_blastMax :: int
  rc_blastWindow :: int
  rc_providerCfg :: provider_config
  rc_costKind :: cost_kind
  rc_modelName :: string
  rc_maxCostMicros :: int
  rc_costPerKInput :: int
  rc_costPerKOutput :: int

definition no_scope :: scope_filter where
  "no_scope = \<lparr>sf_CustomerIDs = [], sf_DeviceClassIncludes = [], sf_DeviceClassExcludes = [], sf_DeviceTagExcludes = []\<rparr>"

definition ParseScopeFilter :: "ai_world \<Rightarrow> string \<Rightarrow> scope_filter option" where
  "ParseScopeFilter w raw = (if raw = [] then Some no_scope else rw_scope_json w raw)"

definition loadProvider :: "ai_world \<Rightarrow> string \<Rightarrow> ai_state \<Rightarrow> (ai_error, provider_config) result" where
  "loadProvider w pid s =
     (if rw_down w Q_provider then Inl ErrLoadProvider
      else case ai_providers s pid of
        None \<Rightarrow> Inl ErrLoadProvider
      | Some p \<Rightarrow>
          if pv_enabled p \<noteq> 1 then Inl ErrProviderDisabled
          else let pc = \<lparr>pc_ID = pid, pc_TenantID = pv_tenant p, pc_Kind = pv_kind p, pc_Name = pv_name p,
                 pc_BaseURL = pv_base_url p, pc_APIKey = [], pc_Region = pv_region p, pc_TrustLevel = pv_trust p\<rparr>
            in (case pv_api_key p of
                  None \<Rightarrow> Inr pc
                | Some k \<Rightarrow> if k = [] then Inr pc
                    else (case Decrypt (rw_prims w) (rw_key w) k of
                        Inl _ \<Rightarrow> Inl ErrDecrypt
                      | Inr dec \<Rightarrow> Inr (pc\<lparr>pc_APIKey := dec\<rparr>))))"

definition task_type :: "ai_state \<Rightarrow> input \<Rightarrow> string" where
  "task_type s inp =
     (if in_RunType inp = RunTypeEmbed then ''embed''
      else case Lookup (ai_caps s) (in_CapabilityID inp) of
        None \<Rightarrow> ''reason''
      | Some c \<Rightarrow> if cb_PreferredTaskType c = [] then ''reason'' else cb_PreferredTaskType c)"

definition loadRuntime :: "ai_world \<Rightarrow> input \<Rightarrow> ai_state \<Rightarrow> (ai_error, runtime_config) result" where
  "loadRuntime w inp s =
     (if rw_down w Q_tenant then Inl (ErrDb Q_tenant)
      else case ai_tenants s (in_TenantID inp) of
        None \<Rightarrow> Inl (ErrDb Q_tenant)
      | Some t \<Rightarrow>
        if at_enabled t \<noteq> 1 then Inl ErrAIDisabled
        else if rw_down w Q_config then Inl (ErrDb Q_config)
        else
        let cc = (case ai_configs s (in_TenantID inp, in_CapabilityID inp) of
              None \<Rightarrow> \<lparr>cc_enabled = 0, cc_rung = [], cc_scope = None, cc_confidence = 0, cc_blast_max = 0,
                       cc_blast_window = 0, cc_demoted_at = None\<rparr>
            | Some c \<Rightarrow> c)
        in case (case cc_scope cc of None \<Rightarrow> Some no_scope | Some raw \<Rightarrow> ParseScopeFilter w raw) of
          None \<Rightarrow> Inl ErrScopeFilter
        | Some sf \<Rightarrow>
          if rw_down w Q_route then Inl ErrNoProvider
          else case ai_routes s (in_TenantID inp, task_type s inp) of
            None \<Rightarrow> Inl ErrNoProvider
          | Some rt \<Rightarrow>
            (case loadProvider w (rt_provider rt) s of
               Inl e \<Rightarrow> Inl e
             | Inr pc \<Rightarrow> Inr
                 \<lparr>rc_tenantStatus = at_status t, rc_rung = cc_rung cc, rc_enabled = (cc_enabled cc = 1),
                  rc_scopeFilter = sf, rc_confidence = cc_confidence cc, rc_blastMax = cc_blast_max cc,
                  rc_blastWindow = cc_blast_window cc, rc_providerCfg = pc,
                  rc_costKind = (if in_RunType inp = RunTypeEmbed then CostEmbedding else CostChat),
                  rc_modelName = rt_model rt,
                  rc_maxCostMicros = (case rt_max_cost rt of None \<Rightarrow> 0 | Some x \<Rightarrow> x),
                  rc_costPerKInput = (case rt_in rt of None \<Rightarrow> 0 | Some x \<Rightarrow> x),
                  rc_costPerKOutput = (case rt_out rt of None \<Rightarrow> 0 | Some x \<Rightarrow> x)\<rparr>))"

section \<open>The checks before the call\<close>

definition providerSupports :: "capabilities \<Rightarrow> capabilities \<Rightarrow> bool" where
  "providerSupports have need =
     (if cp_Streaming need \<and> \<not> cp_Streaming have then False
      else if cp_ToolCalling need \<and> \<not> cp_ToolCalling have then False
      else if cp_Embeddings need \<and> \<not> cp_Embeddings have then False
      else if cp_JSONMode need \<and> \<not> cp_JSONMode have then False
      else if cp_MaxContext need > 0 \<and> cp_MaxContext have > 0 \<and> cp_MaxContext have < cp_MaxContext need then False
      else True)"

definition floor_run :: "string \<Rightarrow> string \<Rightarrow> unix \<Rightarrow> ai_run \<Rightarrow> bool" where
  "floor_run tenantID capID since r = (ru_tenant r = tenantID \<and> ru_capability r = Some capID
     \<and> ru_created r \<ge> since \<and> \<not> has_prefix (ru_output r) ''[error]'')"

definition enforceAutonomousFloor ::
  "ai_world \<Rightarrow> string \<Rightarrow> string \<Rightarrow> capability \<Rightarrow> int \<Rightarrow> ai_state \<Rightarrow> (ai_error, unit) result \<times> ai_state" where
  "enforceAutonomousFloor w tenantID capID capDef threshold s =
     (if threshold \<le> 0 then (Inr (), s)
      else if rw_down w Q_floor then (Inr (), s)
      else
      let since = rw_now w - 14 * 24 * 3600;
          rs = filter (floor_run tenantID capID since) (ai_runs s);
          correct = int (length (filter (\<lambda>r. ru_outcome r = Some ''correct'') rs));
          incorrect = int (length (filter (\<lambda>r. ru_outcome r = Some ''incorrect'') rs));
          labelled = correct + incorrect;
          minSamples = (if pm_MinSamples (cb_DefaultPromotion capDef) < 50 then 50
                        else pm_MinSamples (cb_DefaultPromotion capDef))
      in if rs = [] then (Inr (), s)
         else if labelled < minSamples then (Inr (), s)
         else if rw_pct w correct labelled \<ge> of_int threshold then (Inr (), s)
         else if rw_down w Q_demote then (Inl ErrDemoteFailed, s)
         else (Inl ErrDemoted, s\<lparr>ai_configs := (case ai_configs s (tenantID, capID) of
                  None \<Rightarrow> ai_configs s
                | Some c \<Rightarrow> (ai_configs s)((tenantID, capID) \<mapsto> c\<lparr>cc_rung := RungActPolicy, cc_demoted_at := Some (rw_now w)\<rparr>))\<rparr>))"

definition hashSnapshot :: "ai_world \<Rightarrow> input \<Rightarrow> string" where
  "hashSnapshot w inp = hexEncode (sha256 (rw_prims w)
     (in_TenantID inp @ ''|'' @ in_CustomerID inp @ ''|'' @ rw_devices_json w (in_Devices inp)))"

text \<open>Steps 1 to 5a of \<open>Run\<close>, which only read.\<close>

definition run_checks ::
  "ai_world \<Rightarrow> input \<Rightarrow> ai_state \<Rightarrow> (ai_error, runtime_config \<times> capability \<times> provider) result" where
  "run_checks w inp s =
     (case SupportedDialect w of Inl e \<Rightarrow> Inl e | Inr _ \<Rightarrow>
      if IsKilled (ai_flags s) (in_TenantID inp) (in_CapabilityID inp) then Inl ErrCapabilityKilled
      else case loadRuntime w inp s of Inl e \<Rightarrow> Inl e | Inr cfg \<Rightarrow>
      if rc_tenantStatus cfg \<noteq> ''active'' then Inl (ErrTenantSuspended (rc_tenantStatus cfg))
      else if \<not> (case Lookup (ai_caps s) (in_CapabilityID inp) of Some c \<Rightarrow> cb_Stage c = 0 | None \<Rightarrow> False)
              \<and> \<not> rc_enabled cfg then Inl ErrCapabilityDisabled
      else case Lookup (ai_caps s) (in_CapabilityID inp) of None \<Rightarrow> Inl ErrCapNotFound | Some c \<Rightarrow>
      (case CheckDependencies (ai_caps s) (ai_sys s) (in_CapabilityID inp) of
         Inl _ \<Rightarrow> Inl ErrCapNotFound
       | Inr unmet \<Rightarrow>
         if unmet \<noteq> [] then Inl (ErrUnmetDependency unmet)
         else (case Build (ai_factories s) (rc_providerCfg cfg) of Inl e \<Rightarrow> Inl e | Inr prov \<Rightarrow>
           if \<not> providerSupports (pd_Caps prov) (cb_RequiredCaps c) then Inl ErrProviderCapMismatch
           else Inr (cfg, c, prov))))"

text \<open>The checks, then the autonomous floor, then the reservation: all that precedes the call.\<close>

definition run_gates ::
  "ai_world \<Rightarrow> input \<Rightarrow> ai_state \<Rightarrow> (ai_error, runtime_config \<times> string \<times> provider) result \<times> ai_state" where
  "run_gates w inp s =
     (case run_checks w inp s of Inl e \<Rightarrow> (Inl e, s) | Inr (cfg, c, prov) \<Rightarrow>
      (case (if rc_rung cfg = RungAutonomous
             then enforceAutonomousFloor w (in_TenantID inp) (in_CapabilityID inp) c (rc_confidence cfg) s
             else (Inr (), s)) of
         (Inl e, s) \<Rightarrow> (Inl e, s)
       | (Inr _, s) \<Rightarrow>
         (case ReserveCost w (in_TenantID inp) (rc_costKind cfg) (in_Estimate inp) s of
            (Inl e, s) \<Rightarrow> (Inl e, s)
          | (Inr _, s) \<Rightarrow> (Inr (cfg, hashSnapshot w inp, prov), s))))"

section \<open>The call and the audit row\<close>

record chat_response =
  ch_Content :: string
  ch_PromptTokens :: int
  ch_OutputTokens :: int
  ch_ModelVersion :: string
  ch_Synthetic :: bool
  ch_SyntheticSource :: string

record embed_response =
  em_PromptTokens :: int
  em_ModelVersion :: string

text \<open>What the closure does: it panics, or returns a response, an action and an error.\<close>

datatype call_outcome = Panicked string
  | Called "chat_response option" "embed_response option" string "string option"

type_synonym call_result = "chat_response option \<times> embed_response option \<times> string \<times> string option"

definition callSafely :: "call_outcome \<Rightarrow> call_result" where
  "callSafely r = (case r of
       Panicked m \<Rightarrow> (None, None, [], Some (''ai: provider closure panicked: '' @ m))
     | Called ch em act err \<Rightarrow> (ch, em, act, err))"

text \<open>Integer division of the language truncates toward zero.\<close>

definition go_div :: "int \<Rightarrow> int \<Rightarrow> int" where
  "go_div a b = (if a < 0 then - ((- a) div b) else a div b)"

definition token_counts :: "chat_response option \<Rightarrow> embed_response option \<Rightarrow> int \<times> int" where
  "token_counts chat emb =
     (let (p, o') = (case chat of None \<Rightarrow> (0, 0) | Some c \<Rightarrow> (ch_PromptTokens c, ch_OutputTokens c))
      in case emb of None \<Rightarrow> (p, o') | Some e \<Rightarrow> (em_PromptTokens e, o'))"

definition computeActualCost :: "runtime_config \<Rightarrow> chat_response option \<Rightarrow> embed_response option \<Rightarrow> int" where
  "computeActualCost cfg chat emb =
     (let (promptTokens, outputTokens) = token_counts chat emb
      in go_div (i64 (i64 (promptTokens * rc_costPerKInput cfg) + i64 (outputTokens * rc_costPerKOutput cfg))) 1000)"

definition version_char :: "char \<Rightarrow> bool" where
  "version_char c = (is_lower c \<or> is_upper c \<or> is_digit c \<or> c \<in> set ''._:/+-'')"

definition sanitizeModelVersion :: "string \<Rightarrow> string" where
  "sanitizeModelVersion s0 =
     (let s = (if length s0 > 1024 then take 1024 s0 else s0) in
      if s \<noteq> [] \<and> length s \<le> 128 \<and> list_all version_char s then s
      else let b = take 128 (filter version_char s) in if b = [] then ''[unparseable]'' else b)"

definition truncateForAudit :: "string \<Rightarrow> string" where
  "truncateForAudit s = (if length s \<le> 16 * 1024 then s else take (16 * 1024) s @ ''...[truncated]'')"

definition nullable :: "string \<Rightarrow> string option" where
  "nullable s = (if s = [] then None else Some s)"

definition run_message ::
  "string \<Rightarrow> string \<Rightarrow> string \<Rightarrow> string \<Rightarrow> string \<Rightarrow> string \<Rightarrow> string \<Rightarrow> int \<Rightarrow> string \<Rightarrow> unix \<Rightarrow> string" where
  "run_message runID tid cap rtype prov model rung cost snap ts =
     str_join ''|'' [runID, tid, cap, rtype, prov, model, rung, itoa cost, snap, itoa ts]"

definition signRow :: "ai_world \<Rightarrow> string \<Rightarrow> input \<Rightarrow> runtime_config \<Rightarrow> int \<Rightarrow> string \<Rightarrow> unix \<Rightarrow> string" where
  "signRow w runID inp cfg cost snapHash ts =
     HMACSHA256 (rw_prims w) (rw_key w) ''ai_run_v1''
       (run_message runID (in_TenantID inp) (in_CapabilityID inp) (run_type_str (in_RunType inp))
          (pc_ID (rc_providerCfg cfg)) (rc_modelName cfg) (rc_rung cfg) cost snapHash ts)"

text \<open>The row that \<open>persistRun\<close> inserts; the latency and the columns it leaves NULL or 0 are not kept.\<close>

definition run_row ::
  "ai_world \<Rightarrow> string \<Rightarrow> input \<Rightarrow> runtime_config \<Rightarrow> string \<Rightarrow> call_result \<Rightarrow> int \<Rightarrow> ai_run" where
  "run_row w runID inp cfg snap res cost =
     (case res of (chat, emb, action, callErr) \<Rightarrow>
      let now = rw_done w; (promptTok, outputTok) = token_counts chat emb;
          modelName = (case chat of None \<Rightarrow> rc_modelName cfg
             | Some c \<Rightarrow> if ch_Synthetic c
                then ''local:'' @ (if ch_SyntheticSource c = [] then ''synthetic'' else ch_SyntheticSource c)
                else rc_modelName cfg);
          version = (case emb of Some e \<Rightarrow> sanitizeModelVersion (em_ModelVersion e)
             | None \<Rightarrow> (case chat of Some c \<Rightarrow> sanitizeModelVersion (ch_ModelVersion c) | None \<Rightarrow> []));
          outputText = (case callErr of Some e \<Rightarrow> ''[error] '' @ truncateForAudit e
             | None \<Rightarrow> (case chat of Some c \<Rightarrow> truncateForAudit (ch_Content c) | None \<Rightarrow> []))
      in \<lparr>ru_id = runID, ru_tenant = in_TenantID inp, ru_customer = nullable (in_CustomerID inp),
          ru_device = nullable (in_DeviceID inp), ru_ticket = nullable (in_TicketID inp),
          ru_capability = nullable (in_CapabilityID inp), ru_type = run_type_str (in_RunType inp),
          ru_chain = in_Chain inp, ru_provider = pc_ID (rc_providerCfg cfg), ru_model = modelName,
          ru_version = version, ru_trust = pc_TrustLevel (rc_providerCfg cfg),
          ru_prompt_tokens = promptTok, ru_output_tokens = outputTok, ru_cost = cost, ru_output = outputText,
          ru_action = nullable action, ru_snap = snap, ru_rung = rc_rung cfg, ru_status = rc_tenantStatus cfg,
          ru_outcome = None, ru_signed = signRow w runID inp cfg cost snap now, ru_created = now\<rparr>)"

definition persistRun :: "ai_world \<Rightarrow> ai_run \<Rightarrow> ai_state \<Rightarrow> (ai_error, unit) result \<times> ai_state" where
  "persistRun w row s = (if rw_down w Q_persist then (Inl (ErrDb Q_persist), s) else (Inr (), s\<lparr>ai_runs := row # ai_runs s\<rparr>))"

record run_output =
  ro_RunID :: string
  ro_CostMicros :: int
  ro_ChatResp :: "chat_response option"
  ro_EmbedResp :: "embed_response option"

text \<open>Steps 8 and 9: reconcile the cost and write the audit row.\<close>

definition run_settle ::
  "ai_world \<Rightarrow> string \<Rightarrow> input \<Rightarrow> runtime_config \<Rightarrow> string \<Rightarrow> call_result \<Rightarrow> ai_state
    \<Rightarrow> (ai_error, run_output) result \<times> ai_state" where
  "run_settle w runID inp cfg snap res s =
     (case res of (chat, emb, action, callErr) \<Rightarrow>
      let actual = computeActualCost cfg chat emb;
          over = in_Estimate inp - actual;
          s = (if over > 0 then ReleaseCost w (in_TenantID inp) (rc_costKind cfg) over s else s)
      in case persistRun w (run_row w runID inp cfg snap res actual) s of
        (Inl _, s) \<Rightarrow>
          let s = ReleaseCost w (in_TenantID inp) (rc_costKind cfg) (in_Estimate inp) s
          in (case callErr of Some e \<Rightarrow> (Inl (ErrCallAndAudit e), s) | None \<Rightarrow> (Inl ErrAuditPersist, s))
      | (Inr _, s) \<Rightarrow>
          (case callErr of
             Some e \<Rightarrow> (Inl (ErrCall e), s)
           | None \<Rightarrow> (Inr \<lparr>ro_RunID = runID, ro_CostMicros = actual, ro_ChatResp = chat, ro_EmbedResp = emb\<rparr>, s)))"

definition Run ::
  "ai_world \<Rightarrow> string \<Rightarrow> input \<Rightarrow> (provider \<Rightarrow> string \<Rightarrow> call_outcome) \<Rightarrow> ai_state
    \<Rightarrow> (ai_error, run_output) result \<times> ai_state" where
  "Run w runID inp fn s =
     (case run_gates w inp s of
        (Inl e, s) \<Rightarrow> (Inl e, s)
      | (Inr (cfg, snap, prov), s) \<Rightarrow>
          run_settle w runID inp cfg snap (callSafely (fn prov (rc_modelName cfg))) s)"

section \<open>Verification of a stored row\<close>

record run_for_verification =
  rv_RunID :: string
  rv_TenantID :: string
  rv_CapabilityID :: string
  rv_RunType :: string
  rv_ProviderID :: string
  rv_ModelName :: string
  rv_Rung :: string
  rv_Cost :: int
  rv_SnapHash :: string
  rv_CreatedAt :: int
  rv_Signed :: string

definition LoadRunForVerification :: "string \<Rightarrow> string \<Rightarrow> ai_state \<Rightarrow> (ai_error, run_for_verification) result" where
  "LoadRunForVerification runID tenantID s =
     (case List.find (\<lambda>r. ru_id r = runID \<and> ru_tenant r = tenantID) (ai_runs s) of
        None \<Rightarrow> Inl ErrCapNotFound
      | Some r \<Rightarrow> Inr \<lparr>rv_RunID = ru_id r, rv_TenantID = ru_tenant r,
            rv_CapabilityID = (case ru_capability r of None \<Rightarrow> [] | Some c \<Rightarrow> c), rv_RunType = ru_type r,
            rv_ProviderID = ru_provider r, rv_ModelName = ru_model r, rv_Rung = ru_rung r, rv_Cost = ru_cost r,
            rv_SnapHash = ru_snap r, rv_CreatedAt = ru_created r, rv_Signed = ru_signed r\<rparr>)"

definition RecomputeSignature :: "ai_world \<Rightarrow> run_for_verification \<Rightarrow> string" where
  "RecomputeSignature w r = HMACSHA256 (rw_prims w) (rw_key w) ''ai_run_v1''
     (run_message (rv_RunID r) (rv_TenantID r) (rv_CapabilityID r) (rv_RunType r) (rv_ProviderID r)
        (rv_ModelName r) (rv_Rung r) (rv_Cost r) (rv_SnapHash r) (rv_CreatedAt r))"

section \<open>Lemmas\<close>

lemma IsKilled_iff:
  "IsKilled flags t c \<longleftrightarrow> flags scopeGlobal \<or> flags (scopeTenant t)
     \<or> c \<noteq> [] \<and> (flags (scopeCap c) \<or> flags (scopeTenantCap t c))"
  by (simp add: IsKilled_def)

lemma run_checks_ok:
  assumes "run_checks w inp s = Inr (cfg, c, prov)"
  shows "rw_postgres w \<and> \<not> IsKilled (ai_flags s) (in_TenantID inp) (in_CapabilityID inp)
    \<and> loadRuntime w inp s = Inr cfg \<and> rc_tenantStatus cfg = ''active''
    \<and> Build (ai_factories s) (rc_providerCfg cfg) = Inr prov
    \<and> Lookup (ai_caps s) (in_CapabilityID inp) = Some c \<and> (cb_Stage c = 0 \<or> rc_enabled cfg)
    \<and> CheckDependencies (ai_caps s) (ai_sys s) (in_CapabilityID inp) = Inr []
    \<and> providerSupports (pd_Caps prov) (cb_RequiredCaps c)"
proof -
  from assms have 1: "rw_postgres w" "\<not> IsKilled (ai_flags s) (in_TenantID inp) (in_CapabilityID inp)"
    by (auto simp: run_checks_def SupportedDialect_def split: if_splits)
  with assms obtain cfg0 where 2: "loadRuntime w inp s = Inr cfg0" "rc_tenantStatus cfg0 = ''active''"
    by (auto simp: run_checks_def SupportedDialect_def split: if_splits sum.splits)
  with assms 1 obtain c0 where 3: "Lookup (ai_caps s) (in_CapabilityID inp) = Some c0" "cb_Stage c0 = 0 \<or> rc_enabled cfg0"
    by (auto simp: run_checks_def SupportedDialect_def split: if_splits option.splits)
  with assms 1 2 show ?thesis
    by (auto simp: run_checks_def SupportedDialect_def split: if_splits sum.splits)
qed

lemma run_gates_ok:
  assumes "run_gates w inp s = (Inr (cfg, snap, prov), s')"
  shows "\<exists>c s1. run_checks w inp s = Inr (cfg, c, prov) \<and> snap = hashSnapshot w inp
    \<and> (if rc_rung cfg = RungAutonomous
       then enforceAutonomousFloor w (in_TenantID inp) (in_CapabilityID inp) c (rc_confidence cfg) s
       else (Inr (), s)) = (Inr (), s1)
    \<and> ReserveCost w (in_TenantID inp) (rc_costKind cfg) (in_Estimate inp) s1 = (Inr (), s')"
  using assms by (auto simp: run_gates_def split: sum.splits prod.splits)

text \<open>What a run needs before the provider is consulted, stated over the tables.\<close>

definition run_admitted :: "ai_world \<Rightarrow> input \<Rightarrow> ai_state \<Rightarrow> bool" where
  "run_admitted w inp s \<longleftrightarrow>
     (let t = in_TenantID inp; cp = in_CapabilityID inp in
      rw_postgres w \<and> \<not> ai_flags s scopeGlobal \<and> \<not> ai_flags s (scopeTenant t)
      \<and> (cp \<noteq> [] \<longrightarrow> \<not> ai_flags s (scopeCap cp) \<and> \<not> ai_flags s (scopeTenantCap t cp))
      \<and> (\<exists>row. ai_tenants s t = Some row \<and> at_enabled row = 1 \<and> at_status row = ''active'')
      \<and> (\<exists>c. Lookup (ai_caps s) cp = Some c \<and> CheckDependencies (ai_caps s) (ai_sys s) cp = Inr []
           \<and> (cb_Stage c = 0 \<or> (\<exists>cc. ai_configs s (t, cp) = Some cc \<and> cc_enabled cc = 1))
           \<and> (\<exists>rt p. ai_routes s (t, task_type s inp) = Some rt
                \<and> ai_providers s (rt_provider rt) = Some p \<and> pv_enabled p = 1
                \<and> (\<exists>f cfg prov. map_of (ai_factories s) (pv_kind p) = Some f \<and> f cfg = Inr prov
                       \<and> providerSupports (pd_Caps prov) (cb_RequiredCaps c)))))"

lemma loadProvider_ok:
  "loadProvider w pid s = Inr pc \<Longrightarrow>
     \<exists>p. ai_providers s pid = Some p \<and> pv_enabled p = 1 \<and> pc_ID pc = pid \<and> pc_Kind pc = pv_kind p"
  by (auto simp: loadProvider_def Let_def split: if_splits option.splits sum.splits)

lemma loadRuntime_ok:
  assumes "loadRuntime w inp s = Inr cfg"
  shows "\<exists>t rt. ai_tenants s (in_TenantID inp) = Some t \<and> at_enabled t = 1 \<and> at_status t = rc_tenantStatus cfg
    \<and> ai_routes s (in_TenantID inp, task_type s inp) = Some rt \<and> rc_modelName cfg = rt_model rt
    \<and> loadProvider w (rt_provider rt) s = Inr (rc_providerCfg cfg)
    \<and> (rc_enabled cfg \<longrightarrow> (\<exists>cc. ai_configs s (in_TenantID inp, in_CapabilityID inp) = Some cc \<and> cc_enabled cc = 1))"
  using assms
  by (cases "ai_configs s (in_TenantID inp, in_CapabilityID inp)")
    (auto simp: loadRuntime_def Let_def split: if_splits option.splits sum.splits)

lemma Build_ok: "Build fs cfg = Inr prov \<Longrightarrow> \<exists>f. map_of fs (pc_Kind cfg) = Some f \<and> f cfg = Inr prov"
  by (auto simp: Build_def split: option.splits sum.splits)

lemma gates_admitted:
  assumes "run_gates w inp s = (Inr (cfg, snap, prov), s')"
  shows "run_admitted w inp s"
proof -
  obtain c where rc: "run_checks w inp s = Inr (cfg, c, prov)" using run_gates_ok [OF assms] by blast
  note g = run_checks_ok [OF rc]
  then have lr: "loadRuntime w inp s = Inr cfg" by blast
  obtain t rt where t: "ai_tenants s (in_TenantID inp) = Some t" "at_enabled t = 1" "at_status t = rc_tenantStatus cfg"
    and rt: "ai_routes s (in_TenantID inp, task_type s inp) = Some rt"
    and lp: "loadProvider w (rt_provider rt) s = Inr (rc_providerCfg cfg)"
    and en: "rc_enabled cfg \<longrightarrow> (\<exists>cc. ai_configs s (in_TenantID inp, in_CapabilityID inp) = Some cc \<and> cc_enabled cc = 1)"
    using loadRuntime_ok [OF lr] by blast
  obtain p where p: "ai_providers s (rt_provider rt) = Some p" "pv_enabled p = 1" "pc_Kind (rc_providerCfg cfg) = pv_kind p"
    using loadProvider_ok [OF lp] by blast
  obtain f where f: "map_of (ai_factories s) (pv_kind p) = Some f" "f (rc_providerCfg cfg) = Inr prov"
    using g Build_ok p(3) by metis
  from g have c: "Lookup (ai_caps s) (in_CapabilityID inp) = Some c" "cb_Stage c = 0 \<or> rc_enabled cfg"
      "CheckDependencies (ai_caps s) (ai_sys s) (in_CapabilityID inp) = Inr []"
      "providerSupports (pd_Caps prov) (cb_RequiredCaps c)" by blast+
  have "\<exists>row. ai_tenants s (in_TenantID inp) = Some row \<and> at_enabled row = 1 \<and> at_status row = ''active''"
    using t g by auto
  moreover have "\<not> IsKilled (ai_flags s) (in_TenantID inp) (in_CapabilityID inp)" "rw_postgres w" using g by blast+
  moreover have "\<exists>rt p. ai_routes s (in_TenantID inp, task_type s inp) = Some rt
       \<and> ai_providers s (rt_provider rt) = Some p \<and> pv_enabled p = 1
       \<and> (\<exists>f cfg prov. map_of (ai_factories s) (pv_kind p) = Some f \<and> f cfg = Inr prov
              \<and> providerSupports (pd_Caps prov) (cb_RequiredCaps c))"
    using rt p f c(4) by blast
  ultimately show ?thesis using c en
    unfolding run_admitted_def Let_def IsKilled_iff by auto
qed

lemma Run_refused:
  "\<not> run_admitted w inp s \<Longrightarrow> \<exists>e s'. run_gates w inp s = (Inl e, s')"
  using gates_admitted [of w inp s] by (cases "run_gates w inp s"; cases "fst (run_gates w inp s)") force+

lemma floor_runs [frame_simps]: "ai_runs (snd (enforceAutonomousFloor w t c d th s)) = ai_runs s"
  by (simp add: enforceAutonomousFloor_def Let_def)

lemma incr_by_frame [frame_simps]:
  "ai_runs (incr_by k n s) = ai_runs s" "ai_tenants (incr_by k n s) = ai_tenants s"
  "ai_configs (incr_by k n s) = ai_configs s"
  by (simp_all add: incr_by_def)

lemma Reserve_frame [frame_simps]:
  "ai_runs (snd (ReserveCost w t k m s)) = ai_runs s" "ai_tenants (snd (ReserveCost w t k m s)) = ai_tenants s"
  "ai_configs (snd (ReserveCost w t k m s)) = ai_configs s"
  by (auto simp: ReserveCost_def recordOnlyRedis_def Let_def frame_simps split: sum.split)

lemma Release_frame [frame_simps]:
  "ai_runs (ReleaseCost w t k m s) = ai_runs s" "ai_tenants (ReleaseCost w t k m s) = ai_tenants s"
  by (simp_all add: ReleaseCost_def frame_simps)

lemma gates_runs: "ai_runs (snd (run_gates w inp s)) = ai_runs s"
proof (cases "run_checks w inp s")
  case (Inr x)
  obtain cfg c prov where x: "x = (cfg, c, prov)" by (cases x) auto
  let ?f = "if rc_rung cfg = RungAutonomous
     then enforceAutonomousFloor w (in_TenantID inp) (in_CapabilityID inp) c (rc_confidence cfg) s else (Inr (), s)"
  have f: "ai_runs (snd ?f) = ai_runs s" by (simp add: frame_simps)
  obtain rf sf where rf: "?f = (rf, sf)" by (cases ?f) auto
  obtain rr sr where rr: "ReserveCost w (in_TenantID inp) (rc_costKind cfg) (in_Estimate inp) sf = (rr, sr)"
    by (cases "ReserveCost w (in_TenantID inp) (rc_costKind cfg) (in_Estimate inp) sf") auto
  have "ai_runs sr = ai_runs sf" using Reserve_frame(1) [of w "in_TenantID inp" "rc_costKind cfg" "in_Estimate inp" sf] rr by simp
  moreover have "ai_runs sf = ai_runs s" using f rf by simp
  ultimately show ?thesis
    by (cases rf; cases rr) (simp_all add: run_gates_def Inr x rf rr)
qed (simp add: run_gates_def)

text \<open>A stored scope filter changes nothing but the field of the configuration nobody reads.\<close>

definition with_scope :: "string \<times> string \<Rightarrow> string option \<Rightarrow> ai_state \<Rightarrow> ai_state" where
  "with_scope k raw s = s\<lparr>ai_configs := (ai_configs s)(k := map_option (\<lambda>c. c\<lparr>cc_scope := raw\<rparr>) (ai_configs s k))\<rparr>"

definition scope_of :: "ai_world \<Rightarrow> string option \<Rightarrow> scope_filter option" where
  "scope_of w raw = (case raw of None \<Rightarrow> Some no_scope | Some r \<Rightarrow> ParseScopeFilter w r)"

definition rescope :: "scope_filter \<Rightarrow> runtime_config \<Rightarrow> runtime_config" where
  "rescope sf cfg = cfg\<lparr>rc_scopeFilter := sf\<rparr>"

lemma rescope_simps [simp]:
  "rc_tenantStatus (rescope sf cfg) = rc_tenantStatus cfg" "rc_rung (rescope sf cfg) = rc_rung cfg"
  "rc_enabled (rescope sf cfg) = rc_enabled cfg" "rc_confidence (rescope sf cfg) = rc_confidence cfg"
  "rc_providerCfg (rescope sf cfg) = rc_providerCfg cfg" "rc_costKind (rescope sf cfg) = rc_costKind cfg"
  "rc_modelName (rescope sf cfg) = rc_modelName cfg" "rc_costPerKInput (rescope sf cfg) = rc_costPerKInput cfg"
  "rc_costPerKOutput (rescope sf cfg) = rc_costPerKOutput cfg"
  by (simp_all add: rescope_def)

lemma with_scope_simps [simp]:
  "ai_caps (with_scope k raw s) = ai_caps s" "ai_sys (with_scope k raw s) = ai_sys s"
  "ai_factories (with_scope k raw s) = ai_factories s" "ai_flags (with_scope k raw s) = ai_flags s"
  "ai_tenants (with_scope k raw s) = ai_tenants s" "ai_routes (with_scope k raw s) = ai_routes s"
  "ai_providers (with_scope k raw s) = ai_providers s" "ai_runs (with_scope k raw s) = ai_runs s"
  "ai_counters (with_scope k raw s) = ai_counters s"
  by (simp_all add: with_scope_def)

lemma with_scope_twice [simp]: "with_scope k raw (with_scope k raw' s) = with_scope k raw s"
  by (simp add: with_scope_def option.map_comp comp_def)

lemma with_scope_runs: "with_scope k raw s\<lparr>ai_runs := x\<rparr> = with_scope k raw (s\<lparr>ai_runs := x\<rparr>)"
  by (simp add: with_scope_def)

lemma loadProvider_scope: "loadProvider w p (with_scope k raw s) = loadProvider w p s"
  by (simp add: loadProvider_def)

lemma loadRuntime_scope:
  assumes "scope_of w raw = Some sf" and "ai_configs s (in_TenantID inp, in_CapabilityID inp) \<noteq> None"
  shows "loadRuntime w inp (with_scope (in_TenantID inp, in_CapabilityID inp) raw s) =
    map_sum id (rescope sf) (loadRuntime w inp (with_scope (in_TenantID inp, in_CapabilityID inp) None s))"
proof -
  obtain c where c: "ai_configs s (in_TenantID inp, in_CapabilityID inp) = Some c" using assms(2) by blast
  have cfg: "ai_configs (with_scope (in_TenantID inp, in_CapabilityID inp) r s) (in_TenantID inp, in_CapabilityID inp)
      = Some (c\<lparr>cc_scope := r\<rparr>)" for r
    by (simp add: with_scope_def c)
  have t: "task_type (with_scope k r s) inp = task_type s inp" for k r by (simp add: task_type_def)
  have raw: "(case raw of None \<Rightarrow> Some no_scope | Some r \<Rightarrow> ParseScopeFilter w r) = Some sf"
    using assms(1) by (simp add: scope_of_def)
  show ?thesis
    by (auto simp: loadRuntime_def Let_def cfg t raw rescope_def loadProvider_scope split: option.split sum.split)
qed

lemma run_checks_scope:
  assumes "scope_of w raw = Some sf" and "ai_configs s (in_TenantID inp, in_CapabilityID inp) \<noteq> None"
  shows "run_checks w inp (with_scope (in_TenantID inp, in_CapabilityID inp) raw s) =
    map_sum id (\<lambda>(cfg, r). (rescope sf cfg, r)) (run_checks w inp (with_scope (in_TenantID inp, in_CapabilityID inp) None s))"
proof -
  let ?k = "(in_TenantID inp, in_CapabilityID inp)"
  note [simp] = loadRuntime_scope [OF assms] run_checks_def
  show ?thesis
  proof (cases "loadRuntime w inp (with_scope ?k None s)")
    case (Inr cfg)
    then show ?thesis
    proof (cases "Lookup (ai_caps s) (in_CapabilityID inp)")
      case (Some c)
      with Inr show ?thesis
        by (cases "CheckDependencies (ai_caps s) (ai_sys s) (in_CapabilityID inp)";
            cases "Build (ai_factories s) (rc_providerCfg cfg)"; cases "SupportedDialect w") simp_all
    qed (cases "SupportedDialect w"; simp)
  qed (cases "SupportedDialect w"; simp)
qed

lemma config_updates_commute:
  "c\<lparr>cc_rung := x, cc_demoted_at := y, cc_scope := r\<rparr> = c\<lparr>cc_scope := r, cc_rung := x, cc_demoted_at := y\<rparr>"
  by simp

lemma floor_scope:
  "enforceAutonomousFloor w t c d th (with_scope (t, c) raw s) =
     map_prod id (with_scope (t, c) raw) (enforceAutonomousFloor w t c d th s)"
proof -
  have "with_scope (t, c) raw s\<lparr>ai_configs := (case ai_configs (with_scope (t, c) raw s) (t, c) of
        None \<Rightarrow> ai_configs (with_scope (t, c) raw s)
      | Some x \<Rightarrow> (ai_configs (with_scope (t, c) raw s))((t, c) \<mapsto> x\<lparr>cc_rung := RungActPolicy, cc_demoted_at := Some (rw_now w)\<rparr>))\<rparr>
    = with_scope (t, c) raw (s\<lparr>ai_configs := (case ai_configs s (t, c) of
        None \<Rightarrow> ai_configs s
      | Some x \<Rightarrow> (ai_configs s)((t, c) \<mapsto> x\<lparr>cc_rung := RungActPolicy, cc_demoted_at := Some (rw_now w)\<rparr>))\<rparr>)"
    by (cases "ai_configs s (t, c)") (simp_all add: with_scope_def config_updates_commute)
  then show ?thesis by (simp add: enforceAutonomousFloor_def Let_def)
qed

lemma incr_by_scope: "incr_by c n (with_scope k raw s) = with_scope k raw (incr_by c n s)"
  by (simp add: incr_by_def with_scope_def)

lemma Reserve_scope:
  "ReserveCost w t kind m (with_scope k raw s) = map_prod id (with_scope k raw) (ReserveCost w t kind m s)"
  by (auto simp: ReserveCost_def loadCap_def recordOnlyRedis_def reserveViaDB_def Let_def incr_by_scope split: sum.split option.split)

lemma settle_scope:
  "run_settle w i inp (rescope sf cfg) snap res (with_scope k raw s) =
     map_prod id (with_scope k raw) (run_settle w i inp cfg snap res s)"
proof -
  have cost: "computeActualCost (rescope sf cfg) ch em = computeActualCost cfg ch em" for ch em
    by (simp add: computeActualCost_def)
  have row: "run_row w i inp (rescope sf cfg) snap r c = run_row w i inp cfg snap r c" for r c
    unfolding run_row_def signRow_def rescope_simps by (rule refl)
  have rel: "ReleaseCost w t kd m (with_scope k raw s) = with_scope k raw (ReleaseCost w t kd m s)" for t kd m s
    by (simp add: ReleaseCost_def incr_by_scope)

  obtain ch em act err where res: "res = (ch, em, act, err)" by (cases res) auto
  show ?thesis
    by (cases "0 < in_Estimate inp - computeActualCost cfg ch em"; cases "rw_down w Q_persist"; cases err)
      (simp_all add: res run_settle_def Let_def cost row rel persistRun_def with_scope_runs)
qed

lemma run_gates_scope:
  assumes "scope_of w raw = Some sf" and "ai_configs s (in_TenantID inp, in_CapabilityID inp) \<noteq> None"
  defines "k \<equiv> (in_TenantID inp, in_CapabilityID inp)"
  shows "run_gates w inp (with_scope k raw s) =
    map_prod (map_sum id (\<lambda>(cfg, r). (rescope sf cfg, r))) (with_scope k raw) (run_gates w inp (with_scope k None s))"
proof (cases "run_checks w inp (with_scope k None s)")
  case (Inl e)
  then show ?thesis
    using run_checks_scope [OF assms(1,2)] by (simp add: run_gates_def k_def)
next
  case (Inr x)
  obtain cfg c prov where x: "x = (cfg, c, prov)" by (cases x) auto

  let ?s = "with_scope k None s"
  let ?f = "if rc_rung cfg = RungAutonomous
     then enforceAutonomousFloor w (in_TenantID inp) (in_CapabilityID inp) c (rc_confidence cfg) ?s else (Inr (), ?s)"
  obtain rf sf' where rf: "?f = (rf, sf')" by (cases ?f) auto
  obtain rr sr where rr: "ReserveCost w (in_TenantID inp) (rc_costKind cfg) (in_Estimate inp) sf' = (rr, sr)"
    by (cases "ReserveCost w (in_TenantID inp) (rc_costKind cfg) (in_Estimate inp) sf'") auto
  have rf': "(if rc_rung cfg = RungAutonomous
     then enforceAutonomousFloor w (in_TenantID inp) (in_CapabilityID inp) c (rc_confidence cfg) (with_scope k raw s)
     else (Inr (), with_scope k raw s)) = (rf, with_scope k raw sf')"
    using rf floor_scope [of w "in_TenantID inp" "in_CapabilityID inp" c "rc_confidence cfg" raw ?s]
    by (auto simp: k_def split: if_splits)
  have rr': "ReserveCost w (in_TenantID inp) (rc_costKind cfg) (in_Estimate inp) (with_scope k raw sf') = (rr, with_scope k raw sr)"
    by (simp add: Reserve_scope rr)
  have rc: "run_checks w inp (with_scope k raw s) = Inr (rescope sf cfg, c, prov)"
    using run_checks_scope [OF assms(1,2)] Inr x by (simp add: k_def)
  show ?thesis
    unfolding run_gates_def rc Inr x sum.case prod.case rescope_simps rf rf'
    by (cases rf; cases rr) (simp_all add: rr rr')
qed

lemma settle_runs:
  "ai_runs (snd (run_settle w runID inp cfg snap res s)) =
     (if rw_down w Q_persist then ai_runs s
      else run_row w runID inp cfg snap res (computeActualCost cfg (fst res) (fst (snd res))) # ai_runs s)"
proof -
  obtain ch em act err where res: "res = (ch, em, act, err)" by (cases res) auto
  show ?thesis
    by (cases err) (simp_all add: res run_settle_def Let_def persistRun_def frame_simps split: if_splits)
qed

lemma Run_split:
  "run_gates w inp s = (Inr (cfg, snap, prov), s1) \<Longrightarrow>
     Run w runID inp fn s = run_settle w runID inp cfg snap (callSafely (fn prov (rc_modelName cfg))) s1"
  by (simp add: Run_def)

text \<open>A run that writes a row went through the gates, and the row is the one described.\<close>

lemma Run_wrote:
  assumes "ai_runs (snd (Run w runID inp fn s)) \<noteq> ai_runs s"
  shows "\<exists>cfg c prov s1. run_checks w inp s = Inr (cfg, c, prov)
    \<and> run_gates w inp s = (Inr (cfg, hashSnapshot w inp, prov), s1)
    \<and> (let res = callSafely (fn prov (rc_modelName cfg)) in
       ai_runs (snd (Run w runID inp fn s)) =
         run_row w runID inp cfg (hashSnapshot w inp) res (computeActualCost cfg (fst res) (fst (snd res))) # ai_runs s)"
proof (cases "run_gates w inp s")
  case (Pair r s1)
  have s1: "ai_runs s1 = ai_runs s" using gates_runs [of w inp s] by (simp add: Pair)
  show ?thesis
  proof (cases r)
    case (Inl e)
    then show ?thesis using assms s1 by (simp add: Run_def Pair)
  next
    case (Inr x)
    obtain cfg snap prov where x: "x = (cfg, snap, prov)" by (cases x) auto
    have g: "run_gates w inp s = (Inr (cfg, snap, prov), s1)" by (simp add: Pair Inr x)
    obtain c where c: "run_checks w inp s = Inr (cfg, c, prov)" "snap = hashSnapshot w inp"
      using run_gates_ok [OF g] by blast
    have "ai_runs (snd (Run w runID inp fn s)) = run_row w runID inp cfg snap (callSafely (fn prov (rc_modelName cfg)))
        (computeActualCost cfg (fst (callSafely (fn prov (rc_modelName cfg)))) (fst (snd (callSafely (fn prov (rc_modelName cfg))))))
        # ai_runs s"
      using assms by (auto simp: Run_split [OF g] settle_runs s1 split: if_splits)
    with g c show ?thesis by (auto simp: Let_def)
  qed
qed

definition verif_message :: "run_for_verification \<Rightarrow> string" where
  "verif_message r = run_message (rv_RunID r) (rv_TenantID r) (rv_CapabilityID r) (rv_RunType r) (rv_ProviderID r)
        (rv_ModelName r) (rv_Rung r) (rv_Cost r) (rv_SnapHash r) (rv_CreatedAt r)"

text \<open>The keyed hash does not collide on two given messages.\<close>

definition no_collision :: "ai_world \<Rightarrow> string \<Rightarrow> string \<Rightarrow> bool" where
  "no_collision w m m' \<longleftrightarrow>
     (HMACSHA256 (rw_prims w) (rw_key w) ''ai_run_v1'' m = HMACSHA256 (rw_prims w) (rw_key w) ''ai_run_v1'' m' \<longrightarrow> m = m')"

lemma message_model_inject:
  "run_message i t c ty p m r k sn ts = run_message i t c ty p m' r k sn ts \<longleftrightarrow> m = m'"
  by (simp add: run_message_def)

lemma nullable_read [simp]: "(case nullable x of None \<Rightarrow> [] | Some c \<Rightarrow> c) = x"
  by (simp add: nullable_def)

lemma run_row_verification:
  assumes "ai_runs s = run_row w runID inp cfg snap res cost # rs"
  shows "\<exists>rv. LoadRunForVerification runID (in_TenantID inp) s = Inr rv
    \<and> rv_ModelName rv = ru_model (hd (ai_runs s)) \<and> RecomputeSignature w rv = HMACSHA256 (rw_prims w) (rw_key w) ''ai_run_v1'' (verif_message rv)
    \<and> rv_Signed rv = HMACSHA256 (rw_prims w) (rw_key w) ''ai_run_v1'' (verif_message (rv\<lparr>rv_ModelName := rc_modelName cfg\<rparr>))"
proof -
  obtain ch em act err where res: "res = (ch, em, act, err)" by (cases res) auto
  let ?r = "run_row w runID inp cfg snap res cost"
  have r: "ru_id ?r = runID" "ru_tenant ?r = in_TenantID inp" "ru_capability ?r = nullable (in_CapabilityID inp)"
    "ru_type ?r = run_type_str (in_RunType inp)" "ru_provider ?r = pc_ID (rc_providerCfg cfg)" "ru_rung ?r = rc_rung cfg"
    "ru_cost ?r = cost" "ru_snap ?r = snap" "ru_created ?r = rw_done w"
    "ru_signed ?r = signRow w runID inp cfg cost snap (rw_done w)"
    by (simp_all add: run_row_def res Let_def case_prod_beta)
  show ?thesis
    by (simp add: LoadRunForVerification_def assms r RecomputeSignature_def verif_message_def signRow_def)
qed

section \<open>A small deployment to evaluate witnesses on\<close>

definition toy_caps :: capabilities where
  "toy_caps = \<lparr>cp_Streaming = False, cp_ToolCalling = False, cp_Embeddings = False, cp_JSONMode = True, cp_MaxContext = 0\<rparr>"

definition toy_capability :: capability where
  "toy_capability = \<lparr>cb_Name = ''c'', cb_Category = ''observation'', cb_Description = [], cb_Stage = 1,
     cb_RequiredCaps = toy_caps, cb_DependsOn = [], cb_DefaultRung = RungShadow, cb_DefaultScope = no_scope,
     cb_DefaultPromotion = \<lparr>pm_PrecisionMin = 0, pm_FalsePositiveRateMax = 0, pm_LabelingRateMin = 0,
        pm_WeeksCleanRequired = 0, pm_MinSamples = 0\<rparr>, cb_PreferredTaskType = ''classify''\<rparr>"

definition toy_ai_world :: ai_world where
  "toy_ai_world = \<lparr>rw_now = 1000, rw_done = 1001, rw_postgres = True, rw_redis = True, rw_incr_ok = True,
     rw_down = (\<lambda>_. False), rw_prims = toy_prims\<lparr>sha256 := (\<lambda>x. x)\<rparr>, rw_key = None, rw_date = (\<lambda>_. ''d''),
     rw_pct = (\<lambda>_ _. 0), rw_scope_json = (\<lambda>_. Some no_scope), rw_devices_json = (\<lambda>_. ''[]'')\<rparr>"

definition toy_ai :: ai_state where
  "toy_ai = \<lparr>ai_caps = [(''c'', toy_capability)], ai_sys = Map.empty,
     ai_factories = [(''k'', \<lambda>_. Inr \<lparr>pd_Kind = ''k'', pd_Caps = toy_caps\<rparr>)], ai_flags = (\<lambda>_. False),
     ai_tenants = [''t'' \<mapsto> \<lparr>at_enabled = 1, at_status = ''active'', at_chat_cap = 100, at_embed_cap = 100\<rparr>],
     ai_configs = [(''t'', ''c'') \<mapsto> \<lparr>cc_enabled = 1, cc_rung = RungShadow, cc_scope = None, cc_confidence = 0,
         cc_blast_max = 0, cc_blast_window = 5, cc_demoted_at = None\<rparr>],
     ai_routes = [(''t'', ''classify'') \<mapsto> \<lparr>rt_provider = ''p'', rt_model = ''m'', rt_max_cost = None, rt_in = Some 1000, rt_out = None\<rparr>],
     ai_providers = [''p'' \<mapsto> \<lparr>pv_tenant = ''t'', pv_kind = ''k'', pv_name = [], pv_base_url = [], pv_api_key = None,
         pv_region = [], pv_trust = ''external'', pv_enabled = 1\<rparr>],
     ai_runs = [], ai_counters = (\<lambda>_. 0)\<rparr>"

definition toy_input :: input where
  "toy_input = \<lparr>in_TenantID = ''t'', in_CapabilityID = ''c'', in_CustomerID = [], in_DeviceID = [], in_TicketID = [],
     in_RunType = RunTypeChat, in_Devices = [], in_Estimate = 50, in_Chain = []\<rparr>"

definition toy_chat :: "bool \<Rightarrow> call_outcome" where
  "toy_chat syn = Called (Some \<lparr>ch_Content = ''hi'', ch_PromptTokens = 20, ch_OutputTokens = 0, ch_ModelVersion = ''v1'',
      ch_Synthetic = syn, ch_SyntheticSource = ''cache''\<rparr>) None ''act'' None"

lemma toy_checks_ok:
  "\<exists>cfg prov. run_checks toy_ai_world toy_input toy_ai = Inr (cfg, toy_capability, prov)
     \<and> rc_rung cfg = RungShadow \<and> rc_costKind cfg = CostChat \<and> rc_modelName cfg = ''m''"
  by (simp add: run_checks_def SupportedDialect_def toy_ai_world_def toy_input_def toy_ai_def toy_capability_def IsKilled_def
      loadRuntime_def task_type_def Lookup_def loadProvider_def Build_def providerSupports_def toy_caps_def
      CheckDependencies_def rung_defs)

lemma toy_wrote: "ai_runs (snd (Run toy_ai_world i toy_input (\<lambda>_ _. toy_chat syn) toy_ai)) \<noteq> ai_runs toy_ai"
proof -
  obtain cfg prov where c: "run_checks toy_ai_world toy_input toy_ai = Inr (cfg, toy_capability, prov)"
    "rc_rung cfg = RungShadow" "rc_costKind cfg = CostChat" using toy_checks_ok by blast
  have "\<exists>s1. ReserveCost toy_ai_world (in_TenantID toy_input) CostChat (in_Estimate toy_input) toy_ai = (Inr (), s1)"
    by (simp add: ReserveCost_def loadCap_def incr_by_def toy_ai_world_def toy_input_def toy_ai_def)
  then obtain s1 where r: "ReserveCost toy_ai_world (in_TenantID toy_input) CostChat (in_Estimate toy_input) toy_ai = (Inr (), s1)" by blast
  have g: "run_gates toy_ai_world toy_input toy_ai = (Inr (cfg, hashSnapshot toy_ai_world toy_input, prov), s1)"
    using c r by (simp add: run_gates_def rung_defs)
  have "ai_runs s1 = ai_runs toy_ai" using Reserve_frame(1) [of toy_ai_world "in_TenantID toy_input" CostChat "in_Estimate toy_input" toy_ai] r by simp
  moreover have "\<not> rw_down toy_ai_world Q_persist" by (simp add: toy_ai_world_def)
  ultimately show ?thesis by (simp add: Run_split [OF g] settle_runs)
qed

section \<open>Properties\<close>



text \<open>
  The scope filter of a capability restricts nothing: two configurations that differ in the
  stored filter only (both readable), say no filter and one that excludes the targeted device's
  class, give the same result and the same audit rows for every run.
\<close>

theorem scope_filter_not_enforced:
  assumes "scope_of w raw \<noteq> None" and "scope_of w raw' \<noteq> None"
    and "ai_configs s (in_TenantID inp, in_CapabilityID inp) \<noteq> None"
  shows "fst (Run w runID inp fn (with_scope (in_TenantID inp, in_CapabilityID inp) raw s)) =
           fst (Run w runID inp fn (with_scope (in_TenantID inp, in_CapabilityID inp) raw' s))
    \<and> ai_runs (snd (Run w runID inp fn (with_scope (in_TenantID inp, in_CapabilityID inp) raw s))) =
           ai_runs (snd (Run w runID inp fn (with_scope (in_TenantID inp, in_CapabilityID inp) raw' s)))"
proof -
  let ?k = "(in_TenantID inp, in_CapabilityID inp)"
  have "Run w runID inp fn (with_scope ?k r s) =
      map_prod id (with_scope ?k r) (Run w runID inp fn (with_scope ?k None s))" if sf: "scope_of w r = Some sf" for r sf
  proof -
    note g = run_gates_scope [OF sf assms(3)]
    show ?thesis
    proof (cases "run_gates w inp (with_scope ?k None s)")
      case (Pair rr s1)
      then show ?thesis
        using g by (cases rr) (auto simp: Run_def settle_scope [unfolded rescope_simps])
    qed
  qed
  with assms show ?thesis by (auto simp: map_prod_def split: prod.splits)
qed

lemma scope_filter_not_enforced_witness:
  "fst (Run toy_ai_world ''r'' toy_input (\<lambda>_ _. toy_chat False) (with_scope (''t'', ''c'') (Some ''x'') toy_ai)) =
   fst (Run toy_ai_world ''r'' toy_input (\<lambda>_ _. toy_chat False) (with_scope (''t'', ''c'') None toy_ai))"
proof -
  have k: "in_TenantID toy_input = ''t''" "in_CapabilityID toy_input = ''c''" by (simp_all add: toy_input_def)
  have "scope_of toy_ai_world (Some ''x'') \<noteq> None" "scope_of toy_ai_world None \<noteq> None"
    by (simp_all add: scope_of_def ParseScopeFilter_def toy_ai_world_def)
  from scope_filter_not_enforced [of _ _ _ _ toy_input, OF this, of toy_ai "''r''" "\<lambda>_ _. toy_chat False", unfolded k]
  show ?thesis by (simp add: toy_ai_def)
qed



text \<open>
  Reservations and settlements of one budget (tenant, kind, day) in any interleaving, with Redis: \<open>budget
  w t k cap P m s\<close> says that state \<open>s\<close> is reached with the estimates \<open>P\<close> of the runs under way and the
  amount \<open>m\<close> kept for the finished ones.
\<close>

inductive budget :: "ai_world \<Rightarrow> string \<Rightarrow> cost_kind \<Rightarrow> int \<Rightarrow> int multiset \<Rightarrow> int \<Rightarrow> ai_state \<Rightarrow> bool"
  for w :: ai_world and t :: string and k :: cost_kind and cap :: int where
  opened: "ai_counters s (dailyKey w t k (rw_now w)) = 0 \<Longrightarrow> loadCap w t k s = Inr cap \<Longrightarrow> budget w t k cap {#} 0 s"
| reserved: "budget w t k cap P m s \<Longrightarrow> ReserveCost w t k est s = (Inr (), s') \<Longrightarrow> 0 < est
     \<Longrightarrow> budget w t k cap (add_mset est P) m s'"
| refused: "budget w t k cap P m s \<Longrightarrow> ReserveCost w t k est s = (Inl e, s') \<Longrightarrow> budget w t k cap P m s'"
| settled: "budget w t k cap (add_mset (in_Estimate inp) P) m s \<Longrightarrow> in_TenantID inp = t \<Longrightarrow> rc_costKind cfg = k
     \<Longrightarrow> run_settle w runID inp cfg snap res s = (r, s')
     \<Longrightarrow> budget w t k cap P (m + min (in_Estimate inp) (computeActualCost cfg (fst res) (fst (snd res)))) s'"

lemma loadCap_frame: "ai_tenants s' = ai_tenants s \<Longrightarrow> loadCap w t k s' = loadCap w t k s"
  by (simp add: loadCap_def)

lemma settle_tenants: "ai_tenants (snd (run_settle w i inp cfg snap res s)) = ai_tenants s"
  by (cases res) (auto simp: run_settle_def persistRun_def Let_def frame_simps split: option.splits)

lemma Reserve_redis:
  assumes "loadCap w t k s = Inr cap" and "0 < cap" and "rw_redis w" and "rw_incr_ok w"
  shows "ReserveCost w t k est s =
    (if est \<le> 0 then (Inr (), s)
     else if ai_counters s (dailyKey w t k (rw_now w)) + est > cap then (Inl ErrCostCap, s)
     else (Inr (), incr_by (dailyKey w t k (rw_now w)) est s))"
  using assms by (simp add: ReserveCost_def Let_def incr_by_def)

lemma settle_counter:
  assumes "rw_redis w" and "\<not> rw_down w Q_persist" and "day_of (rw_done w) = day_of (rw_now w)"
  shows "ai_counters (snd (run_settle w i inp cfg snap res s)) (dailyKey w (in_TenantID inp) (rc_costKind cfg) (rw_now w)) =
    ai_counters s (dailyKey w (in_TenantID inp) (rc_costKind cfg) (rw_now w))
      - max 0 (in_Estimate inp - computeActualCost cfg (fst res) (fst (snd res)))"
proof -
  obtain ch em act err where res: "res = (ch, em, act, err)" by (cases res) auto
  have "dailyKey w t k (rw_done w) = dailyKey w t k (rw_now w)" for t k
    by (simp add: dailyKey_def assms(3))
  then show ?thesis
    by (cases err) (simp_all add: res run_settle_def Let_def persistRun_def assms(1,2) ReleaseCost_def incr_by_def)
qed



text \<open>
  When the audit row cannot be written the code releases the unused part of the estimate and then
  the whole estimate again: the counter ends below its value before the run.
\<close>

lemma failed_audit_frees_budget:
  assumes "loadCap w (in_TenantID inp) (rc_costKind cfg) s = Inr cap" and "0 < cap" and "rw_redis w" and "rw_incr_ok w"
    and "0 < in_Estimate inp" and "rw_down w Q_persist" and "day_of (rw_done w) = day_of (rw_now w)"
    and "ReserveCost w (in_TenantID inp) (rc_costKind cfg) (in_Estimate inp) s = (Inr (), s1)"
  shows "ai_counters (snd (run_settle w i inp cfg snap res s1)) (dailyKey w (in_TenantID inp) (rc_costKind cfg) (rw_now w)) =
    ai_counters s (dailyKey w (in_TenantID inp) (rc_costKind cfg) (rw_now w))
      - max 0 (in_Estimate inp - computeActualCost cfg (fst res) (fst (snd res)))"
proof -
  obtain ch em act err where res: "res = (ch, em, act, err)" by (cases res) auto
  let ?k = "dailyKey w (in_TenantID inp) (rc_costKind cfg) (rw_now w)"
  have k: "dailyKey w (in_TenantID inp) (rc_costKind cfg) (rw_done w) = ?k" by (simp add: dailyKey_def assms(7))
  have s1: "s1 = incr_by ?k (in_Estimate inp) s"
    using assms(8) Reserve_redis [OF assms(1-4), of "in_Estimate inp"] assms(5) by (auto split: if_splits)
  show ?thesis
    by (cases err) (use assms(3,5,6) in \<open>simp_all add: res s1 run_settle_def Let_def persistRun_def ReleaseCost_def k incr_by_def\<close>)
qed

text \<open>Without Redis a reservation leaves no trace, so any number of runs under way pass the same check.\<close>

lemma reserve_db_not_cumulative:
  assumes "\<not> rw_redis w"
  shows "snd (ReserveCost w t k est s) = s"
  using assms by (auto simp: ReserveCost_def recordOnlyRedis_def Let_def split: sum.split)

end
