(* ===== verification/KillSwitch.thy ===== *)
theory KillSwitch
  imports AiRun
begin

text \<open>
  The kill switches of \<open>internal/ai/killswitch.go\<close>: \<open>SetKill\<close> writes a row and then the cached flag,
  \<open>LoadAll\<close> reads the table and then replaces the cache, and the watcher calls \<open>LoadAll\<close> on a timer and
  on every broadcast. The two halves of each operation are separate steps, because only the cache is
  under a lock: \<open>kstep\<close> is the relation of a process whose goroutines interleave at these points,
  while other processes write the table. \<open>IsKilled\<close>, the check that \<open>Run\<close> makes, is in \<open>AiRun\<close>.
\<close>

section \<open>Operations\<close>

record kill_state =
  k_rows :: "string \<rightharpoonup> int"
  k_flags :: "string \<Rightarrow> bool"
  k_setting :: "(string \<times> bool) multiset"
  k_loading :: "(string \<Rightarrow> bool) multiset"

definition persist_kill :: "string \<Rightarrow> bool \<Rightarrow> kill_state \<Rightarrow> kill_state" where
  "persist_kill scope killed s =
     s\<lparr>k_rows := (k_rows s)(scope \<mapsto> (if killed then 1 else 0)), k_setting := add_mset (scope, killed) (k_setting s)\<rparr>"

definition cache_kill :: "string \<Rightarrow> bool \<Rightarrow> kill_state \<Rightarrow> kill_state" where
  "cache_kill scope killed s =
     s\<lparr>k_flags := (k_flags s)(scope := killed), k_setting := k_setting s - {#(scope, killed)#}\<rparr>"

text \<open>\<open>SetKill\<close> with nothing in between; \<open>up\<close> says whether the upsert succeeds.\<close>

definition SetKill :: "bool \<Rightarrow> string \<Rightarrow> bool \<Rightarrow> kill_state \<Rightarrow> bool \<times> kill_state" where
  "SetKill up scope killed s = (if \<not> up then (False, s) else (True, cache_kill scope killed (persist_kill scope killed s)))"

definition read_flags :: "kill_state \<Rightarrow> string \<Rightarrow> bool" where
  "read_flags s = (\<lambda>scope. k_rows s scope = Some 1)"

definition query_kills :: "kill_state \<Rightarrow> kill_state" where
  "query_kills s = s\<lparr>k_loading := add_mset (read_flags s) (k_loading s)\<rparr>"

definition install_kills :: "(string \<Rightarrow> bool) \<Rightarrow> kill_state \<Rightarrow> kill_state" where
  "install_kills flags s = s\<lparr>k_flags := flags, k_loading := k_loading s - {#flags#}\<rparr>"

definition LoadAll :: "bool \<Rightarrow> kill_state \<Rightarrow> bool \<times> kill_state" where
  "LoadAll up s = (if \<not> up then (False, s) else (True, install_kills (read_flags s) (query_kills s)))"

section \<open>Interleavings\<close>

text \<open>A label says which write of the table a step makes, if any.\<close>

inductive kstep :: "kill_state \<Rightarrow> (string \<times> bool) option \<Rightarrow> kill_state \<Rightarrow> bool" where
  persist: "kstep s (Some (scope, killed)) (persist_kill scope killed s)"
| cached: "(scope, killed) \<in># k_setting s \<Longrightarrow> kstep s None (cache_kill scope killed s)"
| queried: "kstep s None (query_kills s)"
| installed: "flags \<in># k_loading s \<Longrightarrow> kstep s None (install_kills flags s)"
| elsewhere: "kstep s (Some (scope, killed)) (s\<lparr>k_rows := (k_rows s)(scope \<mapsto> (if killed then 1 else 0))\<rparr>)"

inductive_cases kstep_cases: "kstep s l s'"

text \<open>Reachability by steps none of which switches a given scope back on.\<close>

inductive kreach :: "string \<Rightarrow> kill_state \<Rightarrow> kill_state \<Rightarrow> bool" for scope :: string where
  start: "kreach scope s s"
| more: "kreach scope s s1 \<Longrightarrow> kstep s1 l s2 \<Longrightarrow> l \<noteq> Some (scope, False) \<Longrightarrow> kreach scope s s2"

section \<open>Lemmas\<close>

text \<open>Every copy of the flag says killed: table, cache, and what operations under way will install.\<close>

definition loads_kill :: "string \<Rightarrow> (string \<Rightarrow> bool) multiset \<Rightarrow> bool" where
  "loads_kill scope M \<longleftrightarrow> (\<forall>f \<in># M. f scope)"

lemma loads_kill_add: "loads_kill scope (add_mset f M) \<longleftrightarrow> f scope \<and> loads_kill scope M"
  by (simp add: loads_kill_def)

lemma loads_kill_member: "loads_kill scope M \<Longrightarrow> f \<in># M \<Longrightarrow> f scope"
  unfolding loads_kill_def by (erule bspec)

lemma loads_kill_remove: "loads_kill scope M \<Longrightarrow> loads_kill scope (M - {#f#})"
  unfolding loads_kill_def by (intro ballI) (drule in_diffD, erule bspec)

definition killed_everywhere :: "string \<Rightarrow> kill_state \<Rightarrow> bool" where
  "killed_everywhere scope s \<longleftrightarrow> k_rows s scope = Some 1 \<and> k_flags s scope
     \<and> (scope, False) \<notin># k_setting s \<and> loads_kill scope (k_loading s)"

lemma kstep_killed:
  "kstep s l s' \<Longrightarrow> killed_everywhere scope s \<Longrightarrow> l \<noteq> Some (scope, False) \<Longrightarrow> killed_everywhere scope s'"
proof (elim kstep_cases, goal_cases)
  case (1 sc killed)
  then show ?case by (auto simp: killed_everywhere_def persist_kill_def)
next
  case (2 sc killed)
  then have k: "sc = scope \<Longrightarrow> killed" by (cases killed) (auto simp: killed_everywhere_def)
  have "(scope, False) \<notin># k_setting s - {#(sc, killed)#}"
    using 2 in_diffD [of "(scope, False)" "k_setting s"] by (auto simp only: killed_everywhere_def)
  then show ?case using 2 k by (cases "sc = scope") (simp_all add: killed_everywhere_def cache_kill_def)
next
  case 3
  then show ?case by (simp add: killed_everywhere_def query_kills_def read_flags_def loads_kill_add)
next
  case (4 flags)
  then have "loads_kill scope (k_loading s)" and "flags \<in># k_loading s" by (simp_all only: killed_everywhere_def)
  then have "flags scope" by (rule loads_kill_member)
  then show ?case using 4 by (simp add: killed_everywhere_def install_kills_def loads_kill_remove)
next
  case (5 sc killed)
  then show ?case by (auto simp: killed_everywhere_def)
qed

lemma kreach_killed: "kreach scope s s' \<Longrightarrow> killed_everywhere scope s \<Longrightarrow> killed_everywhere scope s'"
proof (induction rule: kreach.induct)
  case (more s s1 l s2)
  then show ?case using kstep_killed by blast
qed

lemma killed_refuses:
  assumes "flags scope" and "scope \<in> {scopeGlobal, scopeTenant (in_TenantID inp)}
     \<union> (if in_CapabilityID inp = [] then {} else {scopeCap (in_CapabilityID inp), scopeTenantCap (in_TenantID inp) (in_CapabilityID inp)})"
    and "rw_postgres w"
  shows "Run w runID inp fn (a\<lparr>ai_flags := flags\<rparr>) = (Inl ErrCapabilityKilled, a\<lparr>ai_flags := flags\<rparr>)"
proof -
  have "IsKilled flags (in_TenantID inp) (in_CapabilityID inp)"
    using assms(1,2) by (auto simp: IsKilled_iff split: if_splits)
  then show ?thesis using assms(3) by (simp add: Run_def run_gates_def run_checks_def SupportedDialect_def)
qed

section \<open>Properties\<close>


definition no_kills :: kill_state where
  "no_kills = \<lparr>k_rows = Map.empty, k_flags = (\<lambda>_. False), k_setting = {#}, k_loading = {#}\<rparr>"


text \<open>
  A reload that read the table before the switch was set undoes it: it installs the old flags after
  \<open>SetKill\<close> has returned, so the switch is on in the table and off in the cache, and runs are admitted
  again; the next complete reload restores it, as it does from any state.
\<close>

theorem kill_switch_lost_to_reload:
  assumes "\<not> read_flags s scope"
  shows "\<exists>s'. kreach scope (snd (SetKill True scope True (query_kills s))) s'
      \<and> k_rows s' scope = Some 1 \<and> \<not> k_flags s' scope \<and> k_flags (snd (LoadAll True s')) scope"
proof -
  let ?s = "snd (SetKill True scope True (query_kills s))"
  have l: "read_flags s \<in># k_loading ?s"
    by (simp add: SetKill_def cache_kill_def persist_kill_def query_kills_def)
  have r: "kreach scope ?s (install_kills (read_flags s) ?s)"
    by (rule kreach.more [OF kreach.start installed [OF l]]) simp
  show ?thesis
    by (rule exI, rule conjI, rule r)
      (use assms in \<open>simp add: install_kills_def LoadAll_def query_kills_def read_flags_def SetKill_def cache_kill_def persist_kill_def\<close>)
qed

lemma kill_switch_lost_to_reload_witness:
  "\<exists>s'. kreach scopeGlobal (snd (SetKill True scopeGlobal True (query_kills no_kills))) s'
      \<and> k_rows s' scopeGlobal = Some 1 \<and> \<not> k_flags s' scopeGlobal \<and> k_flags (snd (LoadAll True s')) scopeGlobal"
  by (rule kill_switch_lost_to_reload) (simp add: no_kills_def read_flags_def)

end
