(* ===== verification/Registration.thy ===== *)
theory Registration
  imports Complex_Main AuthMiddleware
begin

text \<open>
  Agent registration and heartbeat (\<open>internal/handlers/agent.go\<close>) and the device
  classification of \<open>internal/ai/sysfeatures/sysfeatures.go\<close>.

  A decoded JSON object is a map from keys to values; numbers are rationals (a JSON number is
  never NaN or infinite). The table \<open>devices\<close> is split by columns: what registration and heartbeat
  write is \<open>dev_rows\<close>, a list of rows; the columns \<open>last_seen\<close> and \<open>legacy_pop_bypass_used\<close>, which
  proof of possession works on, are the map \<open>devices\<close> of \<open>AgentTokens\<close>. The audit rows and
  webhooks a handler starts are the list of events it returns. \<open>DedupMu\<close> makes lookup and
  write of a registration one step.
\<close>

section \<open>JSON values\<close>

datatype json = JNull | JBool bool | JNum rat | JStr string | JArr "json list"
  | JObj "(string \<times> json) list"

type_synonym json_obj = "string \<rightharpoonup> json"

text \<open>\<open>x, _ := m[k].(string)\<close> and its companions.\<close>

definition get_str :: "json_obj \<Rightarrow> string \<Rightarrow> string" where
  "get_str m k = (case m k of Some (JStr s) \<Rightarrow> s | _ \<Rightarrow> [])"

definition get_num :: "json_obj \<Rightarrow> string \<Rightarrow> rat" where
  "get_num m k = (case m k of Some (JNum x) \<Rightarrow> x | _ \<Rightarrow> 0)"

definition get_bool :: "json_obj \<Rightarrow> string \<Rightarrow> bool" where
  "get_bool m k = (case m k of Some (JBool b) \<Rightarrow> b | _ \<Rightarrow> False)"

definition get_obj :: "json_obj \<Rightarrow> string \<Rightarrow> json_obj option" where
  "get_obj m k = (case m k of Some (JObj kv) \<Rightarrow> Some (map_of (rev kv)) | _ \<Rightarrow> None)"

text \<open>
  Conversion of a float to a 64-bit integer: truncation toward zero; out of range the language
  leaves the result to the implementation, which on amd64 and with most compilers is the least integer.
\<close>

definition trunc :: "rat \<Rightarrow> int" where
  "trunc x = (let t = (if x < 0 then - \<lfloor>- x\<rfloor> else \<lfloor>x\<rfloor>) in
     if - (2 ^ 63) \<le> t \<and> t < 2 ^ 63 then t else - (2 ^ 63))"

definition clampPercent :: "rat \<Rightarrow> rat" where
  "clampPercent v = (if v < 0 then 0 else if v > 100 then 100 else v)"

definition capLen :: "string \<Rightarrow> nat \<Rightarrow> string" where
  "capLen s n = (if length s \<le> n then s else take n s)"

lemma clampPercent_bounds: "0 \<le> clampPercent v" "clampPercent v \<le> 100"
  by (simp_all add: clampPercent_def)

lemma capLen_le: "length (capLen s n) \<le> n"
  by (simp add: capLen_def)

section \<open>Classification\<close>

definition ClassifyOS :: "string \<Rightarrow> string" where
  "ClassifyOS osName =
     (let o' = to_lower osName; has = contains o' in
      if has ''windows server'' \<or> has ''windows-server'' then ''windows-server''
      else if has ''windows 10'' \<or> has ''windows 11'' \<or> has ''windows7'' \<or> has ''windows 7'' \<or> has ''windows 8''
      then ''windows-workstation''
      else if has ''windows'' then ''windows-other''
      else if has_prefix o' ''macos'' \<or> has_prefix o' ''mac os'' \<or> has_prefix o' ''darwin'' then ''mac''
      else if has ''ubuntu server'' \<or> has ''ubuntu-server'' \<or> has ''debian server'' \<or> has ''rhel''
         \<or> has ''red hat enterprise'' \<or> has ''centos'' \<or> has ''rocky'' \<or> has ''alma'' \<or> has ''suse''
         \<or> has ''fedora server'' then ''linux-server''
      else if has ''linux'' \<or> has ''ubuntu'' \<or> has ''debian'' \<or> has ''fedora'' \<or> has ''arch'' \<or> has ''gentoo''
         \<or> has ''mint'' \<or> has ''manjaro'' \<or> has ''pop'' then ''linux-workstation''
      else if has ''freebsd'' \<or> has ''openbsd'' \<or> has ''netbsd'' then ''bsd''
      else ''unknown'')"

definition LooksLikeDomainController :: "string \<Rightarrow> bool" where
  "LooksLikeDomainController hostname =
     (let h = to_lower hostname in
      list_ex (contains h) [''dc-'', ''-dc'', ''dc0'', ''dc1'', ''dc2'', ''dc3'', ''dc4'', ''pdc'', ''bdc'', ''ad-'', ''-ad'',
         ''domaincontroller'']
      \<or> has_prefix h ''dc'' \<and> length h \<le> 6)"

section \<open>State\<close>

record device_row =
  dv_id :: string
  dv_tenant :: string
  dv_name :: string
  dv_host :: string
  dv_mac :: "string option"
  dv_ip :: string
  dv_os :: string
  dv_os_version :: string
  dv_kernel :: string
  dv_agent_version :: string
  dv_status :: string
  dv_created :: unix
  dv_cpu :: string
  dv_memory :: int
  dv_disk :: int
  dv_agent_ip :: string
  dv_os_class :: string
  dv_owner :: "string option"
  dv_latency :: int
  dv_sunshine :: "bool \<times> bool \<times> int"
  dv_ts_installed :: bool
  dv_ts_connected :: bool
  dv_ts_ip :: string
  dv_ts_hostname :: string
  dv_ts_peers :: int
  dv_ts_state :: string

record metric_row =
  mr_device :: string
  mr_cpu :: rat
  mr_mem :: rat
  mr_disk :: rat
  mr_at :: unix
  mr_tenant :: string

record reg_state =
  ath :: auth_state
  dev_rows :: "device_row list"
  reg_secrets :: "(string \<times> string) list"
  max_devices :: "string \<Rightarrow> int"
  metrics :: "metric_row list"

datatype event =
    Ev_audit string string string
  | Ev_webhook string string string
  | Ev_ws string string string
  | Ev_conflict string string

definition on_agents :: "(agent_state \<Rightarrow> agent_state) \<Rightarrow> reg_state \<Rightarrow> reg_state" where
  "on_agents f s = s\<lparr>ath := (ath s)\<lparr>agents := f (agents (ath s))\<rparr>\<rparr>"

definition upd_device :: "string \<Rightarrow> (device_row \<Rightarrow> device_row) \<Rightarrow> reg_state \<Rightarrow> reg_state" where
  "upd_device did f s = s\<lparr>dev_rows := map (\<lambda>d. if dv_id d = did then f d else d) (dev_rows s)\<rparr>"

definition set_last_seen :: "string \<Rightarrow> unix \<Rightarrow> agent_state \<Rightarrow> agent_state" where
  "set_last_seen did now g = (case devices g did of
       None \<Rightarrow> g
     | Some d \<Rightarrow> g\<lparr>devices := (devices g)(did \<mapsto> d\<lparr>d_last_seen := Some now\<rparr>)\<rparr>)"

section \<open>Registration\<close>

text \<open>The tenant that the presented registration secret binds to.\<close>

definition bind_tenant :: "world \<Rightarrow> request \<Rightarrow> reg_state \<Rightarrow> (http_error, string) result" where
  "bind_tenant w r s =
     (let regSecret = r_headers r ''X-Registration-Secret'';
          secretHash = HashToken (w_prims w) regSecret;
          active = (\<lambda>t. case tenant_tbl (ath s) t of None \<Rightarrow> False | Some row \<Rightarrow> t_status row = ''active'');
          tenantID = (if regSecret = [] \<or> \<not> w_db_up w then []
             else case List.find (\<lambda>(h, t). h = secretHash \<and> active t) (reg_secrets s) of
                    None \<Rightarrow> [] | Some (h, t) \<Rightarrow> t)
      in if tenantID \<noteq> [] then Inr tenantID
         else let envSecret = w_env w ''REGISTRATION_SECRET'' in
           if envSecret \<noteq> [] then
             (if regSecret \<noteq> envSecret then Inl (HttpError 401 ''Invalid registration secret'') else Inr ''default'')
           else if regSecret = [] \<and> w_env w ''ALLOW_OPEN_REGISTRATION'' = ''1'' then Inr ''default''
           else Inl (HttpError 401 ''Invalid or missing registration secret''))"

definition device_cap_reached :: "world \<Rightarrow> reg_state \<Rightarrow> string \<Rightarrow> bool" where
  "device_cap_reached w s tenantID =
     (w_db_up w \<and> max_devices s tenantID > 0
      \<and> int (length (filter (\<lambda>d. dv_tenant d = tenantID) (dev_rows s))) \<ge> max_devices s tenantID)"

text \<open>Whether, after this verdict, the one-time bypass may be claimed for the device.\<close>

definition bypass_eligible ::
  "(string \<Rightarrow> unix option) \<Rightarrow> world \<Rightarrow> agent_state \<Rightarrow> string \<Rightarrow> string \<Rightarrow> string \<Rightarrow> PoPVerdict \<Rightarrow> bool" where
  "bypass_eligible parse w g tenantID deviceID hostname v =
     (IsLegacyAgentEligibleForBypass parse (w_env w) (w_now w) (w_db_up w) g deviceID
      \<and> (v = PoPNoPriorToken \<or> v = PoPReject \<and> ActiveTokenIsLegacy (w_db_up w) g tenantID deviceID hostname))"

definition pop_accepts :: "PoPVerdict \<Rightarrow> bool" where
  "pop_accepts v = (v = PoPAcceptCurrent \<or> v = PoPAcceptGraceRotationAck \<or> v = PoPAcceptGraceCrashRecovery)"

text \<open>The columns that a re-registration refreshes, from the decoded body.\<close>

definition refresh_row :: "json_obj \<Rightarrow> device_row \<Rightarrow> device_row" where
  "refresh_row m d = d\<lparr>dv_ip := get_str m ''local_ip'', dv_os := get_str m ''os'', dv_os_version := get_str m ''os_version'',
     dv_kernel := get_str m ''kernel_version'', dv_agent_version := get_str m ''agent_version'', dv_status := ''online'',
     dv_cpu := get_str m ''cpu'', dv_memory := trunc (get_num m ''memory''), dv_disk := trunc (get_num m ''disk_size''),
     dv_agent_ip := get_str m ''local_ip'', dv_os_class := ClassifyOS (get_str m ''os'')\<rparr>"

definition new_device :: "world \<Rightarrow> string \<Rightarrow> string \<Rightarrow> json_obj \<Rightarrow> device_row" where
  "new_device w deviceID tenantID m = refresh_row m
     \<lparr>dv_id = deviceID, dv_tenant = tenantID, dv_name = get_str m ''hostname'', dv_host = get_str m ''hostname'',
      dv_mac = Some (get_str m ''mac_address''), dv_ip = [], dv_os = [], dv_os_version = [], dv_kernel = [],
      dv_agent_version = [], dv_status = [], dv_created = w_now w, dv_cpu = [], dv_memory = 0, dv_disk = 0,
      dv_agent_ip = [], dv_os_class = [], dv_owner = None, dv_latency = 0, dv_sunshine = (False, False, 0),
      dv_ts_installed = False, dv_ts_connected = False, dv_ts_ip = [], dv_ts_hostname = [], dv_ts_peers = 0, dv_ts_state = []\<rparr>"

definition existing_device :: "world \<Rightarrow> reg_state \<Rightarrow> string \<Rightarrow> string \<Rightarrow> string \<Rightarrow> string option" where
  "existing_device w s tenantID hostname mac =
     (if \<not> w_db_up w then None
      else case List.find (\<lambda>d. dv_tenant d = tenantID \<and> dv_host d = hostname
                    \<and> (case dv_mac d of None \<Rightarrow> [] | Some a \<Rightarrow> a) = mac) (dev_rows s) of
        None \<Rightarrow> None | Some d \<Rightarrow> if dv_id d = [] then None else Some (dv_id d))"

text \<open>The checks before the database is touched: hostname, tenant, bearer token.\<close>

definition register_checks ::
  "world \<Rightarrow> json_obj option \<Rightarrow> request \<Rightarrow> reg_state \<Rightarrow> (http_error, json_obj \<times> string \<times> string) result" where
  "register_checks w body r s =
     (case body of
        None \<Rightarrow> Inl (HttpError 400 ''Invalid request body'')
      | Some m \<Rightarrow>
        let hostname = get_str m ''hostname''; authHeader = r_headers r ''Authorization'';
            token = trim_prefix authHeader ''Bearer '' in
        guard (hostname \<noteq> [] \<and> length hostname \<le> 253) (HttpError 400 ''hostname is required and must be <= 253 chars'')
        (guard (\<not> contains_any hostname (''/'' @ [CHR 0x5C] @ ''$;&|<>'' @ [CHR 0x27, CHR 0x22]))
           (HttpError 400 ''hostname contains invalid characters'')
        (case bind_tenant w r s of
           Inl e \<Rightarrow> Inl e
         | Inr tenantID \<Rightarrow>
           guard (token \<noteq> authHeader) (HttpError 400 ''Bearer token required'')
           (guard (32 \<le> length token) (HttpError 400 ''agent token too short'')
           (guard (\<not> device_cap_reached w s tenantID) (HttpError 403 ''Device limit reached'')
             (Inr (m, tenantID, token)))))))"

text \<open>
  \<open>POST /agent/register\<close>. \<open>upd_ok\<close> and \<open>ins_ok\<close> say whether the update and the insert succeed,
  \<open>fault\<close> where the token rotation fails, \<open>uuid\<close> is the drawn device id.
\<close>

definition agent_register ::
  "(string \<Rightarrow> unix option) \<Rightarrow> world \<Rightarrow> bool \<Rightarrow> bool \<Rightarrow> bool \<Rightarrow> reg_fault \<Rightarrow> string \<Rightarrow> json_obj option \<Rightarrow> request
    \<Rightarrow> reg_state \<Rightarrow> (http_error, string \<times> string) result \<times> event list \<times> reg_state" where
  "agent_register parse w pg upd_ok ins_ok fault uuid body r s =
     (case register_checks w body r s of
        Inl e \<Rightarrow> (Inl e, [], s)
      | Inr (m, tenantID, token) \<Rightarrow>
        let hostname = get_str m ''hostname''; now = w_now w;
            presented = trim_prefix (r_headers r ''X-Existing-Agent-Token'') ''Bearer '';
            rotate = (\<lambda>did. on_agents (RegisterAgentToken (w_prims w) pg now fault token did hostname tenantID))
        in case existing_device w s tenantID hostname (get_str m ''mac_address'') of
          Some deviceID \<Rightarrow>
            let g = agents (ath s);
                v = VerifyAgentPoP (w_prims w) now (w_db_up w) (w_db_up w) g tenantID deviceID hostname presented;
                (bypass, g) = (if bypass_eligible parse w g tenantID deviceID hostname v
                               then AcquireLegacyBypass (w_db_up w) deviceID g else (False, g));
                s = on_agents (\<lambda>_. g) s
            in if pop_accepts v \<or> bypass then
                 (if \<not> upd_ok then (Inl (HttpError 500 ''Failed to refresh device''), [], s)
                  else let s = on_agents (set_last_seen deviceID now) (upd_device deviceID (refresh_row m) s)
                       in (Inr (deviceID, ''refreshed''),
                           (if v = PoPAcceptGraceRotationAck \<or> v = PoPAcceptGraceCrashRecovery
                            then [Ev_audit tenantID ''device.register.pop_grace'' deviceID] else [])
                           @ (if bypass then [Ev_audit tenantID ''legacy_agent_pop_bypass'' deviceID] else []),
                           rotate deviceID s))
               else (Inl (HttpError 409 ''Device exists; proof-of-possession required''),
                     [Ev_audit tenantID ''device.register.pop_rejected'' deviceID, Ev_conflict tenantID deviceID], s)
        | None \<Rightarrow>
            if \<not> w_db_up w \<or> \<not> ins_ok then (Inl (HttpError 500 ''Failed to register device''), [], s)
            else let s = s\<lparr>dev_rows := new_device w uuid tenantID m # dev_rows s\<rparr>;
                     s = on_agents (\<lambda>g. g\<lparr>devices := (devices g)(uuid \<mapsto> \<lparr>d_last_seen = Some now, d_bypass_used = 0\<rparr>)\<rparr>) s
                 in (Inr (uuid, ''registered''),
                     [Ev_webhook tenantID ''device.registered'' uuid, Ev_audit tenantID ''device.register'' uuid],
                     rotate uuid s))"

section \<open>Heartbeat\<close>

text \<open>The columns of the main update, set only when the heartbeat carries them.\<close>

definition heartbeat_cols :: "json_obj \<Rightarrow> string \<Rightarrow> device_row \<Rightarrow> device_row" where
  "heartbeat_cols m status d =
     (let d = d\<lparr>dv_status := status\<rparr>;
          d = (if get_str m ''kernel_version'' \<noteq> [] then d\<lparr>dv_kernel := get_str m ''kernel_version''\<rparr> else d);
          d = (if get_num m ''memory'' > 0 then d\<lparr>dv_memory := trunc (get_num m ''memory'')\<rparr> else d)
      in if get_num m ''disk_size'' > 0 then d\<lparr>dv_disk := trunc (get_num m ''disk_size'')\<rparr> else d)"

definition heartbeat_latency :: "json_obj \<Rightarrow> device_row \<Rightarrow> device_row" where
  "heartbeat_latency m d = (case m ''network_latency_ms'' of
       Some (JNum x) \<Rightarrow> d\<lparr>dv_latency := (let rtt = trunc x; rtt = (if rtt < 0 then 0 else rtt)
                                        in if rtt > 5000 then 5000 else rtt)\<rparr>
     | _ \<Rightarrow> d)"

definition heartbeat_sunshine :: "int \<Rightarrow> json_obj \<Rightarrow> device_row \<Rightarrow> device_row" where
  "heartbeat_sunshine defaultPort m d = (case get_obj m ''sunshine'' of
       None \<Rightarrow> d
     | Some x \<Rightarrow> let port = trunc (get_num x ''port'')
               in d\<lparr>dv_sunshine := (get_bool x ''installed'', get_bool x ''running'', if port = 0 then defaultPort else port)\<rparr>)"

definition heartbeat_tailscale :: "json_obj \<Rightarrow> device_row \<Rightarrow> device_row" where
  "heartbeat_tailscale m d = (case get_obj m ''tailscale'' of
       None \<Rightarrow> d
     | Some x \<Rightarrow>
         let ip = capLen (get_str x ''ip'') 64; peers = trunc (get_num x ''peers'');
             d = d\<lparr>dv_ts_installed := get_bool x ''installed'', dv_ts_connected := get_bool x ''connected'', dv_ts_ip := ip,
                   dv_ts_hostname := capLen (get_str x ''hostname'') 256,
                   dv_ts_peers := (if peers < 0 \<or> peers > 100000 then 0 else peers),
                   dv_ts_state := capLen (get_str x ''backend_state'') 64\<rparr>
         in if ip \<noteq> [] then d\<lparr>dv_agent_ip := ip\<rparr> else d)"

text \<open>\<open>POST /agent/heartbeat\<close> behind the agent middleware; the result is \<open>update_available\<close>.\<close>

definition agent_heartbeat ::
  "world \<Rightarrow> int \<Rightarrow> json_obj option \<Rightarrow> locals \<Rightarrow> reg_state \<Rightarrow> (http_error, bool) result \<times> event list \<times> reg_state" where
  "agent_heartbeat w defaultPort body c s =
     (case body of
        None \<Rightarrow> (Inl (HttpError 400 ''Invalid request body''), [], s)
      | Some m \<Rightarrow>
        let deviceID = l_device_id c; now = w_now w;
            status = (if get_str m ''status'' = [] then ''online'' else get_str m ''status'') in
        if \<not> w_db_up w then (Inl (HttpError 500 ''Failed to update heartbeat''), [], s)
        else (case List.find (\<lambda>d. dv_id d = deviceID) (dev_rows s) of
          None \<Rightarrow> (Inl (HttpError 404 ''Device not found''), [], s)
        | Some d0 \<Rightarrow>
          let s = on_agents (set_last_seen deviceID now) s;
              s = upd_device deviceID (\<lambda>d. heartbeat_tailscale m (heartbeat_sunshine defaultPort m
                     (heartbeat_latency m (heartbeat_cols m status d)))) s;
              evs = (if dv_status d0 = ''offline'' \<and> status = ''online''
                     then [Ev_webhook (dv_tenant d0) ''device.online'' deviceID,
                           Ev_ws (dv_tenant d0) (case dv_owner d0 of None \<Rightarrow> [] | Some u \<Rightarrow> u) deviceID] else []);
              cpu = clampPercent (get_num m ''cpu_usage''); mem = clampPercent (get_num m ''memory_usage'');
              disk = clampPercent (get_num m ''disk_usage'');
              s = (if cpu > 0 \<or> mem > 0 \<or> disk > 0
                   then s\<lparr>metrics := \<lparr>mr_device = deviceID, mr_cpu = cpu, mr_mem = mem, mr_disk = disk, mr_at = now,
                            mr_tenant = or_default (l_tenant_id c)\<rparr> # metrics s\<rparr> else s);
              v = get_str m ''agent_version''
          in (Inr (v \<noteq> [] \<and> v \<noteq> ''1.1.0''), evs, s)))"

section \<open>Lemmas\<close>

lemma on_agents_simps [simp]:
  "dev_rows (on_agents f s) = dev_rows s" "agents (ath (on_agents f s)) = f (agents (ath s))"
  "tenant_tbl (ath (on_agents f s)) = tenant_tbl (ath s)" "metrics (on_agents f s) = metrics s"
  "on_agents (\<lambda>_. agents (ath s)) s = s"
  by (simp_all add: on_agents_def)

lemma upd_device_simps [simp]:
  "ath (upd_device did f s) = ath s" "metrics (upd_device did f s) = metrics s"
  by (simp_all add: upd_device_def)

lemma existing_device_id:
  "existing_device w s t h a = Some did \<Longrightarrow>
     \<exists>d \<in> set (dev_rows s). dv_id d = did \<and> dv_tenant d = t \<and> dv_host d = h"
  by (auto simp: existing_device_def dest!: find_in split: option.splits if_splits)

text \<open>The verdict on a device with an active token is an acceptance exactly for a proof of possession.\<close>

definition possesses :: "world \<Rightarrow> token_row \<Rightarrow> string \<Rightarrow> bool" where
  "possesses w row presented \<longleftrightarrow> presented \<noteq> []
     \<and> (k_hash row = Some (HashToken (w_prims w) presented)
        \<or> k_prev_hash row = Some (HashToken (w_prims w) presented)
          \<and> (\<exists>t. k_prev_rotated row = Some t \<and> w_now w - t < 60))"

lemma pop_accepts_iff:
  assumes wf: "tokens_wf (tokens g)" and row: "row \<in> set (tokens g)" "active_row (or_default tid) did host row"
  shows "pop_accepts (VerifyAgentPoP (w_prims w) (w_now w) up up' g tid did host presented) \<longleftrightarrow> up \<and> possesses w row presented"
    and "VerifyAgentPoP (w_prims w) (w_now w) True up' g tid did host presented \<noteq> PoPNoPriorToken"
proof -
  have n: "newest (filter (active_row (or_default tid) did host) (tokens g)) = Some row"
    by (rule newest_unique [of row "tokens g" "active_row (or_default tid) did host", OF row])
      (use wf row in \<open>auto simp: tokens_wf_def\<close>)
  obtain h where h: "k_hash row = Some h" using wf row by (auto simp: tokens_wf_def row_wf_def)
  show "VerifyAgentPoP (w_prims w) (w_now w) True up' g tid did host presented \<noteq> PoPNoPriorToken"
    by (simp add: VerifyAgentPoP_def Let_def n h split: option.split)
  show "pop_accepts (VerifyAgentPoP (w_prims w) (w_now w) up up' g tid did host presented) \<longleftrightarrow> up \<and> possesses w row presented"
  proof (cases "up \<and> presented \<noteq> [] \<and> HashToken (w_prims w) presented \<noteq> h")
    case False
    then show ?thesis
      by (auto simp: VerifyAgentPoP_def Let_def n h pop_accepts_def possesses_def)
  next
    case True
    then show ?thesis
      by (cases "k_prev_hash row"; cases "k_prev_rotated row")
        (auto simp: VerifyAgentPoP_def Let_def n h pop_accepts_def possesses_def AgentPoPGraceWindow_def
          split: option.splits)
  qed
qed

section \<open>Properties\<close>

text \<open>
  C10. A registered device cannot be taken over. When a registration names the hostname and
  hardware address of a device that has an active token from the current scheme, it succeeds only
  if the request presents that token, or the one it replaced less than 60 seconds ago, in the
  proof header; otherwise the answer is the conflict response, the attempt is audited, and device,
  tokens and bypass latch are untouched. The registration secret alone is never enough.
\<close>

theorem registered_device_not_hijacked:
  assumes checks: "register_checks w body r s = Inr (m, tid, token)"
    and ex: "existing_device w s tid (get_str m ''hostname'') (get_str m ''mac_address'') = Some did"
    and wf: "agent_wf (agents (ath s))"
    and row: "row \<in> set (tokens (agents (ath s)))" "active_row (or_default tid) did (get_str m ''hostname'') row"
    and fresh: "k_legacy row \<noteq> 1" and up: "w_db_up w"
    and np: "\<not> possesses w row (trim_prefix (r_headers r ''X-Existing-Agent-Token'') ''Bearer '')"
  shows "agent_register parse w pg upd_ok ins_ok fault uuid body r s =
     (Inl (HttpError 409 ''Device exists; proof-of-possession required''),
      [Ev_audit tid ''device.register.pop_rejected'' did, Ev_conflict tid did], s)"
proof -
  let ?g = "agents (ath s)" and ?host = "get_str m ''hostname''"
  let ?v = "VerifyAgentPoP (w_prims w) (w_now w) True True ?g tid did ?host
              (trim_prefix (r_headers r ''X-Existing-Agent-Token'') ''Bearer '')"
  have twf: "tokens_wf (tokens ?g)" using wf by (simp add: agent_wf_def)
  have v: "\<not> pop_accepts ?v" "?v \<noteq> PoPNoPriorToken"
    using pop_accepts_iff [OF twf row] np by blast+
  have "newest (filter (active_row (or_default tid) did ?host) (tokens ?g)) = Some row"
    by (rule newest_unique [of row "tokens ?g" "active_row (or_default tid) did ?host", OF row])
      (use twf row in \<open>auto simp: tokens_wf_def\<close>)
  then have "\<not> ActiveTokenIsLegacy True ?g tid did ?host" using fresh by (simp add: ActiveTokenIsLegacy_def)
  then have "\<not> bypass_eligible parse w ?g tid did ?host ?v"
    using v(2) up by (simp add: bypass_eligible_def)
  with v(1) up show ?thesis
    by (simp add: agent_register_def checks Let_def ex)
qed

lemma on_agents_exI: "P y \<Longrightarrow> \<exists>x. on_agents R y = on_agents R x \<and> P x"
  by blast

lemma register_success:
  assumes "agent_register parse w pg upd_ok ins_ok fault uuid body r s = (Inr (did, st), evs, s')"
    and "register_checks w body r s = Inr (m, tid, token)"
  shows "\<exists>s0. s' = on_agents (RegisterAgentToken (w_prims w) pg (w_now w) fault token did (get_str m ''hostname'') tid) s0
    \<and> (existing_device w s tid (get_str m ''hostname'') (get_str m ''mac_address'') = Some did
          \<and> dev_rows s0 = map (\<lambda>d. if dv_id d = did then refresh_row m d else d) (dev_rows s)
       \<or> did = uuid \<and> dev_rows s0 = new_device w uuid tid m # dev_rows s)"
  using assms(1)
  by (auto simp: agent_register_def assms(2) Let_def case_prod_beta upd_device_def
      split: option.splits if_splits intro!: on_agents_exI)

text \<open>
  C11. A registration that succeeds, as a new device or as a refreshed one, leaves a device row of the
  bound tenant and the sent hostname under the returned id, and the bearer token of the request
  is accepted from then on by the agent middleware as exactly this device, host and tenant,
  even if the database writes of the token fail.
\<close>

theorem registration_establishes_agent:
  assumes "agent_register parse w pg upd_ok ins_ok fault uuid body r s = (Inr (did, st), evs, s')"
    and "register_checks w body r s = Inr (m, tid, token)"
    and "0 \<le> w_now w" and "w_prims w' = w_prims w" and "w_now w' \<le> w_now w + 90 * 24 * 3600"
    and "TenantAllowed (w_env w') (w_now w') (w_db_up w') (tenant_tbl (ath s')) (or_default tid)"
  shows "(\<exists>d \<in> set (dev_rows s'). dv_id d = did \<and> dv_tenant d = tid \<and> dv_host d = get_str m ''hostname''
             \<and> dv_status d = ''online'')
    \<and> AgentAuthMiddleware w' (bearer_request token) c (ath s') =
        Inr (c\<lparr>l_device_id := did, l_hostname := get_str m ''hostname'', l_tenant_id := or_default tid\<rparr>)"
proof -
  let ?host = "get_str m ''hostname''"
  obtain s0 where s': "s' = on_agents (RegisterAgentToken (w_prims w) pg (w_now w) fault token did ?host tid) s0"
    and rows: "existing_device w s tid ?host (get_str m ''mac_address'') = Some did
          \<and> dev_rows s0 = map (\<lambda>d. if dv_id d = did then refresh_row m d else d) (dev_rows s)
        \<or> did = uuid \<and> dev_rows s0 = new_device w uuid tid m # dev_rows s"
    using register_success [OF assms(1,2)] by blast
  have dev: "\<exists>d \<in> set (dev_rows s'). dv_id d = did \<and> dv_tenant d = tid \<and> dv_host d = ?host \<and> dv_status d = ''online''"
    using rows
  proof (elim disjE conjE)
    assume 1: "existing_device w s tid ?host (get_str m ''mac_address'') = Some did"
      "dev_rows s0 = map (\<lambda>d. if dv_id d = did then refresh_row m d else d) (dev_rows s)"
    from existing_device_id [OF 1(1)] obtain d where d: "d \<in> set (dev_rows s)" "dv_id d = did" "dv_tenant d = tid" "dv_host d = ?host"
      by blast
    then have "refresh_row m d \<in> set (dev_rows s')"
      by (auto simp: s' 1 image_iff intro!: bexI [of _ d])
    with d show ?thesis by (intro bexI [of _ "refresh_row m d"]) (simp_all add: refresh_row_def)
  next
    assume "did = uuid" and "dev_rows s0 = new_device w uuid tid m # dev_rows s"
    then show ?thesis by (simp add: s' new_device_def refresh_row_def)
  qed
  have "cache (agents (ath s')) (HashToken (w_prims w) token) = Some \<lparr>TokenHash = HashToken (w_prims w) token,
      DeviceID = did, Hostname = ?host, TenantID = or_default tid, ExpiresAt = w_now w + 90 * 24 * 60 * 60, SupersededAt = 0\<rparr>"
    by (simp add: s' RegisterAgentToken_def Let_def)
  moreover have "has_prefix (''Bearer '' @ token) ''Bearer ''" "trim_prefix (''Bearer '' @ token) ''Bearer '' = token"
    by (rule has_prefix_append, rule trim_prefix_append)
  moreover have "r_headers (bearer_request token) ''Authorization'' = ''Bearer '' @ token" by (simp add: bearer_request_def)
  ultimately have "AgentAuthMiddleware w' (bearer_request token) c (ath s') =
        Inr (c\<lparr>l_device_id := did, l_hostname := ?host, l_tenant_id := or_default tid\<rparr>)"
    unfolding AgentAuthMiddleware_admits
    using assms(3,5,6) by (auto simp: assms(4) token_dead_def)
  with dev show ?thesis by blast
qed

text \<open>A small deployment to evaluate witnesses on: open registration into the default tenant.\<close>

definition toy_token :: string where "toy_token = replicate 32 CHR ''a''"

definition toy_reg_world :: world where
  "toy_reg_world = (toy_world Map.empty)\<lparr>w_env := (\<lambda>k. if k = ''ALLOW_OPEN_REGISTRATION'' then ''1'' else [])\<rparr>"

definition toy_body :: json_obj where
  "toy_body = [''hostname'' \<mapsto> JStr ''pc1'', ''mac_address'' \<mapsto> JStr ''m1'']"

definition toy_reg :: "device_row list \<Rightarrow> agent_state \<Rightarrow> reg_state" where
  "toy_reg rows g = \<lparr>ath = toy_auth\<lparr>agents := g, tenant_tbl := [''default'' \<mapsto> \<lparr>t_status = ''active'', t_suspended_at = None\<rparr>]\<rparr>,
     dev_rows = rows, reg_secrets = [], max_devices = (\<lambda>_. 0), metrics = []\<rparr>"

lemma toy_reg_simps:
  "agents (ath (toy_reg rows g)) = g"
  "tenant_tbl (ath (toy_reg rows g)) = [''default'' \<mapsto> \<lparr>t_status = ''active'', t_suspended_at = None\<rparr>]"
  by (simp_all add: toy_reg_def)

lemma toy_checks:
  "register_checks toy_reg_world (Some toy_body) (bearer_request toy_token) (toy_reg rows g) = Inr (toy_body, ''default'', toy_token)"
proof -
  have h: "r_headers (bearer_request toy_token) ''Authorization'' = ''Bearer '' @ toy_token"
    "r_headers (bearer_request toy_token) ''X-Registration-Secret'' = []"
    by (simp_all add: bearer_request_def)
  have t: "trim_prefix (''Bearer '' @ toy_token) ''Bearer '' = toy_token" by (rule trim_prefix_append)
  have "length (''Bearer '' @ toy_token) \<noteq> length toy_token" by simp
  then have ne: "toy_token \<noteq> ''Bearer '' @ toy_token" by metis
  have host: "get_str toy_body ''hostname'' = ''pc1''" by (simp add: toy_body_def get_str_def)
  have b: "bind_tenant toy_reg_world (bearer_request toy_token) (toy_reg rows g) = Inr ''default''"
    by (simp add: bind_tenant_def h toy_reg_world_def toy_world_def Let_def)
  have c: "\<not> device_cap_reached toy_reg_world (toy_reg rows g) ''default''"
    by (simp add: device_cap_reached_def toy_reg_def)
  have chars: "\<not> contains_any ''pc1'' (''/'' @ [CHR 0x5C] @ ''$;&|<>'' @ [CHR 0x27, CHR 0x22])" by code_simp
  have l: "32 \<le> length toy_token" by (simp add: toy_token_def)
  show ?thesis
    unfolding register_checks_def option.case Let_def h t host b sum.case using ne chars c l by simp
qed

definition toy_device :: device_row where
  "toy_device = new_device toy_reg_world ''d1'' ''default'' toy_body"

lemma toy_existing:
  "existing_device toy_reg_world (toy_reg [toy_device] g) ''default'' (get_str toy_body ''hostname'') (get_str toy_body ''mac_address'') = Some ''d1''"
  by (simp add: existing_device_def toy_reg_def toy_device_def new_device_def refresh_row_def toy_reg_world_def toy_world_def)

lemma registered_device_not_hijacked_witness:
  "agent_register (\<lambda>_. None) toy_reg_world False True True NoFault ''u'' (Some toy_body) (bearer_request toy_token)
     (toy_reg [toy_device] (RegisterAgentToken toy_prims False 50 NoFault ''old'' ''d1'' ''pc1'' ''default'' empty_state)) =
     (Inl (HttpError 409 ''Device exists; proof-of-possession required''),
      [Ev_audit ''default'' ''device.register.pop_rejected'' ''d1'', Ev_conflict ''default'' ''d1''],
      toy_reg [toy_device] (RegisterAgentToken toy_prims False 50 NoFault ''old'' ''d1'' ''pc1'' ''default'' empty_state))"
proof -
  let ?g = "RegisterAgentToken toy_prims False 50 NoFault ''old'' ''d1'' ''pc1'' ''default'' empty_state"
  let ?r = "new_row (HashToken toy_prims ''old'') 50 ''d1'' ''pc1'' ''default'' None"

  have host: "get_str toy_body ''hostname'' = ''pc1''" by (simp add: toy_body_def get_str_def)
  have hdr: "trim_prefix (r_headers (bearer_request toy_token) ''X-Existing-Agent-Token'') ''Bearer '' = []"
    by (simp add: bearer_request_def trim_prefix_def)
  have wf: "agent_wf ?g" by (intro Register_wf empty_wf prims_ok_toy) simp
  have r: "?r \<in> set (tokens ?g)" by (simp add: first_registration or_default_def)
  show ?thesis
    by (rule registered_device_not_hijacked [OF toy_checks toy_existing, unfolded toy_reg_simps host hdr, OF wf r])
      (simp_all add: or_default_def possesses_def new_row_def active_row_def same_agent_def toy_reg_world_def toy_world_def)
qed

lemma registration_establishes_agent_witness:
  "\<exists>s' :: reg_state. AgentAuthMiddleware toy_reg_world (bearer_request toy_token) no_locals (ath s')
     = Inr (no_locals\<lparr>l_device_id := ''u'', l_hostname := ''pc1'', l_tenant_id := ''default''\<rparr>)"
proof -
  let ?reg = "agent_register (\<lambda>_. None) toy_reg_world False True True NoFault ''u'' (Some toy_body) (bearer_request toy_token)
     (toy_reg [] empty_state)"
  have ex: "existing_device toy_reg_world (toy_reg [] empty_state) t h a = None" for t h a
    by (simp add: existing_device_def toy_reg_def)
  have up: "w_db_up toy_reg_world" and now: "0 \<le> w_now toy_reg_world"
    by (simp_all add: toy_reg_world_def toy_world_def)
  have "\<exists>evs s'. ?reg = (Inr (''u'', ''registered''), evs, s')
      \<and> tenant_tbl (ath s') = [''default'' \<mapsto> \<lparr>t_status = ''active'', t_suspended_at = None\<rparr>]"
    by (simp add: agent_register_def toy_checks ex up Let_def toy_reg_simps)
  then obtain evs s' where reg: "?reg = (Inr (''u'', ''registered''), evs, s')"
      and ten: "tenant_tbl (ath s') = [''default'' \<mapsto> \<lparr>t_status = ''active'', t_suspended_at = None\<rparr>]"
    by blast
  have host: "get_str toy_body ''hostname'' = ''pc1''" and def: "or_default ''default'' = ''default''"
    by (simp_all add: toy_body_def get_str_def or_default_def)
  have allowed: "TenantAllowed (w_env toy_reg_world) (w_now toy_reg_world) (w_db_up toy_reg_world)
      (tenant_tbl (ath s')) (or_default ''default'')"
    unfolding ten by (simp add: TenantAllowed_def toy_reg_world_def toy_world_def or_default_def)
  have "w_now toy_reg_world \<le> w_now toy_reg_world + 90 * 24 * 3600" by simp
  from registration_establishes_agent [OF reg toy_checks now refl this allowed, of no_locals]
  show ?thesis unfolding host def by blast
qed

text \<open>What a heartbeat may do to a row: nothing to another device's row; of its own the identity stays, and
  a row within bounds stays within bounds.\<close>

definition row_bounded :: "device_row \<Rightarrow> bool" where
  "row_bounded d \<longleftrightarrow> 0 \<le> dv_latency d \<and> dv_latency d \<le> 5000 \<and> 0 \<le> dv_ts_peers d \<and> dv_ts_peers d \<le> 100000
     \<and> length (dv_ts_ip d) \<le> 64 \<and> length (dv_ts_hostname d) \<le> 256 \<and> length (dv_ts_state d) \<le> 64"

definition row_identity :: "device_row \<Rightarrow> string \<times> string \<times> string \<times> string \<times> string option \<times> string option \<times> unix" where
  "row_identity d = (dv_id d, dv_tenant d, dv_name d, dv_host d, dv_mac d, dv_owner d, dv_created d)"

definition heartbeat_may :: "string \<Rightarrow> device_row \<Rightarrow> device_row \<Rightarrow> bool" where
  "heartbeat_may did d d' \<longleftrightarrow> (dv_id d \<noteq> did \<longrightarrow> d' = d) \<and> row_identity d' = row_identity d
     \<and> (row_bounded d \<longrightarrow> row_bounded d')"

definition row_keeps :: "device_row \<Rightarrow> device_row \<Rightarrow> bool" where
  "row_keeps d d' \<longleftrightarrow> row_identity d' = row_identity d \<and> (row_bounded d \<longrightarrow> row_bounded d')"

lemma row_keeps_trans: "row_keeps d e \<Longrightarrow> row_keeps e f \<Longrightarrow> row_keeps d f"
  by (simp add: row_keeps_def)

lemma cols_keep: "row_keeps d (heartbeat_cols m st d)"
  by (simp add: row_keeps_def row_identity_def row_bounded_def heartbeat_cols_def Let_def)

lemma latency_keep: "row_keeps d (heartbeat_latency m d)"
  by (simp add: row_keeps_def row_identity_def row_bounded_def heartbeat_latency_def Let_def split: option.split json.split)

lemma sunshine_keep: "row_keeps d (heartbeat_sunshine port m d)"
  by (simp add: row_keeps_def row_identity_def row_bounded_def heartbeat_sunshine_def Let_def split: option.split)

lemma tailscale_keep: "row_keeps d (heartbeat_tailscale m d)"
  by (simp add: row_keeps_def row_identity_def row_bounded_def heartbeat_tailscale_def Let_def capLen_le split: option.split)

lemma heartbeat_rows_may:
  "list_all2 (heartbeat_may did) rows
     (map (\<lambda>d. if dv_id d = did then heartbeat_tailscale m (heartbeat_sunshine port m
                  (heartbeat_latency m (heartbeat_cols m st d))) else d) rows)"
proof -
  have "row_keeps d (heartbeat_tailscale m (heartbeat_sunshine port m (heartbeat_latency m (heartbeat_cols m st d))))" for d
    by (rule row_keeps_trans [OF cols_keep row_keeps_trans [OF latency_keep row_keeps_trans [OF sunshine_keep tailscale_keep]]])
  then show ?thesis
    by (simp add: list.rel_map list.rel_refl heartbeat_may_def row_keeps_def)
qed

lemma rows_may_refl: "list_all2 (heartbeat_may did) rows rows"
  by (simp add: list.rel_refl heartbeat_may_def)

text \<open>
  A heartbeat changes the row of the authenticated device only, whatever its body names; the
  row keeps its identity, tenant, owner and creation time, and what the agent reports is bounded:
  round trip at most 5000 ms, at most 100000 peers, capped strings, and any new metrics row lies
  within 0 to 100 percent and belongs to this device.
\<close>

theorem heartbeat_confined:
  "list_all2 (heartbeat_may (l_device_id c)) (dev_rows s) (dev_rows (snd (snd (agent_heartbeat w port body c s))))
   \<and> (\<exists>new. metrics (snd (snd (agent_heartbeat w port body c s))) = new @ metrics s
        \<and> list_all (\<lambda>x. mr_device x = l_device_id c \<and> {mr_cpu x, mr_mem x, mr_disk x} \<subseteq> {0..100}) new)"
proof (cases "\<exists>m d0. body = Some m \<and> w_db_up w \<and> List.find (\<lambda>d. dv_id d = l_device_id c) (dev_rows s) = Some d0")
  case False
  then have "snd (snd (agent_heartbeat w port body c s)) = s"
    by (auto simp: agent_heartbeat_def Let_def split: option.split)
  then show ?thesis by (simp add: rows_may_refl)
next
  case True
  then obtain m d0 where m: "body = Some m" "w_db_up w"
    and f: "List.find (\<lambda>d. dv_id d = l_device_id c) (dev_rows s) = Some d0" by blast
  let ?s = "snd (snd (agent_heartbeat w port body c s))"
  let ?cpu = "clampPercent (get_num m ''cpu_usage'')" and ?mem = "clampPercent (get_num m ''memory_usage'')"
    and ?disk = "clampPercent (get_num m ''disk_usage'')"
  have "dev_rows ?s = map (\<lambda>d. if dv_id d = l_device_id c then heartbeat_tailscale m (heartbeat_sunshine port m
                  (heartbeat_latency m (heartbeat_cols m (if get_str m ''status'' = [] then ''online'' else get_str m ''status'') d))) else d) (dev_rows s)"
    by (simp add: agent_heartbeat_def m f Let_def upd_device_def)
  moreover have "metrics ?s = (if 0 < ?cpu \<or> 0 < ?mem \<or> 0 < ?disk
      then [\<lparr>mr_device = l_device_id c, mr_cpu = ?cpu, mr_mem = ?mem, mr_disk = ?disk, mr_at = w_now w,
              mr_tenant = or_default (l_tenant_id c)\<rparr>] else []) @ metrics s"
    by (simp add: agent_heartbeat_def m f Let_def)
  ultimately show ?thesis
    using heartbeat_rows_may by (auto simp: clampPercent_bounds)
qed

end
