(* ===== verification/Commands.thy ===== *)
theory Commands
  imports Complex_Main Registration
begin

text \<open>
  The command channel: the table \<open>device_commands\<close>, the handlers that write it
  (\<open>handlers/devices.go\<close>, \<open>scripts.go\<close>, \<open>bulk.go\<close>, \<open>patches_v2.go\<close>, \<open>maintenance.go\<close>, the help
  request of \<open>agent.go\<close> and \<open>playbooks/agentbridge.go\<close>), the agent endpoints that read it and
  take results, and the agent's side of the poll (\<open>packages/agent/main.go\<close>).

  A payload is the JSON value that the column's text decodes to; encoding a value and decoding it
  gives it back. Decoding into a struct follows the language: keys match without regard
  to case, the last of several matching keys counts, a value of the wrong type is an error. A poll
  is one step: the agent fetches, runs everything, and posts the results; what a shell or an installer
  does is a function from the command to its output and error.
\<close>

section \<open>State\<close>

record command_row =
  cm_id :: string
  cm_device :: string
  cm_type :: string
  cm_payload :: json
  cm_status :: string
  cm_output :: "string option"
  cm_created :: unix
  cm_finished :: "unix option"
  cm_tenant :: string

record fleet =
  fl_devices :: "device_row list"
  fl_tags :: "string \<Rightarrow> string"
  fl_commands :: "command_row list"

record command_request =
  cr_ID :: string
  cr_Type :: string
  cr_Payload :: "(string \<times> json) list"
  cr_CreatedAt :: json

record command_result =
  rs_CommandID :: string
  rs_Success :: bool
  rs_Output :: string
  rs_Error :: string

definition new_command :: "string \<Rightarrow> string \<Rightarrow> string \<Rightarrow> json \<Rightarrow> unix \<Rightarrow> string \<Rightarrow> command_row" where
  "new_command cid did ctype payload now tenant =
     \<lparr>cm_id = cid, cm_device = did, cm_type = ctype, cm_payload = payload, cm_status = ''pending'', cm_output = None,
      cm_created = now, cm_finished = None, cm_tenant = tenant\<rparr>"

definition add_command :: "command_row \<Rightarrow> fleet \<Rightarrow> fleet" where
  "add_command r s = s\<lparr>fl_commands := r # fl_commands s\<rparr>"

section \<open>JSON envelopes\<close>

text \<open>\<open>models.CommandRequest\<close> as it is encoded and decoded.\<close>

definition marshal_request :: "command_request \<Rightarrow> json" where
  "marshal_request r = JObj [(''id'', JStr (cr_ID r)), (''type'', JStr (cr_Type r)),
      (''payload'', JObj (cr_Payload r)), (''created_at'', cr_CreatedAt r)]"

definition field :: "(string \<times> json) list \<Rightarrow> string \<Rightarrow> json option" where
  "field kv name = map_of (rev (map (\<lambda>(k, v). (to_lower k, v)) kv)) name"

fun str_field :: "json option \<Rightarrow> string option" where
  "str_field None = Some []"
| "str_field (Some JNull) = Some []"
| "str_field (Some (JStr s)) = Some s"
| "str_field (Some _) = None"

fun map_field :: "json option \<Rightarrow> (string \<times> json) list option" where
  "map_field None = Some []"
| "map_field (Some JNull) = Some []"
| "map_field (Some (JObj kv)) = Some kv"
| "map_field (Some _) = None"

fun unmarshal_request :: "json \<Rightarrow> command_request option" where
  "unmarshal_request JNull = Some \<lparr>cr_ID = [], cr_Type = [], cr_Payload = [], cr_CreatedAt = JNull\<rparr>"
| "unmarshal_request (JObj kv) =
     (case (str_field (field kv ''id''), str_field (field kv ''type''), map_field (field kv ''payload'')) of
        (Some i, Some t, Some p) \<Rightarrow> Some \<lparr>cr_ID = i, cr_Type = t, cr_Payload = p,
            cr_CreatedAt = (case field kv ''created_at'' of None \<Rightarrow> JNull | Some v \<Rightarrow> v)\<rparr>
      | _ \<Rightarrow> None)"
| "unmarshal_request _ = None"

section \<open>Writers\<close>

definition callerTenantID :: "locals \<Rightarrow> string" where
  "callerTenantID c = or_default (l_tenant_id c)"

definition tenant_visible :: "locals \<Rightarrow> string \<Rightarrow> bool" where
  "tenant_visible c t = (l_user_role c = ''super_admin'' \<or> t = or_default (l_tenant_id c))"

text \<open>
  \<open>ScanDevice\<close> scans into 25 destinations; the database driver answers with an error when the
  number of selected columns differs. The argument is that number and the matching row.
\<close>

definition scan_columns :: nat where "scan_columns = 25"

definition ScanDevice :: "nat \<Rightarrow> device_row option \<Rightarrow> device_row option" where
  "ScanDevice selected row = (if selected \<noteq> scan_columns then None else row)"

definition find_device :: "(device_row \<Rightarrow> bool) \<Rightarrow> fleet \<Rightarrow> device_row option" where
  "find_device P s = List.find P (fl_devices s)"

definition allowedCommandTypes :: "string \<Rightarrow> bool" where
  "allowedCommandTypes t = (t = ''shell'' \<or> t = ''script'')"

text \<open>\<open>POST /devices/:id/command\<close>; \<open>cid\<close> is the drawn id, \<open>stamp\<close> the encoded time.\<close>

definition device_command ::
  "locals \<Rightarrow> unix \<Rightarrow> string \<Rightarrow> json \<Rightarrow> string \<Rightarrow> (string \<times> string) option \<Rightarrow> fleet \<Rightarrow> (http_error, string) result \<times> fleet" where
  "device_command c now cid stamp did body s =
     (case body of
        None \<Rightarrow> (Inl (HttpError 400 ''Invalid request body''), s)
      | Some (ctype, cmd) \<Rightarrow>
        if ctype = [] \<or> cmd = [] then (Inl (HttpError 400 ''type and command are required''), s)
        else if \<not> allowedCommandTypes ctype then (Inl (HttpError 400 ''Invalid command type''), s)
        else (case ScanDevice 4 (find_device (\<lambda>d. dv_id d = did \<and> tenant_visible c (dv_tenant d)) s) of
          None \<Rightarrow> (Inl (HttpError 404 ''Device not found''), s)
        | Some d \<Rightarrow>
          let req = \<lparr>cr_ID = cid, cr_Type = ctype, cr_Payload = [(''command'', JStr cmd)], cr_CreatedAt = stamp\<rparr>
          in (Inr cid, add_command (new_command cid did ctype (marshal_request req) now (callerTenantID c)) s)))"

text \<open>
  \<open>POST /devices/:id/sunshine/install\<close> and \<open>/tailscale/install\<close> share this shape; \<open>mk\<close> is the
  install command of the device, or the refusal of its arguments.
\<close>

definition install_command ::
  "locals \<Rightarrow> unix \<Rightarrow> string \<Rightarrow> json \<Rightarrow> string \<Rightarrow> (device_row \<Rightarrow> (http_error, string) result) \<Rightarrow> fleet
    \<Rightarrow> (http_error, string) result \<times> fleet" where
  "install_command c now cid stamp did mk s =
     (case ScanDevice 4 (find_device (\<lambda>d. dv_id d = did \<and> tenant_visible c (dv_tenant d)) s) of
        None \<Rightarrow> (Inl (HttpError 404 ''Device not found''), s)
      | Some d \<Rightarrow> (case mk d of Inl e \<Rightarrow> (Inl e, s) | Inr cmd \<Rightarrow>
          let req = \<lparr>cr_ID = cid, cr_Type = ''shell'', cr_Payload = [(''command'', JStr cmd)], cr_CreatedAt = stamp\<rparr>
          in (Inr cid, add_command (new_command cid did ''shell'' (marshal_request req) now (callerTenantID c)) s)))"

text \<open>\<open>POST /devices/:id/scripts/:script_id/execute\<close>; \<open>scripts\<close> maps ids to tenant and content.\<close>

definition execute_script ::
  "locals \<Rightarrow> unix \<Rightarrow> string \<Rightarrow> json \<Rightarrow> (string \<rightharpoonup> string \<times> string) \<Rightarrow> string \<Rightarrow> string \<Rightarrow> fleet
    \<Rightarrow> (http_error, string) result \<times> fleet" where
  "execute_script c now cid stamp scripts did sid s =
     (case (case scripts sid of None \<Rightarrow> None | Some (t, x) \<Rightarrow> if tenant_visible c t then Some x else None) of
        None \<Rightarrow> (Inl (HttpError 404 ''Script not found''), s)
      | Some scriptContent \<Rightarrow>
        (case ScanDevice 4 (find_device (\<lambda>d. dv_id d = did \<and> tenant_visible c (dv_tenant d)) s) of
          None \<Rightarrow> (Inl (HttpError 404 ''Device not found''), s)
        | Some d \<Rightarrow>
          let req = \<lparr>cr_ID = cid, cr_Type = ''script'', cr_Payload = [(''command'', JStr scriptContent)], cr_CreatedAt = stamp\<rparr>
          in (Inr cid, add_command (new_command cid did ''script'' (marshal_request req) now (callerTenantID c)) s)))"

text \<open>\<open>queueAgentCommand\<close> of the playbooks.\<close>

datatype queue_error = Queue_empty_body | Queue_no_target | Queue_device_not_in_tenant | Queue_db

definition queueAgentCommand ::
  "bool \<Rightarrow> unix \<Rightarrow> string \<Rightarrow> string \<Rightarrow> string \<Rightarrow> string \<Rightarrow> string \<Rightarrow> fleet \<Rightarrow> (queue_error, string) result \<times> fleet" where
  "queueAgentCommand ins_ok now cid tenantID deviceID cmdType body s =
     (if body = [] then (Inl Queue_empty_body, s)
      else if deviceID = [] \<or> tenantID = [] then (Inl Queue_no_target, s)
      else if find_device (\<lambda>d. dv_id d = deviceID \<and> dv_tenant d = tenantID) s = None
      then (Inl Queue_device_not_in_tenant, s)
      else if \<not> ins_ok then (Inl Queue_db, s)
      else (Inr cid, add_command (new_command cid deviceID cmdType (JObj [(''command'', JStr body)]) now tenantID) s))"

text \<open>\<open>installCommandFor\<close> and the two places that queue what it templates.\<close>

definition space_char :: "char \<Rightarrow> bool" where
  "space_char c = (c = CHR '' '' \<or> (let n = (of_char c :: nat) in 9 \<le> n \<and> n \<le> 13))"

definition trim_space :: "string \<Rightarrow> string" where
  "trim_space s = rev (dropWhile space_char (rev (dropWhile space_char s)))"

definition allowedPatchSources :: "string \<Rightarrow> bool" where
  "allowedPatchSources t = (t \<in> {''apt'', ''dnf'', ''yum'', ''pacman'', ''winupdate'', ''macos'', ''flatpak'', ''snap''})"

definition maxPatchKBLen :: nat where "maxPatchKBLen = 128"

definition installCommandFor :: "string \<Rightarrow> string \<Rightarrow> (string \<times> json) option" where
  "installCommandFor source kbID =
     (let source = to_lower (trim_space source) in
      if \<not> allowedPatchSources source then None
      else if contains_any kbID (''`$;|&><'' @ [CHR 0x0A, CHR 0x0D]) then None
      else if kbID = [] \<or> length kbID > maxPatchKBLen then None
      else Some (''patch_install'', JObj [(''source'', JStr source), (''kb_id'', JStr kbID)]))"

record patch_row =
  pt_id :: string
  pt_device :: string
  pt_tenant :: string
  pt_source :: "string option"
  pt_kb_id :: "string option"
  pt_status :: string

definition set_patch_status :: "string \<Rightarrow> string \<Rightarrow> patch_row list \<Rightarrow> patch_row list" where
  "set_patch_status pid st ps = map (\<lambda>p. if pt_id p = pid then p\<lparr>pt_status := st\<rparr> else p) ps"

text \<open>\<open>POST /patches/:id/install\<close>.\<close>

definition install_patch ::
  "locals \<Rightarrow> bool \<Rightarrow> unix \<Rightarrow> string \<Rightarrow> string \<Rightarrow> patch_row list \<Rightarrow> fleet
    \<Rightarrow> (http_error, string) result \<times> patch_row list \<times> fleet" where
  "install_patch c ins_ok now cid pid ps s =
     (case List.find (\<lambda>p. pt_id p = pid \<and> tenant_visible c (pt_tenant p)) ps of
        None \<Rightarrow> (Inl (HttpError 404 ''Patch not found''), ps, s)
      | Some p \<Rightarrow>
        if pt_status p = ''installed'' then (Inl (HttpError 409 ''Patch already installed''), ps, s)
        else (case (pt_source p, pt_kb_id p) of
          (Some source, Some kbID) \<Rightarrow>
            (case installCommandFor source kbID of
               None \<Rightarrow> (Inl (HttpError 400 ''Cannot template install command''), ps, s)
             | Some (cmdType, payload) \<Rightarrow>
               (case find_device (\<lambda>d. dv_id d = pt_device p) s of
                  None \<Rightarrow> (Inl (HttpError 500 ''Device lookup failed''), ps, s)
                | Some d \<Rightarrow>
                  if \<not> ins_ok then (Inl (HttpError 500 ''Failed to queue install command''), ps, s)
                  else (Inr cid, set_patch_status pid ''installing'' ps,
                        add_command (new_command cid (pt_device p) cmdType payload now (dv_tenant d)) s)))
        | _ \<Rightarrow> (Inl (HttpError 400 ''Patch missing source/kb_id''), ps, s)))"

text \<open>
  \<open>fireWindow\<close>: the pending patches of the devices in scope. \<open>grp\<close> is \<open>None\<close> for the whole tenant, else
  the members of the group; \<open>ids\<close> are the drawn command ids.
\<close>

definition window_scope :: "string \<Rightarrow> (string \<Rightarrow> bool) option \<Rightarrow> fleet \<Rightarrow> string list" where
  "window_scope tenantID grp s = map dv_id (filter (\<lambda>d. dv_tenant d = tenantID
      \<and> (case grp of None \<Rightarrow> True | Some member \<Rightarrow> member (dv_id d))) (fl_devices s))"

fun fire_patches :: "string \<Rightarrow> unix \<Rightarrow> patch_row list \<Rightarrow> (string \<Rightarrow> string) \<Rightarrow> nat \<Rightarrow> patch_row list \<Rightarrow> fleet
    \<Rightarrow> nat \<times> patch_row list \<times> fleet" where
  "fire_patches tenantID now [] ids n ps s = (n, ps, s)"
| "fire_patches tenantID now (p # pending) ids n ps s =
     (let source = (case pt_source p of None \<Rightarrow> [] | Some x \<Rightarrow> x); kbID = (case pt_kb_id p of None \<Rightarrow> [] | Some x \<Rightarrow> x) in
      if source = [] \<or> kbID = [] then fire_patches tenantID now pending ids n ps s
      else case installCommandFor source kbID of
        None \<Rightarrow> fire_patches tenantID now pending ids n ps s
      | Some (cmdType, payload) \<Rightarrow>
          fire_patches tenantID now pending ids (Suc n) (set_patch_status (pt_id p) ''installing'' ps)
            (add_command (new_command (ids (pt_id p)) (pt_device p) cmdType payload now tenantID) s))"

definition fireWindow ::
  "string \<Rightarrow> (string \<Rightarrow> bool) option \<Rightarrow> unix \<Rightarrow> (string \<Rightarrow> string) \<Rightarrow> patch_row list \<Rightarrow> fleet \<Rightarrow> nat \<times> patch_row list \<times> fleet" where
  "fireWindow tenantID grp now ids ps s =
     (let pending = concat (map (\<lambda>did. filter (\<lambda>p. pt_device p = did \<and> pt_status p = ''pending'' \<and> pt_tenant p = tenantID) ps)
            (window_scope tenantID grp s))
      in fire_patches tenantID now pending ids 0 ps s)"

text \<open>\<open>POST /commands/bulk\<close>: \<open>members\<close> are the devices of the group the caller can see.\<close>

definition allowedBulkCommandTypes :: "string \<Rightarrow> bool" where
  "allowedBulkCommandTypes t = (t = ''shell'' \<or> t = ''script'' \<or> t = ''patch_install'')"

definition maxBulkCommandDevices :: nat where "maxBulkCommandDevices = 1000"

definition bulk_targets ::
  "locals \<Rightarrow> string \<Rightarrow> (string \<Rightarrow> (string \<times> string list) option) \<Rightarrow> string list \<Rightarrow> fleet \<Rightarrow> device_row list option" where
  "bulk_targets c groupID groups deviceIDs s =
     (if groupID \<noteq> [] then
        (case groups groupID of
           None \<Rightarrow> None
         | Some (gt, ms) \<Rightarrow> if \<not> tenant_visible c gt then None
             else Some (filter (\<lambda>d. dv_id d \<in> set ms \<and> dv_tenant d = callerTenantID c) (fl_devices s)))
      else Some (filter (\<lambda>d. dv_id d \<in> set (take maxBulkCommandDevices deviceIDs)
             \<and> (IsSuperAdmin (l_user_role c) \<or> dv_tenant d = callerTenantID c)) (fl_devices s)))"

definition bulk_command ::
  "locals \<Rightarrow> unix \<Rightarrow> (string \<Rightarrow> string) \<Rightarrow> (string \<Rightarrow> (string \<times> string list) option)
    \<Rightarrow> (string \<times> (string \<times> json) list \<times> string \<times> string list) option \<Rightarrow> fleet \<Rightarrow> (http_error, nat \<times> nat) result \<times> fleet" where
  "bulk_command c now ids groups body s =
     (case body of
        None \<Rightarrow> (Inl (HttpError 400 ''Invalid body''), s)
      | Some (ctype, payload, groupID, deviceIDs) \<Rightarrow>
        if \<not> allowedBulkCommandTypes ctype then (Inl (HttpError 400 ''Invalid command type''), s)
        else if groupID = [] \<and> deviceIDs = [] then (Inl (HttpError 400 ''group_id or device_ids required''), s)
        else (case bulk_targets c groupID groups deviceIDs s of
          None \<Rightarrow> (Inl (HttpError 404 ''Group not found''), s)
        | Some ds \<Rightarrow>
          let targets = take maxBulkCommandDevices ds;
              rows = map (\<lambda>d. new_command (ids (dv_id d)) (dv_id d) ctype (JObj payload) now (dv_tenant d)) targets
          in (Inr (length rows, length targets), s\<lparr>fl_commands := rev rows @ fl_commands s\<rparr>)))"

text \<open>\<open>POST /agent/help-request\<close>; \<open>enc_len\<close> is the length of an encoded value.\<close>

definition help_request ::
  "(json \<Rightarrow> nat) \<Rightarrow> locals \<Rightarrow> bool \<Rightarrow> unix \<Rightarrow> string \<Rightarrow> json option \<Rightarrow> fleet \<Rightarrow> (http_error, string) result \<times> fleet" where
  "help_request enc_len c ins_ok now cid body s =
     (case body of
        None \<Rightarrow> (Inl (HttpError 400 ''Invalid request body''), s)
      | Some helpData \<Rightarrow>
        let payload = JObj [(''type'', JStr ''help_request''), (''device_id'', JStr (l_device_id c)),
              (''hostname'', JStr (l_hostname c)), (''timestamp'', JNum (of_int now)), (''details'', helpData)]
        in if enc_len payload > 64 * 1024 then (Inl (HttpError 413 ''help request payload too large (max 64 KiB)''), s)
           else if \<not> ins_ok then (Inl (HttpError 500 ''Failed to store help request''), s)
           else (Inr cid, add_command (new_command cid (l_device_id c) ''help_request'' payload now (or_default (l_tenant_id c))) s))"

section \<open>The agent endpoints\<close>

text \<open>\<open>GET /agent/:hostname/commands\<close>: the decoded payloads of the pending rows, oldest first.\<close>

definition pending_rows :: "string \<Rightarrow> fleet \<Rightarrow> command_row list" where
  "pending_rows did s = sort_key cm_created (filter (\<lambda>r. cm_device r = did \<and> cm_status r = ''pending'') (rev (fl_commands s)))"

definition agent_commands :: "locals \<Rightarrow> string \<Rightarrow> fleet \<Rightarrow> (http_error, command_request list) result" where
  "agent_commands c hostname s =
     (case find_device (\<lambda>d. dv_id d = l_device_id c) s of
        None \<Rightarrow> Inl (HttpError 404 ''Device not found'')
      | Some d \<Rightarrow>
        if dv_host d \<noteq> hostname then Inl (HttpError 403 ''Hostname mismatch'')
        else Inr (List.map_filter (unmarshal_request \<circ> cm_payload) (pending_rows (l_device_id c) s)))"

text \<open>\<open>POST /agent/:hostname/results\<close>.\<close>

definition maxOutputBytes :: nat where "maxOutputBytes = 256 * 1024"

definition apply_result :: "string \<Rightarrow> unix \<Rightarrow> command_result \<Rightarrow> fleet \<Rightarrow> fleet" where
  "apply_result did now r s =
     (let status = (if rs_Success r then ''completed'' else ''failed'');
          output = (if rs_Success r then rs_Output r else rs_Error r);
          output = (if length output > maxOutputBytes then take maxOutputBytes output @ ''...[truncated by server]'' else output)
      in s\<lparr>fl_commands := map (\<lambda>row. if cm_id row = rs_CommandID r \<and> cm_device row = did
             then row\<lparr>cm_status := status, cm_output := Some output, cm_finished := Some now\<rparr> else row) (fl_commands s)\<rparr>)"

definition agent_results ::
  "locals \<Rightarrow> unix \<Rightarrow> command_result list option \<Rightarrow> fleet \<Rightarrow> (http_error, unit) result \<times> fleet" where
  "agent_results c now body s =
     (case body of
        None \<Rightarrow> (Inl (HttpError 400 ''Invalid request body''), s)
      | Some results \<Rightarrow>
        if length results > 1000 then (Inl (HttpError 400 ''too many results in one batch (max 1000)''), s)
        else if l_device_id c = [] then (Inl (HttpError 401 ''agent device unknown''), s)
        else (Inr (), fold (apply_result (l_device_id c) now) results s))"

section \<open>The agent\<close>

definition agent_command_types :: "string \<Rightarrow> bool" where
  "agent_command_types t = (t = ''shell'' \<or> t = ''script'' \<or> t = ''patch_install'')"

definition maxCommandOutputBytes :: nat where "maxCommandOutputBytes = 1048576"

definition truncateOutput :: "string \<Rightarrow> string" where
  "truncateOutput b = (if length b \<le> maxCommandOutputBytes then b
     else take maxCommandOutputBytes b @ CHR 0x0A # ''... (truncated, ''
       @ itoa (int (length b - maxCommandOutputBytes)) @ '' bytes elided)'')"

text \<open>\<open>sh\<close> runs a shell command, \<open>pinst\<close> a patch installation: output and error, a timeout among them.\<close>

definition executeCommand ::
  "(string \<Rightarrow> string \<times> string option) \<Rightarrow> (string \<Rightarrow> string \<Rightarrow> string \<times> string option) \<Rightarrow> command_request \<Rightarrow> command_result" where
  "executeCommand sh pinst cmd =
     (let cmdType = to_lower (cr_Type cmd);
          str = (\<lambda>k. case map_of (rev (cr_Payload cmd)) k of Some (JStr x) \<Rightarrow> x | _ \<Rightarrow> []);
          finish = (\<lambda>(out, err). case err of
              None \<Rightarrow> \<lparr>rs_CommandID = cr_ID cmd, rs_Success = True, rs_Output = truncateOutput out, rs_Error = []\<rparr>
            | Some e \<Rightarrow> \<lparr>rs_CommandID = cr_ID cmd, rs_Success = False, rs_Output = truncateOutput out, rs_Error = e\<rparr>);
          refuse = (\<lambda>e. \<lparr>rs_CommandID = cr_ID cmd, rs_Success = False, rs_Output = [], rs_Error = e\<rparr>)
      in if \<not> agent_command_types cmdType then refuse (''unsupported command type: '' @ cr_Type cmd)
         else if cmdType = ''patch_install'' then finish (pinst (str ''source'') (str ''kb_id''))
         else if str ''command'' = [] then refuse ''empty command''
         else finish (sh (str ''command'')))"

definition MaxCommandHistory :: nat where "MaxCommandHistory = 100"

definition addCommandResult :: "command_result \<Rightarrow> command_result list \<Rightarrow> command_result list" where
  "addCommandResult r hist = (let h = hist @ [r] in
     if length h > MaxCommandHistory then drop (length h - MaxCommandHistory) h else h)"

text \<open>
  The agent decodes the whole response or nothing: \<open>created_at\<close> must be absent, null or a time
  (\<open>is_time\<close>), else the poll fails before anything runs.
\<close>

definition decode_commands :: "(string \<Rightarrow> bool) \<Rightarrow> command_request list \<Rightarrow> command_request list option" where
  "decode_commands is_time cmds =
     (if list_all (\<lambda>r. case cr_CreatedAt r of JNull \<Rightarrow> True | JStr t \<Rightarrow> is_time t | _ \<Rightarrow> False) cmds then Some cmds else None)"

text \<open>One poll against the server: \<open>fetchAndRunCommands\<close>; \<open>sent\<close> says whether the results arrive.\<close>

definition poll ::
  "(string \<Rightarrow> bool) \<Rightarrow> (string \<Rightarrow> string \<times> string option) \<Rightarrow> (string \<Rightarrow> string \<Rightarrow> string \<times> string option) \<Rightarrow> bool \<Rightarrow> locals
    \<Rightarrow> string \<Rightarrow> unix \<Rightarrow> fleet \<Rightarrow> fleet" where
  "poll is_time sh pinst sent c hostname now s =
     (case agent_commands c hostname s of
        Inl _ \<Rightarrow> s
      | Inr cmds \<Rightarrow>
        (case decode_commands is_time cmds of
           None \<Rightarrow> s
         | Some cmds \<Rightarrow>
           if cmds = [] then s
           else if \<not> sent then s
           else snd (agent_results c now (Some (map (executeCommand sh pinst) cmds)) s)))"

section \<open>Waiting for a command\<close>

text \<open>
  \<open>awaitAgentCommand\<close> in milliseconds: \<open>st t\<close> is the row's status and output at time \<open>t\<close> (none: the query
  fails), \<open>cancelled t\<close> says whether the context is done, \<open>delay n\<close> is what the n-th query takes. The
  pauses double from 500 to 4000. The result comes with the number of queries made.
\<close>

definition next_wait :: "nat \<Rightarrow> nat" where
  "next_wait wait = (if wait < 4000 then (if 2 * wait > 4000 then 4000 else 2 * wait) else wait)"

definition pause :: "nat \<Rightarrow> nat" where
  "pause n = (next_wait ^^ n) 500"

lemma next_wait_mono: "500 \<le> w \<Longrightarrow> 500 \<le> next_wait w"
  by (simp add: next_wait_def)

lemma pause_pos: "500 \<le> pause n"
  by (induction n) (simp_all add: pause_def next_wait_mono)

datatype await_error = Await_cancelled | Await_query | Await_timeout "string \<times> string"

function await ::
  "(nat \<Rightarrow> (string \<times> string) option) \<Rightarrow> (nat \<Rightarrow> bool) \<Rightarrow> (nat \<Rightarrow> nat) \<Rightarrow> nat \<Rightarrow> nat \<Rightarrow> nat \<Rightarrow> string \<times> string
    \<Rightarrow> nat \<times> (await_error, string \<times> string) result" where
  "await st cancelled delay deadline n now prev =
     (if now < deadline then
        if cancelled now then (n, Inl Await_cancelled)
        else (case st now of
            None \<Rightarrow> (Suc n, Inl Await_query)
          | Some (status, out) \<Rightarrow>
              if status = ''completed'' \<or> status = ''failed'' then (Suc n, Inr (status, out))
              else await st cancelled delay deadline (Suc n) (now + delay n + pause n) (status, out))
      else (n, Inl (Await_timeout prev)))"
  by pat_completeness auto

termination
  apply (relation "measure (\<lambda>(st, cancelled, delay, deadline, n, now, prev). deadline - now)")
   apply simp
  subgoal for st cancelled delay deadline n now
    using pause_pos [of n] by simp
  done

declare await.simps [simp del]

definition awaitAgentCommand ::
  "(nat \<Rightarrow> (string \<times> string) option) \<Rightarrow> (nat \<Rightarrow> bool) \<Rightarrow> (nat \<Rightarrow> nat) \<Rightarrow> nat \<Rightarrow> nat
    \<Rightarrow> nat \<times> (await_error, string \<times> string) result" where
  "awaitAgentCommand st cancelled delay start timeout = await st cancelled delay (start + timeout) 0 start ([], [])"

section \<open>Lemmas\<close>

subsection \<open>Waiting\<close>

lemma pause_simps: "pause 0 = 500" "pause 1 = 1000" "pause 2 = 2000" "3 \<le> n \<Longrightarrow> pause n = 4000"
proof -
  show "pause 0 = 500" "pause 1 = 1000" "pause 2 = 2000"
    by (simp_all add: pause_def next_wait_def numeral_2_eq_2)
  show "3 \<le> n \<Longrightarrow> pause n = 4000"
  proof (induction n rule: dec_induct)
    case base
    show ?case by (simp add: pause_def next_wait_def numeral_3_eq_3)
  next
    case (step m)
    then show ?case by (simp add: pause_def next_wait_def)
  qed
qed

text \<open>What the short first pauses add to the number of queries, in units of the longest pause.\<close>

definition slack :: "nat \<Rightarrow> nat" where
  "slack n = (if n = 0 then 8500 else if n = 1 then 5000 else if n = 2 then 2000 else 0)"

lemma slack_step: "slack (Suc n) + 4000 = slack n + pause n"
proof -
  consider "n = 0" | "n = 1" | "n = 2" | "3 \<le> n" by linarith
  then show ?thesis by cases (auto simp: slack_def pause_simps pause_simps(2) [unfolded One_nat_def])
qed

lemma await_past: "deadline \<le> now \<Longrightarrow> fst (await st ca delay deadline n now prev) = n"
  by (subst await.simps) simp

lemma await_count:
  "fst (await st ca delay deadline n now prev) \<le> n + (deadline - now + slack n + 3999) div 4000"
proof (induction st ca delay deadline n now prev rule: await.induct)
  case (1 st ca delay deadline n now prev)
  show ?case
  proof (cases "now < deadline \<and> \<not> ca now \<and> (\<exists>status out. st now = Some (status, out) \<and> status \<noteq> ''completed'' \<and> status \<noteq> ''failed'')")
    case False
    then have "fst (await st ca delay deadline n now prev) \<le> Suc n \<and> (now < deadline \<or> fst (await st ca delay deadline n now prev) = n)"
      by (subst (1 2) await.simps) (auto split: option.split prod.split)
    moreover have "1 \<le> (deadline - now + slack n + 3999) div 4000" if "now < deadline" using that by simp
    ultimately show ?thesis by fastforce
  next
    case True
    then obtain status out where st: "now < deadline" "\<not> ca now" "st now = Some (status, out)"
        "status \<noteq> ''completed''" "status \<noteq> ''failed''" by blast
    let ?next = "now + delay n + pause n"
    have eq: "await st ca delay deadline n now prev = await st ca delay deadline (Suc n) ?next (status, out)"
      by (subst await.simps) (simp add: st)
    show ?thesis
    proof (cases "?next < deadline")
      case False
      then have "fst (await st ca delay deadline n now prev) = Suc n" unfolding eq by (simp add: await_past)
      moreover have "1 \<le> (deadline - now + slack n + 3999) div 4000" using st(1) by simp
      ultimately show ?thesis by simp
    next
      case True
      have IH: "fst (await st ca delay deadline (Suc n) ?next (status, out))
          \<le> Suc n + (deadline - ?next + slack (Suc n) + 3999) div 4000"
        using "1.IH" [OF st(1,2,3)] st(4,5) by simp
      have "deadline - ?next + slack (Suc n) + 3999 + 4000 \<le> deadline - now + slack n + 3999"
        using slack_step [of n] True by simp
      then have "(deadline - ?next + slack (Suc n) + 3999 + 4000) div 4000 \<le> (deadline - now + slack n + 3999) div 4000"
        by (rule div_le_mono)
      then show ?thesis using IH unfolding eq by simp
    qed
  qed
qed

lemma await_pending:
  assumes "\<And>t. \<exists>out. st t = Some (''pending'', out)" and "\<And>t. \<not> ca t"
  shows "\<exists>p. snd (await st ca delay deadline n now prev) = Inl (Await_timeout p)
    \<and> fst p = (if now < deadline then ''pending'' else fst prev)"
  using assms
proof (induction st ca delay deadline n now prev rule: await.induct)
  case (1 st ca delay deadline n now prev)
  show ?case
  proof (cases "now < deadline")
    case True
    obtain out where st: "st now = Some (''pending'', out)" using 1(2) by blast
    have "\<exists>p. snd (await st ca delay deadline (Suc n) (now + delay n + pause n) (''pending'', out)) = Inl (Await_timeout p)
        \<and> fst p = ''pending''"
      using 1(1) [OF True 1(3) st refl _ 1(2) 1(3)] by (simp only: if_cancel fst_conv) simp
    then show ?thesis using True 1(3) [of now] by (subst await.simps) (simp add: st)
  next
    case False
    then show ?thesis by (subst await.simps) simp
  qed
qed

subsection \<open>Results\<close>

definition command_core :: "command_row \<Rightarrow> string \<times> string \<times> string \<times> json \<times> unix \<times> string" where
  "command_core r = (cm_id r, cm_device r, cm_type r, cm_payload r, cm_created r, cm_tenant r)"

text \<open>What the results of a device may do to a row.\<close>

definition result_may :: "string \<Rightarrow> command_row \<Rightarrow> command_row \<Rightarrow> bool" where
  "result_may did r r' \<longleftrightarrow> (cm_device r \<noteq> did \<longrightarrow> r' = r) \<and> command_core r' = command_core r
     \<and> (r' = r \<or> cm_status r' \<in> {''completed'', ''failed''}
          \<and> (\<exists>out. cm_output r' = Some out \<and> length out \<le> maxOutputBytes + 24))"

lemma result_may_refl: "result_may did r r"
  by (simp add: result_may_def)

lemma result_may_trans: "result_may did r r1 \<Longrightarrow> result_may did r1 r2 \<Longrightarrow> result_may did r r2"
  by (auto simp: result_may_def command_core_def)

lemma apply_result_may:
  "list_all2 (result_may did) (fl_commands s) (fl_commands (apply_result did now r s))"
  by (auto simp: apply_result_def Let_def list.rel_map result_may_def command_core_def intro!: list.rel_refl)

lemma fold_results_may:
  "list_all2 (result_may did) (fl_commands s) (fl_commands (fold (apply_result did now) rs s))"
proof (induction rs arbitrary: s)
  case Nil
  show ?case by (simp add: list.rel_refl result_may_refl)
next
  case (Cons r rs)
  have "list_all2 (result_may did) (fl_commands (apply_result did now r s)) (fl_commands (fold (apply_result did now) (r # rs) s))"
    using Cons.IH by simp
  with apply_result_may show ?case by (rule list_all2_trans [OF result_may_trans, rotated 2]) 
qed

lemma apply_result_frame [simp]:
  "fl_devices (apply_result did now r s) = fl_devices s" "fl_tags (apply_result did now r s) = fl_tags s"
  by (simp_all add: apply_result_def Let_def)

lemma fold_results_frame: "fl_devices (fold (apply_result did now) rs s) = fl_devices s"
  by (induction rs arbitrary: s) simp_all

lemma apply_result_no_id:
  assumes "rs_CommandID r \<notin> cm_id ` set (fl_commands s)"
  shows "apply_result did now r s = s"
proof -
  have "map (\<lambda>row. if cm_id row = rs_CommandID r \<and> cm_device row = did then f row else row) (fl_commands s) = fl_commands s" for f
    by (rule map_idI) (use assms in \<open>force simp: image_iff\<close>)
  then show ?thesis by (simp add: apply_result_def Let_def)
qed

lemma fold_results_no_id:
  "(\<And>r. r \<in> set rs \<Longrightarrow> rs_CommandID r \<notin> cm_id ` set (fl_commands s)) \<Longrightarrow> fold (apply_result did now) rs s = s"
  by (induction rs) (simp_all add: apply_result_no_id)

lemma executeCommand_id: "rs_CommandID (executeCommand sh pinst q) = cr_ID q"
  by (simp add: executeCommand_def Let_def split: prod.split option.split)

subsection \<open>Rows the agent can do nothing with\<close>

definition stuck_row :: "command_row \<Rightarrow> bool" where
  "stuck_row r \<longleftrightarrow> cm_id r \<noteq> [] \<and> cm_status r = ''pending'' \<and> cm_output r = None
     \<and> (\<forall>q. unmarshal_request (cm_payload r) = Some q \<longrightarrow> cr_ID q = [] \<and> \<not> agent_command_types (to_lower (cr_Type q)))"

lemma poll_stuck:
  assumes "\<forall>r \<in> set (fl_commands s). stuck_row r"
  shows "poll is_time sh pinst sent c hostname now s = s"
proof (cases "agent_commands c hostname s")
  case (Inr cmds)
  have "cr_ID q = []" if "q \<in> set cmds" for q
    using that Inr assms
    by (auto simp: agent_commands_def pending_rows_def List.map_filter_def stuck_row_def split: option.splits if_splits)
  then have "rs_CommandID r \<notin> cm_id ` set (fl_commands s)" if "r \<in> set (map (executeCommand sh pinst) cmds)" for r
    using that assms by (auto simp: executeCommand_id stuck_row_def)
  then have "fold (apply_result (l_device_id c) now) (map (executeCommand sh pinst) cmds) s = s"
    by (rule fold_results_no_id)
  then show ?thesis
    using Inr by (auto simp: poll_def decode_commands_def agent_results_def)
qed (simp add: poll_def)

lemma bare_payloads:
  "unmarshal_request (JObj [(''command'', JStr b)]) = Some \<lparr>cr_ID = [], cr_Type = [], cr_Payload = [], cr_CreatedAt = JNull\<rparr>"
  "unmarshal_request (JObj [(''source'', JStr x), (''kb_id'', JStr y)]) = Some \<lparr>cr_ID = [], cr_Type = [], cr_Payload = [], cr_CreatedAt = JNull\<rparr>"
  "unmarshal_request (JObj [(''type'', JStr ''help_request''), (''device_id'', JStr d), (''hostname'', JStr h), (''timestamp'', JNum t), (''details'', z)])
     = Some \<lparr>cr_ID = [], cr_Type = ''help_request'', cr_Payload = [], cr_CreatedAt = JNull\<rparr>"
  by (simp_all add: field_def to_lower_def lower_char_def Let_def)

lemma ScanDevice_4: "ScanDevice 4 x = None"
  by (simp add: ScanDevice_def scan_columns_def)

text \<open>
  The steps of the channel: everything the server's own code queues, and polls of any agent. Only the
  bulk endpoint, whose payload its caller chooses, is left out.
\<close>

inductive channel_step :: "fleet \<Rightarrow> fleet \<Rightarrow> bool" where
  by_command: "channel_step s (snd (device_command c now cid stamp did body s))"
| by_install: "channel_step s (snd (install_command c now cid stamp did mk s))"
| by_script: "channel_step s (snd (execute_script c now cid stamp scripts did sid s))"
| by_playbook: "cid \<noteq> [] \<Longrightarrow> channel_step s (snd (queueAgentCommand ok now cid t did ty body s))"
| by_patch: "cid \<noteq> [] \<Longrightarrow> channel_step s (snd (snd (install_patch c ok now cid pid ps s)))"
| by_window: "(\<And>p. ids p \<noteq> []) \<Longrightarrow> channel_step s (snd (snd (fireWindow t grp now ids ps s)))"
| by_help: "cid \<noteq> [] \<Longrightarrow> channel_step s (snd (help_request enc_len c ok now cid body s))"
| by_poll: "channel_step s (poll is_time sh pinst sent c hostname now s)"

lemma stuck_new:
  "cid \<noteq> [] \<Longrightarrow> stuck_row (new_command cid did ty (JObj [(''command'', JStr b)]) now t)"
  "cid \<noteq> [] \<Longrightarrow> stuck_row (new_command cid did ty (JObj [(''source'', JStr x), (''kb_id'', JStr y)]) now t)"
  "cid \<noteq> [] \<Longrightarrow> stuck_row (new_command cid did ty (JObj [(''type'', JStr ''help_request''), (''device_id'', JStr d),
      (''hostname'', JStr h), (''timestamp'', JNum ts), (''details'', z)]) now t)"
  using bare_payloads by (simp_all add: stuck_row_def new_command_def agent_command_types_def to_lower_def lower_char_def Let_def)

definition all_stuck :: "fleet \<Rightarrow> bool" where
  "all_stuck s \<longleftrightarrow> (\<forall>r \<in> set (fl_commands s). stuck_row r)"

lemma all_stuck_add: "all_stuck (add_command r s) \<longleftrightarrow> stuck_row r \<and> all_stuck s"
  by (simp add: all_stuck_def add_command_def)

lemma installCommandFor_payload:
  "installCommandFor source kbID = Some (ty, pl) \<Longrightarrow> \<exists>x y. pl = JObj [(''source'', JStr x), (''kb_id'', JStr y)]"
  by (auto simp: installCommandFor_def Let_def split: if_splits)

lemma fire_patches_stuck:
  "\<forall>p. ids p \<noteq> [] \<Longrightarrow> all_stuck s \<Longrightarrow> all_stuck (snd (snd (fire_patches t now pending ids n ps s)))"
proof (induction t now pending ids n ps s rule: fire_patches.induct)
  case (2 t now p pending ids n ps s)
  show ?case
  proof (cases "(case pt_source p of None \<Rightarrow> [] | Some x \<Rightarrow> x) = [] \<or> (case pt_kb_id p of None \<Rightarrow> [] | Some x \<Rightarrow> x) = []")
    case True
    then show ?thesis using 2 by simp
  next
    case False
    then show ?thesis
    proof (cases "installCommandFor (case pt_source p of None \<Rightarrow> [] | Some x \<Rightarrow> x) (case pt_kb_id p of None \<Rightarrow> [] | Some x \<Rightarrow> x)")
      case None
      with False 2 show ?thesis by simp
    next
      case (Some r)
      obtain ty pl where r: "r = (ty, pl)" by (cases r)
      obtain x y where pl: "pl = JObj [(''source'', JStr x), (''kb_id'', JStr y)]"
        using installCommandFor_payload Some r by blast
      have "all_stuck (snd (snd (fire_patches t now pending ids (Suc n) (set_patch_status (pt_id p) ''installing'' ps)
          (add_command (new_command (ids (pt_id p)) (pt_device p) ty pl now t) s))))"
        by (rule "2.IH"(3) [OF refl refl False Some r [symmetric]])
          (use "2.prems" in \<open>simp_all add: all_stuck_add pl stuck_new\<close>)
      then show ?thesis using False Some r by simp
    qed
  qed
qed simp

lemma channel_step_stuck:
  assumes "channel_step s s'" and "all_stuck s"
  shows "all_stuck s'"
  using assms
proof (induction rule: channel_step.induct)
  case (by_command s c now cid stamp did body)
  then show ?case by (auto simp: device_command_def ScanDevice_4 split: option.split)
next
  case (by_install s c now cid stamp did mk)
  then show ?case by (simp add: install_command_def ScanDevice_4)
next
  case (by_script s c now cid stamp scripts did sid)
  then show ?case by (simp add: execute_script_def ScanDevice_4 split: option.split)
next
  case (by_playbook cid s ok now t did ty body)
  then show ?case by (simp add: queueAgentCommand_def all_stuck_add stuck_new)
next
  case (by_patch cid s c ok now pid ps)
  then show ?case
    by (auto simp: install_patch_def all_stuck_add stuck_new split: option.split dest!: installCommandFor_payload)
next
  case (by_window ids s t grp now ps)
  then show ?case by (simp add: fireWindow_def Let_def fire_patches_stuck)
next
  case (by_help cid s enc_len c ok now body)
  then show ?case by (simp add: help_request_def Let_def all_stuck_add stuck_new split: option.split)
next
  case (by_poll s is_time sh pinst sent c hostname now)
  then show ?case using poll_stuck [of s] by (simp add: all_stuck_def)
qed

lemma channel_stuck: "channel_step\<^sup>*\<^sup>* s s' \<Longrightarrow> all_stuck s \<Longrightarrow> all_stuck s'"
  by (induction rule: rtranclp_induct) (auto intro: channel_step_stuck)

section \<open>Properties\<close>

text \<open>
  An agent's results reach its own commands only: a batch changes no row of another device,
  whatever command ids it names, never the payload or identity of a row, sets no status but
  completed or failed, and stores at most 256 KiB of output per row (plus the truncation mark).
\<close>

theorem results_confined:
  "list_all2 (result_may (l_device_id c)) (fl_commands s) (fl_commands (snd (agent_results c now body s)))
   \<and> fl_devices (snd (agent_results c now body s)) = fl_devices s"
  by (auto simp: agent_results_def fold_results_may fold_results_frame list.rel_refl result_may_refl split: option.split)




definition toy_fleet :: fleet where
  "toy_fleet = \<lparr>fl_devices = [toy_device], fl_tags = (\<lambda>_. []), fl_commands = []\<rparr>"


end
