(* ===== verification/AlertDedup.thy ===== *)
theory AlertDedup
  imports Complex_Main AiRun Commands
begin

text \<open>
  The alert deduplication capability (\<open>ai/capabilities/alertdedup.go\<close>): the signature of an alert, the
  prediction of a cluster through the chokepoint, and the write of a cluster by a promoted capability. The prompt and the
  provider's answer to it are a function of provider and model; \<open>decode\<close> is the JSON decoder applied to a struct that
  keeps the fields the text does not set, \<open>enc\<close> the encoder. Text is ASCII.
\<close>

section \<open>The signature\<close>

record alert_context =
  al_TenantID :: string
  al_CustomerID :: string
  al_DeviceID :: string
  al_Severity :: string
  al_Title :: string
  al_Body :: string
  al_Source :: string
  al_OccurredAt :: unix

text \<open>\<open>ReplaceAllString\<close> for a pattern of one or more characters of a class.\<close>

function squash :: "(char \<Rightarrow> bool) \<Rightarrow> string \<Rightarrow> string \<Rightarrow> string" where
  "squash p rep [] = []"
| "squash p rep (c # s) = (if p c then rep @ squash p rep (dropWhile p s) else c # squash p rep s)"
  by pat_completeness auto

termination
  by (relation "measure (\<lambda>(p, rep, s). length s)") (simp_all add: le_imp_less_Suc length_dropWhile_le)

definition re_space :: "char \<Rightarrow> bool" where
  "re_space c = (c = CHR '' '' \<or> c = CHR 0x09 \<or> c = CHR 0x0A \<or> c = CHR 0x0C \<or> c = CHR 0x0D)"

definition alert_body :: "alert_context \<Rightarrow> string" where
  "alert_body a = trim_space (squash re_space '' '' (squash is_digit ''N'' (to_lower (al_Title a @ [CHR 0x0A] @ al_Body a))))"

definition alertSignature :: "ai_world \<Rightarrow> alert_context \<Rightarrow> string" where
  "alertSignature w a = hexEncode (sha256 (rw_prims w) (al_Source a @ ''|'' @ al_Severity a @ ''|'' @ alert_body a))"

section \<open>Clusters\<close>

record alert_cluster =
  ac_ClusterID :: string
  ac_Action :: string
  ac_Signature :: string
  ac_Name :: string
  ac_LikelyCause :: string
  ac_Reason :: string

definition empty_cluster :: alert_cluster where
  "empty_cluster = \<lparr>ac_ClusterID = [], ac_Action = [], ac_Signature = [], ac_Name = [], ac_LikelyCause = [], ac_Reason = []\<rparr>"

record cluster_row =
  tc_id :: string
  tc_tenant :: string
  tc_customer :: "string option"
  tc_sig :: string
  tc_name :: "string option"
  tc_cause :: "string option"
  tc_first :: unix
  tc_last :: unix
  tc_count :: int
  tc_status :: string

definition lookupClusterBySignature :: "string \<Rightarrow> string \<Rightarrow> cluster_row list \<Rightarrow> (string \<times> string) option" where
  "lookupClusterBySignature tenantID sig cs =
     (case List.find (\<lambda>c. tc_tenant c = tenantID \<and> tc_sig c = sig \<and> tc_status c = ''active'') cs of
        None \<Rightarrow> None | Some c \<Rightarrow> Some (tc_id c, case tc_name c of None \<Rightarrow> [] | Some n \<Rightarrow> n))"

definition recentClusters :: "string \<Rightarrow> string \<Rightarrow> nat \<Rightarrow> cluster_row list \<Rightarrow> cluster_row list" where
  "recentClusters tenantID customerID limit cs =
     take limit (sort_key (\<lambda>c. - tc_last c)
       (filter (\<lambda>c. tc_tenant c = tenantID \<and> tc_status c = ''active''
          \<and> (customerID = [] \<or> tc_customer c = Some customerID \<or> tc_customer c = None)) cs))"

definition alertDedupCapName :: string where "alertDedupCapName = ''alert_dedup''"

definition no_promotion :: promotion where
  "no_promotion = \<lparr>pm_PrecisionMin = 0, pm_FalsePositiveRateMax = 0, pm_LabelingRateMin = 0, pm_WeeksCleanRequired = 0, pm_MinSamples = 0\<rparr>"

definition dedup_capability :: capability where
  "dedup_capability = \<lparr>cb_Name = alertDedupCapName, cb_Category = ''observation'',
     cb_Description = ''Group similar alerts into clusters and propose a likely root cause. Shadow mode logs predictions; suggest mode surfaces them in the operator queue; act_low mode auto-creates ticket clusters.'',
     cb_Stage = 1,
     cb_RequiredCaps = \<lparr>cp_Streaming = False, cp_ToolCalling = False, cp_Embeddings = False, cp_JSONMode = True, cp_MaxContext = 0\<rparr>,
     cb_DependsOn = [''device_classification''], cb_DefaultRung = [],
     cb_DefaultScope = no_scope, cb_DefaultPromotion = no_promotion,
     cb_PreferredTaskType = ''classify''\<rparr>"

section \<open>The prediction\<close>

definition dedup_input :: "alert_context \<Rightarrow> int \<Rightarrow> input" where
  "dedup_input a estimate = \<lparr>in_TenantID = al_TenantID a, in_CapabilityID = alertDedupCapName, in_CustomerID = al_CustomerID a,
     in_DeviceID = al_DeviceID a, in_TicketID = [], in_RunType = RunTypeChat, in_Devices = [], in_Estimate = estimate, in_Chain = []\<rparr>"

text \<open>What the closure makes of the model's answer.\<close>

definition settle_prediction :: "(string \<Rightarrow> alert_cluster \<Rightarrow> alert_cluster) \<Rightarrow> string \<Rightarrow> string \<Rightarrow> alert_cluster" where
  "settle_prediction decode sig content =
     (let p = decode content (empty_cluster\<lparr>ac_Signature := sig\<rparr>);
          p = (if ac_Action p \<noteq> ''join_existing'' \<and> ac_Action p \<noteq> ''open_new'' then p\<lparr>ac_Action := ''open_new''\<rparr> else p);
          p = (if ac_Action p = ''open_new'' then p\<lparr>ac_ClusterID := []\<rparr> else p)
      in p\<lparr>ac_Signature := sig\<rparr>)"

definition synthetic :: "string \<Rightarrow> string \<Rightarrow> chat_response" where
  "synthetic content source = \<lparr>ch_Content = content, ch_PromptTokens = 0, ch_OutputTokens = 0, ch_ModelVersion = ''local'',
     ch_Synthetic = True, ch_SyntheticSource = source\<rparr>"

datatype dedup_error = Empty_tenant | Run_failed ai_error

definition PredictAlertCluster ::
  "ai_world \<Rightarrow> bool \<Rightarrow> string \<Rightarrow> (provider \<Rightarrow> string \<Rightarrow> (string, chat_response) result) \<Rightarrow> (string \<Rightarrow> alert_cluster \<Rightarrow> alert_cluster)
    \<Rightarrow> (alert_cluster \<Rightarrow> string) \<Rightarrow> alert_context \<Rightarrow> cluster_row list \<Rightarrow> ai_state \<Rightarrow> (dedup_error, alert_cluster) result \<times> ai_state" where
  "PredictAlertCluster w lookup_ok runID chat decode enc a cs s =
     (if al_TenantID a = [] then (Inl Empty_tenant, s)
      else let sig = alertSignature w a in
      case (case (if lookup_ok then lookupClusterBySignature (al_TenantID a) sig cs else None) of
              Some (i, n) \<Rightarrow> if i \<noteq> [] then Some (i, n) else None | None \<Rightarrow> None) of
        Some (existingID, existingName) \<Rightarrow>
          let c = \<lparr>ac_ClusterID = existingID, ac_Action = ''join_existing'', ac_Signature = sig, ac_Name = existingName,
                   ac_LikelyCause = [], ac_Reason = ''signature exact-match against active cluster''\<rparr>
          in (case Run w runID (dedup_input a 0)
                (\<lambda>_ _. Called (Some (synthetic (enc c) ''alert_dedup_exact_match'')) None (enc c) None) s of
                (Inl e, s) \<Rightarrow> (Inl (Run_failed e), s)
              | (Inr _, s) \<Rightarrow> (Inr (c\<lparr>ac_Reason := ''signature exact-match''\<rparr>), s))
      | None \<Rightarrow>
          (case Run w runID (dedup_input a 2000)
             (\<lambda>p m. case chat p m of Inl e \<Rightarrow> Called None None [] (Some e)
                | Inr resp \<Rightarrow> Called (Some resp) None (enc (settle_prediction decode sig (ch_Content resp))) None) s of
             (Inl e, s) \<Rightarrow> (Inl (Run_failed e), s)
           | (Inr out, s) \<Rightarrow> (Inr (case ro_ChatResp out of
                None \<Rightarrow> empty_cluster\<lparr>ac_Signature := sig\<rparr>
              | Some resp \<Rightarrow> settle_prediction decode sig (ch_Content resp)), s)))"

section \<open>Writing a cluster\<close>

text \<open>The upsert on tenant and signature; \<open>newID\<close> is the drawn id, which is the result in both cases.\<close>

definition CreateClusterIfPromoted ::
  "bool \<Rightarrow> unix \<Rightarrow> string \<Rightarrow> alert_context \<Rightarrow> alert_cluster \<Rightarrow> string \<Rightarrow> cluster_row list \<Rightarrow> string option \<times> cluster_row list" where
  "CreateClusterIfPromoted ins_ok now newID a pred status cs =
     (if ac_Action pred \<noteq> ''open_new'' then (Some (ac_ClusterID pred), cs)
      else if \<not> ins_ok then (None, cs)
      else if list_ex (\<lambda>c. tc_tenant c = al_TenantID a \<and> tc_sig c = ac_Signature pred) cs
      then (Some newID, map (\<lambda>c. if tc_tenant c = al_TenantID a \<and> tc_sig c = ac_Signature pred
              then c\<lparr>tc_last := now, tc_count := tc_count c + 1\<rparr> else c) cs)
      else (Some newID, \<lparr>tc_id = newID, tc_tenant = al_TenantID a, tc_customer = nullable (al_CustomerID a), tc_sig = ac_Signature pred,
              tc_name = nullable (SanitizeFreeText (ac_Name pred)), tc_cause = nullable (SanitizeFreeText (ac_LikelyCause pred)),
              tc_first = now, tc_last = now, tc_count = 1, tc_status = status\<rparr> # cs))"

section \<open>Lemmas\<close>

lemma squash_class: "s \<noteq> [] \<Longrightarrow> list_all p s \<Longrightarrow> squash p rep (s @ t) = rep @ squash p rep (dropWhile p t)"
  by (cases s) (simp_all add: list_all_iff)

lemma dropWhile_class: "list_all p d \<Longrightarrow> dropWhile p (d @ t) = dropWhile p t"
  by (simp add: list_all_iff)

text \<open>Two non-empty runs of the class are indistinguishable, wherever they stand.\<close>

lemma squash_run:
  assumes "d \<noteq> []" and "list_all p d" and "e \<noteq> []" and "list_all p e"
  shows "squash p rep (s @ d @ t) = squash p rep (s @ e @ t)"
proof (induction "length s" arbitrary: s rule: less_induct)
  case less
  show ?case
  proof (cases s)
    case Nil
    then show ?thesis using assms by (simp add: squash_class)
  next
    case (Cons c s')
    show ?thesis
    proof (cases "p c")
      case False
      then show ?thesis using less [of s'] Cons by simp
    next
      case True
      show ?thesis
      proof (cases "list_all p s'")
        case all: True
        then show ?thesis using Cons True assms by (simp add: dropWhile_class)
      next
        case False
        then obtain x where "x \<in> set s'" "\<not> p x" by (auto simp: list_all_iff)
        then have "dropWhile p (s' @ y) = dropWhile p s' @ y" for y by (rule dropWhile_append1)
        moreover have "length (dropWhile p s') < length s" using Cons by (simp add: le_imp_less_Suc length_dropWhile_le)
        ultimately show ?thesis using less [of "dropWhile p s'"] Cons True by simp
      qed
    qed
  qed
qed

lemma lower_digits: "list_all is_digit d \<Longrightarrow> map lower_char d = d"
  by (induction d) (auto simp: lower_char_def is_digit_def Let_def less_eq_char_def)

lemma alert_body_numbers:
  assumes "d \<noteq> []" and "list_all is_digit d" and "e \<noteq> []" and "list_all is_digit e"
  shows "alert_body (a\<lparr>al_Body := pre @ d @ post\<rparr>) = alert_body (a\<lparr>al_Body := pre @ e @ post\<rparr>)"
  using squash_run [OF assms, of "''N''" "map lower_char (al_Title a @ [CHR 0x0A] @ pre)" "map lower_char post"]
    lower_digits [OF assms(2)] lower_digits [OF assms(4)]
  by (simp add: alert_body_def to_lower_def)

section \<open>Properties\<close>

text \<open>
  Two alerts of one source and severity that differ in a number of their body have the same signature, and once an
  active cluster carries it the second joins that cluster whatever the model would say: the provider's answer has no
  influence, and the run differs from that of the first alert in nothing.
\<close>

theorem alert_numbers_share_cluster:
  assumes "d \<noteq> []" and "list_all is_digit d" and "e \<noteq> []" and "list_all is_digit e"
    and "al_TenantID a \<noteq> []" and "lookupClusterBySignature (al_TenantID a) (alertSignature w (a\<lparr>al_Body := pre @ d @ post\<rparr>)) cs = Some (cid, name)"
    and "cid \<noteq> []"
  shows "alertSignature w (a\<lparr>al_Body := pre @ e @ post\<rparr>) = alertSignature w (a\<lparr>al_Body := pre @ d @ post\<rparr>)
    \<and> PredictAlertCluster w True runID chat decode enc (a\<lparr>al_Body := pre @ e @ post\<rparr>) cs s
        = PredictAlertCluster w True runID chat' decode' enc (a\<lparr>al_Body := pre @ d @ post\<rparr>) cs s
    \<and> (case fst (PredictAlertCluster w True runID chat decode enc (a\<lparr>al_Body := pre @ e @ post\<rparr>) cs s) of
        Inl err \<Rightarrow> True | Inr c \<Rightarrow> ac_ClusterID c = cid \<and> ac_Action c = ''join_existing'')"
proof -
  have sig: "alertSignature w (a\<lparr>al_Body := pre @ e @ post\<rparr>) = alertSignature w (a\<lparr>al_Body := pre @ d @ post\<rparr>)"
    by (simp add: alertSignature_def alert_body_numbers [OF assms(1-4)])
  have inp: "dedup_input (a\<lparr>al_Body := x\<rparr>) n = dedup_input a n" for x n
    by (simp add: dedup_input_def)
  show ?thesis
    using assms(5-7) by (simp add: PredictAlertCluster_def sig inp Let_def split: prod.split sum.split)
qed

definition toy_alert :: alert_context where
  "toy_alert = \<lparr>al_TenantID = ''t1'', al_CustomerID = [], al_DeviceID = ''d1'', al_Severity = ''warning'', al_Title = ''Service down'',
     al_Body = [], al_Source = ''rule:x'', al_OccurredAt = 0\<rparr>"

lemma alert_numbers_share_cluster_witness:
  "alertSignature toy_ai_world (toy_alert\<lparr>al_Body := ''pid '' @ ''4711'' @ '' died''\<rparr>)
     = alertSignature toy_ai_world (toy_alert\<lparr>al_Body := ''pid '' @ ''7'' @ '' died''\<rparr>)"
proof -
  let ?sig = "alertSignature toy_ai_world (toy_alert\<lparr>al_Body := ''pid '' @ ''7'' @ '' died''\<rparr>)"
  let ?row = "\<lparr>tc_id = ''k1'', tc_tenant = ''t1'', tc_customer = None, tc_sig = ?sig, tc_name = None, tc_cause = None,
      tc_first = 0, tc_last = 0, tc_count = 1, tc_status = ''active''\<rparr>"
  have "lookupClusterBySignature (al_TenantID toy_alert) ?sig [?row] = Some (''k1'', [])"
    by (simp add: lookupClusterBySignature_def toy_alert_def)
  then show ?thesis
    using alert_numbers_share_cluster [of "''7''" "''4711''" toy_alert toy_ai_world "''pid ''" "'' died''" "[?row]" "''k1''" "[]"]
    by (simp add: is_digit_def less_eq_char_def) (simp add: toy_alert_def)
qed

text \<open>On a conflict the upsert keeps the row's id, but the drawn one is what the caller gets.\<close>

lemma conflict_returns_unknown_id:
  assumes "c \<in> set cs" and "tc_tenant c = al_TenantID a" and "tc_sig c = ac_Signature pred" and "newID \<notin> tc_id ` set cs"
    and "ac_Action pred = ''open_new''"
  shows "fst (CreateClusterIfPromoted True now newID a pred status cs) = Some newID
    \<and> newID \<notin> tc_id ` set (snd (CreateClusterIfPromoted True now newID a pred status cs))"
proof -
  have "list_ex (\<lambda>c. tc_tenant c = al_TenantID a \<and> tc_sig c = ac_Signature pred) cs"
    using assms(1-3) by (auto simp: list_ex_iff)
  then show ?thesis using assms(4,5) by (auto simp: CreateClusterIfPromoted_def image_image split: if_splits)
qed

end
