(* ===== verification/Playbooks.thy ===== *)
theory Playbooks
  imports Complex_Main AiRegistry Commands
begin

text \<open>
  The remediation playbooks of \<open>internal/ai/playbooks\<close>: the registry and the severity gate (\<open>playbook.go\<close>),
  and the four playbooks with their command templates. A playbook acts through the command channel only: it
  queues an agent command and waits for it. What happens to the fleet meanwhile is a field of the world,
  the fleet some milliseconds after a state; the effects written here are the playbook's own.
\<close>

section \<open>Types\<close>

record target =
  tg_TenantID :: string
  tg_CustomerID :: string
  tg_DeviceID :: string
  tg_OSClass :: string
  tg_Tags :: "string list"

record plan_result =
  pr_Description :: string
  pr_Steps :: "string list"
  pr_WillModify :: "string list"
  pr_RollbackOK :: bool

text \<open>\<open>ApplyResult\<close>; the rollback window in seconds.\<close>

record applied =
  ar_Success :: bool
  ar_Detail :: string
  ar_RollbackToken :: string
  ar_RollbackPreconditions :: string
  ar_RollbackWindow :: nat

definition no_apply :: applied where
  "no_apply = \<lparr>ar_Success = False, ar_Detail = [], ar_RollbackToken = [], ar_RollbackPreconditions = [], ar_RollbackWindow = 0\<rparr>"

definition failed_apply :: "string \<Rightarrow> applied" where
  "failed_apply d = no_apply\<lparr>ar_Detail := d\<rparr>"

datatype pb_error = PreconditionsNotMet | ArgMissing string | ArgNotString string | ArgUnsafe
  | Unsupported string | NotQueued queue_error | TimedOut await_error | AgentStatus string "await_error option"

type_synonym pb_args = "(string \<times> json) list"

record pb_world =
  pw_now :: unix
  pw_ids :: "nat \<Rightarrow> string"
  pw_ins_ok :: "nat \<Rightarrow> bool"
  pw_hist :: "fleet \<Rightarrow> nat \<Rightarrow> fleet"
  pw_cancelled :: "nat \<Rightarrow> bool"
  pw_delay :: "nat \<Rightarrow> nat"
  pw_err :: "await_error \<Rightarrow> string"

record playbook =
  pb_Name :: string
  pb_Description :: string
  pb_Severity :: string
  pb_AppliesTo :: "target \<Rightarrow> bool"
  pb_Plan :: "target \<Rightarrow> pb_args \<Rightarrow> (pb_error, plan_result) result"
  pb_Apply :: "pb_world \<Rightarrow> target \<Rightarrow> pb_args \<Rightarrow> fleet \<Rightarrow> (pb_error option \<times> applied) \<times> fleet"
  pb_Rollback :: "pb_world \<Rightarrow> target \<Rightarrow> string \<Rightarrow> fleet \<Rightarrow> pb_error option \<times> fleet"

section \<open>The registry\<close>

type_synonym pb_registry = "(string \<times> playbook) list"

definition RegisterPlaybook :: "playbook option \<Rightarrow> pb_registry \<Rightarrow> (string, pb_registry) result" where
  "RegisterPlaybook p pbs =
     (case p of
        None \<Rightarrow> Inl ''playbooks: Register(nil)''
      | Some p \<Rightarrow> if map_of pbs (pb_Name p) \<noteq> None then Inl (''playbooks: duplicate registration: '' @ pb_Name p)
          else Inr ((pb_Name p, p) # pbs))"

definition LookupPlaybook :: "pb_registry \<Rightarrow> string \<Rightarrow> playbook option" where
  "LookupPlaybook pbs name = map_of pbs name"

definition AllPlaybooks :: "pb_registry \<Rightarrow> playbook list" where
  "AllPlaybooks pbs = sort_key pb_Name (map snd pbs)"

definition CandidatesFor :: "pb_registry \<Rightarrow> target \<Rightarrow> playbook list" where
  "CandidatesFor pbs t = filter (\<lambda>p. pb_AppliesTo p t) (AllPlaybooks pbs)"

interpretation pb_reg: listed_registry pb_Name "\<lambda>p. p" "\<lambda>_. True" "\<lambda>p. RegisterPlaybook (Some p)" LookupPlaybook "[]"
  "keyed_inv pb_Name" AllPlaybooks
proof unfold_locales
  fix s e s'
  assume "keyed_inv pb_Name s" and "RegisterPlaybook (Some e) s = Inr s'"
  then show "keyed_inv pb_Name s'"
    by (auto simp: keyed_inv_def RegisterPlaybook_def map_of_eq_None_iff split: if_splits)
qed (auto simp: RegisterPlaybook_def LookupPlaybook_def AllPlaybooks_def keyed_listing keyed_inv_def fun_eq_iff
      simp del: set_sort)

section \<open>The severity gate\<close>

text \<open>The package repeats \<open>rungAtLeast\<close> of \<open>tools.go\<close>.\<close>

definition pb_rungAtLeast :: "rung \<Rightarrow> rung \<Rightarrow> bool" where
  "pb_rungAtLeast actual required =
     (let order = [RungShadow \<mapsto> 0, RungSuggest \<mapsto> 1, RungActLow \<mapsto> 2, RungActPolicy \<mapsto> 3, RungAutonomous \<mapsto> 4 :: int];
          pos = (\<lambda>r. case order r of None \<Rightarrow> 0 | Some n \<Rightarrow> n)
      in pos actual \<ge> pos required)"

datatype gate_error = UnknownSeverity string | RequiresRung string rung rung

definition SeverityForRung :: "string \<Rightarrow> rung \<Rightarrow> (gate_error, unit) result" where
  "SeverityForRung sev r =
     (case [''low'' \<mapsto> RungActLow, ''medium'' \<mapsto> RungActLow, ''high'' \<mapsto> RungActPolicy, ''critical'' \<mapsto> RungAutonomous] sev of
        None \<Rightarrow> Inl (UnknownSeverity sev)
      | Some m \<Rightarrow> if \<not> pb_rungAtLeast r m then Inl (RequiresRung sev m r) else Inr ())"

section \<open>Queueing and waiting\<close>

definition issue :: "pb_world \<Rightarrow> nat \<Rightarrow> target \<Rightarrow> string \<Rightarrow> string \<Rightarrow> fleet \<Rightarrow> (queue_error, string) result \<times> fleet" where
  "issue w i t cmdType body s =
     queueAgentCommand (pw_ins_ok w i) (pw_now w) (pw_ids w i) (tg_TenantID t) (tg_DeviceID t) cmdType body s"

definition row_status :: "string \<Rightarrow> fleet \<Rightarrow> (string \<times> string) option" where
  "row_status cid s = (case List.find (\<lambda>r. cm_id r = cid) (fl_commands s) of
     None \<Rightarrow> None | Some r \<Rightarrow> Some (cm_status r, case cm_output r of None \<Rightarrow> [] | Some x \<Rightarrow> x))"

text \<open>When a wait that made \<open>n\<close> queries returns: after its last query, or after a pause when it gave up.\<close>

definition wait_end :: "(nat \<Rightarrow> nat) \<Rightarrow> nat \<times> (await_error, string \<times> string) result \<Rightarrow> nat" where
  "wait_end delay r = (case r of
       (n, Inl Await_cancelled) \<Rightarrow> (\<Sum>i<n. delay i + pause i)
     | (n, Inl (Await_timeout _)) \<Rightarrow> (\<Sum>i<n. delay i + pause i)
     | (n, _) \<Rightarrow> (\<Sum>i<n - 1. delay i + pause i) + delay (n - 1))"

definition watch :: "pb_world \<Rightarrow> string \<Rightarrow> nat \<Rightarrow> fleet \<Rightarrow> (await_error, string \<times> string) result \<times> fleet" where
  "watch w cid timeout s =
     (let r = awaitAgentCommand (\<lambda>t. row_status cid (pw_hist w s t)) (pw_cancelled w) (pw_delay w) 0 timeout
      in (snd r, pw_hist w s (wait_end (pw_delay w) r)))"

definition truncate :: "string \<Rightarrow> nat \<Rightarrow> string" where
  "truncate s n = (if length s \<le> n then s else take n s @ ''...[truncated]'')"

definition last_output :: "await_error \<Rightarrow> string \<times> string" where
  "last_output e = (case e of Await_timeout p \<Rightarrow> p | _ \<Rightarrow> ([], []))"

definition isWindows :: "string \<Rightarrow> bool" where
  "isWindows osClass = (osClass = ''windows-server'' \<or> osClass = ''windows-workstation'')"

definition isLinux :: "string \<Rightarrow> bool" where
  "isLinux osClass = (osClass = ''linux-server'' \<or> osClass = ''linux-workstation'')"

section \<open>restart_service\<close>

text \<open>The bytes of multi-byte characters are none of the accepted ones.\<close>

definition between :: "char \<Rightarrow> char \<Rightarrow> char \<Rightarrow> bool" where
  "between lo r hi = (lo \<le> r \<and> r \<le> hi)"

definition safe_char :: "char \<Rightarrow> bool" where
  "safe_char r = (between CHR ''a'' r CHR ''z'' \<or> between CHR ''A'' r CHR ''Z'' \<or> between CHR ''0'' r CHR ''9''
     \<or> r = CHR ''-'' \<or> r = CHR ''_'' \<or> r = CHR ''.'' \<or> r = CHR ''@'')"

definition looksSafeServiceName :: "string \<Rightarrow> bool" where
  "looksSafeServiceName s = (if length s = 0 \<or> length s > 128 then False else list_all safe_char s)"

definition stringArg :: "pb_args \<Rightarrow> string \<Rightarrow> (pb_error, string) result" where
  "stringArg m k =
     (case map_of (rev m) k of
        None \<Rightarrow> Inl (ArgMissing k)
      | Some v \<Rightarrow> (case v of
          JStr s \<Rightarrow> if s = [] then Inl (ArgNotString k)
                   else if \<not> looksSafeServiceName s then Inl ArgUnsafe else Inr s
        | _ \<Rightarrow> Inl (ArgNotString k)))"

definition buildRestartCommand :: "string \<Rightarrow> string \<Rightarrow> string \<times> string" where
  "buildRestartCommand osClass svc =
     (if isLinux osClass then (''systemctl restart '' @ svc, ''shell'')
      else if isWindows osClass then (''Restart-Service -Name '' @ svc @ '' -Force'', ''powershell'')
      else ([], ''shell''))"

definition buildServiceStateCommand :: "string \<Rightarrow> string \<Rightarrow> string \<times> string" where
  "buildServiceStateCommand osClass svc =
     (if isLinux osClass then (''systemctl is-active '' @ svc, ''shell'')
      else if isWindows osClass then (''(Get-Service -Name '' @ svc @ '').Status'', ''powershell'')
      else ([], ''shell''))"

definition buildStopCommand :: "string \<Rightarrow> string \<Rightarrow> string \<times> string" where
  "buildStopCommand osClass svc =
     (if isLinux osClass then (''systemctl stop '' @ svc, ''shell'')
      else if isWindows osClass then (''Stop-Service -Name '' @ svc @ '' -Force'', ''powershell'')
      else ([], ''shell''))"

definition lowerTrim :: "string \<Rightarrow> string" where
  "lowerTrim s = map lower_char (filter (\<lambda>r. \<not> (r = CHR '' '' \<or> r = CHR 0x09 \<or> r = CHR 0x0D \<or> r = CHR 0x0A)) s)"

definition serviceLooksRunning :: "string \<Rightarrow> string \<Rightarrow> bool" where
  "serviceLooksRunning osClass output =
     (let out = lowerTrim output in
      if isLinux osClass then out = ''active'' else if isWindows osClass then out = ''running'' else False)"

definition excluded :: "string list \<Rightarrow> target \<Rightarrow> bool" where
  "excluded bad t = list_ex (\<lambda>tag. tag \<in> set bad) (tg_Tags t)"

definition protected_tags :: "string list" where
  "protected_tags = [''regulated'', ''critical'', ''domain_controller'', ''file_server'', ''hypervisor'']"

definition restart_applies :: "target \<Rightarrow> bool" where
  "restart_applies t = (\<not> excluded protected_tags t \<and> (isLinux (tg_OSClass t) \<or> isWindows (tg_OSClass t)))"

definition restart_plan :: "target \<Rightarrow> pb_args \<Rightarrow> (pb_error, plan_result) result" where
  "restart_plan t args = (case stringArg args ''service'' of Inl e \<Rightarrow> Inl e | Inr svc \<Rightarrow>
     Inr \<lparr>pr_Description = ''Restart '' @ svc @ '' on '' @ tg_DeviceID t, pr_Steps = [fst (buildRestartCommand (tg_OSClass t) svc)],
          pr_WillModify = [''service:'' @ svc], pr_RollbackOK = True\<rparr>)"

definition restart_apply :: "pb_world \<Rightarrow> target \<Rightarrow> pb_args \<Rightarrow> fleet \<Rightarrow> (pb_error option \<times> applied) \<times> fleet" where
  "restart_apply w t args s =
     (case stringArg args ''service'' of Inl e \<Rightarrow> ((Some e, no_apply), s) | Inr svc \<Rightarrow>
      (case buildRestartCommand (tg_OSClass t) svc of (cmd, cmdType) \<Rightarrow>
      (case issue w 0 t cmdType cmd s of
         (Inl e, s) \<Rightarrow> ((Some (NotQueued e), no_apply), s)
       | (Inr cid, s) \<Rightarrow>
         (case watch w cid 70000 s of
            (Inl e, s) \<Rightarrow> ((Some (TimedOut e), failed_apply (''command timed out: '' @ pw_err w e)), s)
          | (Inr (status, output), s) \<Rightarrow>
              if status \<noteq> ''completed''
              then ((Some (AgentStatus status None), failed_apply (''agent reported failure: '' @ truncate output 200)), s)
              else ((None, \<lparr>ar_Success = True, ar_Detail = ''service restarted via agent command '' @ cid, ar_RollbackToken = svc,
                ar_RollbackPreconditions = ''service '' @ svc @ '' is currently running and was last started by Vaporware RMM'',
                ar_RollbackWindow = 300\<rparr>), s)))))"

definition restart_rollback :: "pb_world \<Rightarrow> target \<Rightarrow> string \<Rightarrow> fleet \<Rightarrow> pb_error option \<times> fleet" where
  "restart_rollback w t token s =
     (if token = [] then (Some PreconditionsNotMet, s)
      else case buildServiceStateCommand (tg_OSClass t) token of (stateCmd, cmdType) \<Rightarrow>
      (case issue w 0 t cmdType stateCmd s of
         (Inl e, s) \<Rightarrow> (Some (NotQueued e), s)
       | (Inr cid, s) \<Rightarrow>
         (case watch w cid 30000 s of
            (Inl _, s) \<Rightarrow> (Some PreconditionsNotMet, s)
          | (Inr (status, output), s) \<Rightarrow>
              if status \<noteq> ''completed'' then (Some PreconditionsNotMet, s)
              else if \<not> serviceLooksRunning (tg_OSClass t) output then (Some PreconditionsNotMet, s)
              else (case issue w 1 t cmdType (fst (buildStopCommand (tg_OSClass t) token)) s of
                      (Inl e, s) \<Rightarrow> (Some (NotQueued e), s) | (Inr _, s) \<Rightarrow> (None, s)))))"

definition restartService :: playbook where
  "restartService = \<lparr>pb_Name = ''restart_service'',
     pb_Description = ''Restart a single service on a single device. Idempotent. Rollback stops the service if it was previously stopped.'',
     pb_Severity = ''low'', pb_AppliesTo = restart_applies, pb_Plan = restart_plan, pb_Apply = restart_apply, pb_Rollback = restart_rollback\<rparr>"

section \<open>The playbooks that run a fixed script\<close>

text \<open>
  What the three other \<open>Apply\<close> methods end with: queue, wait, report. \<open>n\<close> is the length to which the
  agent's output is cut, \<open>done\<close> the result of a completed command.
\<close>

definition queue_and_wait ::
  "pb_world \<Rightarrow> target \<Rightarrow> string \<Rightarrow> string \<Rightarrow> nat \<Rightarrow> nat \<Rightarrow> (string \<Rightarrow> applied) \<Rightarrow> fleet \<Rightarrow> (pb_error option \<times> applied) \<times> fleet" where
  "queue_and_wait w t cmdType body timeout n success s =
     (case issue w 0 t cmdType body s of
        (Inl e, s) \<Rightarrow> ((Some (NotQueued e), no_apply), s)
      | (Inr cid, s) \<Rightarrow>
        (case watch w cid timeout s of
           (Inl e, s) \<Rightarrow> ((Some (AgentStatus (fst (last_output e)) (Some e)),
               failed_apply (''agent reported failure: '' @ truncate (snd (last_output e)) n)), s)
         | (Inr (status, output), s) \<Rightarrow>
             if status \<noteq> ''completed''
             then ((Some (AgentStatus status None), failed_apply (''agent reported failure: '' @ truncate output n)), s)
             else ((None, success cid), s)))"

text \<open>A finished action that nothing can take back.\<close>

definition irreversible :: "string \<Rightarrow> string \<Rightarrow> string \<Rightarrow> applied" where
  "irreversible detail why cid =
     \<lparr>ar_Success = True, ar_Detail = detail @ cid, ar_RollbackToken = [], ar_RollbackPreconditions = why, ar_RollbackWindow = 0\<rparr>"

fun joinFrom :: "string \<Rightarrow> nat \<Rightarrow> string list \<Rightarrow> string \<Rightarrow> string" where
  "joinFrom sep i [] out = out"
| "joinFrom sep i (c # cmds) out = joinFrom sep (Suc i) cmds (if i > 0 then out @ sep @ c else out @ c)"

definition joinWith :: "string list \<Rightarrow> string \<Rightarrow> string" where
  "joinWith cmds sep = joinFrom sep 0 cmds []"

definition joinCommands :: "string list \<Rightarrow> string \<Rightarrow> string" where
  "joinCommands cmds osClass = (if isWindows osClass then joinWith cmds ''; '' else joinWith cmds '' && '')"

definition script_type :: "string \<Rightarrow> string" where
  "script_type osClass = (if isWindows osClass then ''powershell'' else ''shell'')"

text \<open>\<open>clear_print_spooler\<close>.\<close>

definition buildSpoolerCommands :: "string \<Rightarrow> string list" where
  "buildSpoolerCommands osClass =
     (if isWindows osClass then
        [''Get-Printer | ForEach-Object { Get-PrintJob -PrinterName $_.Name | Remove-PrintJob -ErrorAction SilentlyContinue }'',
         ''Restart-Service -Name Spooler -Force'']
      else if isLinux osClass then [''cancel -a -u root || true'', ''systemctl restart cups'']
      else [])"

definition spooler_applies :: "target \<Rightarrow> bool" where
  "spooler_applies t = (\<not> excluded (protected_tags @ [''print_server'']) t \<and> (isWindows (tg_OSClass t) \<or> isLinux (tg_OSClass t)))"

definition spooler_plan :: "target \<Rightarrow> pb_args \<Rightarrow> (pb_error, plan_result) result" where
  "spooler_plan t args = Inr \<lparr>pr_Description = ''Cancel queued print jobs + restart the print spooler'',
     pr_Steps = buildSpoolerCommands (tg_OSClass t), pr_WillModify = [''service:spooler'', ''queued print jobs''], pr_RollbackOK = False\<rparr>"

definition spooler_apply :: "pb_world \<Rightarrow> target \<Rightarrow> pb_args \<Rightarrow> fleet \<Rightarrow> (pb_error option \<times> applied) \<times> fleet" where
  "spooler_apply w t args s =
     (let cmds = buildSpoolerCommands (tg_OSClass t) in
      if cmds = [] then ((Some (Unsupported (tg_OSClass t)), failed_apply ''unsupported os_class''), s)
      else queue_and_wait w t (script_type (tg_OSClass t)) (joinCommands cmds (tg_OSClass t)) 70000 200
             (irreversible ''spooler cleared via agent command '' ''deleted print jobs are not recoverable'') s)"

definition spooler_rollback :: "pb_world \<Rightarrow> target \<Rightarrow> string \<Rightarrow> fleet \<Rightarrow> pb_error option \<times> fleet" where
  "spooler_rollback w t token s =
     (case buildServiceStateCommand (tg_OSClass t) (if isLinux (tg_OSClass t) then ''cups'' else ''spooler'') of (stateCmd, cmdType) \<Rightarrow>
      (case issue w 0 t cmdType stateCmd s of
         (Inl e, s) \<Rightarrow> (Some (NotQueued e), s)
       | (Inr cid, s) \<Rightarrow> (Some PreconditionsNotMet, snd (watch w cid 30000 s))))"

definition clearPrintSpooler :: playbook where
  "clearPrintSpooler = \<lparr>pb_Name = ''clear_print_spooler'',
     pb_Description = ''Cancel queued print jobs + restart the print spooler service. Idempotent (no jobs = no-op delete).'',
     pb_Severity = ''low'', pb_AppliesTo = spooler_applies, pb_Plan = spooler_plan, pb_Apply = spooler_apply, pb_Rollback = spooler_rollback\<rparr>"

text \<open>\<open>force_gpupdate\<close>.\<close>

definition gpupdate_applies :: "target \<Rightarrow> bool" where
  "gpupdate_applies t = (if tg_OSClass t \<noteq> ''windows-server'' \<and> tg_OSClass t \<noteq> ''windows-workstation'' then False
     else \<not> excluded protected_tags t)"

definition gpupdate_plan :: "target \<Rightarrow> pb_args \<Rightarrow> (pb_error, plan_result) result" where
  "gpupdate_plan t args = Inr \<lparr>pr_Description = ''Force Group Policy refresh on '' @ tg_DeviceID t,
     pr_Steps = [''gpupdate /force /target:Computer'', ''gpupdate /force /target:User''],
     pr_WillModify = [''local Group Policy state''], pr_RollbackOK = False\<rparr>"

definition gpupdate_apply :: "pb_world \<Rightarrow> target \<Rightarrow> pb_args \<Rightarrow> fleet \<Rightarrow> (pb_error option \<times> applied) \<times> fleet" where
  "gpupdate_apply w t args s =
     (if tg_OSClass t \<noteq> ''windows-server'' \<and> tg_OSClass t \<noteq> ''windows-workstation''
      then ((Some (Unsupported (tg_OSClass t)), failed_apply ''Windows only''), s)
      else queue_and_wait w t ''powershell'' ''gpupdate /force /target:Computer; gpupdate /force /target:User'' 90000 400
             (irreversible ''gpupdate ran via agent command '' ''Group Policy refresh is not reversible'') s)"

definition no_rollback :: "pb_world \<Rightarrow> target \<Rightarrow> string \<Rightarrow> fleet \<Rightarrow> pb_error option \<times> fleet" where
  "no_rollback w t token s = (Some PreconditionsNotMet, s)"

definition forceGpupdate :: playbook where
  "forceGpupdate = \<lparr>pb_Name = ''force_gpupdate'',
     pb_Description = ''Force Group Policy refresh via gpupdate /force. Windows only. Excludes domain controllers.'',
     pb_Severity = ''low'', pb_AppliesTo = gpupdate_applies, pb_Plan = gpupdate_plan, pb_Apply = gpupdate_apply, pb_Rollback = no_rollback\<rparr>"

text \<open>\<open>free_disk_space\<close>; the quotes and backslashes of its Windows paths are written as character codes.\<close>

definition quoted_path :: "string list \<Rightarrow> string" where
  "quoted_path parts = [CHR 0x27] @ str_join [CHR 0x5C] parts @ [CHR 0x27]"

definition buildDiskCleanCommands :: "string \<Rightarrow> string list" where
  "buildDiskCleanCommands osClass =
     (let clean = '' -Recurse -Force -ErrorAction SilentlyContinue | Remove-Item -Recurse -Force -ErrorAction SilentlyContinue'' in
      if isWindows osClass then
        [''Get-ChildItem -Path $env:TEMP'' @ clean,
         ''Get-ChildItem -Path '' @ quoted_path [''C:'', ''Windows'', ''Temp''] @ clean,
         ''try { Stop-Service -Name wuauserv -Force -ErrorAction SilentlyContinue; Get-ChildItem -Path ''
           @ quoted_path [''C:'', ''Windows'', ''SoftwareDistribution'', ''Download''] @ clean
           @ '' } finally { Start-Service -Name wuauserv -ErrorAction SilentlyContinue }'',
         ''Clear-RecycleBin -Force -ErrorAction SilentlyContinue'']
      else if isLinux osClass then
        [''command -v apt-get >/dev/null && apt-get clean -y || true'',
         ''command -v dnf >/dev/null && dnf clean all || true'',
         ''command -v yum >/dev/null && yum clean all || true'',
         ''command -v journalctl >/dev/null && journalctl --vacuum-time=7d || true'',
         ''find /tmp -type f -atime +30 -delete 2>/dev/null || true'']
      else [])"

definition disk_applies :: "target \<Rightarrow> bool" where
  "disk_applies t = (\<not> excluded protected_tags t \<and> (isWindows (tg_OSClass t) \<or> isLinux (tg_OSClass t)))"

definition disk_plan :: "target \<Rightarrow> pb_args \<Rightarrow> (pb_error, plan_result) result" where
  "disk_plan t args =
     (let cmds = buildDiskCleanCommands (tg_OSClass t) in
      if cmds = [] then Inl (Unsupported (tg_OSClass t))
      else Inr \<lparr>pr_Description = ''Clear safe temp locations + package caches + journal logs >7d'', pr_Steps = cmds,
             pr_WillModify = [''$env:TEMP'', str_join [CHR 0x5C] [''C:'', ''Windows'', ''Temp''], ''Recycle Bin'', ''/var/cache/apt'',
               ''/var/cache/dnf'', ''journald >7d''], pr_RollbackOK = False\<rparr>)"

definition disk_apply :: "pb_world \<Rightarrow> target \<Rightarrow> pb_args \<Rightarrow> fleet \<Rightarrow> (pb_error option \<times> applied) \<times> fleet" where
  "disk_apply w t args s =
     (let cmds = buildDiskCleanCommands (tg_OSClass t) in
      if cmds = [] then ((Some (Unsupported (tg_OSClass t)), failed_apply ''unsupported os_class''), s)
      else queue_and_wait w t (script_type (tg_OSClass t)) (joinCommands cmds (tg_OSClass t)) 300000 400
             (irreversible ''disk clean ran via agent command '' ''deleted temp/cache contents are not recoverable'') s)"

definition freeDiskSpace :: playbook where
  "freeDiskSpace = \<lparr>pb_Name = ''free_disk_space'',
     pb_Description = ''Clear safe temp locations + package caches + old journal logs. Non-rollbackable.'',
     pb_Severity = ''medium'', pb_AppliesTo = disk_applies, pb_Plan = disk_plan, pb_Apply = disk_apply, pb_Rollback = no_rollback\<rparr>"

text \<open>The registrations of the package's \<open>init\<close> functions.\<close>

definition playbook_inits :: "playbook list" where
  "playbook_inits = [clearPrintSpooler, forceGpupdate, freeDiskSpace, restartService]"

section \<open>Lemmas\<close>

lemma joinFrom_str_join: "joinFrom sep (Suc i) cmds out = out @ concat (map (\<lambda>c. sep @ c) cmds)"
  by (induction cmds arbitrary: i out) simp_all

lemma str_join_concat: "str_join sep (c # cmds) = c @ concat (map (\<lambda>c. sep @ c) cmds)"
  by (induction cmds arbitrary: c) simp_all

text \<open>\<open>joinWith\<close> is the library's join.\<close>

lemma joinWith_str_join: "joinWith cmds sep = str_join sep cmds"
  by (cases cmds) (simp_all add: joinWith_def joinFrom_str_join str_join_concat)

lemma os_classes: "isLinux os \<Longrightarrow> \<not> isWindows os" "isWindows os \<Longrightarrow> \<not> isLinux os"
  by (auto simp: isLinux_def isWindows_def)

lemma playbook_boot:
  "\<exists>pbs. register_all (\<lambda>p. RegisterPlaybook (Some p)) playbook_inits [] = Inr pbs
     \<and> LookupPlaybook pbs = map_of (map (\<lambda>p. (pb_Name p, p)) playbook_inits)
     \<and> AllPlaybooks pbs = playbook_inits"
proof -
  have d: "distinct (map pb_Name playbook_inits)"
    by (simp add: playbook_inits_def clearPrintSpooler_def forceGpupdate_def freeDiskSpace_def restartService_def)
  have "is_ok (register_all (\<lambda>p. RegisterPlaybook (Some p)) playbook_inits [])"
    unfolding pb_reg.boot_ok using d by (simp add: LookupPlaybook_def list_all_iff)
  then obtain pbs where b: "register_all (\<lambda>p. RegisterPlaybook (Some p)) playbook_inits [] = Inr pbs" by blast
  have l: "LookupPlaybook pbs = map_of (map (\<lambda>p. (pb_Name p, p)) playbook_inits)"
    using pb_reg.boot_look [OF b] by (auto simp: LookupPlaybook_def map_add_def fun_eq_iff split: option.split)
  have inv: "keyed_inv pb_Name pbs" using pb_reg.inv_boot [OF pb_reg.inv_start b] .
  have srt: "sorted_wrt (<) (map pb_Name playbook_inits)"
    by (simp add: playbook_inits_def clearPrintSpooler_def forceGpupdate_def freeDiskSpace_def restartService_def)
  have "set (AllPlaybooks pbs) = set playbook_inits"
  proof (intro set_eqI iffI)
    fix p
    assume "p \<in> set (AllPlaybooks pbs)"
    then have "LookupPlaybook pbs (pb_Name p) = Some p" using pb_reg.listing_look [OF inv] by blast
    then show "p \<in> set playbook_inits" unfolding l by (auto dest: map_of_SomeD)
  next
    fix p
    assume "p \<in> set playbook_inits"
    then have "LookupPlaybook pbs (pb_Name p) = Some p" unfolding l using d by (intro map_of_keyed [where f = "\<lambda>p. p"])
    then show "p \<in> set (AllPlaybooks pbs)" using pb_reg.listing_look [OF inv] by blast
  qed
  then have k: "map pb_Name (AllPlaybooks pbs) = map pb_Name playbook_inits"
    by (intro strict_sorted_equal pb_reg.listing_sorted [OF inv] srt) (metis set_map)
  have "inj_on pb_Name (set playbook_inits)" using d by (simp add: distinct_map)
  with k \<open>set (AllPlaybooks pbs) = set playbook_inits\<close> have "AllPlaybooks pbs = playbook_inits"
    by (metis Un_absorb map_inj_on)
  with b l show ?thesis by blast
qed

subsection \<open>Commands that playbooks queue\<close>

text \<open>What a shell or PowerShell gives a meaning to inside a word, and what separates words.\<close>

definition shell_meta :: "char \<Rightarrow> bool" where
  "shell_meta c = (c \<in> set ''`$;|&><()*?[]{}!#~%^='' \<or> c = CHR 0x22 \<or> c = CHR 0x27 \<or> c = CHR 0x5C \<or> c = CHR '','' \<or> (of_char c :: nat) \<le> 32
     \<or> 127 \<le> (of_char c :: nat))"

definition service_word :: "string \<Rightarrow> bool" where
  "service_word svc \<longleftrightarrow> svc \<noteq> [] \<and> length svc \<le> 128 \<and> \<not> list_ex shell_meta svc"

lemma safe_char_not_meta: "safe_char c \<Longrightarrow> \<not> shell_meta c"
  by (auto simp: safe_char_def between_def shell_meta_def less_eq_char_def)

lemma looksSafe_word: "looksSafeServiceName svc \<Longrightarrow> service_word svc"
  by (auto simp: looksSafeServiceName_def service_word_def list_all_iff list_ex_iff safe_char_not_meta split: if_splits)

text \<open>The commands there are: three fixed scripts, and a verb with one service name.\<close>

definition playbook_body :: "string \<Rightarrow> string \<Rightarrow> bool" where
  "playbook_body os b \<longleftrightarrow>
     b = joinCommands (buildSpoolerCommands os) os \<or> b = joinCommands (buildDiskCleanCommands os) os
     \<or> b = ''gpupdate /force /target:Computer; gpupdate /force /target:User''
     \<or> (\<exists>svc. service_word svc \<and> b \<in> {fst (buildRestartCommand os svc), fst (buildServiceStateCommand os svc), fst (buildStopCommand os svc)})"

definition playbook_row :: "target \<Rightarrow> command_row \<Rightarrow> bool" where
  "playbook_row t r \<longleftrightarrow> cm_device r = tg_DeviceID t \<and> cm_tenant r = tg_TenantID t \<and> cm_type r \<in> {''shell'', ''powershell''}
     \<and> (\<exists>b. cm_payload r = JObj [(''command'', JStr b)] \<and> b \<noteq> [] \<and> playbook_body (tg_OSClass t) b)"

text \<open>Rows of \<open>s'\<close> that were not in \<open>s\<close> satisfy \<open>P\<close>.\<close>

definition only_adds :: "(command_row \<Rightarrow> bool) \<Rightarrow> fleet \<Rightarrow> fleet \<Rightarrow> bool" where
  "only_adds P s s' \<longleftrightarrow> (\<forall>r \<in> set (fl_commands s'). r \<in> set (fl_commands s) \<or> P r)"

lemma only_adds_refl [simp]: "only_adds P s s"
  by (simp add: only_adds_def)

lemma only_adds_trans: "only_adds P s s' \<Longrightarrow> only_adds P s' s'' \<Longrightarrow> only_adds P s s''"
  by (auto simp: only_adds_def)

lemma issue_adds:
  assumes "playbook_body (tg_OSClass t) body" and "cmdType \<in> {''shell'', ''powershell''}" and "issue w i t cmdType body s = (r, s')"
  shows "only_adds (\<lambda>r. E r \<or> playbook_row t r) s s'"
  using assms
  by (auto simp: issue_def queueAgentCommand_def only_adds_def add_command_def new_command_def playbook_row_def split: if_splits)

lemma watch_adds:
  assumes "\<And>s n. only_adds E s (pw_hist w s n)"
  shows "only_adds (\<lambda>r. E r \<or> P r) s (snd (watch w cid timeout s))"
  using assms by (auto simp: watch_def Let_def only_adds_def)

lemma queue_and_wait_adds:
  assumes env: "\<And>s n. only_adds E s (pw_hist w s n)"
    and "playbook_body (tg_OSClass t) body" and "cmdType \<in> {''shell'', ''powershell''}"
  shows "only_adds (\<lambda>r. E r \<or> playbook_row t r) s (snd (queue_and_wait w t cmdType body timeout n f s))"
proof -
  obtain q s1 where q: "issue w 0 t cmdType body s = (q, s1)" by fastforce
  note a = issue_adds [OF assms(2,3) q, of E]
  show ?thesis
  proof (cases q)
    case (Inr cid)
    obtain x s2 where x: "watch w cid timeout s1 = (x, s2)" by fastforce
    have "only_adds (\<lambda>r. E r \<or> playbook_row t r) s1 s2" using watch_adds [OF env, of "playbook_row t" s1 cid timeout] x by simp
    with a have "only_adds (\<lambda>r. E r \<or> playbook_row t r) s s2" by (rule only_adds_trans)
    then show ?thesis by (simp add: queue_and_wait_def q Inr x split: sum.split prod.split)
  qed (use a in \<open>simp add: queue_and_wait_def q\<close>)
qed

lemma script_type_known: "script_type os \<in> {''shell'', ''powershell''}"
  by (simp add: script_type_def)

lemma stringArg_safe: "stringArg args k = Inr svc \<Longrightarrow> looksSafeServiceName svc"
  by (auto simp: stringArg_def split: option.splits json.splits if_splits)

lemma service_bodies:
  assumes "service_word svc"
  shows "playbook_body os (fst (buildRestartCommand os svc))" "playbook_body os (fst (buildServiceStateCommand os svc))"
    "playbook_body os (fst (buildStopCommand os svc))"
    and "snd (buildRestartCommand os svc) \<in> {''shell'', ''powershell''}" "snd (buildServiceStateCommand os svc) \<in> {''shell'', ''powershell''}"
  using assms by (auto simp: playbook_body_def) (auto simp: buildRestartCommand_def buildServiceStateCommand_def split: if_splits)

lemma restart_apply_adds:
  assumes env: "\<And>s n. only_adds E s (pw_hist w s n)"
  shows "only_adds (\<lambda>r. E r \<or> playbook_row t r) s (snd (restart_apply w t args s))"
proof (cases "stringArg args ''service''")
  case (Inr svc)
  obtain cmd ty where c: "buildRestartCommand (tg_OSClass t) svc = (cmd, ty)" by fastforce
  obtain q s1 where q: "issue w 0 t ty cmd s = (q, s1)" by fastforce
  have a: "only_adds (\<lambda>r. E r \<or> playbook_row t r) s s1"
    using service_bodies(1,4) [OF looksSafe_word [OF stringArg_safe [OF Inr]], of "tg_OSClass t"] c q by (intro issue_adds) auto
  show ?thesis
  proof (cases q)
    case cid: (Inr cid)
    obtain x s2 where x: "watch w cid 70000 s1 = (x, s2)" by fastforce
    have "only_adds (\<lambda>r. E r \<or> playbook_row t r) s1 s2" using watch_adds [OF env, of "playbook_row t" s1 cid 70000] x by simp
    with a have "only_adds (\<lambda>r. E r \<or> playbook_row t r) s s2" by (rule only_adds_trans)
    then show ?thesis by (simp add: restart_apply_def Inr c q cid x split: sum.split prod.split)
  qed (use a in \<open>simp add: restart_apply_def Inr c q\<close>)
qed (simp add: restart_apply_def)

lemma restart_rollback_adds:
  assumes env: "\<And>s n. only_adds E s (pw_hist w s n)" and "token = [] \<or> service_word token"
  shows "only_adds (\<lambda>r. E r \<or> playbook_row t r) s (snd (restart_rollback w t token s))"
proof (cases "token = []")
  case False
  then have word: "service_word token" using assms(2) by simp
  obtain cmd ty where c: "buildServiceStateCommand (tg_OSClass t) token = (cmd, ty)" by fastforce
  obtain q s1 where q: "issue w 0 t ty cmd s = (q, s1)" by fastforce
  have ty: "ty \<in> {''shell'', ''powershell''}" using service_bodies(5) [OF word, of "tg_OSClass t"] c by simp
  have a: "only_adds (\<lambda>r. E r \<or> playbook_row t r) s s1"
    using service_bodies(2) [OF word, of "tg_OSClass t"] c q ty by (intro issue_adds) auto
  show ?thesis
  proof (cases q)
    case cid: (Inr cid)
    obtain x s2 where x: "watch w cid 30000 s1 = (x, s2)" by fastforce
    have "only_adds (\<lambda>r. E r \<or> playbook_row t r) s1 s2" using watch_adds [OF env, of "playbook_row t" s1 cid 30000] x by simp
    with a have s2: "only_adds (\<lambda>r. E r \<or> playbook_row t r) s s2" by (rule only_adds_trans)
    obtain q2 s3 where q2: "issue w 1 t ty (fst (buildStopCommand (tg_OSClass t) token)) s2 = (q2, s3)" by fastforce
    have "only_adds (\<lambda>r. E r \<or> playbook_row t r) s2 s3" using service_bodies(3) [OF word] ty q2 by (intro issue_adds)
    with s2 have "only_adds (\<lambda>r. E r \<or> playbook_row t r) s s3" by (rule only_adds_trans)
    with s2 False show ?thesis
      by (simp add: restart_rollback_def c q cid x q2 [unfolded One_nat_def] split: sum.split prod.split)
  qed (use a False in \<open>simp add: restart_rollback_def c q\<close>)
qed (simp add: restart_rollback_def)

lemma spooler_rollback_adds:
  assumes env: "\<And>s n. only_adds E s (pw_hist w s n)"
  shows "only_adds (\<lambda>r. E r \<or> playbook_row t r) s (snd (spooler_rollback w t token s))"
proof -
  let ?svc = "if isLinux (tg_OSClass t) then ''cups'' else ''spooler''"
  have word: "service_word ?svc" by (intro looksSafe_word) (simp add: looksSafeServiceName_def safe_char_def between_def less_eq_char_def)
  obtain cmd ty where c: "buildServiceStateCommand (tg_OSClass t) ?svc = (cmd, ty)" by fastforce
  obtain q s1 where q: "issue w 0 t ty cmd s = (q, s1)" by fastforce
  have a: "only_adds (\<lambda>r. E r \<or> playbook_row t r) s s1"
    using service_bodies(2,5) [OF word, of "tg_OSClass t"] c q by (intro issue_adds) auto
  then have "only_adds (\<lambda>r. E r \<or> playbook_row t r) s (snd (watch w cid 30000 s1))" for cid
    using watch_adds [OF env, of "playbook_row t" s1 cid 30000] by (rule only_adds_trans)
  with a show ?thesis by (simp add: spooler_rollback_def c q split: sum.split)
qed

lemma script_bodies: "playbook_body os (joinCommands (buildSpoolerCommands os) os)" "playbook_body os (joinCommands (buildDiskCleanCommands os) os)"
    "playbook_body os ''gpupdate /force /target:Computer; gpupdate /force /target:User''"
  by (simp_all add: playbook_body_def)

lemmas playbook_defs = clearPrintSpooler_def forceGpupdate_def freeDiskSpace_def restartService_def

lemma playbook_cases:
  assumes "p \<in> set playbook_inits"
  obtains "p = clearPrintSpooler" | "p = forceGpupdate" | "p = freeDiskSpace" | "p = restartService"
  using assms by (auto simp: playbook_inits_def)

lemma apply_token:
  "p \<in> set playbook_inits \<Longrightarrow> ar_RollbackToken (snd (fst (pb_Apply p w t args s))) = []
     \<or> looksSafeServiceName (ar_RollbackToken (snd (fst (pb_Apply p w t args s))))"
  by (erule playbook_cases)
    (auto simp: playbook_defs spooler_apply_def gpupdate_apply_def disk_apply_def restart_apply_def queue_and_wait_def
       irreversible_def no_apply_def failed_apply_def Let_def stringArg_safe split: sum.split prod.split)

lemma apply_adds:
  assumes "p \<in> set playbook_inits" and env: "\<And>s n. only_adds E s (pw_hist w s n)"
  shows "only_adds (\<lambda>r. E r \<or> playbook_row t r) s (snd (pb_Apply p w t args s))"
  using assms(1)
proof (cases rule: playbook_cases)
  case 1
  then show ?thesis by (simp add: playbook_defs spooler_apply_def Let_def queue_and_wait_adds [OF env script_bodies(1) script_type_known])
next
  case 2
  then show ?thesis by (simp add: playbook_defs gpupdate_apply_def queue_and_wait_adds [OF env script_bodies(3)])
next
  case 3
  then show ?thesis by (simp add: playbook_defs disk_apply_def Let_def queue_and_wait_adds [OF env script_bodies(2) script_type_known])
next
  case 4
  then show ?thesis by (simp add: playbook_defs restart_apply_adds [OF env])
qed

subsection \<open>Playbooks on the command channel\<close>

lemma await_no_answer:
  assumes "\<And>t status out. st t = Some (status, out) \<Longrightarrow> status \<noteq> ''completed'' \<and> status \<noteq> ''failed''"
  shows "\<exists>e. snd (await st ca delay deadline n now prev) = Inl e"
  using assms
proof (induction st ca delay deadline n now prev rule: await.induct)
  case (1 st ca delay deadline n now prev)
  show ?case
  proof (cases "now < deadline \<and> \<not> ca now \<and> st now \<noteq> None")
    case True
    then obtain status out where s: "st now = Some (status, out)" by auto
    have "\<exists>e. snd (await st ca delay deadline (Suc n) (now + delay n + pause n) (status, out)) = Inl e"
      using "1.IH" [of "(status, out)" status out] True s "1.prems" by blast
    then show ?thesis using True "1.prems" [OF s] by (subst await.simps) (simp add: s)
  next
    case False
    then show ?thesis by (subst await.simps) (auto split: option.split)
  qed
qed

text \<open>The world's fleet moves by steps of the channel, and drawn ids are not empty.\<close>

definition channel_world :: "pb_world \<Rightarrow> bool" where
  "channel_world w \<longleftrightarrow> (\<forall>s n. channel_step\<^sup>*\<^sup>* s (pw_hist w s n)) \<and> (\<forall>i. pw_ids w i \<noteq> [])"

lemma issue_stuck:
  assumes "channel_world w" and "all_stuck s" and "issue w i t cmdType body s = (r, s')"
  shows "all_stuck s'"
proof -
  have "pw_ids w i \<noteq> []" using assms(1) by (simp add: channel_world_def)
  then have "channel_step s (snd (issue w i t cmdType body s))" unfolding issue_def by (rule by_playbook)
  then show ?thesis using channel_step_stuck [of s s'] assms(2,3) by simp
qed

lemma watch_stuck:
  assumes "channel_world w" and "all_stuck s" and "watch w cid timeout s = (r, s')"
  shows "(\<exists>e. r = Inl e) \<and> all_stuck s'"
proof -
  have st: "all_stuck (pw_hist w s n)" for n
    using channel_stuck [of s "pw_hist w s n"] assms(1,2) by (simp add: channel_world_def)
  have "status \<noteq> ''completed'' \<and> status \<noteq> ''failed''" if "row_status cid (pw_hist w s u) = Some (status, out)" for u status out
  proof -
    from that obtain r where "List.find (\<lambda>r. cm_id r = cid) (fl_commands (pw_hist w s u)) = Some r" "status = cm_status r"
      by (auto simp: row_status_def split: option.splits)
    then have "r \<in> set (fl_commands (pw_hist w s u))" by (auto simp: find_Some_iff in_set_conv_nth)
    with st [of u] \<open>status = cm_status r\<close> have "status = ''pending''" by (simp add: all_stuck_def stuck_row_def)
    then show ?thesis by simp
  qed
  then have "\<exists>e. snd (awaitAgentCommand (\<lambda>u. row_status cid (pw_hist w s u)) (pw_cancelled w) (pw_delay w) 0 timeout) = Inl e"
    unfolding awaitAgentCommand_def by (intro await_no_answer) blast
  with assms(3) st show ?thesis by (auto simp: watch_def Let_def)
qed

lemma queue_and_wait_stuck:
  assumes "channel_world w" and "all_stuck s"
  shows "fst (fst (queue_and_wait w t cmdType body timeout n f s)) \<noteq> None
    \<and> \<not> ar_Success (snd (fst (queue_and_wait w t cmdType body timeout n f s)))
    \<and> all_stuck (snd (queue_and_wait w t cmdType body timeout n f s))"
proof -
  obtain q s1 where q: "issue w 0 t cmdType body s = (q, s1)" by fastforce
  note s1 = issue_stuck [OF assms q]
  obtain x s2 where x: "watch w (projr q) timeout s1 = (x, s2)" by fastforce
  obtain e where "x = Inl e" "all_stuck s2" using watch_stuck [OF assms(1) s1 x] by blast
  with q x s1 show ?thesis
    by (cases q) (simp_all add: queue_and_wait_def no_apply_def failed_apply_def)
qed

lemma restart_apply_stuck:
  assumes "channel_world w" and "all_stuck s"
  shows "fst (fst (restart_apply w t args s)) \<noteq> None \<and> \<not> ar_Success (snd (fst (restart_apply w t args s)))
    \<and> all_stuck (snd (restart_apply w t args s))"
proof (cases "stringArg args ''service''")
  case (Inr svc)
  obtain cmd ty where c: "buildRestartCommand (tg_OSClass t) svc = (cmd, ty)" by fastforce
  obtain q s1 where q: "issue w 0 t ty cmd s = (q, s1)" by fastforce
  note s1 = issue_stuck [OF assms q]
  obtain x s2 where x: "watch w (projr q) 70000 s1 = (x, s2)" by fastforce
  obtain e where "x = Inl e" "all_stuck s2" using watch_stuck [OF assms(1) s1 x] by blast
  with q x s1 c Inr show ?thesis
    by (cases q) (simp_all add: restart_apply_def no_apply_def failed_apply_def)
qed (use assms(2) in \<open>simp add: restart_apply_def no_apply_def\<close>)

lemma restart_rollback_stuck:
  assumes "channel_world w" and "all_stuck s"
  shows "fst (restart_rollback w t token s) \<noteq> None \<and> all_stuck (snd (restart_rollback w t token s))"
proof -
  obtain cmd ty where c: "buildServiceStateCommand (tg_OSClass t) token = (cmd, ty)" by fastforce
  obtain q s1 where q: "issue w 0 t ty cmd s = (q, s1)" by fastforce
  note s1 = issue_stuck [OF assms q]
  obtain x s2 where x: "watch w (projr q) 30000 s1 = (x, s2)" by fastforce
  obtain e where "x = Inl e" "all_stuck s2" using watch_stuck [OF assms(1) s1 x] by blast
  with q x s1 c assms(2) show ?thesis by (cases q) (simp_all add: restart_rollback_def)
qed

lemma spooler_rollback_stuck:
  assumes "channel_world w" and "all_stuck s"
  shows "fst (spooler_rollback w t token s) \<noteq> None \<and> all_stuck (snd (spooler_rollback w t token s))"
proof -
  obtain cmd ty where c: "buildServiceStateCommand (tg_OSClass t) (if isLinux (tg_OSClass t) then ''cups'' else ''spooler'') = (cmd, ty)"
    by fastforce
  obtain q s1 where q: "issue w 0 t ty cmd s = (q, s1)" by fastforce
  note s1 = issue_stuck [OF assms q]
  obtain x s2 where x: "watch w (projr q) 30000 s1 = (x, s2)" by fastforce
  have "all_stuck s2" using watch_stuck [OF assms(1) s1 x] by blast
  with q x s1 c show ?thesis by (cases q) (simp_all add: spooler_rollback_def)
qed

lemma apply_stuck:
  assumes "p \<in> set playbook_inits" and "channel_world w" and "all_stuck s"
  shows "fst (fst (pb_Apply p w t args s)) \<noteq> None \<and> \<not> ar_Success (snd (fst (pb_Apply p w t args s)))
    \<and> all_stuck (snd (pb_Apply p w t args s))"
  using assms(1)
proof (cases rule: playbook_cases)
  case 1
  then show ?thesis using queue_and_wait_stuck [OF assms(2,3)]
    by (simp add: playbook_defs spooler_apply_def failed_apply_def no_apply_def Let_def assms(3))
next
  case 2
  then show ?thesis using queue_and_wait_stuck [OF assms(2,3)]
    by (simp add: playbook_defs gpupdate_apply_def failed_apply_def no_apply_def assms(3))
next
  case 3
  then show ?thesis using queue_and_wait_stuck [OF assms(2,3)]
    by (simp add: playbook_defs disk_apply_def failed_apply_def no_apply_def Let_def assms(3))
next
  case 4
  then show ?thesis using restart_apply_stuck [OF assms(2,3)] by (simp add: playbook_defs)
qed

section \<open>Properties\<close>

text \<open>The rung a severity needs, as a position of the ladder.\<close>

definition severity_rung :: "string \<Rightarrow> ladder option" where
  "severity_rung sev = (if sev = ''low'' \<or> sev = ''medium'' then Some ActLow else if sev = ''high'' then Some ActPolicy
     else if sev = ''critical'' then Some Autonomous else None)"

text \<open>
  The gate on severities is a threshold on the ladder: the package's own comparison of rungs agrees with
  that of the tools and with the linear order of the five rungs, and a severity is allowed exactly from its rung
  upwards, an unknown severity never. A rung that is not on the ladder counts as the lowest.
\<close>

theorem severity_gate_is_threshold:
  "pb_rungAtLeast a r = rungAtLeast a r \<and> (pb_rungAtLeast a r \<longleftrightarrow> ladder_of r \<le> ladder_of a)
   \<and> (SeverityForRung sev a = Inr () \<longleftrightarrow> (case severity_rung sev of None \<Rightarrow> False | Some m \<Rightarrow> m \<le> ladder_of a))"
proof -
  have eq: "pb_rungAtLeast x y = rungAtLeast x y" for x y
    by (simp add: pb_rungAtLeast_def rungAtLeast_def rung_order_def Let_def)
  have "SeverityForRung sev a = Inr () \<longleftrightarrow> (case severity_rung sev of None \<Rightarrow> False | Some m \<Rightarrow> m \<le> ladder_of a)"
    by (simp add: SeverityForRung_def severity_rung_def eq rungAtLeast_ladder) (simp add: ladder_of_def rung_defs)
  with eq rungAtLeast_ladder show ?thesis by simp
qed


text \<open>
  No playbook ever takes effect. On a fleet whose commands come from the server's own code and whose agents
  poll as they do, \<open>Apply\<close> of every registered playbook ends in an error, for every target and every argument, and
  \<open>Rollback\<close> never reports a revert: the queued command stays pending until the wait gives up.
\<close>

theorem playbooks_never_succeed:
  assumes "p \<in> set playbook_inits" and "channel_world w" and "all_stuck s"
  shows "fst (fst (pb_Apply p w t args s)) \<noteq> None \<and> \<not> ar_Success (snd (fst (pb_Apply p w t args s)))
    \<and> fst (pb_Rollback p w t token s) \<noteq> None"
proof -
  have "fst (pb_Rollback p w t token s) \<noteq> None"
    using assms(1)
  proof (cases rule: playbook_cases)
    case 1
    then have "pb_Rollback p = spooler_rollback" by (simp add: playbook_defs)
    then show ?thesis using spooler_rollback_stuck [OF assms(2,3)] by simp
  next
    case 4
    then have "pb_Rollback p = restart_rollback" by (simp add: playbook_defs)
    then show ?thesis using restart_rollback_stuck [OF assms(2,3)] by simp
  qed (simp_all add: playbook_defs no_rollback_def)
  with apply_stuck [OF assms, of t args] show ?thesis by simp
qed

section \<open>Witnesses\<close>

definition quiet_world :: pb_world where
  "quiet_world = \<lparr>pw_now = 10, pw_ids = (\<lambda>i. ''c'' @ itoa (int i)), pw_ins_ok = (\<lambda>_. True), pw_hist = (\<lambda>s _. s),
     pw_cancelled = (\<lambda>_. False), pw_delay = (\<lambda>_. 5), pw_err = (\<lambda>_. ''timeout'')\<rparr>"

definition toy_target :: target where
  "toy_target = \<lparr>tg_TenantID = ''default'', tg_CustomerID = [], tg_DeviceID = ''d1'', tg_OSClass = ''linux-server'', tg_Tags = []\<rparr>"


lemma quiet_channel: "channel_world quiet_world"
  by (simp add: channel_world_def quiet_world_def)

lemma playbooks_never_succeed_witness:
  "fst (fst (pb_Apply restartService quiet_world toy_target [(''service'', JStr ''nginx'')] toy_fleet)) \<noteq> None
   \<and> fst (pb_Rollback restartService quiet_world toy_target ''nginx'' toy_fleet) \<noteq> None"
proof -
  have "all_stuck toy_fleet" by (simp add: all_stuck_def toy_fleet_def)
  with playbooks_never_succeed [of restartService quiet_world toy_fleet toy_target "[(''service'', JStr ''nginx'')]" "''nginx''"] quiet_channel
  show ?thesis by (simp add: playbook_inits_def)
qed

text \<open>An accepted service name may still start with a dash, which \<open>systemctl\<close> reads as an option.\<close>

lemma option_as_service: "stringArg [(''service'', JStr ''-Hroot@10.0.0.1'')] ''service'' = Inr ''-Hroot@10.0.0.1''"
  by (simp add: stringArg_def looksSafeServiceName_def safe_char_def between_def less_eq_char_def)

end
