(* ===== verification/BlastRadius.thy ===== *)
theory BlastRadius
  imports Complex_Main Limiter AiRun
begin

text \<open>
  The blast-radius limiter of \<open>internal/ai/playbooks/blastradius.go\<close>: at most \<open>MaxDevices\<close> actions per
  capability and tenant in a window of minutes, counted in Redis, or in the memory of the process
  when Redis is off or fails. Times and durations are in nanoseconds; \<open>time.Duration\<close> wraps at 64 bits.

  The locale \<open>budget\<close> is what both counters promise: a reservation is admitted exactly while the count
  is below the cap, an admitted one counts, a refused one does not. The locale \<open>sliding_budget\<close> adds what the
  documentation promises of the window: a reservation counts until a full window after it. The memory satisfies
  both, Redis the first only.
\<close>

section \<open>The contract\<close>

fun admissions :: "(int \<Rightarrow> 'k \<Rightarrow> 's \<Rightarrow> bool \<times> 's) \<Rightarrow> 'k \<Rightarrow> (int \<times> 'k) list \<Rightarrow> 's \<Rightarrow> nat" where
  "admissions res k [] s = 0"
| "admissions res k ((t, j) # hs) s =
     (case res t j s of (ok, s') \<Rightarrow> (if ok \<and> j = k then 1 else 0) + admissions res k hs s')"

locale budget =
  fixes res :: "int \<Rightarrow> 'k \<Rightarrow> 's \<Rightarrow> bool \<times> 's"
    and used :: "int \<Rightarrow> 's \<Rightarrow> 'k \<Rightarrow> nat" and inv :: "'s \<Rightarrow> bool" and cap :: nat
  assumes res_inv: "inv s \<Longrightarrow> inv (snd (res now k s))"
    and res_admits: "inv s \<Longrightarrow> fst (res now k s) \<longleftrightarrow> used now s k < cap"
    and res_counts: "inv s \<Longrightarrow> fst (res now k s) \<Longrightarrow> used now (snd (res now k s)) k = used now s k + 1"
    and res_refuses: "inv s \<Longrightarrow> \<not> fst (res now k s) \<Longrightarrow> now \<le> t \<Longrightarrow> used t (snd (res now k s)) k = used t s k"
    and res_frame: "j \<noteq> k \<Longrightarrow> now \<le> t \<Longrightarrow> used t (snd (res now k s)) j = used t s j"
    and used_decays: "inv s \<Longrightarrow> now \<le> t \<Longrightarrow> used t s k \<le> used now s k"
begin

lemma used_capped: "inv s \<Longrightarrow> used now s k \<le> cap \<Longrightarrow> used now (snd (res now j s)) k \<le> cap"
  using res_admits [of s now k] res_counts [of s now k] res_refuses [of s now k now] res_frame [of k j now now s]
  by (cases "j = k"; cases "fst (res now k s)") auto

end

locale sliding_budget = budget +
  fixes window :: int
  assumes res_stays: "inv s \<Longrightarrow> fst (res now k s) \<Longrightarrow> now \<le> t \<Longrightarrow> t < now + window \<Longrightarrow>
    used t (snd (res now k s)) k = used t s k + 1"
begin

lemma admissions_used:
  assumes "inv s" and "sorted (t0 # map fst hs)" and "\<forall>(t, j) \<in> set hs. t < t0 + window" and "used t0 s k \<le> cap"
  shows "admissions res k hs s + used (last (t0 # map fst hs)) s k \<le> cap"
  using assms
proof (induction hs arbitrary: s t0)
  case (Cons h hs)
  obtain t j where h: "h = (t, j)" by (cases h)
  let ?s = "snd (res t j s)" and ?T = "last (t0 # map fst (h # hs))"
  have T: "?T = last (t # map fst hs)" by (simp add: h)
  have le: "t0 \<le> t" "t < t0 + window" "sorted (t # map fst hs)" using Cons.prems h by auto
  have tT: "t \<le> ?T" unfolding T using le(3) by (metis last_in_set list.distinct(1) set_ConsD sorted_simps(2) order_refl)
  have TW: "?T < t0 + window" unfolding T using Cons.prems(3) h le(2) last_in_set [of "t # map fst hs"] by auto
  have u: "used t s k \<le> cap" using used_decays [of s t0 t k] Cons.prems(1,4) le(1) by simp
  have i: "inv ?s" using Cons.prems(1) by (rule res_inv)
  have c: "used t ?s k \<le> cap" by (rule used_capped [OF Cons.prems(1) u])
  have "\<forall>(t', j') \<in> set hs. t' < t + window" using Cons.prems(3) le(1) by fastforce
  note IH = Cons.IH [OF i le(3) this c, folded T]
  have "used ?T ?s k = used ?T s k + (if fst (res t j s) \<and> j = k then 1 else 0)"
  proof (cases "j = k")
    case True
    have "?T < t + window" using TW le(1) by simp
    with res_stays [OF Cons.prems(1), of t k ?T] res_refuses [OF Cons.prems(1), of t k ?T] tT True
    show ?thesis by (cases "fst (res t k s)") simp_all
  next
    case False
    then show ?thesis using res_frame [of k j t ?T s] tT by simp
  qed
  moreover have "admissions res k (h # hs) s = (if fst (res t j s) \<and> j = k then 1 else 0) + admissions res k hs ?s"
    by (simp add: h split: prod.split)
  ultimately show ?case using IH by linarith
qed simp

text \<open>In an interval shorter than the window at most \<open>cap\<close> reservations of a key are admitted.\<close>

lemma admissions_capped:
  assumes "inv s" and "sorted (t0 # map fst hs)" and "\<forall>(t, j) \<in> set hs. t < t0 + window" and "used t0 s k \<le> cap"
  shows "admissions res k hs s \<le> cap"
  using admissions_used [OF assms] by linarith

end
section \<open>The two counters\<close>

record blast_config =
  bc_MaxDevices :: int
  bc_WindowMinutes :: int

type_synonym blast_windows = "string \<rightharpoonup> int list"

record blast_state =
  bs_redis :: "redis_kv option"
  bs_windows :: blast_windows

definition minute :: int where "minute = 60000000000"

definition window_ns :: "int \<Rightarrow> int" where
  "window_ns m = i64 (m * minute)"

definition redis_decr :: "int \<Rightarrow> string \<Rightarrow> redis_kv \<Rightarrow> redis_kv" where
  "redis_decr now k kv = (case redis_get now kv k of
       None \<Rightarrow> kv(k \<mapsto> (-1, None)) | Some (n, e) \<Rightarrow> kv(k \<mapsto> (n - 1, e)))"

text \<open>
  \<open>reserveRedis\<close> after a successful \<open>INCR\<close>, and \<open>reserveLocal\<close>, on the key of a capability and tenant.
  \<open>exp_ok\<close> says whether the \<open>EXPIRE\<close> arrives, whose error the code ignores.
\<close>

definition reserveRedis :: "bool \<Rightarrow> int \<Rightarrow> int \<Rightarrow> int \<Rightarrow> string \<Rightarrow> redis_kv \<Rightarrow> bool \<times> redis_kv" where
  "reserveRedis exp_ok ttl maxDev now key kv =
     (case redis_incr now key kv of (val, kv) \<Rightarrow>
      let kv = (if val = 1 \<and> exp_ok then redis_expire now key ttl kv else kv)
      in if val > maxDev then (False, redis_decr now key kv) else (True, kv))"

definition reserveLocal :: "int \<Rightarrow> int \<Rightarrow> int \<Rightarrow> string \<Rightarrow> blast_windows \<Rightarrow> bool \<times> blast_windows" where
  "reserveLocal ttl maxDev now key m =
     (let cutoff = now - ttl;
          ts = filter (\<lambda>ts. ts > cutoff) (case m key of None \<Rightarrow> [] | Some ts \<Rightarrow> ts)
      in if int (length ts) \<ge> maxDev then (False, m(key \<mapsto> ts)) else (True, m(key \<mapsto> ts @ [now])))"

definition blast_redis_key :: "string \<Rightarrow> string \<Rightarrow> string" where
  "blast_redis_key capabilityID tenantID = ''ai:blast:'' @ capabilityID @ '':'' @ tenantID"

definition blast_local_key :: "string \<Rightarrow> string \<Rightarrow> string" where
  "blast_local_key capabilityID tenantID = capabilityID @ ''|'' @ tenantID"

definition default_window :: "blast_config \<Rightarrow> blast_config" where
  "default_window cfg = (if bc_WindowMinutes cfg \<le> 0 then cfg\<lparr>bc_WindowMinutes := 5\<rparr> else cfg)"

text \<open>\<open>Reserve\<close>: whether the action may go ahead. \<open>incr_ok\<close> is false when Redis answers with an error.\<close>

definition Reserve :: "int \<Rightarrow> bool \<Rightarrow> bool \<Rightarrow> string \<Rightarrow> string \<Rightarrow> blast_config \<Rightarrow> blast_state \<Rightarrow> bool \<times> blast_state" where
  "Reserve now incr_ok exp_ok capabilityID tenantID cfg s =
     (if bc_MaxDevices cfg \<le> 0 then (True, s)
      else let cfg = default_window cfg; ttl = window_ns (bc_WindowMinutes cfg);
               local = (case reserveLocal ttl (bc_MaxDevices cfg) now (blast_local_key capabilityID tenantID) (bs_windows s) of
                          (ok, m) \<Rightarrow> (ok, s\<lparr>bs_windows := m\<rparr>))
           in case bs_redis s of
                None \<Rightarrow> local
              | Some kv \<Rightarrow>
                  if \<not> incr_ok then local
                  else (case reserveRedis exp_ok ttl (bc_MaxDevices cfg) now (blast_redis_key capabilityID tenantID) kv of
                          (ok, kv) \<Rightarrow> (ok, s\<lparr>bs_redis := Some kv\<rparr>)))"

definition Count :: "int \<Rightarrow> bool \<Rightarrow> string \<Rightarrow> string \<Rightarrow> blast_config \<Rightarrow> blast_state \<Rightarrow> int" where
  "Count now get_ok capabilityID tenantID cfg s =
     (if bc_MaxDevices cfg \<le> 0 then 0
      else let cfg = default_window cfg in
      case bs_redis s of
        Some kv \<Rightarrow> (if \<not> get_ok then 0
           else case redis_get now kv (blast_redis_key capabilityID tenantID) of None \<Rightarrow> 0 | Some (v, _) \<Rightarrow> v)
      | None \<Rightarrow> (case bs_windows s (blast_local_key capabilityID tenantID) of
            None \<Rightarrow> 0
          | Some ts \<Rightarrow> int (length (filter (\<lambda>ts. ts > now - window_ns (bc_WindowMinutes cfg)) ts))))"

text \<open>\<open>LoadConfig\<close> ignores the error of its query, a missing row among them.\<close>

definition LoadConfig :: "bool \<Rightarrow> string \<Rightarrow> string \<Rightarrow> ai_state \<Rightarrow> blast_config" where
  "LoadConfig ok tenantID capabilityID s =
     (case (if ok then ai_configs s (tenantID, capabilityID) else None) of
        None \<Rightarrow> \<lparr>bc_MaxDevices = 0, bc_WindowMinutes = 0\<rparr>
      | Some c \<Rightarrow> \<lparr>bc_MaxDevices = cc_blast_max c, bc_WindowMinutes = cc_blast_window c\<rparr>)"

section \<open>Interpretations\<close>

definition redis_used :: "int \<Rightarrow> redis_kv \<Rightarrow> string \<Rightarrow> nat" where
  "redis_used now kv k = (case redis_get now kv k of None \<Rightarrow> 0 | Some (n, _) \<Rightarrow> nat n)"

definition redis_nonneg :: "redis_kv \<Rightarrow> bool" where
  "redis_nonneg kv = (\<forall>k n e. kv k = Some (n, e) \<longrightarrow> 0 \<le> n)"

definition local_used :: "int \<Rightarrow> int \<Rightarrow> blast_windows \<Rightarrow> string \<Rightarrow> nat" where
  "local_used ttl now m k = length (filter (\<lambda>ts. ts > now - ttl) (case m k of None \<Rightarrow> [] | Some ts \<Rightarrow> ts))"

lemma reserveRedis_cases:
  assumes "0 < maxDev" and "0 < ttl" and "redis_nonneg kv"
  shows "reserveRedis e ttl maxDev now k kv =
    (case redis_get now kv k of
       None \<Rightarrow> (True, kv(k \<mapsto> (1, if e then Some (now + ttl) else None)))
     | Some (n, x) \<Rightarrow> if n + 1 > maxDev then (False, kv(k \<mapsto> (n, x)))
         else (True, kv(k \<mapsto> (n + 1, if n = 0 \<and> e then Some (now + ttl) else x))))"
proof -
  have nn: "0 \<le> n" if "redis_get now kv k = Some (n, x)" for n x
    using assms(3) that unfolding redis_get_Some redis_nonneg_def by blast
  show ?thesis
    using assms(1,2) nn
    by (auto simp: reserveRedis_def redis_incr_def redis_expire_def redis_decr_def Let_def redis_get_Some split: option.splits)
qed

interpretation blast_rds: budget "reserveRedis True (int (Suc w)) (int (Suc c))" redis_used redis_nonneg "Suc c"
  for w c
proof (unfold_locales, goal_cases)
  case (1 s now k)
  have upd: "redis_nonneg (s(k \<mapsto> (n, x)))" if "0 \<le> n" for n x using 1 that by (simp add: redis_nonneg_def)
  have "0 \<le> n" if "redis_get now s k = Some (n, x)" for n x
    using 1 that unfolding redis_get_Some redis_nonneg_def by blast
  with 1 show ?case
    by (simp add: reserveRedis_cases upd split: option.split prod.split)
next
  case (2 s now k)
  then show ?case
    by (auto simp: reserveRedis_cases redis_used_def redis_nonneg_def redis_get_Some split: option.splits)
next
  case (3 s now k)
  then have "0 \<le> n" if "redis_get now s k = Some (n, x)" for n x
    using that unfolding redis_get_Some redis_nonneg_def by blast
  moreover have "now < e" if "redis_get now s k = Some (n, Some e)" for n e
    using that unfolding redis_get_Some by simp
  ultimately show ?case using 3
    by (fastforce simp: reserveRedis_cases redis_used_def nat_add_distrib split: option.splits if_splits)
next
  case (4 s now k t)
  then show ?case
    by (auto simp: reserveRedis_cases redis_used_def redis_get_Some redis_get_def split: option.splits if_splits)
next
  case (5 j k t now s)
  then show ?case
    by (auto simp: reserveRedis_def redis_used_def redis_incr_def redis_expire_def redis_decr_def Let_def split: option.splits)
next
  case (6 s now t k)
  then show ?case
    by (auto simp: redis_used_def redis_get_def split: option.splits)
qed

lemma length_filter_mono: "\<forall>ts. live ts \<longrightarrow> live' ts \<Longrightarrow> length (filter live stamps) \<le> length (filter live' stamps)"
  by (induction stamps) (auto simp: le_SucI)

lemma local_used_antimono: "now \<le> t \<Longrightarrow> local_used ttl t m k \<le> local_used ttl now m k"
  unfolding local_used_def by (rule length_filter_mono) simp

interpretation blast_mem: sliding_budget "reserveLocal (int (Suc w)) (int (Suc c))" "local_used (int (Suc w))" "\<lambda>_. True"
    "Suc c" "int (Suc w)"
  for w c
proof (unfold_locales, goal_cases)
  case (6 s now t k)
  then show ?case by (intro local_used_antimono)
qed (auto simp: reserveLocal_def local_used_def Let_def filter_filter conj_absorb intro!: arg_cong [of _ _ length] filter_cong split: if_splits option.splits)

section \<open>Runs of the limiter\<close>

definition reserve_step :: "blast_config \<Rightarrow> int \<Rightarrow> string \<times> string \<Rightarrow> blast_state \<Rightarrow> bool \<times> blast_state" where
  "reserve_step cfg now k s = Reserve now True True (fst k) (snd k) cfg s"

fun reserve_all :: "blast_config \<Rightarrow> (int \<times> string \<times> string) list \<Rightarrow> blast_state \<Rightarrow> blast_state" where
  "reserve_all cfg [] s = s"
| "reserve_all cfg ((t, k) # hs) s = reserve_all cfg hs (snd (reserve_step cfg t k s))"

abbreviation window_of :: "blast_config \<Rightarrow> int" where
  "window_of cfg \<equiv> window_ns (bc_WindowMinutes (default_window cfg))"

abbreviation local_key :: "string \<times> string \<Rightarrow> string" where
  "local_key k \<equiv> blast_local_key (fst k) (snd k)"

lemma reserve_step_local:
  assumes "bs_redis s = None" and "0 < bc_MaxDevices cfg"
  shows "reserve_step cfg now k s =
    (case reserveLocal (window_of cfg) (bc_MaxDevices cfg) now (local_key k) (bs_windows s) of (ok, m) \<Rightarrow> (ok, s\<lparr>bs_windows := m\<rparr>))"
  using assms by (simp add: reserve_step_def Reserve_def Let_def split: prod.split) (simp add: default_window_def)

lemma reserve_step_redis:
  assumes "bs_redis s = Some kv" and "0 < bc_MaxDevices cfg"
  shows "reserve_step cfg now k s =
    (case reserveRedis True (window_of cfg) (bc_MaxDevices cfg) now (blast_redis_key (fst k) (snd k)) kv of
       (ok, kv) \<Rightarrow> (ok, s\<lparr>bs_redis := Some kv\<rparr>))"
  using assms by (simp add: reserve_step_def Reserve_def Let_def split: prod.split) (simp add: default_window_def)

lemma reserve_local_admissions:
  assumes "0 < bc_MaxDevices cfg"
  shows "bs_redis s = None \<Longrightarrow> admissions (reserve_step cfg) k hs s
    \<le> admissions (reserveLocal (window_of cfg) (bc_MaxDevices cfg)) (local_key k) (map (\<lambda>(t, j). (t, local_key j)) hs) (bs_windows s)"
proof (induction hs arbitrary: s)
  case (Cons h hs)
  obtain t j where h: "h = (t, j)" by (cases h)
  obtain ok m where r: "reserveLocal (window_of cfg) (bc_MaxDevices cfg) t (local_key j) (bs_windows s) = (ok, m)" by fastforce
  have "bs_redis (s\<lparr>bs_windows := m\<rparr>) = None" using Cons.prems by simp
  from Cons.IH [OF this] show ?case
    by (simp add: h reserve_step_local [OF Cons.prems assms] r)
qed simp

lemma map_fst_rekey: "map fst (map (\<lambda>(t, j). (t, f j)) hs) = map fst hs"
  by (induction hs) auto

text \<open>The count never passes the cap, and no step turns Redis on.\<close>

lemma reserve_all_local:
  assumes "0 < bc_MaxDevices cfg" and "0 < window_of cfg"
  shows "bs_redis s = None \<Longrightarrow> sorted (t0 # map fst hs) \<Longrightarrow>
    local_used (window_of cfg) t0 (bs_windows s) x \<le> nat (bc_MaxDevices cfg) \<Longrightarrow>
    bs_redis (reserve_all cfg hs s) = None
    \<and> local_used (window_of cfg) (last (t0 # map fst hs)) (bs_windows (reserve_all cfg hs s)) x \<le> nat (bc_MaxDevices cfg)"
proof (induction hs arbitrary: s t0)
  case (Cons h hs)
  obtain t j where h: "h = (t, j)" by (cases h)
  obtain w c where wc: "window_of cfg = int (Suc w)" "bc_MaxDevices cfg = int (Suc c)"
    using assms by (metis zero_less_imp_eq_int gr0_implies_Suc)
  obtain ok m where r: "reserveLocal (window_of cfg) (bc_MaxDevices cfg) t (local_key j) (bs_windows s) = (ok, m)" by fastforce
  let ?s = "s\<lparr>bs_windows := m\<rparr>"
  have "local_used (window_of cfg) t (bs_windows s) x \<le> nat (bc_MaxDevices cfg)"
    using local_used_antimono [of t0 t "window_of cfg" "bs_windows s" x] Cons.prems h by simp
  then have "local_used (window_of cfg) t (bs_windows ?s) x \<le> nat (bc_MaxDevices cfg)"
    using blast_mem.used_capped [where w = w and c = c and s = "bs_windows s" and now = t and k = x and j = "local_key j"] r wc
    by (simp del: of_nat_Suc)
  moreover have "sorted (t # map fst hs)" using Cons.prems h by simp
  ultimately show ?case using Cons.IH [of ?s t] Cons.prems(1)
    by (simp add: h reserve_step_local [OF Cons.prems(1) assms(1)] r)
qed simp

section \<open>Properties\<close>

text \<open>
  C18. Without Redis the blast-radius window slides: whatever reservations of whatever capabilities and
  tenants were made before and in between, in an interval shorter than the window at most \<open>MaxDevices\<close>
  actions of one capability and tenant are admitted.
\<close>

theorem blast_radius_slides:
  assumes "bs_redis s = None" and "bs_windows s = Map.empty"
    and "0 < bc_MaxDevices cfg" and "0 < window_of cfg"
    and "sorted (map fst (past @ hs))" and "\<forall>(t, j) \<in> set hs. t < fst (hd hs) + window_of cfg"
  shows "int (admissions (reserve_step cfg) k hs (reserve_all cfg past s)) \<le> bc_MaxDevices cfg"
proof (cases hs)
  case (Cons h hs')
  let ?s = "reserve_all cfg past s" and ?t = "fst (hd hs)"
  obtain w c where wc: "window_of cfg = int (Suc w)" "bc_MaxDevices cfg = int (Suc c)"
    using assms(3,4) by (metis zero_less_imp_eq_int gr0_implies_Suc)
  have le: "t \<le> ?t" if "t \<in> set (map fst past)" for t
    using assms(5) that Cons by (auto simp: sorted_append)
  define t0 where "t0 = (case past of [] \<Rightarrow> ?t | p # _ \<Rightarrow> fst p)"
  have sp: "sorted (map fst past)" using assms(5) by (simp add: sorted_append)
  have srt: "sorted (t0 # map fst past)"
    using sp by (cases past) (simp_all add: t0_def)
  have last: "last (t0 # map fst past) \<le> ?t"
    using le last_in_set [of "map fst past"] by (cases past) (auto simp: t0_def)
  have "local_used (window_of cfg) t0 (bs_windows s) (local_key k) \<le> nat (bc_MaxDevices cfg)"
    by (simp add: local_used_def assms(2))
  note r = reserve_all_local [OF assms(3,4,1) srt this]
  have "local_used (window_of cfg) ?t (bs_windows ?s) (local_key k) \<le> nat (bc_MaxDevices cfg)"
    using local_used_antimono [OF last] r by (meson order_trans)
  moreover have "sorted (?t # map fst (map (\<lambda>(t, j). (t, local_key j)) hs))"
    unfolding map_fst_rekey using assms(5) Cons by (simp add: sorted_append)
  moreover have "\<forall>(t, j) \<in> set (map (\<lambda>(t, j). (t, local_key j)) hs). t < ?t + window_of cfg"
    using assms(6) by auto
  ultimately have "admissions (reserveLocal (window_of cfg) (bc_MaxDevices cfg)) (local_key k)
      (map (\<lambda>(t, j). (t, local_key j)) hs) (bs_windows ?s) \<le> nat (bc_MaxDevices cfg)"
    using blast_mem.admissions_capped [where w = w and c = c and s = "bs_windows ?s" and ?t0.0 = ?t
        and hs = "map (\<lambda>(t, j). (t, local_key j)) hs" and k = "local_key k"] wc by (simp del: of_nat_Suc)
  with reserve_local_admissions [OF assms(3), of ?s k hs] r assms(3) show ?thesis by linarith
qed (use assms(3) in simp)

definition toy_blast :: blast_config where
  "toy_blast = \<lparr>bc_MaxDevices = 2, bc_WindowMinutes = 0\<rparr>"

lemma toy_blast_window: "window_of toy_blast = 300000000000"
  by (simp add: toy_blast_def default_window_def window_ns_def minute_def i64_def)

lemma blast_radius_slides_witness:
  "int (admissions (reserve_step toy_blast) (''cap'', ''t1'') [(30, (''cap'', ''t1'')), (40, (''cap'', ''t1''))]
     (reserve_all toy_blast [(10, (''cap'', ''t1'')), (20, (''x'', ''t1''))] \<lparr>bs_redis = None, bs_windows = Map.empty\<rparr>)) \<le> 2"
proof -
  have "0 < window_of toy_blast" by (simp add: toy_blast_window)
  with blast_radius_slides [of "\<lparr>bs_redis = None, bs_windows = Map.empty\<rparr>" toy_blast "[(10, (''cap'', ''t1'')), (20, (''x'', ''t1''))]"
      "[(30, (''cap'', ''t1'')), (40, (''cap'', ''t1''))]" "(''cap'', ''t1'')"]
  show ?thesis by (simp add: toy_blast_window) (simp add: toy_blast_def)
qed

text \<open>Admissions of one key in Redis while its counter lives: the rest of the budget.\<close>

lemma redis_admissions:
  assumes "0 < bc_MaxDevices cfg" and "0 < window_of cfg"
  shows "bs_redis s = Some kv \<Longrightarrow> redis_get t kv (blast_redis_key (fst k) (snd k)) = Some (n, Some e) \<Longrightarrow>
    0 < n \<Longrightarrow> n + int m = bc_MaxDevices cfg \<Longrightarrow>
    \<exists>kv'. admissions (reserve_step cfg) k (replicate m (t, k) @ hs) s
        = m + admissions (reserve_step cfg) k hs (s\<lparr>bs_redis := Some kv'\<rparr>)
      \<and> redis_get t kv' (blast_redis_key (fst k) (snd k)) = Some (bc_MaxDevices cfg, Some e)"
proof (induction m arbitrary: s kv n)
  case 0
  have same: "s\<lparr>bs_redis := Some kv\<rparr> = s" using 0 by simp
  from 0 show ?case by (intro exI [of _ kv]) (simp only: same, simp)
next
  case (Suc m)
  let ?k = "blast_redis_key (fst k) (snd k)"
  have te: "t < e" using Suc.prems(2) by (simp add: redis_get_Some)
  have "reserveRedis True (window_of cfg) (bc_MaxDevices cfg) t ?k kv = (True, kv(?k \<mapsto> (n + 1, Some e)))"
    using Suc.prems by (simp add: reserveRedis_def redis_incr_def Let_def)
  then have r: "reserve_step cfg t k s = (True, s\<lparr>bs_redis := Some (kv(?k \<mapsto> (n + 1, Some e)))\<rparr>)"
    by (simp add: reserve_step_redis [OF Suc.prems(1) assms(1)])
  let ?kv = "kv(?k \<mapsto> (n + 1, Some e))"
  let ?s = "s\<lparr>bs_redis := Some ?kv\<rparr>"
  have "n + 1 + int m = bc_MaxDevices cfg" and "0 < n + 1" using Suc.prems(3,4) by simp_all
  moreover have "bs_redis ?s = Some ?kv" and "redis_get t ?kv ?k = Some (n + 1, Some e)" using te by simp_all
  ultimately have "\<exists>kv'. admissions (reserve_step cfg) k (replicate m (t, k) @ hs) ?s
        = m + admissions (reserve_step cfg) k hs (?s\<lparr>bs_redis := Some kv'\<rparr>)
      \<and> redis_get t kv' ?k = Some (bc_MaxDevices cfg, Some e)"
    by (intro Suc.IH)
  then obtain kv' where "admissions (reserve_step cfg) k (replicate m (t, k) @ hs) ?s
        = m + admissions (reserve_step cfg) k hs (?s\<lparr>bs_redis := Some kv'\<rparr>)"
      "redis_get t kv' ?k = Some (bc_MaxDevices cfg, Some e)"
    by blast
  then show ?case by (intro exI [of _ kv']) (simp add: r)
qed

lemma redis_first:
  assumes "0 < bc_MaxDevices cfg" and "bs_redis s = Some kv" and "redis_get t kv (blast_redis_key (fst k) (snd k)) = None"
  shows "reserve_step cfg t k s = (True, s\<lparr>bs_redis := Some (kv(blast_redis_key (fst k) (snd k) \<mapsto> (1, Some (t + window_of cfg))))\<rparr>)"
  using assms(1,3)
  by (auto simp: reserve_step_redis [OF assms(2,1)] reserveRedis_def redis_incr_def redis_expire_def redis_get_def)

text \<open>
  With Redis the window does not slide: the counter lives from its first reservation for one
  window and then starts again at zero. Around that moment \<open>2 * MaxDevices - 1\<close> actions are admitted within two
  nanoseconds, for every cap and every window longer than that.
\<close>

theorem blast_radius_redis_doubles:
  assumes "bs_redis s = Some Map.empty" and "0 < bc_MaxDevices cfg" and "1 < window_of cfg"
  shows "\<exists>past hs. sorted (map fst (past @ hs)) \<and> (\<forall>(u, j) \<in> set hs. j = k \<and> u \<le> fst (hd hs) + 1)
    \<and> int (admissions (reserve_step cfg) k hs (reserve_all cfg past s)) = 2 * bc_MaxDevices cfg - 1"
proof -
  let ?W = "window_of cfg" and ?k = "blast_redis_key (fst k) (snd k)"
  obtain m where m: "bc_MaxDevices cfg = int (Suc m)"
    using assms(2) by (metis zero_less_imp_eq_int gr0_implies_Suc)
  have W: "0 < ?W" using assms(3) by simp
  let ?s1 = "s\<lparr>bs_redis := Some [?k \<mapsto> (1, Some ?W)]\<rparr>"
  let ?tail = "(?W, k) # replicate m (?W, k)"
  let ?hs = "replicate m (?W - 1, k) @ ?tail"
  have s1: "reserve_all cfg [(0, k)] s = ?s1"
    by (simp add: redis_first [OF assms(2,1)] redis_get_def)
  obtain kv1 where 1: "admissions (reserve_step cfg) k ?hs ?s1 = m + admissions (reserve_step cfg) k ?tail (?s1\<lparr>bs_redis := Some kv1\<rparr>)"
      and kv1: "redis_get (?W - 1) kv1 ?k = Some (bc_MaxDevices cfg, Some ?W)"
    using redis_admissions [OF assms(2) W, of ?s1 "[?k \<mapsto> (1, Some ?W)]" "?W - 1" k 1 ?W m ?tail] m by auto
  have "redis_get ?W kv1 ?k = None" using kv1 by (auto simp: redis_get_def split: option.splits)
  then have f: "reserve_step cfg ?W k (s\<lparr>bs_redis := Some kv1\<rparr>) = (True, s\<lparr>bs_redis := Some (kv1(?k \<mapsto> (1, Some (?W + ?W))))\<rparr>)"
    by (simp add: redis_first [OF assms(2)])
  obtain kv2 where 2: "admissions (reserve_step cfg) k (replicate m (?W, k) @ []) (s\<lparr>bs_redis := Some (kv1(?k \<mapsto> (1, Some (?W + ?W))))\<rparr>) = m + 0"
    using redis_admissions [OF assms(2) W, of "s\<lparr>bs_redis := Some (kv1(?k \<mapsto> (1, Some (?W + ?W))))\<rparr>"
        "kv1(?k \<mapsto> (1, Some (?W + ?W)))" ?W k 1 "?W + ?W" m "[]"] m W by auto
  have "int (admissions (reserve_step cfg) k ?hs (reserve_all cfg [(0, k)] s)) = 2 * bc_MaxDevices cfg - 1"
    unfolding s1 using 1 2 by (simp add: f m)
  moreover have "sorted (map fst ([(0, k)] @ ?hs))" using assms(3) by (auto simp: sorted_append set_replicate_conv_if)
  moreover have "\<forall>(u, j) \<in> set ?hs. j = k \<and> u \<le> fst (hd ?hs) + 1" by (cases m) auto
  ultimately show ?thesis by blast
qed

lemma blast_radius_redis_doubles_witness:
  "\<exists>past hs. sorted (map fst (past @ hs)) \<and> (\<forall>(u, j) \<in> set hs. j = (''cap'', ''t1'') \<and> u \<le> fst (hd hs) + 1)
    \<and> int (admissions (reserve_step toy_blast) (''cap'', ''t1'') hs
            (reserve_all toy_blast past \<lparr>bs_redis = Some Map.empty, bs_windows = Map.empty\<rparr>)) = 3"
  using blast_radius_redis_doubles [of "\<lparr>bs_redis = Some Map.empty, bs_windows = Map.empty\<rparr>" toy_blast "(''cap'', ''t1'')"]
  by (simp add: toy_blast_window) (simp add: toy_blast_def)

text \<open>A lost \<open>EXPIRE\<close> leaves the counter without end, and a lost query of the cap removes it.\<close>

lemma lost_expire_is_final:
  assumes "kv key = Some (maxDev, None)" and "0 < maxDev"
  shows "reserveRedis e ttl maxDev now key kv = (False, kv)"
proof -
  have "kv(key \<mapsto> (maxDev, None)) = kv" using assms(1) by (auto simp: fun_eq_iff)
  with assms show ?thesis by (simp add: reserveRedis_def redis_incr_def redis_decr_def redis_get_def)
qed

lemma lost_config_is_unlimited: "fst (Reserve now i e c t (LoadConfig False t c s) b)"
  by (simp add: Reserve_def LoadConfig_def)

end
