(* ===== verification/Remediate.thy ===== *)
theory Remediate
  imports Complex_Main AlertDedup Playbooks BlastRadius
begin

text \<open>
  Auto-remediation (\<open>ai/capabilities/autoremediate.go\<close>) and the rollback orchestrator
  (\<open>rollback_orchestrator.go\<close>): the decision through the chokepoint, the gates between a decision and an action (rung,
  severity, blast radius), and the table of probes that is to watch each action for a regression. The prompt
  and the model's answer are a function of provider and model name.
\<close>

section \<open>State\<close>

record decision =
  dc_Playbook :: string
  dc_Args :: pb_args
  dc_Reason :: string
  dc_Decline :: bool
  dc_RollbackToken :: string

definition empty_decision :: decision where
  "empty_decision = \<lparr>dc_Playbook = [], dc_Args = [], dc_Reason = [], dc_Decline = False, dc_RollbackToken = []\<rparr>"

record remediation_result =
  rr_Decision :: decision
  rr_Applied :: bool
  rr_RollbackToken :: string
  rr_OutcomeAt :: int

definition no_result :: remediation_result where
  "no_result = \<lparr>rr_Decision = empty_decision, rr_Applied = False, rr_RollbackToken = [], rr_OutcomeAt = 0\<rparr>"

record probe_row =
  qb_id :: string
  qb_tenant :: string
  qb_device :: string
  qb_capability :: string
  qb_playbook :: string
  qb_token :: string
  qb_sig :: "string option"
  qb_pre :: "string option"
  qb_run_at :: unix
  qb_status :: string
  qb_attempts :: int
  qb_outcome :: "string option"
  qb_reason :: "string option"

record remedy_state =
  rm_ai :: ai_state
  rm_fleet :: fleet
  rm_blast :: blast_state
  rm_probes :: "probe_row list"

definition autoRemediateCapName :: string where "autoRemediateCapName = ''auto_remediate''"

section \<open>The target and the rung\<close>

text \<open>\<open>strings.Split\<close> with a one-byte separator.\<close>

fun split_on :: "char \<Rightarrow> string \<Rightarrow> string list" where
  "split_on c [] = [[]]"
| "split_on c (x # s) = (if x = c then [] # split_on c s
     else case split_on c s of [] \<Rightarrow> [[x]] | p # ps \<Rightarrow> (x # p) # ps)"

definition split_tags :: "string \<Rightarrow> string list" where
  "split_tags csv = (if csv = [] then [] else filter (\<lambda>t. t \<noteq> []) (map trim_space (split_on CHR '','' csv)))"

definition resolveTarget :: "alert_context \<Rightarrow> fleet \<Rightarrow> target" where
  "resolveTarget a s =
     (let t = \<lparr>tg_TenantID = al_TenantID a, tg_CustomerID = al_CustomerID a, tg_DeviceID = al_DeviceID a, tg_OSClass = [], tg_Tags = []\<rparr> in
      if al_DeviceID a = [] then t
      else case find_device (\<lambda>d. dv_id d = al_DeviceID a \<and> dv_tenant d = al_TenantID a) s of
        None \<Rightarrow> t
      | Some d \<Rightarrow> t\<lparr>tg_OSClass := dv_os_class d,
            tg_Tags := split_tags (fl_tags s (dv_id d))\<rparr>)"

definition loadCapabilityRung :: "bool \<Rightarrow> string \<Rightarrow> string \<Rightarrow> ai_state \<Rightarrow> rung" where
  "loadCapabilityRung ok tenantID capName s =
     (let r = (case (if ok then ai_configs s (tenantID, capName) else None) of None \<Rightarrow> [] | Some c \<Rightarrow> cc_rung c)
      in if r = [] then RungShadow else r)"

definition rungAllowsApply :: "rung \<Rightarrow> bool" where
  "rungAllowsApply r = (r = RungActLow \<or> r = RungActPolicy \<or> r = RungAutonomous)"

section \<open>Probes\<close>

text \<open>\<open>registerRollbackProbe\<close>: \<open>seq\<close> is the drawn id. The unique index makes a duplicate a no-op.\<close>

definition same_probe :: "probe_row \<Rightarrow> probe_row \<Rightarrow> bool" where
  "same_probe p q = (qb_tenant p = qb_tenant q \<and> qb_token p = qb_token q
     \<and> (case qb_sig p of None \<Rightarrow> ''__null__'' | Some x \<Rightarrow> x) = (case qb_sig q of None \<Rightarrow> ''__null__'' | Some x \<Rightarrow> x))"

definition registerRollbackProbe :: "ai_world \<Rightarrow> bool \<Rightarrow> probe_row \<Rightarrow> probe_row list \<Rightarrow> probe_row list" where
  "registerRollbackProbe w ins_ok p ps =
     (if \<not> is_ok (SupportedDialect w) then ps
      else if \<not> ins_ok \<or> list_ex (same_probe p) ps then ps
      else p # ps)"

text \<open>\<open>stampRollbackToken\<close>: the newest run of the capability on the device.\<close>

definition token_mark :: "string \<Rightarrow> string" where
  "token_mark token = '' |rollback_token='' @ token"

definition latest_run :: "(ai_run \<Rightarrow> bool) \<Rightarrow> ai_run list \<Rightarrow> ai_run option" where
  "latest_run P runs = (case sort_key (\<lambda>r. - ru_created r) (filter P runs) of [] \<Rightarrow> None | r # _ \<Rightarrow> Some r)"

definition update_run :: "(ai_run \<Rightarrow> bool) \<Rightarrow> (ai_run \<Rightarrow> ai_run) \<Rightarrow> ai_state \<Rightarrow> ai_state" where
  "update_run P f s = (case latest_run P (ai_runs s) of
     None \<Rightarrow> s | Some x \<Rightarrow> s\<lparr>ai_runs := map (\<lambda>r. if ru_id r = ru_id x then f r else r) (ai_runs s)\<rparr>)"

definition stampRollbackToken :: "bool \<Rightarrow> string \<Rightarrow> string \<Rightarrow> string \<Rightarrow> ai_state \<Rightarrow> ai_state" where
  "stampRollbackToken ok tenantID deviceID token s =
     (if token = [] \<or> tenantID = [] then s
      else if \<not> ok then s
      else update_run (\<lambda>r. ru_tenant r = tenantID \<and> ru_capability r = Some autoRemediateCapName \<and> ru_device r = Some deviceID)
             (\<lambda>r. r\<lparr>ru_action := Some ((case ru_action r of None \<Rightarrow> [] | Some x \<Rightarrow> x) @ token_mark token)\<rparr>) s)"

section \<open>Remediate\<close>

text \<open>What the closure makes of the model's answer: an unlisted playbook is a decline.\<close>

definition settle_decision :: "(string \<Rightarrow> decision \<Rightarrow> decision) \<Rightarrow> playbook list \<Rightarrow> string \<Rightarrow> decision" where
  "settle_decision decode candidates content =
     (let d = decode content empty_decision in
      if list_ex (\<lambda>c. pb_Name c = dc_Playbook d) candidates then d
      else d\<lparr>dc_Decline := True, dc_Playbook := [], dc_Reason := ''model picked an unlisted playbook: '' @ dc_Reason d\<rparr>)"

definition remediate_input :: "alert_context \<Rightarrow> device_snapshot list \<Rightarrow> int \<Rightarrow> input" where
  "remediate_input a devs estimate = \<lparr>in_TenantID = al_TenantID a, in_CapabilityID = autoRemediateCapName, in_CustomerID = al_CustomerID a,
     in_DeviceID = al_DeviceID a, in_TicketID = [], in_RunType = RunTypeChat, in_Devices = devs, in_Estimate = estimate, in_Chain = []\<rparr>"

definition logNoOp :: "ai_world \<Rightarrow> string \<Rightarrow> (decision \<Rightarrow> string) \<Rightarrow> alert_context \<Rightarrow> string \<Rightarrow> ai_state \<Rightarrow> (ai_error, run_output) result \<times> ai_state" where
  "logNoOp w runID enc a reason s =
     (let payload = enc (empty_decision\<lparr>dc_Decline := True, dc_Reason := reason\<rparr>)
      in Run w runID (remediate_input a [] 0) (\<lambda>_ _. Called (Some (synthetic payload ''auto_remediate_noop'')) None payload None) s)"

datatype remedy_error = No_tenant | Chokepoint ai_error | BlastRadiusExceeded | ApplyFailed pb_error

record remedy_world =
  mw_run_id :: string
  mw_chat :: "provider \<Rightarrow> string \<Rightarrow> (string, chat_response) result"
  mw_decode :: "string \<Rightarrow> decision \<Rightarrow> decision"
  mw_enc :: "decision \<Rightarrow> string"
  mw_rung_ok :: bool
  mw_config_ok :: bool
  mw_incr_ok :: bool
  mw_expire_ok :: bool
  mw_stamp_ok :: bool
  mw_probe_ok :: bool
  mw_ns :: int
  mw_probe_id :: string
  mw_end :: unix
  mw_err :: "pb_error \<Rightarrow> string"
  mw_blast_err :: string

text \<open>From the decision to the action: rung, severity, blast radius, \<open>Apply\<close>. The second component is the error.\<close>

definition act_on ::
  "ai_world \<Rightarrow> remedy_world \<Rightarrow> pb_world \<Rightarrow> pb_registry \<Rightarrow> alert_context \<Rightarrow> target \<Rightarrow> decision \<Rightarrow> remedy_state
    \<Rightarrow> (remediation_result \<times> remedy_error option) \<times> remedy_state" where
  "act_on w m pw pbs a t d s =
     (let res = no_result\<lparr>rr_Decision := d\<rparr>; rung = loadCapabilityRung (mw_rung_ok m) (al_TenantID a) autoRemediateCapName (rm_ai s) in
      if dc_Decline d \<or> dc_Playbook d = [] then ((res, None), s)
      else if \<not> rungAllowsApply rung then ((res, None), s)
      else case LookupPlaybook pbs (dc_Playbook d) of
        None \<Rightarrow> ((res, None), s)
      | Some p \<Rightarrow>
        if \<not> is_ok (SeverityForRung (pb_Severity p) rung) then ((res, None), s)
        else case Reserve (mw_ns m) (mw_incr_ok m) (mw_expire_ok m) autoRemediateCapName (al_TenantID a)
               (LoadConfig (mw_config_ok m) (al_TenantID a) autoRemediateCapName (rm_ai s)) (rm_blast s) of
          (False, b) \<Rightarrow> ((res, Some BlastRadiusExceeded), s\<lparr>rm_blast := b\<rparr>)
        | (True, b) \<Rightarrow>
          (case pb_Apply p pw t (dc_Args d) (rm_fleet s) of
             ((err, ap), fl) \<Rightarrow>
               let s = s\<lparr>rm_blast := b, rm_fleet := fl\<rparr> in
               (case err of Some e \<Rightarrow> ((res, Some (ApplyFailed e)), s)
                | None \<Rightarrow> if \<not> ar_Success ap then ((res, None), s)
                else let token = ar_RollbackToken ap; due = mw_end m + int (ar_RollbackWindow ap);
                         res = res\<lparr>rr_Applied := True, rr_RollbackToken := token\<rparr>;
                         s = s\<lparr>rm_ai := stampRollbackToken (mw_stamp_ok m) (al_TenantID a) (al_DeviceID a) token (rm_ai s)\<rparr>
                     in if ar_RollbackWindow ap > 0
                        then ((res\<lparr>rr_OutcomeAt := due\<rparr>, None), s\<lparr>rm_probes := registerRollbackProbe w (mw_probe_ok m)
                               \<lparr>qb_id = mw_probe_id m, qb_tenant = al_TenantID a, qb_device = al_DeviceID a, qb_capability = autoRemediateCapName,
                                qb_playbook = dc_Playbook d, qb_token = token, qb_sig = nullable (alertSignature w a),
                                qb_pre = nullable (ar_RollbackPreconditions ap), qb_run_at = due, qb_status = ''pending'', qb_attempts = 0,
                                qb_outcome = None, qb_reason = None\<rparr> (rm_probes s)\<rparr>)
                        else ((res, None), s))))"

definition Remediate ::
  "ai_world \<Rightarrow> remedy_world \<Rightarrow> pb_world \<Rightarrow> pb_registry \<Rightarrow> alert_context \<Rightarrow> remedy_state
    \<Rightarrow> (remediation_result \<times> remedy_error option) \<times> remedy_state" where
  "Remediate w m pw pbs a s =
     (if al_TenantID a = [] then ((no_result, Some No_tenant), s)
      else let t = resolveTarget a (rm_fleet s); candidates = CandidatesFor pbs t in
      if candidates = [] then
        (case logNoOp w (mw_run_id m) (mw_enc m) a ''no applicable playbook'' (rm_ai s) of
           (r, ai) \<Rightarrow> ((no_result, case r of Inl e \<Rightarrow> Some (Chokepoint e) | Inr _ \<Rightarrow> None), s\<lparr>rm_ai := ai\<rparr>))
      else
        let snap = \<lparr>ds_ID = tg_DeviceID t, ds_TenantID = tg_TenantID t, ds_OSClass = tg_OSClass t, ds_Tags = tg_Tags t\<rparr> in
        (case Run w (mw_run_id m) (remediate_input a [snap] 3000)
           (\<lambda>p model. case mw_chat m p model of Inl e \<Rightarrow> Called None None [] (Some e)
              | Inr resp \<Rightarrow> Called (Some resp) None (mw_enc m (settle_decision (mw_decode m) candidates (ch_Content resp))) None) (rm_ai s) of
           (Inl e, ai) \<Rightarrow> ((no_result, Some (Chokepoint e)), s\<lparr>rm_ai := ai\<rparr>)
         | (Inr out, ai) \<Rightarrow>
             act_on w m pw pbs a t (case ro_ChatResp out of None \<Rightarrow> empty_decision
                | Some resp \<Rightarrow> settle_decision (mw_decode m) candidates (ch_Content resp)) (s\<lparr>rm_ai := ai\<rparr>)))"

section \<open>The manual run\<close>

text \<open>
  \<open>aiRunPlaybook\<close> (\<open>handlers/ai.go\<close>), behind the admin chain. \<open>tid\<close> is the tenant the caller acts on;
  the body has the device, the customer, the arguments and the confirmation.
\<close>

definition loadTargetForPlaybook :: "bool \<Rightarrow> string \<Rightarrow> string \<Rightarrow> string \<Rightarrow> fleet \<Rightarrow> target option" where
  "loadTargetForPlaybook ok tenantID customerID deviceID s =
     (case (if ok then find_device (\<lambda>d. dv_id d = deviceID \<and> dv_tenant d = tenantID) s else None) of
        None \<Rightarrow> None
      | Some d \<Rightarrow> Some \<lparr>tg_TenantID = tenantID, tg_CustomerID = customerID, tg_DeviceID = deviceID,
          tg_OSClass = dv_os_class d, tg_Tags = split_tags (fl_tags s (dv_id d))\<rparr>)"

datatype run_reply = ConfirmPlan plan_result string | Ran applied

definition aiRunPlaybook ::
  "locals \<Rightarrow> remedy_world \<Rightarrow> pb_world \<Rightarrow> bool \<Rightarrow> pb_registry \<Rightarrow> string \<Rightarrow> string \<Rightarrow> (string \<times> string \<times> pb_args \<times> bool) option
    \<Rightarrow> remedy_state \<Rightarrow> (http_error, run_reply) result \<times> remedy_state" where
  "aiRunPlaybook c m pw ok pbs tid name body s =
     (case LookupPlaybook pbs name of
        None \<Rightarrow> (Inl (HttpError 404 ''unknown playbook''), s)
      | Some p \<Rightarrow>
        (case body of
           None \<Rightarrow> (Inl (HttpError 400 ''device_id required''), s)
         | Some (deviceID, customerID, args, confirm) \<Rightarrow>
           if deviceID = [] then (Inl (HttpError 400 ''device_id required''), s)
           else if \<not> confirm then
             (case loadTargetForPlaybook ok tid customerID deviceID (rm_fleet s) of
                None \<Rightarrow> (Inl (HttpError 400 ''device not found in tenant''), s)
              | Some t \<Rightarrow> (case pb_Plan p t args of
                    Inl e \<Rightarrow> (Inl (HttpError 400 (mw_err m e)), s)
                  | Inr plan \<Rightarrow> (Inr (ConfirmPlan plan (pb_Severity p)), s)))
           else if (pb_Severity p = ''high'' \<or> pb_Severity p = ''critical'') \<and> \<not> IsSuperAdmin (l_user_role c)
             then (Inl (HttpError 403 ''high/critical-severity playbooks require super_admin''), s)
           else
             (case loadTargetForPlaybook ok tid customerID deviceID (rm_fleet s) of
                None \<Rightarrow> (Inl (HttpError 400 ''device not found in tenant''), s)
              | Some t \<Rightarrow>
                if \<not> pb_AppliesTo p t then (Inl (HttpError 400 ''playbook is not applicable to this device (os_class or excluded tag)''), s)
                else case Reserve (mw_ns m) (mw_incr_ok m) (mw_expire_ok m) autoRemediateCapName tid
                       (LoadConfig (mw_config_ok m) tid autoRemediateCapName (rm_ai s)) (rm_blast s) of
                  (False, b) \<Rightarrow> (Inl (HttpError 429 (mw_blast_err m)), s\<lparr>rm_blast := b\<rparr>)
                | (True, b) \<Rightarrow>
                  (case pb_Apply p pw t args (rm_fleet s) of
                     ((Some e, _), fl) \<Rightarrow> (Inl (HttpError 500 (mw_err m e)), s\<lparr>rm_blast := b, rm_fleet := fl\<rparr>)
                   | ((None, ap), fl) \<Rightarrow> (Inr (Ran ap), s\<lparr>rm_blast := b, rm_fleet := fl\<rparr>)))))"

section \<open>The rollback orchestrator\<close>

text \<open>
  One pass of a node: it claims up to 50 due probes in a transaction and processes each. \<open>ow_has_sig\<close> is the containment
  test of the database on a stored action; the tokens in the table are those of playbooks, without \<open>%\<close> and backslash.
\<close>

record orch_world =
  ow_now :: unix
  ow_seen_ok :: bool
  ow_os_ok :: bool
  ow_mark_ok :: bool
  ow_has_sig :: "string \<Rightarrow> string \<Rightarrow> bool"
  ow_pb :: pb_world
  ow_err :: "pb_error \<Rightarrow> string"

definition due_probes :: "unix \<Rightarrow> probe_row list \<Rightarrow> probe_row list" where
  "due_probes now ps = take 50 (sort_key qb_run_at (filter (\<lambda>p. qb_status p = ''pending'' \<and> qb_run_at p \<le> now) ps))"

definition claim_probes :: "unix \<Rightarrow> probe_row list \<Rightarrow> probe_row list" where
  "claim_probes now ps = map (\<lambda>p. if qb_id p \<in> qb_id ` set (due_probes now ps)
     then p\<lparr>qb_status := ''in_progress'', qb_attempts := qb_attempts p + 1\<rparr> else p) ps"

definition finishProbe :: "probe_row \<Rightarrow> string \<Rightarrow> string \<Rightarrow> remedy_state \<Rightarrow> remedy_state" where
  "finishProbe prb outcome reason s = s\<lparr>rm_probes := map (\<lambda>p. if qb_id p = qb_id prb
     then p\<lparr>qb_status := ''done'', qb_outcome := Some outcome, qb_reason := Some (SanitizeFreeText reason)\<rparr> else p) (rm_probes s)\<rparr>"

definition alertSignatureSeenSince :: "orch_world \<Rightarrow> string \<Rightarrow> string \<Rightarrow> unix \<Rightarrow> ai_run list \<Rightarrow> bool" where
  "alertSignatureSeenSince o' tenantID sig since runs =
     (sig \<noteq> [] \<and> ow_seen_ok o' \<and> list_ex (\<lambda>r. ru_tenant r = tenantID \<and> ru_capability r = Some alertDedupCapName
        \<and> ru_created r \<ge> since \<and> (case ru_action r of None \<Rightarrow> False | Some x \<Rightarrow> ow_has_sig o' x sig)) runs)"

text \<open>\<open>LIKE '%' || p || '%'\<close>, in which an underscore stands for any character.\<close>

fun like_at :: "string \<Rightarrow> string \<Rightarrow> bool" where
  "like_at s [] = True"
| "like_at [] (p # ps) = False"
| "like_at (c # s) (p # ps) = ((p = CHR ''_'' \<or> p = c) \<and> like_at s ps)"

fun like_in :: "string \<Rightarrow> string \<Rightarrow> bool" where
  "like_in [] p = like_at [] p"
| "like_in (c # s) p = (like_at (c # s) p \<or> like_in s p)"

definition markRunOutcomeAuto :: "orch_world \<Rightarrow> probe_row \<Rightarrow> string \<Rightarrow> ai_state \<Rightarrow> ai_state" where
  "markRunOutcomeAuto o' prb outcome s =
     (if \<not> ow_mark_ok o' then s
      else update_run (\<lambda>r. ru_tenant r = qb_tenant prb \<and> ru_capability r = Some (qb_capability prb)
          \<and> ru_device r = Some (qb_device prb) \<and> ru_outcome r = None
          \<and> (case ru_action r of None \<Rightarrow> False | Some x \<Rightarrow> like_in x (''rollback_token='' @ qb_token prb)))
        (\<lambda>r. r\<lparr>ru_outcome := Some outcome\<rparr>) s)"

definition conclude :: "orch_world \<Rightarrow> probe_row \<Rightarrow> string \<Rightarrow> string \<Rightarrow> remedy_state \<Rightarrow> remedy_state" where
  "conclude o' prb outcome reason s =
     finishProbe prb outcome reason (s\<lparr>rm_ai := markRunOutcomeAuto o' prb outcome (rm_ai s)\<rparr>)"

definition processProbe :: "orch_world \<Rightarrow> pb_registry \<Rightarrow> probe_row \<Rightarrow> remedy_state \<Rightarrow> remedy_state" where
  "processProbe o' pbs prb s =
     (if \<not> alertSignatureSeenSince o' (qb_tenant prb) (case qb_sig prb of None \<Rightarrow> [] | Some x \<Rightarrow> x) (qb_run_at prb - 300) (ai_runs (rm_ai s))
      then conclude o' prb ''correct'' ''no regression in window'' s
      else case LookupPlaybook pbs (qb_playbook prb) of
        None \<Rightarrow> finishProbe prb ''unclear'' ''playbook no longer registered'' s
      | Some p \<Rightarrow>
        let os = (case (if ow_os_ok o' then find_device (\<lambda>d. dv_id d = qb_device prb \<and> dv_tenant d = qb_tenant prb) (rm_fleet s) else None) of
                    None \<Rightarrow> [] | Some d \<Rightarrow> dv_os_class d);
            t = \<lparr>tg_TenantID = qb_tenant prb, tg_CustomerID = [], tg_DeviceID = qb_device prb, tg_OSClass = os, tg_Tags = []\<rparr>
        in (case pb_Rollback p (ow_pb o') t (qb_token prb) (rm_fleet s) of
              (err, fl) \<Rightarrow>
                let s = s\<lparr>rm_fleet := fl\<rparr> in
                (case err of
                   None \<Rightarrow> conclude o' prb ''incorrect'' ''alert regressed; rollback succeeded'' s
                 | Some PreconditionsNotMet \<Rightarrow>
                     finishProbe prb ''unclear'' ''preconditions not met'' (s\<lparr>rm_ai := markRunOutcomeAuto o' prb ''unclear'' (rm_ai s)\<rparr>)
                 | Some e \<Rightarrow> conclude o' prb ''incorrect'' (''rollback failed: '' @ ow_err o' e) s)))"

definition runRollbackPass :: "ai_world \<Rightarrow> bool \<Rightarrow> orch_world \<Rightarrow> pb_registry \<Rightarrow> remedy_state \<Rightarrow> remedy_state" where
  "runRollbackPass w tx_ok o' pbs s =
     (if \<not> is_ok (SupportedDialect w) then s
      else if \<not> tx_ok then s
      else fold (processProbe o' pbs) (due_probes (ow_now o') (rm_probes s))
             (s\<lparr>rm_probes := claim_probes (ow_now o') (rm_probes s)\<rparr>))"

section \<open>Lemmas\<close>

subsection \<open>The gates\<close>

lemma update_run_frame [frame_simps]:
  "ai_configs (update_run P f s) = ai_configs s" "ai_flags (update_run P f s) = ai_flags s"
  by (simp_all add: update_run_def split: option.split)

lemma stamp_frame [frame_simps]: "ai_configs (stampRollbackToken ok t d tok s) = ai_configs s"
  by (simp add: stampRollbackToken_def frame_simps)

lemma rungAllowsApply_ladder: "rungAllowsApply r \<longleftrightarrow> ActLow \<le> ladder_of r"
  by (simp add: rungAllowsApply_def ladder_of_def rung_defs less_eq_ladder_def)

lemma not_shadow: "rungAllowsApply r \<Longrightarrow> r \<noteq> RungShadow \<and> r \<noteq> []"
  by (auto simp: rungAllowsApply_def rung_defs)

lemma is_ok_unit: "is_ok r \<longleftrightarrow> r = Inr ()"
  by auto

lemma act_on_gated:
  assumes "rm_fleet (snd (act_on w m pw pbs a t d s)) \<noteq> rm_fleet s \<or> rr_Applied (fst (fst (act_on w m pw pbs a t d s)))"
  shows "\<exists>p cc. LookupPlaybook pbs (dc_Playbook d) = Some p \<and> dc_Playbook d \<noteq> [] \<and> \<not> dc_Decline d
    \<and> ai_configs (rm_ai s) (al_TenantID a, autoRemediateCapName) = Some cc \<and> rungAllowsApply (cc_rung cc)
    \<and> SeverityForRung (pb_Severity p) (cc_rung cc) = Inr ()
    \<and> fst (Reserve (mw_ns m) (mw_incr_ok m) (mw_expire_ok m) autoRemediateCapName (al_TenantID a)
             (LoadConfig (mw_config_ok m) (al_TenantID a) autoRemediateCapName (rm_ai s)) (rm_blast s))"
proof -
  let ?rung = "loadCapabilityRung (mw_rung_ok m) (al_TenantID a) autoRemediateCapName (rm_ai s)"
  let ?res = "Reserve (mw_ns m) (mw_incr_ok m) (mw_expire_ok m) autoRemediateCapName (al_TenantID a)
             (LoadConfig (mw_config_ok m) (al_TenantID a) autoRemediateCapName (rm_ai s)) (rm_blast s)"
  have 1: "\<not> (dc_Decline d \<or> dc_Playbook d = [])" "rungAllowsApply ?rung"
    using assms by (auto simp: act_on_def no_result_def Let_def split: if_splits)
  obtain p where 2: "LookupPlaybook pbs (dc_Playbook d) = Some p"
    using assms 1 by (cases "LookupPlaybook pbs (dc_Playbook d)") (auto simp: act_on_def no_result_def Let_def)
  have 3: "is_ok (SeverityForRung (pb_Severity p) ?rung)"
    using assms 1 2 by (auto simp: act_on_def no_result_def Let_def split: if_splits)
  have 4: "fst ?res"
  proof (rule ccontr)
    assume "\<not> fst ?res"
    then obtain b where "?res = (False, b)" by (cases ?res) auto
    with assms 1 2 3 show False by (simp add: act_on_def no_result_def Let_def split: if_splits)
  qed
  obtain cc where "ai_configs (rm_ai s) (al_TenantID a, autoRemediateCapName) = Some cc" "cc_rung cc = ?rung"
    using not_shadow [OF 1(2)] by (auto simp: loadCapabilityRung_def Let_def split: if_splits option.splits)
  with 1 2 3 4 show ?thesis by (metis is_ok_unit)
qed

lemma act_on_configs: "ai_configs (rm_ai (snd (act_on w m pw pbs a t d s))) = ai_configs (rm_ai s)"
proof -
  have "ai_configs (rm_ai (snd (act_on w m pw pbs a t d s))) = ai_configs (rm_ai s)"
    if "LookupPlaybook pbs (dc_Playbook d) = Some p" for p
  proof -
    obtain err ap fl where ap: "pb_Apply p pw t (dc_Args d) (rm_fleet s) = ((err, ap), fl)" by (metis prod.exhaust)
    show ?thesis
      by (simp add: act_on_def that ap Let_def frame_simps split: prod.split bool.split option.split)
  qed
  then show ?thesis by (cases "LookupPlaybook pbs (dc_Playbook d)") (simp_all add: act_on_def Let_def)
qed

lemma settle_decision_listed:
  "\<not> dc_Decline (settle_decision decode cs x) \<Longrightarrow> dc_Playbook (settle_decision decode cs x) \<noteq> [] \<Longrightarrow>
     \<exists>c \<in> set cs. pb_Name c = dc_Playbook (settle_decision decode cs x)"
  by (auto simp: settle_decision_def Let_def list_ex_iff split: if_splits)

lemma Run_admitted: "Run w runID inp fn s = (Inr out, s') \<Longrightarrow> run_admitted w inp s"
  using Run_refused [of w inp s] by (auto simp: Run_def split: sum.splits prod.splits)

definition remedy_snapshot :: "target \<Rightarrow> device_snapshot" where
  "remedy_snapshot t = \<lparr>ds_ID = tg_DeviceID t, ds_TenantID = tg_TenantID t, ds_OSClass = tg_OSClass t, ds_Tags = tg_Tags t\<rparr>"

section \<open>Properties\<close>

text \<open>
  C20. No remediation without every gate: if a run of the capability changes anything on the fleet or reports an applied
  playbook, then the chokepoint admitted the call (no kill switch, AI enabled for an active tenant, capability enabled, provider
  fit), the playbook is a registered one that applies to the alert's device (its class supported, none of its tags excluded),
  the tenant's rung is at least act_low and allows the playbook's severity, and the blast radius had room.
\<close>

theorem remediation_gated:
  assumes "register_all (\<lambda>p. RegisterPlaybook (Some p)) ps [] = Inr pbs"
    and "Remediate w m pw pbs a s = ((res, err), s')"
    and "rm_fleet s' \<noteq> rm_fleet s \<or> rr_Applied res"
  shows "run_admitted w (remediate_input a [remedy_snapshot (resolveTarget a (rm_fleet s))] 3000) (rm_ai s)
    \<and> (\<exists>p \<in> set ps. pb_AppliesTo p (resolveTarget a (rm_fleet s)) \<and> dc_Playbook (rr_Decision res) = pb_Name p
        \<and> (\<exists>cc. ai_configs (rm_ai s') (al_TenantID a, autoRemediateCapName) = Some cc
             \<and> ActLow \<le> ladder_of (cc_rung cc) \<and> SeverityForRung (pb_Severity p) (cc_rung cc) = Inr ()
             \<and> fst (Reserve (mw_ns m) (mw_incr_ok m) (mw_expire_ok m) autoRemediateCapName (al_TenantID a)
                      (LoadConfig (mw_config_ok m) (al_TenantID a) autoRemediateCapName (rm_ai s')) (rm_blast s))))"
proof -
  let ?t = "resolveTarget a (rm_fleet s)"
  let ?cs = "CandidatesFor pbs ?t"
  let ?inp = "remediate_input a [remedy_snapshot ?t] 3000"
  let ?fn = "\<lambda>p model. case mw_chat m p model of Inl e \<Rightarrow> Called None None [] (Some e)
      | Inr resp \<Rightarrow> Called (Some resp) None (mw_enc m (settle_decision (mw_decode m) ?cs (ch_Content resp))) None"
  have ne: "al_TenantID a \<noteq> []" "?cs \<noteq> []"
    using assms(2,3) by (auto simp: Remediate_def no_result_def Let_def split: if_splits prod.splits)
  obtain r ai where run: "Run w (mw_run_id m) ?inp ?fn (rm_ai s) = (r, ai)" by fastforce
  have "\<exists>out. r = Inr out"
    using assms(2,3) ne run by (cases r) (auto simp: Remediate_def no_result_def remedy_snapshot_def Let_def)
  then obtain out where r: "r = Inr out" by blast
  define d where "d = (case ro_ChatResp out of None \<Rightarrow> empty_decision | Some resp \<Rightarrow> settle_decision (mw_decode m) ?cs (ch_Content resp))"
  have act: "act_on w m pw pbs a ?t d (s\<lparr>rm_ai := ai\<rparr>) = ((res, err), s')"
    using assms(2) ne run r by (simp add: Remediate_def remedy_snapshot_def d_def Let_def)
  obtain p cc where p: "LookupPlaybook pbs (dc_Playbook d) = Some p" "dc_Playbook d \<noteq> []" "\<not> dc_Decline d"
      and cc: "ai_configs ai (al_TenantID a, autoRemediateCapName) = Some cc" "rungAllowsApply (cc_rung cc)"
        "SeverityForRung (pb_Severity p) (cc_rung cc) = Inr ()"
        "fst (Reserve (mw_ns m) (mw_incr_ok m) (mw_expire_ok m) autoRemediateCapName (al_TenantID a)
             (LoadConfig (mw_config_ok m) (al_TenantID a) autoRemediateCapName ai) (rm_blast s))"
    using act_on_gated [of w m pw pbs a ?t d "s\<lparr>rm_ai := ai\<rparr>"] act assms(3) by auto
  have inv: "keyed_inv pb_Name pbs" using pb_reg.inv_boot [OF pb_reg.inv_start assms(1)] .
  obtain c where c: "c \<in> set ?cs" "pb_Name c = dc_Playbook d"
    using p(2,3) settle_decision_listed [of "mw_decode m" ?cs] by (auto simp: d_def empty_decision_def split: option.splits)
  then have "LookupPlaybook pbs (pb_Name c) = Some c" using pb_reg.listing_look [OF inv] by (auto simp: CandidatesFor_def)
  with p(1) c have pc: "p = c" by simp
  have l: "LookupPlaybook pbs = map_of (map (\<lambda>p. (pb_Name p, p)) ps)"
    using pb_reg.boot_look [OF assms(1)] by (auto simp: LookupPlaybook_def map_add_def fun_eq_iff split: option.split)
  have "p \<in> set ps" using p(1) unfolding l by (auto dest: map_of_SomeD)
  moreover have "pb_AppliesTo p ?t" using c(1) pc by (simp add: CandidatesFor_def)
  moreover have conf: "ai_configs (rm_ai s') = ai_configs ai" using act_on_configs [of w m pw pbs a ?t d "s\<lparr>rm_ai := ai\<rparr>"] act by simp
  moreover have "LoadConfig (mw_config_ok m) (al_TenantID a) autoRemediateCapName (rm_ai s') = LoadConfig (mw_config_ok m) (al_TenantID a) autoRemediateCapName ai"
    by (simp add: LoadConfig_def conf)
  moreover have "rr_Decision res = d"
  proof -
    obtain e1 ap fl where ap: "pb_Apply p pw ?t (dc_Args d) (rm_fleet s) = ((e1, ap), fl)" by (metis prod.exhaust)
    show ?thesis using act p by (auto simp: act_on_def no_result_def ap Let_def split: if_splits prod.splits bool.splits option.splits)
  qed
  ultimately show ?thesis
    using cc c(2) pc Run_admitted [OF run [unfolded r]] by (auto simp: rungAllowsApply_ladder)
qed

section \<open>A small deployment to evaluate witnesses on\<close>

definition remedy_capability :: capability where
  "remedy_capability = toy_capability\<lparr>cb_Name := autoRemediateCapName, cb_Category := ''action'', cb_Stage := 3\<rparr>"

definition remedy_ai :: ai_state where
  "remedy_ai = toy_ai\<lparr>ai_caps := [(autoRemediateCapName, remedy_capability)],
     ai_configs := [(''t'', autoRemediateCapName) \<mapsto> \<lparr>cc_enabled = 1, cc_rung = RungActLow, cc_scope = None, cc_confidence = 0,
         cc_blast_max = 2, cc_blast_window = 5, cc_demoted_at = None\<rparr>],
     ai_tenants := [''t'' \<mapsto> \<lparr>at_enabled = 1, at_status = ''active'', at_chat_cap = 9000, at_embed_cap = 9000\<rparr>]\<rparr>"

definition remedy_fleet :: fleet where
  "remedy_fleet = \<lparr>fl_devices = [toy_device\<lparr>dv_id := ''d1'', dv_tenant := ''t'', dv_os_class := ''linux-server''\<rparr>], fl_tags = (\<lambda>_. []), fl_commands = []\<rparr>"

definition remedy_toy :: remedy_state where
  "remedy_toy = \<lparr>rm_ai = remedy_ai, rm_fleet = remedy_fleet, rm_blast = \<lparr>bs_redis = None, bs_windows = Map.empty\<rparr>, rm_probes = []\<rparr>"

definition remedy_alert :: alert_context where
  "remedy_alert = toy_alert\<lparr>al_TenantID := ''t''\<rparr>"

definition restart_decision :: decision where
  "restart_decision = empty_decision\<lparr>dc_Playbook := ''restart_service'', dc_Args := [(''service'', JStr ''nginx'')]\<rparr>"

definition toy_remedy_world :: remedy_world where
  "toy_remedy_world = \<lparr>mw_run_id = ''r'', mw_chat = (\<lambda>_ _. Inr \<lparr>ch_Content = ''x'', ch_PromptTokens = 20, ch_OutputTokens = 0,
       ch_ModelVersion = ''v1'', ch_Synthetic = False, ch_SyntheticSource = []\<rparr>),
     mw_decode = (\<lambda>_ _. restart_decision), mw_enc = (\<lambda>_. ''{}''), mw_rung_ok = True, mw_config_ok = True, mw_incr_ok = True, mw_expire_ok = True,
     mw_stamp_ok = True, mw_probe_ok = True, mw_ns = 0, mw_probe_id = ''p1'', mw_end = 2000, mw_err = (\<lambda>_. []), mw_blast_err = []\<rparr>"

lemma toy_target_resolved:
  "resolveTarget remedy_alert remedy_fleet = \<lparr>tg_TenantID = ''t'', tg_CustomerID = [], tg_DeviceID = ''d1'', tg_OSClass = ''linux-server'', tg_Tags = []\<rparr>"
  by (simp add: resolveTarget_def remedy_alert_def toy_alert_def remedy_fleet_def find_device_def split_tags_def Let_def)

lemma toy_remedy_run:
  assumes "in_TenantID i = ''t''" and "in_CapabilityID i = autoRemediateCapName" and "in_RunType i = RunTypeChat" and "in_Estimate i = 3000"
  shows "\<exists>out ai. Run toy_ai_world ''r'' i (\<lambda>_ _. Called (Some resp) None act None) remedy_ai = (Inr out, ai)
    \<and> ro_ChatResp out = Some resp \<and> ai_configs ai = ai_configs remedy_ai"
proof -
  have "\<exists>cfg prov. run_checks toy_ai_world i remedy_ai = Inr (cfg, remedy_capability, prov) \<and> rc_rung cfg = RungActLow \<and> rc_costKind cfg = CostChat"
    using assms by (simp add: run_checks_def SupportedDialect_def toy_ai_world_def remedy_ai_def toy_ai_def remedy_capability_def toy_capability_def
        IsKilled_def loadRuntime_def task_type_def Lookup_def loadProvider_def Build_def providerSupports_def toy_caps_def
        CheckDependencies_def rung_defs autoRemediateCapName_def)
  then obtain cfg prov where c: "run_checks toy_ai_world i remedy_ai = Inr (cfg, remedy_capability, prov)"
    "rc_rung cfg = RungActLow" "rc_costKind cfg = CostChat" by blast
  have "\<exists>s1. ReserveCost toy_ai_world (in_TenantID i) CostChat (in_Estimate i) remedy_ai = (Inr (), s1)"
    using assms by (simp add: ReserveCost_def loadCap_def incr_by_def toy_ai_world_def remedy_ai_def toy_ai_def)
  then obtain s1 where r: "ReserveCost toy_ai_world (in_TenantID i) CostChat (in_Estimate i) remedy_ai = (Inr (), s1)" by blast
  have g: "run_gates toy_ai_world i remedy_ai = (Inr (cfg, hashSnapshot toy_ai_world i, prov), s1)"
    using c r by (simp add: run_gates_def rung_defs)
  have "ai_configs s1 = ai_configs remedy_ai"
    using Reserve_frame(3) [of toy_ai_world "in_TenantID i" CostChat "in_Estimate i" remedy_ai] r by simp
  moreover have "\<not> rw_down toy_ai_world Q_persist" by (simp add: toy_ai_world_def)
  ultimately show ?thesis
    by (simp add: Run_def g run_settle_def callSafely_def persistRun_def Let_def) (simp add: ReleaseCost_def incr_by_def)
qed

lemma remedy_candidates:
  "register_all (\<lambda>p. RegisterPlaybook (Some p)) playbook_inits [] = Inr pbs \<Longrightarrow> AllPlaybooks pbs = playbook_inits
     \<and> LookupPlaybook pbs ''restart_service'' = Some restartService"
proof -
  assume b: "register_all (\<lambda>p. RegisterPlaybook (Some p)) playbook_inits [] = Inr pbs"
  with playbook_boot obtain l: "LookupPlaybook pbs = map_of (map (\<lambda>p. (pb_Name p, p)) playbook_inits)" "AllPlaybooks pbs = playbook_inits"
    by auto
  then show ?thesis by (simp add: playbook_inits_def playbook_defs)
qed

lemma restart_queues:
  "fl_commands (snd (restart_apply quiet_world (resolveTarget remedy_alert remedy_fleet) [(''service'', JStr ''nginx'')] remedy_fleet)) \<noteq> []"
  unfolding toy_target_resolved
  by (simp add: restart_apply_def stringArg_def looksSafeServiceName_def safe_char_def between_def less_eq_char_def buildRestartCommand_def isLinux_def
      issue_def queueAgentCommand_def find_device_def remedy_fleet_def quiet_world_def add_command_def watch_def Let_def split: sum.split)

lemma severity_gate_low: "SeverityForRung ''low'' RungActLow = Inr ()"
  by (simp add: SeverityForRung_def pb_rungAtLeast_def rung_defs)

lemma remediation_gated_witness:
  "run_admitted toy_ai_world (remediate_input remedy_alert [remedy_snapshot (resolveTarget remedy_alert remedy_fleet)] 3000) remedy_ai"
proof -
  obtain pbs where b: "register_all (\<lambda>p. RegisterPlaybook (Some p)) playbook_inits [] = Inr pbs" using playbook_boot by blast
  note c = remedy_candidates [OF b]
  let ?t = "resolveTarget remedy_alert remedy_fleet"
  let ?i = "remediate_input remedy_alert [remedy_snapshot ?t] 3000"
  let ?resp = "\<lparr>ch_Content = ''x'', ch_PromptTokens = 20, ch_OutputTokens = 0, ch_ModelVersion = ''v1'', ch_Synthetic = False, ch_SyntheticSource = []\<rparr>"
  have cs: "restartService \<in> set (CandidatesFor pbs ?t)"
    using c by (simp add: CandidatesFor_def playbook_inits_def toy_target_resolved)
      (simp add: restartService_def restart_applies_def isLinux_def excluded_def)
  then have ne: "CandidatesFor pbs ?t \<noteq> []" by auto
  have settle: "settle_decision (mw_decode toy_remedy_world) (CandidatesFor pbs ?t) x = restart_decision" for x
  proof -
    have "list_ex (\<lambda>c. pb_Name c = ''restart_service'') (CandidatesFor pbs ?t)"
      using cs by (auto simp: list_ex_iff restartService_def intro!: bexI [of _ restartService])
    then show ?thesis by (simp add: settle_decision_def toy_remedy_world_def restart_decision_def empty_decision_def)
  qed
  obtain out ai where run: "Run toy_ai_world ''r'' ?i (\<lambda>_ _. Called (Some ?resp) None ''{}'' None) remedy_ai = (Inr out, ai)"
      "ro_ChatResp out = Some ?resp" and conf: "ai_configs ai = ai_configs remedy_ai"
    using toy_remedy_run [of ?i ?resp "''{}''"] by (auto simp: remediate_input_def remedy_alert_def)
  have R: "Remediate toy_ai_world toy_remedy_world quiet_world pbs remedy_alert remedy_toy
      = act_on toy_ai_world toy_remedy_world quiet_world pbs remedy_alert ?t restart_decision (remedy_toy\<lparr>rm_ai := ai\<rparr>)"
    using run ne settle by (simp add: Remediate_def remedy_snapshot_def Let_def) (simp add: toy_remedy_world_def remedy_toy_def remedy_alert_def)
  have "\<exists>b. Reserve 0 True True autoRemediateCapName ''t'' (LoadConfig True ''t'' autoRemediateCapName ai) \<lparr>bs_redis = None, bs_windows = Map.empty\<rparr> = (True, b)"
    by (simp add: Reserve_def LoadConfig_def conf remedy_ai_def default_window_def reserveLocal_def Let_def)
  then obtain b' where b': "Reserve 0 True True autoRemediateCapName ''t'' (LoadConfig True ''t'' autoRemediateCapName ai) \<lparr>bs_redis = None, bs_windows = Map.empty\<rparr> = (True, b')" by blast
  have rung: "loadCapabilityRung True ''t'' autoRemediateCapName ai = RungActLow"
    by (simp add: loadCapabilityRung_def conf remedy_ai_def rung_defs)
  have sev: "is_ok (SeverityForRung ''low'' RungActLow)" using severity_gate_low by simp
  obtain e1 ap fl where ap: "restart_apply quiet_world ?t [(''service'', JStr ''nginx'')] remedy_fleet = ((e1, ap), fl)" by (metis prod.exhaust)
  then have fl: "fl \<noteq> remedy_fleet" using restart_queues by (auto simp: remedy_toy_def remedy_fleet_def)
  have "rm_fleet (snd (act_on toy_ai_world toy_remedy_world quiet_world pbs remedy_alert ?t restart_decision (remedy_toy\<lparr>rm_ai := ai\<rparr>))) = fl"
    using c b' rung sev ap
    by (simp add: act_on_def restart_decision_def empty_decision_def toy_remedy_world_def remedy_toy_def remedy_alert_def rungAllowsApply_def rung_defs
        restartService_def Let_def split: option.split)
  then have "rm_fleet (snd (Remediate toy_ai_world toy_remedy_world quiet_world pbs remedy_alert remedy_toy)) \<noteq> rm_fleet remedy_toy"
    using fl R by (simp add: remedy_toy_def)
  moreover obtain res err s' where "Remediate toy_ai_world toy_remedy_world quiet_world pbs remedy_alert remedy_toy = ((res, err), s')" by (metis prod.exhaust)
  ultimately show ?thesis
    using remediation_gated [OF b, of toy_ai_world toy_remedy_world quiet_world remedy_alert remedy_toy res err s'] by (simp add: remedy_toy_def)
qed

end
