(* ===== verification/Orchestrator.thy ===== *)
theory Orchestrator
  imports Remediate
begin

text \<open>
  The post-apply watchers of several server nodes on one database (\<open>ai/capabilities/rollback_orchestrator.go\<close>, the
  pass and its claim): the steps of the shared table, the invariant they keep and what it promises of the probes.
\<close>

section \<open>Several nodes\<close>

text \<open>
  Any number of nodes run passes on the shared table. A state is the tables and the probes that each node has claimed
  and not yet processed. A crash is a node that forgets what it holds.
\<close>

type_synonym orch_state = "remedy_state \<times> (nat \<times> probe_row) list"

inductive orch_step :: "pb_registry \<Rightarrow> orch_state \<Rightarrow> orch_state \<Rightarrow> bool" for pbs where
  register: "qb_status p = ''pending'' \<Longrightarrow> qb_attempts p = 0 \<Longrightarrow> qb_outcome p = None \<Longrightarrow> qb_id p \<notin> qb_id ` set (rm_probes s) \<Longrightarrow>
     orch_step pbs (s, h) (s\<lparr>rm_probes := registerRollbackProbe w ok p (rm_probes s)\<rparr>, h)"
| claim: "n \<notin> fst ` set h \<Longrightarrow>
     orch_step pbs (s, h) (s\<lparr>rm_probes := claim_probes now (rm_probes s)\<rparr>, map (Pair n) (due_probes now (rm_probes s)) @ h)"
| handle: "orch_step pbs (s, h1 @ (n, p) # h2) (processProbe o' pbs p s, h1 @ h2)"
| crash: "orch_step pbs (s, h) (s, filter (\<lambda>(m, p). m \<noteq> n) h)"
| other: "rm_probes s' = rm_probes s \<Longrightarrow> orch_step pbs (s, h) (s', h)"

inductive_cases orch_step_cases: "orch_step pbs s s'"

definition probe_life :: "probe_row \<Rightarrow> bool" where
  "probe_life p \<longleftrightarrow> qb_status p = ''pending'' \<and> qb_attempts p = 0 \<and> qb_outcome p = None
     \<or> qb_status p = ''in_progress'' \<and> qb_attempts p = 1 \<and> qb_outcome p = None
     \<or> qb_status p = ''done'' \<and> qb_attempts p = 1 \<and> qb_outcome p \<noteq> None"

definition in_progress_ids :: "probe_row list \<Rightarrow> string set" where
  "in_progress_ids ps = qb_id ` {p \<in> set ps. qb_status p = ''in_progress''}"

abbreviation held_ids :: "(nat \<times> probe_row) list \<Rightarrow> string list" where
  "held_ids h \<equiv> map (qb_id \<circ> snd) h"

definition orch_inv :: "orch_state \<Rightarrow> bool" where
  "orch_inv s \<longleftrightarrow> distinct (map qb_id (rm_probes (fst s))) \<and> list_all probe_life (rm_probes (fst s))
     \<and> distinct (held_ids (snd s)) \<and> set (held_ids (snd s)) \<subseteq> in_progress_ids (rm_probes (fst s))"

lemma in_progressI: "p \<in> set ps \<Longrightarrow> qb_status p = ''in_progress'' \<Longrightarrow> qb_id p = i \<Longrightarrow> i \<in> in_progress_ids ps"
  by (auto simp: in_progress_ids_def)

lemma finish_probes: "rm_probes (finishProbe p out reason s) = map (\<lambda>q. if qb_id q = qb_id p
     then q\<lparr>qb_status := ''done'', qb_outcome := Some out, qb_reason := Some (SanitizeFreeText reason)\<rparr> else q) (rm_probes s)"
  by (simp add: finishProbe_def)

text \<open>Processing a probe writes a verdict into its row and nothing else into the table.\<close>

lemma conclude_probes: "rm_probes (conclude o' p out reason s) = rm_probes (finishProbe p out reason s)"
  by (simp add: conclude_def finish_probes)

lemma finish_probes_only: "rm_probes s = rm_probes s' \<Longrightarrow> rm_probes (finishProbe p out reason s) = rm_probes (finishProbe p out reason s')"
  by (simp add: finish_probes)

lemma process_probes:
  "\<exists>out reason. rm_probes (processProbe o' pbs p s) = rm_probes (finishProbe p out reason s)"
proof (cases "alertSignatureSeenSince o' (qb_tenant p) (case qb_sig p of None \<Rightarrow> [] | Some x \<Rightarrow> x) (qb_run_at p - 300) (ai_runs (rm_ai s))")
  case False
  then show ?thesis unfolding processProbe_def by (simp only: not_False_eq_True if_True conclude_probes) blast
next
  case seen: True
  show ?thesis
  proof (cases "LookupPlaybook pbs (qb_playbook p)")
    case None
    then show ?thesis using seen unfolding processProbe_def by (simp only: not_True_eq_False if_False option.case) blast
  next
    case (Some pb)
    define os where "os = (case (if ow_os_ok o' then find_device (\<lambda>d. dv_id d = qb_device p \<and> dv_tenant d = qb_tenant p) (rm_fleet s) else None) of
                    None \<Rightarrow> [] | Some d \<Rightarrow> dv_os_class d)"
    obtain err fl where r: "pb_Rollback pb (ow_pb o') \<lparr>tg_TenantID = qb_tenant p, tg_CustomerID = [], tg_DeviceID = qb_device p, tg_OSClass = os, tg_Tags = []\<rparr>
        (qb_token p) (rm_fleet s) = (err, fl)" by fastforce
    have same: "rm_probes s = rm_probes (s\<lparr>rm_fleet := fl\<rparr>)"
      "rm_probes s = rm_probes (s\<lparr>rm_fleet := fl, rm_ai := markRunOutcomeAuto o' p ''unclear'' (rm_ai (s\<lparr>rm_fleet := fl\<rparr>))\<rparr>)" by simp_all
    note e = processProbe_def [of o' pbs p s, unfolded Let_def, folded os_def]
    show ?thesis
    proof (cases err)
      case None
      then show ?thesis unfolding e using seen Some r finish_probes_only [OF same(1)] by (auto simp: conclude_probes)
    next
      case (Some x)
      then show ?thesis unfolding e using seen \<open>LookupPlaybook pbs _ = _\<close> r finish_probes_only [OF same(1)] finish_probes_only [OF same(2)]
        by (cases x) (auto simp: conclude_probes)
    qed
  qed
qed

lemma map_ids [simp]: "map qb_id (claim_probes now ps) = map qb_id ps"
  by (induction ps) (simp_all add: claim_probes_def)

lemma due_mset: "set (due_probes now ps) \<subseteq> {p \<in> set ps. qb_status p = ''pending''}"
  using set_take_subset [of 50 "sort_key qb_run_at (filter (\<lambda>p. qb_status p = ''pending'' \<and> qb_run_at p \<le> now) ps)"]
  by (auto simp: due_probes_def)

lemma distinct_map_sort_key: "distinct (map f (sort_key k xs)) \<longleftrightarrow> distinct (map f xs)"
proof -
  have "mset (map f (sort_key k xs)) = mset (map f xs)" by (simp only: mset_map mset_sort)
  then show ?thesis by (rule mset_eq_imp_distinct_iff)
qed

lemma due_distinct:
  assumes "distinct (map qb_id ps)"
  shows "distinct (map qb_id (due_probes now ps))"
proof -
  have "distinct (map qb_id (sort_key qb_run_at (filter (\<lambda>p. qb_status p = ''pending'' \<and> qb_run_at p \<le> now) ps)))"
    unfolding distinct_map_sort_key using assms by (rule distinct_map_filter)
  then show ?thesis unfolding due_probes_def take_map [symmetric] by (rule distinct_take)
qed

lemma row_unique: "distinct (map qb_id ps) \<Longrightarrow> p \<in> set ps \<Longrightarrow> q \<in> set ps \<Longrightarrow> qb_id p = qb_id q \<Longrightarrow> p = q"
  by (metis distinct_map inj_onD)

lemma due_claimed:
  assumes "distinct (map qb_id ps)" and "p \<in> set ps"
  shows "qb_id p \<in> qb_id ` set (due_probes now ps) \<longleftrightarrow> p \<in> set (due_probes now ps)"
proof
  assume "qb_id p \<in> qb_id ` set (due_probes now ps)"
  then obtain q where q: "q \<in> set (due_probes now ps)" "qb_id p = qb_id q" by blast
  with due_mset have "q \<in> set ps" by blast
  then show "p \<in> set (due_probes now ps)" using row_unique [OF assms _ q(2)] q(1) by blast
qed blast

definition take_probe :: "probe_row \<Rightarrow> probe_row" where
  "take_probe p = p\<lparr>qb_status := ''in_progress'', qb_attempts := qb_attempts p + 1\<rparr>"

lemma take_probe_id [simp]: "qb_id (take_probe p) = qb_id p"
  by (simp add: take_probe_def)

lemma claim_row:
  assumes "distinct (map qb_id ps)" and "q \<in> set (claim_probes now ps)"
  obtains (kept) "q \<in> set ps" "q \<notin> set (due_probes now ps)"
    | (taken) p where "p \<in> set (due_probes now ps)" "q = take_probe p"
proof -
  obtain p where p: "p \<in> set ps" "q = (if qb_id p \<in> qb_id ` set (due_probes now ps) then take_probe p else p)"
    using assms(2) unfolding claim_probes_def take_probe_def by auto
  show thesis
  proof (cases "p \<in> set (due_probes now ps)")
    case True
    with p(2) have "q = take_probe p" by simp
    with True show ?thesis by (rule taken)
  next
    case False
    with p due_claimed [OF assms(1) p(1)] have "q = p" by simp
    with False p(1) show ?thesis by (auto intro: kept)
  qed
qed

lemma claim_keeps: "p \<in> set ps \<Longrightarrow> qb_id p \<notin> qb_id ` set (due_probes now ps) \<Longrightarrow> p \<in> set (claim_probes now ps)"
  unfolding claim_probes_def by force

lemma claim_takes: "p \<in> set (due_probes now ps) \<Longrightarrow> take_probe p \<in> set (claim_probes now ps)"
proof -
  assume p: "p \<in> set (due_probes now ps)"
  then have "p \<in> set ps" using due_mset by blast
  moreover have "qb_id p \<in> qb_id ` set (due_probes now ps)" using p by blast
  ultimately show ?thesis unfolding claim_probes_def take_probe_def by force
qed

lemma due_pending: "p \<in> set (due_probes now ps) \<Longrightarrow> p \<in> set ps \<and> qb_status p = ''pending''"
  using due_mset by blast

lemma orch_inv_claim:
  assumes "orch_inv (s, h)"
  shows "orch_inv (s\<lparr>rm_probes := claim_probes now (rm_probes s)\<rparr>, map (Pair n) (due_probes now (rm_probes s)) @ h)"
proof -
  let ?ps = "rm_probes s" and ?due = "due_probes now (rm_probes s)"
  have d: "distinct (map qb_id ?ps)" and life: "\<forall>p \<in> set ?ps. probe_life p" and dh: "distinct (held_ids h)"
    and sub: "set (held_ids h) \<subseteq> in_progress_ids ?ps"
    using assms by (simp_all add: orch_inv_def list_all_iff)
  have "probe_life q" if "q \<in> set (claim_probes now ?ps)" for q
    using d that
  proof (cases rule: claim_row)
    case kept
    then show ?thesis using life by blast
  next
    case (taken p)
    have "probe_life p" "qb_status p = ''pending''" using life due_pending [OF taken(1)] by blast+
    then show ?thesis by (simp add: taken(2) take_probe_def probe_life_def)
  qed
  moreover have disj: "i \<notin> in_progress_ids ?ps" if idue: "i \<in> set (map qb_id ?due)" for i
  proof
    assume "i \<in> in_progress_ids ?ps"
    then obtain q where q: "q \<in> set ?ps" "qb_status q = ''in_progress''" "qb_id q = i" by (auto simp: in_progress_ids_def)
    obtain p where p: "p \<in> set ?due" "qb_id p = i" using idue by auto
    note dp = due_pending [OF p(1)]
    have "p = q" using row_unique [OF d] dp q p(2) by blast
    with q dp show False by simp
  qed
  moreover have "in_progress_ids ?ps \<subseteq> in_progress_ids (claim_probes now ?ps)"
  proof
    fix i assume i: "i \<in> in_progress_ids ?ps"
    then obtain q where q: "q \<in> set ?ps" "qb_status q = ''in_progress''" "qb_id q = i" by (auto simp: in_progress_ids_def)
    have "q \<in> set (claim_probes now ?ps)" using q(1) i disj by (intro claim_keeps) (auto simp: q(3))
    then show "i \<in> in_progress_ids (claim_probes now ?ps)" using q by (auto simp: in_progress_ids_def)
  qed
  moreover have "set (map qb_id ?due) \<subseteq> in_progress_ids (claim_probes now ?ps)"
  proof
    fix i assume "i \<in> set (map qb_id ?due)"
    then obtain p where p: "p \<in> set ?due" "qb_id p = i" by auto
    have "qb_status (take_probe p) = ''in_progress''" by (simp add: take_probe_def)
    from in_progressI [OF claim_takes [OF p(1)] this] p(2) show "i \<in> in_progress_ids (claim_probes now ?ps)" by simp
  qed
  moreover have h: "held_ids (map (Pair n) ?due @ h) = map qb_id ?due @ held_ids h" by (simp add: comp_def)
  ultimately show ?thesis
    using d dh sub due_distinct [OF d, of now] unfolding orch_inv_def fst_conv snd_conv h list_all_iff
    by (simp add: subset_iff) blast
qed

lemma orch_inv_handle:
  assumes "orch_inv (s, h1 @ (n, p) # h2)"
  shows "orch_inv (processProbe o' pbs p s, h1 @ h2)"
proof -
  obtain out reason where r: "rm_probes (processProbe o' pbs p s) = rm_probes (finishProbe p out reason s)"
    using process_probes by blast
  have d: "distinct (map qb_id (rm_probes s))" and life: "\<forall>q \<in> set (rm_probes s). probe_life q"
    and dh: "distinct (held_ids (h1 @ (n, p) # h2))" and sub: "set (held_ids (h1 @ (n, p) # h2)) \<subseteq> in_progress_ids (rm_probes s)"
    using assms by (simp_all add: orch_inv_def list_all_iff)
  have ids: "map qb_id (rm_probes (finishProbe p out reason s)) = map qb_id (rm_probes s)"
    by (simp add: finish_probes)
  have "qb_id p \<in> in_progress_ids (rm_probes s)" using sub by simp
  then obtain y where y: "y \<in> set (rm_probes s)" "qb_status y = ''in_progress''" "qb_id y = qb_id p"
    by (auto simp: in_progress_ids_def)
  have l: "probe_life q" if "q \<in> set (rm_probes (finishProbe p out reason s))" for q
  proof -
    obtain x where x: "x \<in> set (rm_probes s)" "q = (if qb_id x = qb_id p
        then x\<lparr>qb_status := ''done'', qb_outcome := Some out, qb_reason := Some (SanitizeFreeText reason)\<rparr> else x)"
      using \<open>q \<in> _\<close> unfolding finish_probes by auto
    show ?thesis
    proof (cases "qb_id x = qb_id p")
      case True
      with row_unique [OF d x(1) y(1)] y(3) have "x = y" by simp
      then have "probe_life x" "qb_status x = ''in_progress''" using life x(1) y(2) by auto
      with True x(2) show ?thesis by (simp add: probe_life_def)
    next
      case False
      with x life show ?thesis by simp
    qed
  qed
  have keep: "i \<in> in_progress_ids (rm_probes (finishProbe p out reason s))" if ip: "i \<in> in_progress_ids (rm_probes s)" "i \<noteq> qb_id p" for i
  proof -
    obtain x where x: "x \<in> set (rm_probes s)" "qb_status x = ''in_progress''" "qb_id x = i"
      using ip(1) by (auto simp: in_progress_ids_def)
    with ip(2) have "x \<in> set (rm_probes (finishProbe p out reason s))" unfolding finish_probes by force
    with x show ?thesis by (auto simp: in_progress_ids_def)
  qed
  have np: "qb_id p \<notin> set (held_ids (h1 @ h2))" and dd: "distinct (held_ids (h1 @ h2))" using dh by auto
  have "set (held_ids (h1 @ h2)) \<subseteq> in_progress_ids (rm_probes s)" using sub by simp
  then have "set (held_ids (h1 @ h2)) \<subseteq> in_progress_ids (rm_probes (finishProbe p out reason s))"
    using np keep by blast
  then show ?thesis using d dd ids l unfolding orch_inv_def fst_conv snd_conv r list_all_iff by simp
qed

lemma orch_step_inv: "orch_step pbs a b \<Longrightarrow> orch_inv a \<Longrightarrow> orch_inv b"
proof (induction rule: orch_step.induct)
  case (register p s h w ok)
  then show ?case
    by (auto simp: orch_inv_def registerRollbackProbe_def probe_life_def in_progress_ids_def)
next
  case (claim n h s now)
  then show ?case using orch_inv_claim by blast
next
  case (handle s h1 n p h2 o')
  then show ?case using orch_inv_handle by blast
next
  case (crash s h n)
  have "set (held_ids (filter (\<lambda>(m, p). m \<noteq> n) h)) \<subseteq> set (held_ids h)" by auto
  with crash show ?case by (auto simp: orch_inv_def distinct_map_filter)
next
  case (other s' s h)
  then show ?case by (simp add: orch_inv_def)
qed

lemma orch_steps_inv: "(orch_step pbs)\<^sup>*\<^sup>* a b \<Longrightarrow> orch_inv a \<Longrightarrow> orch_inv b"
  by (induction rule: rtranclp_induct) (auto intro: orch_step_inv)

section \<open>What the table promises\<close>

definition no_probes :: "remedy_state \<Rightarrow> orch_state" where
  "no_probes s = (s\<lparr>rm_probes := []\<rparr>, [])"

lemma orch_inv_start: "orch_inv (no_probes s)"
  by (simp add: orch_inv_def no_probes_def)

text \<open>
  C21. However many nodes run passes on one database, in whatever order and with whatever crashes: no probe is claimed
  twice, no two claims in hand are of the same probe, a claimed probe is marked in progress, and a row has a verdict
  exactly when it is done.
\<close>

theorem probes_claimed_once:
  assumes "(orch_step pbs)\<^sup>*\<^sup>* (no_probes s0) (s, h)"
  shows "(\<forall>p \<in> set (rm_probes s). qb_attempts p \<le> 1 \<and> (qb_outcome p \<noteq> None \<longleftrightarrow> qb_status p = ''done''))
    \<and> distinct (held_ids h)
    \<and> (\<forall>i \<in> set (held_ids h). \<exists>p \<in> set (rm_probes s). qb_id p = i \<and> qb_status p = ''in_progress'')"
proof -
  have inv: "orch_inv (s, h)" using orch_steps_inv [OF assms orch_inv_start] .
  then have "\<forall>p \<in> set (rm_probes s). probe_life p" by (simp add: orch_inv_def list_all_iff)
  moreover have "set (held_ids h) \<subseteq> in_progress_ids (rm_probes s)" "distinct (held_ids h)" using inv by (simp_all add: orch_inv_def)
  ultimately show ?thesis by (fastforce simp: probe_life_def in_progress_ids_def)
qed

text \<open>A probe is never taken back: once it is in progress and no node holds it, it stays in progress.\<close>

definition stranded :: "string \<Rightarrow> orch_state \<Rightarrow> bool" where
  "stranded i s \<longleftrightarrow> i \<in> in_progress_ids (rm_probes (fst s)) \<and> i \<notin> set (held_ids (snd s))"

lemma stranded_claim:
  assumes "orch_inv (s, h)" and "stranded i (s, h)"
  shows "stranded i (s\<lparr>rm_probes := claim_probes now (rm_probes s)\<rparr>, map (Pair n) (due_probes now (rm_probes s)) @ h)"
proof -
  have d: "distinct (map qb_id (rm_probes s))" using assms(1) by (simp add: orch_inv_def)
  obtain q where q: "q \<in> set (rm_probes s)" "qb_status q = ''in_progress''" "qb_id q = i"
    using assms(2) by (auto simp: stranded_def in_progress_ids_def)
  have nd: "i \<notin> qb_id ` set (due_probes now (rm_probes s))"
    using due_claimed [OF d q(1), of now] due_pending [of q now "rm_probes s"] q by auto
  then have "q \<in> set (claim_probes now (rm_probes s))" using q by (intro claim_keeps) auto
  then have "i \<in> in_progress_ids (claim_probes now (rm_probes s))" using q by (intro in_progressI)
  moreover have "i \<notin> set (held_ids (map (Pair n) (due_probes now (rm_probes s)) @ h))"
    using nd assms(2) by (auto simp: stranded_def comp_def)
  ultimately show ?thesis by (simp add: stranded_def)
qed

lemma stranded_handle:
  assumes "stranded i (s, h1 @ (n, p) # h2)"
  shows "stranded i (processProbe o' pbs p s, h1 @ h2)"
proof -
  obtain out reason where r: "rm_probes (processProbe o' pbs p s) = rm_probes (finishProbe p out reason s)"
    using process_probes by blast
  obtain q where q: "q \<in> set (rm_probes s)" "qb_status q = ''in_progress''" "qb_id q = i"
    using assms by (auto simp: stranded_def in_progress_ids_def)
  have "qb_id p \<noteq> i" using assms by (auto simp: stranded_def)
  with q have "q \<in> set (rm_probes (finishProbe p out reason s))" unfolding finish_probes by force
  then show ?thesis using assms q by (auto simp: stranded_def r intro: in_progressI)
qed

lemma stranded_step: "orch_step pbs a b \<Longrightarrow> orch_inv a \<Longrightarrow> stranded i a \<Longrightarrow> stranded i b"
proof (induction rule: orch_step.induct)
  case (register p s h w ok)
  then show ?case by (auto simp: stranded_def registerRollbackProbe_def in_progress_ids_def)
next
  case (claim n h s now)
  then show ?case using stranded_claim by blast
next
  case (handle s h1 n p h2 o')
  then show ?case using stranded_handle by blast
next
  case (crash s h n)
  then show ?case by (auto simp: stranded_def)
next
  case (other s' s h)
  then show ?case by (simp add: stranded_def)
qed

lemma stranded_stays: "(orch_step pbs)\<^sup>*\<^sup>* a b \<Longrightarrow> orch_inv a \<Longrightarrow> stranded i a \<Longrightarrow> stranded i b"
proof (induction rule: rtranclp_induct)
  case (step b c)
  then show ?case using stranded_step orch_steps_inv by blast
qed

section \<open>Duplicates\<close>

definition probe_key :: "probe_row \<Rightarrow> string \<times> string \<times> string" where
  "probe_key p = (qb_tenant p, qb_token p, case qb_sig p of None \<Rightarrow> ''__null__'' | Some x \<Rightarrow> x)"

lemma same_probe_key: "same_probe p q \<longleftrightarrow> probe_key p = probe_key q"
  by (simp add: same_probe_def probe_key_def)

lemma probe_key_update [simp]:
  "probe_key (p\<lparr>qb_status := st, qb_attempts := n\<rparr>) = probe_key p"
  "probe_key (p\<lparr>qb_status := st, qb_outcome := out, qb_reason := why\<rparr>) = probe_key p"
  by (simp_all add: probe_key_def)

lemma map_keys: "(\<And>p. p \<in> set ps \<Longrightarrow> probe_key (f p) = probe_key p) \<Longrightarrow> probe_key ` set (map f ps) = probe_key ` set ps"
  by (simp add: image_image)

lemma process_keys: "probe_key ` set (rm_probes (processProbe o' pbs p s)) = probe_key ` set (rm_probes s)"
proof -
  obtain out reason where r: "rm_probes (processProbe o' pbs p s) = rm_probes (finishProbe p out reason s)"
    using process_probes by blast
  show ?thesis unfolding r finish_probes by (rule map_keys) simp
qed

lemma claim_keys: "probe_key ` set (claim_probes now ps) = probe_key ` set ps"
  unfolding claim_probes_def by (rule map_keys) simp

lemma orch_step_keys: "orch_step pbs a b \<Longrightarrow> probe_key ` set (rm_probes (fst a)) \<subseteq> probe_key ` set (rm_probes (fst b))"
  by (induction rule: orch_step.induct) (auto simp: process_keys claim_keys registerRollbackProbe_def)

lemma orch_steps_keys: "(orch_step pbs)\<^sup>*\<^sup>* a b \<Longrightarrow> probe_key ` set (rm_probes (fst a)) \<subseteq> probe_key ` set (rm_probes (fst b))"
  by (induction rule: rtranclp_induct) (use orch_step_keys in blast)+

lemma register_known: "probe_key p \<in> probe_key ` set ps \<Longrightarrow> registerRollbackProbe w ok p ps = ps"
  by (auto simp: registerRollbackProbe_def list_ex_iff same_probe_key)

text \<open>
  A probe occupies its tenant, token and signature for good: whatever has happened since its row was stored, its
  processing included, a later probe of the same tenant with the same token and signature is dropped, also when it is
  for another device or for a new run of the playbook. The token of a playbook is the service name alone, so the second
  restart of a service anywhere in the tenant for the same alert is never watched.
\<close>

theorem probe_blocks_successors:
  assumes "q \<in> set (rm_probes s)" and "qb_tenant p = qb_tenant q" and "qb_token p = qb_token q" and "qb_sig p = qb_sig q"
    and "(orch_step pbs)\<^sup>*\<^sup>* (s, h) (s', h')"
  shows "registerRollbackProbe w ok p (rm_probes s') = rm_probes s'"
proof (rule register_known)
  have "probe_key p = probe_key q" using assms(2-4) by (simp add: probe_key_def)
  then show "probe_key p \<in> probe_key ` set (rm_probes s')"
    using assms(1) orch_steps_keys [OF assms(5)] by auto
qed

section \<open>Due probes are settled\<close>

text \<open>What a pass decides on: the id, status and due time of each row.\<close>

type_synonym probe_view = "(string \<times> string \<times> unix) list"

definition view :: "probe_row list \<Rightarrow> probe_view" where
  "view ps = map (\<lambda>p. (qb_id p, qb_status p, qb_run_at p)) ps"

definition settle_ids :: "string set \<Rightarrow> probe_view \<Rightarrow> probe_view" where
  "settle_ids A = map (\<lambda>(i, st, r). (i, if i \<in> A then ''done'' else st, r))"

lemma view_finish: "view (rm_probes (finishProbe p out reason s)) = settle_ids {qb_id p} (view (rm_probes s))"
  by (simp add: view_def settle_ids_def finish_probes)

lemma view_process: "view (rm_probes (processProbe o' pbs p s)) = settle_ids {qb_id p} (view (rm_probes s))"
  using process_probes [of o' pbs p s] view_finish by metis

lemma settle_settle: "settle_ids A (settle_ids B v) = settle_ids (A \<union> B) v"
  by (simp add: settle_ids_def split_def)

lemma settle_none: "settle_ids {} v = v"
  by (simp add: settle_ids_def)

lemma view_fold: "view (rm_probes (fold (processProbe o' pbs) ps s)) = settle_ids (qb_id ` set ps) (view (rm_probes s))"
proof (induction ps arbitrary: s)
  case (Cons p ps)
  then show ?case by (simp add: view_process settle_settle)
qed (simp add: settle_none)

lemma view_claim: "settle_ids (qb_id ` set (due_probes now ps)) (view (claim_probes now ps))
    = settle_ids (qb_id ` set (due_probes now ps)) (view ps)"
  by (simp add: settle_ids_def view_def claim_probes_def)

lemma view_pass:
  assumes "is_ok (SupportedDialect w)"
  shows "view (rm_probes (runRollbackPass w True o' pbs s)) = settle_ids (qb_id ` set (due_probes (ow_now o') (rm_probes s))) (view (rm_probes s))"
  using assms by (simp add: runRollbackPass_def view_fold view_claim)

definition outstanding :: "unix \<Rightarrow> probe_view \<Rightarrow> string set" where
  "outstanding t v = {i. \<exists>r. (i, ''pending'', r) \<in> set v \<and> r \<le> t}"

definition settled :: "probe_view \<Rightarrow> string set" where
  "settled v = {i. \<exists>r. (i, ''done'', r) \<in> set v}"

lemma outstanding_settle: "outstanding t (settle_ids A v) = outstanding t v - A"
  by (force simp: outstanding_def settle_ids_def split: if_splits)

lemma settled_settle: "settled v \<union> (outstanding t v \<inter> A) \<subseteq> settled (settle_ids A v)"
  by (force simp: outstanding_def settled_def settle_ids_def)

lemma outstanding_view: "i \<in> outstanding t (view ps) \<longleftrightarrow> (\<exists>p \<in> set ps. qb_id p = i \<and> qb_status p = ''pending'' \<and> qb_run_at p \<le> t)"
  by (induction ps) (auto simp: outstanding_def view_def)

lemma settled_view: "i \<in> settled (view ps) \<longleftrightarrow> (\<exists>p \<in> set ps. qb_id p = i \<and> qb_status p = ''done'')"
  by (induction ps) (auto simp: settled_def view_def)

lemma finite_outstanding: "finite (outstanding t v)"
  by (rule finite_subset [of _ "fst ` set v"]) (force simp: outstanding_def)+

text \<open>The oldest probes come first: a pass takes all that were due by \<open>t\<close>, or fifty of them.\<close>

lemma due_priority:
  assumes "t \<le> now"
  shows "outstanding t (view ps) \<subseteq> qb_id ` set (due_probes now ps)
    \<or> qb_id ` set (due_probes now ps) \<subseteq> outstanding t (view ps) \<and> length (due_probes now ps) = 50"
proof (rule disjCI)
  let ?xs = "sort_key qb_run_at (filter (\<lambda>p. qb_status p = ''pending'' \<and> qb_run_at p \<le> now) ps)"
  have due: "due_probes now ps = take 50 ?xs" by (simp add: due_probes_def)
  assume neg: "\<not> (qb_id ` set (due_probes now ps) \<subseteq> outstanding t (view ps) \<and> length (due_probes now ps) = 50)"
  show "outstanding t (view ps) \<subseteq> qb_id ` set (due_probes now ps)"
  proof
    fix i assume "i \<in> outstanding t (view ps)"
    then obtain a where a: "a \<in> set ps" "qb_status a = ''pending''" "qb_run_at a \<le> t" "qb_id a = i"
      unfolding outstanding_view by blast
    with assms have "a \<in> set ?xs" by simp
    then have "a \<in> set (take 50 ?xs @ drop 50 ?xs)" by (simp only: append_take_drop_id)
    then have "a \<in> set (take 50 ?xs) \<or> a \<in> set (drop 50 ?xs)" by (simp only: set_append Un_iff)
    moreover have False if late: "a \<in> set (drop 50 ?xs)"
    proof -
      have "sorted (map qb_run_at (take 50 ?xs @ drop 50 ?xs))" unfolding append_take_drop_id by simp
      then have old: "qb_run_at d \<le> qb_run_at a" if "d \<in> set (take 50 ?xs)" for d
        using late that unfolding map_append sorted_append by simp
      have "qb_id ` set (due_probes now ps) \<subseteq> outstanding t (view ps)"
      proof
        fix j assume "j \<in> qb_id ` set (due_probes now ps)"
        then obtain d where d: "d \<in> set (due_probes now ps)" "qb_id d = j" by blast
        have "qb_run_at d \<le> t" using old [of d] d(1) a(3) by (simp add: due)
        with due_pending [OF d(1)] d(2) show "j \<in> outstanding t (view ps)" unfolding outstanding_view by blast
      qed
      moreover have "length (due_probes now ps) = 50" using late unfolding due by (cases "length ?xs \<le> 50") simp_all
      ultimately show False using neg by blast
    qed
    ultimately show "i \<in> qb_id ` set (due_probes now ps)" using a(4) due by auto
  qed
qed

lemma view_ids: "map fst (view ps) = map qb_id ps"
  by (simp add: view_def)

lemma settle_ids_ids: "map fst (settle_ids A v) = map fst v"
  by (simp add: settle_ids_def split_def)

lemma pass_progress:
  assumes "is_ok (SupportedDialect w)" and "t \<le> ow_now o'" and "distinct (map qb_id (rm_probes s))"
    and s': "s' = runRollbackPass w True o' pbs s"
  shows "card (outstanding t (view (rm_probes s'))) \<le> card (outstanding t (view (rm_probes s))) - 50" (is "card ?O' \<le> card ?O - 50")
    and "settled (view (rm_probes s)) \<union> outstanding t (view (rm_probes s)) \<subseteq> settled (view (rm_probes s')) \<union> outstanding t (view (rm_probes s'))"
    and "map qb_id (rm_probes s') = map qb_id (rm_probes s)"
proof -
  let ?D = "qb_id ` set (due_probes (ow_now o') (rm_probes s))"
  have v: "view (rm_probes s') = settle_ids ?D (view (rm_probes s))"
    unfolding s' by (rule view_pass [OF assms(1)])
  have O': "?O' = ?O - ?D" by (simp add: v outstanding_settle)
  have D: "card ?D = length (due_probes (ow_now o') (rm_probes s))"
    using distinct_card [OF due_distinct [OF assms(3), of "ow_now o'"]] by simp
  show "card ?O' \<le> card ?O - 50"
    using due_priority [OF assms(2), of "rm_probes s"]
  proof
    assume "?O \<subseteq> ?D"
    then have e: "?O - ?D = {}" by blast
    show ?thesis unfolding O' e by simp
  next
    assume d: "?D \<subseteq> ?O \<and> length (due_probes (ow_now o') (rm_probes s)) = 50"
    then have "card (?O - ?D) = card ?O - 50" using D by (subst card_Diff_subset) auto
    then show ?thesis unfolding O' by simp
  qed
  show "settled (view (rm_probes s)) \<union> ?O \<subseteq> settled (view (rm_probes s')) \<union> ?O'"
    unfolding O' using settled_settle [of "view (rm_probes s)" t ?D] unfolding v by blast
  show "map qb_id (rm_probes s') = map qb_id (rm_probes s)"
    using view_ids v settle_ids_ids by metis
qed

abbreviation passes :: "ai_world \<Rightarrow> pb_registry \<Rightarrow> orch_world list \<Rightarrow> remedy_state \<Rightarrow> remedy_state" where
  "passes w pbs os s \<equiv> fold (\<lambda>o'. runRollbackPass w True o' pbs) os s"

lemma passes_progress:
  assumes "is_ok (SupportedDialect w)" and "\<forall>o' \<in> set os. t \<le> ow_now o'" and "distinct (map qb_id (rm_probes s))"
  shows "card (outstanding t (view (rm_probes (passes w pbs os s)))) \<le> card (outstanding t (view (rm_probes s))) - 50 * length os
    \<and> settled (view (rm_probes s)) \<union> outstanding t (view (rm_probes s))
        \<subseteq> settled (view (rm_probes (passes w pbs os s))) \<union> outstanding t (view (rm_probes (passes w pbs os s)))"
  using assms(2,3)
proof (induction os arbitrary: s)
  case (Cons o' os)
  have t: "t \<le> ow_now o'" using Cons.prems(1) by simp
  note pr = pass_progress [OF assms(1) t Cons.prems(2) refl, of pbs]
  let ?s = "runRollbackPass w True o' pbs s"
  have d: "distinct (map qb_id (rm_probes ?s))" using pr(3) Cons.prems(2) by (simp only:)
  have all: "\<forall>o' \<in> set os. t \<le> ow_now o'" using Cons.prems(1) by simp
  note ih = Cons.IH [OF all d]
  have "card (outstanding t (view (rm_probes (passes w pbs os ?s)))) \<le> card (outstanding t (view (rm_probes s))) - 50 * length (o' # os)"
    using conjunct1 [OF ih] pr(1) by simp
  moreover have "settled (view (rm_probes s)) \<union> outstanding t (view (rm_probes s))
      \<subseteq> settled (view (rm_probes (passes w pbs os ?s))) \<union> outstanding t (view (rm_probes (passes w pbs os ?s)))"
    using conjunct2 [OF ih] pr(2) by (rule subset_trans [rotated])
  ultimately show ?case by simp
qed simp


section \<open>Witnesses\<close>

definition toy_probe :: probe_row where
  "toy_probe = \<lparr>qb_id = ''p1'', qb_tenant = ''t'', qb_device = ''d1'', qb_capability = autoRemediateCapName, qb_playbook = ''restart_service'',
     qb_token = ''svc:nginx'', qb_sig = Some ''s'', qb_pre = None, qb_run_at = 600,
     qb_status = ''pending'', qb_attempts = 0, qb_outcome = None, qb_reason = None\<rparr>"

lemma toy_registered:
  "orch_step pbs (no_probes remedy_toy) (remedy_toy\<lparr>rm_probes := [toy_probe]\<rparr>, [])"
proof -
  have "orch_step pbs (remedy_toy, []) (remedy_toy\<lparr>rm_probes := registerRollbackProbe toy_ai_world True toy_probe (rm_probes remedy_toy)\<rparr>, [])"
    by (rule orch_step.register) (simp_all add: toy_probe_def remedy_toy_def)
  then show ?thesis by (simp add: no_probes_def remedy_toy_def registerRollbackProbe_def toy_ai_world_def SupportedDialect_def)
qed

lemma toy_claimed:
  "orch_step pbs (remedy_toy\<lparr>rm_probes := [toy_probe]\<rparr>, [])
     (remedy_toy\<lparr>rm_probes := [take_probe toy_probe]\<rparr>, [(1, toy_probe)])"
proof -
  have "due_probes 700 [toy_probe] = [toy_probe]" by (simp add: due_probes_def toy_probe_def)
  then show ?thesis using orch_step.claim [of 1 "[]" pbs "remedy_toy\<lparr>rm_probes := [toy_probe]\<rparr>" 700]
    by (simp add: claim_probes_def take_probe_def)
qed

lemma probes_claimed_once_witness:
  "qb_attempts (take_probe toy_probe) \<le> 1 \<and> qb_outcome (take_probe toy_probe) = None \<and> distinct (held_ids [(1 :: nat, toy_probe)])
    \<and> qb_status (take_probe toy_probe) = ''in_progress''"
proof -
  have "(orch_step [])\<^sup>*\<^sup>* (no_probes remedy_toy) (remedy_toy\<lparr>rm_probes := [take_probe toy_probe]\<rparr>, [(1, toy_probe)])"
    using toy_registered toy_claimed by (meson rtranclp.rtrancl_into_rtrancl rtranclp.rtrancl_refl)
  from probes_claimed_once [OF this] show ?thesis by (simp add: take_probe_def toy_probe_def)
qed

lemma probe_blocks_successors_witness:
  "registerRollbackProbe toy_ai_world True (toy_probe\<lparr>qb_id := ''p2'', qb_device := ''d2''\<rparr>) [take_probe toy_probe] = [take_probe toy_probe]"
proof -
  have r: "(orch_step [])\<^sup>*\<^sup>* (remedy_toy\<lparr>rm_probes := [toy_probe]\<rparr>, []) (remedy_toy\<lparr>rm_probes := [take_probe toy_probe]\<rparr>, [(1, toy_probe)])"
    using toy_claimed by blast
  show ?thesis
    using probe_blocks_successors [OF _ _ _ _ r, of toy_probe "toy_probe\<lparr>qb_id := ''p2'', qb_device := ''d2''\<rparr>" toy_ai_world True] by simp
qed

definition toy_orch :: orch_world where
  "toy_orch = \<lparr>ow_now = 700, ow_seen_ok = True, ow_os_ok = True, ow_mark_ok = True, ow_has_sig = (\<lambda>_ _. False), ow_pb = quiet_world, ow_err = (\<lambda>_. [])\<rparr>"


end
