(* ===== verification/DeviceDedup.thy ===== *)
theory DeviceDedup
  imports Registration
begin

text \<open>
  The pass that collapses duplicate device rows at startup (\<open>internal/db/dedup_devices.go\<close>): the loops of
  \<open>DeduplicateDevicesAndCreateIndex\<close> with every early return, what they keep of the rows that refer to devices,
  what they leave when they succeed, and when they cannot succeed.

  A table with a \<open>device_id\<close> column is the list of its rows. \<open>ch_key\<close> holds the other columns of a
  unique index over \<open>device_id\<close>, if the table has one (\<open>device_hardware\<close>: none, so the key is
  empty; \<open>device_group_members\<close>: the group; \<open>patches\<close>: source and package unless one is
  \<open>NULL\<close>); an update that breaks the index fails. The order in which \<open>GROUP BY\<close> lists the
  duplicate sets is that of their first rows.
\<close>

section \<open>State\<close>

record child_row =
  ch_id :: string
  ch_device :: string
  ch_key :: "string option"

record dedup_db =
  dd_devices :: "device_row list"
  dd_tables :: "string \<rightharpoonup> child_row list"
  dd_index :: bool

type_synonym dedup_key = "string \<times> string \<times> string"

datatype merge_error = Find_sets | Pick_winner dedup_key | List_losers dedup_key
  | Repoint_failed string string string | Delete_failed string | Index_failed

text \<open>What the database answers: \<open>dw_repoint\<close> is the error text of an update that fails for a reason of its own.\<close>

record dedup_world =
  dw_find_ok :: bool
  dw_pick_ok :: "dedup_key \<Rightarrow> bool"
  dw_list_ok :: "dedup_key \<Rightarrow> bool"
  dw_repoint :: "string \<Rightarrow> string \<Rightarrow> string option"
  dw_delete_ok :: "string \<Rightarrow> bool"
  dw_index_ok :: bool

section \<open>The pass\<close>

definition fkTablesReferencingDeviceID :: "string list" where
  "fkTablesReferencingDeviceID = [''device_commands'', ''file_transfers'', ''alerts'', ''patches'', ''compliance_results'',
     ''device_software'', ''device_hardware'', ''device_group_members'', ''metrics_history'', ''tickets'', ''agent_tokens'',
     ''neighbor_observations'', ''sunshine_pin_requests'']"

definition matchKey :: "device_row \<Rightarrow> dedup_key" where
  "matchKey d = (dv_tenant d, dv_host d, case dv_mac d of None \<Rightarrow> [] | Some m \<Rightarrow> m)"

definition key_rows :: "dedup_key \<Rightarrow> device_row list \<Rightarrow> device_row list" where
  "key_rows k ds = filter (\<lambda>d. matchKey d = k) ds"

definition dup_sets :: "device_row list \<Rightarrow> dedup_key list" where
  "dup_sets ds = filter (\<lambda>k. length (key_rows k ds) > 1) (remdups (map matchKey ds))"

text \<open>\<open>ORDER BY created_at DESC, id ASC LIMIT 1\<close>\<close>

definition pick_winner :: "dedup_key \<Rightarrow> device_row list \<Rightarrow> string option" where
  "pick_winner k ds = (case sort_key (\<lambda>d. (- dv_created d, dv_id d)) (key_rows k ds) of [] \<Rightarrow> None | d # _ \<Rightarrow> Some (dv_id d))"

definition isMissingTable :: "string \<Rightarrow> bool" where
  "isMissingTable err = (contains (to_lower err) ''no such table'' \<or> contains (to_lower err) ''does not exist'')"

definition unique_ok :: "child_row list \<Rightarrow> bool" where
  "unique_ok rows = distinct (map (\<lambda>r. (ch_device r, ch_key r)) (filter (\<lambda>r. ch_key r \<noteq> None) rows))"

definition repoint_rows :: "string \<Rightarrow> string \<Rightarrow> child_row list \<Rightarrow> child_row list" where
  "repoint_rows winner loser = map (\<lambda>r. if ch_device r = loser then r\<lparr>ch_device := winner\<rparr> else r)"

text \<open>\<open>UPDATE t SET device_id = winner WHERE device_id = loser\<close>\<close>

definition exec_repoint :: "dedup_world \<Rightarrow> string \<Rightarrow> string \<Rightarrow> string \<Rightarrow> dedup_db \<Rightarrow> (string, dedup_db) result" where
  "exec_repoint w t winner loser db =
     (case dw_repoint w t loser of
        Some e \<Rightarrow> Inl e
      | None \<Rightarrow> (case dd_tables db t of
          None \<Rightarrow> Inl (''no such table: '' @ t)
        | Some rows \<Rightarrow>
            if unique_ok (repoint_rows winner loser rows)
            then Inr (db\<lparr>dd_tables := (dd_tables db)(t \<mapsto> repoint_rows winner loser rows)\<rparr>)
            else Inl ''UNIQUE constraint failed''))"

fun repoint_all :: "dedup_world \<Rightarrow> string \<Rightarrow> string \<Rightarrow> string list \<Rightarrow> dedup_db \<Rightarrow> merge_error option \<times> dedup_db" where
  "repoint_all w winner loser [] db = (None, db)"
| "repoint_all w winner loser (t # ts) db =
     (case exec_repoint w t winner loser db of
        Inr db' \<Rightarrow> repoint_all w winner loser ts db'
      | Inl e \<Rightarrow> if isMissingTable e then repoint_all w winner loser ts db else (Some (Repoint_failed t loser e), db))"

fun merge_losers :: "dedup_world \<Rightarrow> string \<Rightarrow> string list \<Rightarrow> int \<Rightarrow> dedup_db \<Rightarrow> merge_error option \<times> int \<times> dedup_db" where
  "merge_losers w winner [] merged db = (None, merged, db)"
| "merge_losers w winner (l # ls) merged db =
     (case repoint_all w winner l fkTablesReferencingDeviceID db of
        (Some e, db) \<Rightarrow> (Some e, merged, db)
      | (None, db) \<Rightarrow>
          if \<not> dw_delete_ok w l then (Some (Delete_failed l), merged, db)
          else merge_losers w winner ls (merged + 1) (db\<lparr>dd_devices := filter (\<lambda>d. dv_id d \<noteq> l) (dd_devices db)\<rparr>))"

fun merge_sets :: "dedup_world \<Rightarrow> dedup_key list \<Rightarrow> int \<Rightarrow> dedup_db \<Rightarrow> merge_error option \<times> int \<times> dedup_db" where
  "merge_sets w [] merged db = (None, merged, db)"
| "merge_sets w (k # ks) merged db =
     (case (if dw_pick_ok w k then pick_winner k (dd_devices db) else None) of
        None \<Rightarrow> (Some (Pick_winner k), merged, db)
      | Some winner \<Rightarrow>
          if \<not> dw_list_ok w k then (Some (List_losers k), merged, db)
          else (case merge_losers w winner (filter (\<lambda>i. i \<noteq> winner) (map dv_id (key_rows k (dd_devices db)))) merged db of
              (Some e, merged, db) \<Rightarrow> (Some e, merged, db)
            | (None, merged, db) \<Rightarrow> merge_sets w ks merged db))"

definition DeduplicateDevicesAndCreateIndex :: "dedup_world \<Rightarrow> dedup_db \<Rightarrow> merge_error option \<times> int \<times> dedup_db" where
  "DeduplicateDevicesAndCreateIndex w db =
     (if \<not> dw_find_ok w then (Some Find_sets, 0, db)
      else case merge_sets w (dup_sets (dd_devices db)) 0 db of
        (Some e, merged, db) \<Rightarrow> (Some e, merged, db)
      | (None, merged, db) \<Rightarrow>
          if \<not> dw_index_ok w \<or> \<not> distinct (map matchKey (dd_devices db)) then (Some Index_failed, merged, db)
          else (None, merged, db\<lparr>dd_index := True\<rparr>))"

text \<open>What \<open>main.go\<close> does with the outcome: exit, or boot with an audit entry if rows were merged.\<close>

datatype boot = Exits | Boots "string option"

definition boot_dedup :: "dedup_world \<Rightarrow> dedup_db \<Rightarrow> boot \<times> dedup_db" where
  "boot_dedup w db = (case DeduplicateDevicesAndCreateIndex w db of
       (Some e, merged, db) \<Rightarrow> (Exits, db)
     | (None, merged, db) \<Rightarrow> (Boots (if merged > 0
           then Some (''collapsed '' @ itoa merged @ '' duplicate device rows into surviving registrations'') else None), db))"

definition CountDuplicateDevices :: "dedup_db \<Rightarrow> int" where
  "CountDuplicateDevices db = int (length (dd_devices db)) - int (length (remdups (map matchKey (dd_devices db))))"

section \<open>Rows that refer to devices\<close>

text \<open>\<open>K\<close> gives the key of a device by its id. A row has moved when its device changed to one of the same key.\<close>

definition key_of :: "device_row list \<Rightarrow> string \<Rightarrow> dedup_key option" where
  "key_of ds = map_of (map (\<lambda>d. (dv_id d, matchKey d)) ds)"

definition moved :: "(string \<Rightarrow> dedup_key option) \<Rightarrow> child_row \<Rightarrow> child_row \<Rightarrow> bool" where
  "moved K r r' \<longleftrightarrow> r' = r\<lparr>ch_device := ch_device r'\<rparr> \<and> (ch_device r' = ch_device r \<or> K (ch_device r) \<noteq> None \<and> K (ch_device r') = K (ch_device r))"

definition tables_moved :: "(string \<Rightarrow> dedup_key option) \<Rightarrow> dedup_db \<Rightarrow> dedup_db \<Rightarrow> bool" where
  "tables_moved K db db' \<longleftrightarrow> (\<forall>t. rel_option (list_all2 (moved K)) (dd_tables db t) (dd_tables db' t))"

lemma moved_refl: "moved K r r"
  by (simp add: moved_def)

lemma moved_trans: "moved K a b \<Longrightarrow> moved K b c \<Longrightarrow> moved K a c"
  by (auto simp: moved_def) (metis child_row.surjective child_row.update_convs(2))+

lemma rows_moved_trans: "list_all2 (moved K) a b \<Longrightarrow> list_all2 (moved K) b c \<Longrightarrow> list_all2 (moved K) a c"
  by (rule list_all2_trans [OF moved_trans])

lemma tables_moved_refl: "tables_moved K db db"
  by (auto simp: tables_moved_def intro!: option.rel_refl list.rel_refl moved_refl)

lemma tables_moved_trans:
  assumes "tables_moved K a b" and "tables_moved K b c"
  shows "tables_moved K a c"
proof -
  have "rel_option (list_all2 (moved K)) (dd_tables a t) (dd_tables c t)" for t
  proof -
    have "rel_option (list_all2 (moved K)) (dd_tables a t) (dd_tables b t)" "rel_option (list_all2 (moved K)) (dd_tables b t) (dd_tables c t)"
      using assms by (simp_all add: tables_moved_def)
    then show ?thesis
      by (cases "dd_tables a t"; cases "dd_tables b t"; cases "dd_tables c t") (auto intro: rows_moved_trans)
  qed
  then show ?thesis by (simp add: tables_moved_def)
qed

definition refs :: "dedup_db \<Rightarrow> string \<Rightarrow> string set" where
  "refs db t = (case dd_tables db t of None \<Rightarrow> {} | Some rows \<Rightarrow> ch_device ` set rows)"

definition tables_unique :: "dedup_db \<Rightarrow> bool" where
  "tables_unique db \<longleftrightarrow> (\<forall>t rows. dd_tables db t = Some rows \<longrightarrow> unique_ok rows)"

text \<open>The database reports a missing table only when the table is missing.\<close>

definition honest_errors :: "dedup_world \<Rightarrow> bool" where
  "honest_errors w \<longleftrightarrow> (\<forall>t l e. dw_repoint w t l = Some e \<longrightarrow> \<not> isMissingTable e)"

lemma unique_text: "\<not> isMissingTable ''UNIQUE constraint failed''"
  by code_simp

lemma exec_repoint_rows:
  assumes "exec_repoint w t winner loser db = Inr db'"
  obtains rows where "dd_tables db t = Some rows" "unique_ok (repoint_rows winner loser rows)"
    "db' = db\<lparr>dd_tables := (dd_tables db)(t \<mapsto> repoint_rows winner loser rows)\<rparr>"
  using assms by (auto simp: exec_repoint_def split: option.splits if_splits)

lemma repoint_moved:
  assumes "K winner = K loser" and "K loser \<noteq> None"
  shows "list_all2 (moved K) rows (repoint_rows winner loser rows)"
  using assms by (auto simp: repoint_rows_def list_all2_map2 list_all2_same moved_def)

lemma exec_repoint_moved:
  assumes "exec_repoint w t winner loser db = Inr db'" and "K winner = K loser" and "K loser \<noteq> None"
  shows "tables_moved K db db'"
  using assms(1)
proof (rule exec_repoint_rows)
  fix rows
  assume "dd_tables db t = Some rows" "db' = db\<lparr>dd_tables := (dd_tables db)(t \<mapsto> repoint_rows winner loser rows)\<rparr>"
  then show ?thesis
    using repoint_moved [OF assms(2,3), of rows] by (auto simp: tables_moved_def intro!: option.rel_refl list.rel_refl moved_refl)
qed

lemma repoint_refs: "ch_device ` set (repoint_rows winner loser rows)
    = (ch_device ` set rows - {loser}) \<union> (if loser \<in> ch_device ` set rows then {winner} else {})"
  by (induction rows) (auto simp: repoint_rows_def)

lemma exec_repoint_refs:
  assumes "exec_repoint w t winner loser db = Inr db'"
  shows "refs db' t = (refs db t - {loser}) \<union> (if loser \<in> refs db t then {winner} else {})" and "t' \<noteq> t \<Longrightarrow> refs db' t' = refs db t'"
proof -
  obtain rows where r: "dd_tables db t = Some rows" "db' = db\<lparr>dd_tables := (dd_tables db)(t \<mapsto> repoint_rows winner loser rows)\<rparr>"
    using exec_repoint_rows [OF assms] by blast
  then show "refs db' t = (refs db t - {loser}) \<union> (if loser \<in> refs db t then {winner} else {})" by (simp add: refs_def repoint_refs)
  show "t' \<noteq> t \<Longrightarrow> refs db' t' = refs db t'" using r by (simp add: refs_def)
qed

text \<open>All tables in turn.\<close>

lemma repoint_all_frame:
  "repoint_all w winner loser ts db = (e, db') \<Longrightarrow> dd_devices db' = dd_devices db \<and> dd_index db' = dd_index db
     \<and> (\<forall>t. t \<notin> set ts \<longrightarrow> dd_tables db' t = dd_tables db t) \<and> (tables_unique db \<longrightarrow> tables_unique db')
     \<and> (\<forall>t. refs db' t \<subseteq> insert winner (refs db t))"
proof (induction w winner loser ts db rule: repoint_all.induct)
  case (2 w winner loser t ts db)
  show ?case
  proof (cases "exec_repoint w t winner loser db")
    case (Inl x)
    with 2 show ?thesis by (cases "isMissingTable x") auto
  next
    case (Inr db1)
    have rest: "repoint_all w winner loser ts db1 = (e, db')" using "2.prems" Inr by simp
    note ih = "2.IH"(2) [OF Inr rest] and r = exec_repoint_refs [OF Inr]
    have r1: "refs db1 t' \<subseteq> insert winner (refs db t')" for t'
      using r by (cases "t' = t") auto
    have "refs db' t' \<subseteq> insert winner (refs db t')" for t'
      using ih r1 [of t'] by blast
    moreover have "dd_devices db1 = dd_devices db \<and> dd_index db1 = dd_index db \<and> (\<forall>t'. t' \<noteq> t \<longrightarrow> dd_tables db1 t' = dd_tables db t')
        \<and> (tables_unique db \<longrightarrow> tables_unique db1)"
      using Inr by (elim exec_repoint_rows) (simp add: tables_unique_def)
    ultimately show ?thesis using ih by simp
  qed
qed auto

lemma repoint_all_moved:
  "repoint_all w winner loser ts db = (e, db') \<Longrightarrow> K winner = K loser \<Longrightarrow> K loser \<noteq> None \<Longrightarrow> tables_moved K db db'"
proof (induction w winner loser ts db rule: repoint_all.induct)
  case (2 w winner loser t ts db)
  show ?case
  proof (cases "exec_repoint w t winner loser db")
    case (Inl x)
    with 2 show ?thesis by (cases "isMissingTable x") (auto intro: tables_moved_refl)
  next
    case (Inr db1)
    then have rest: "repoint_all w winner loser ts db1 = (e, db')" using "2.prems"(1) by simp
    show ?thesis using exec_repoint_moved [OF Inr "2.prems"(2,3)] "2.IH"(2) [OF Inr rest "2.prems"(2,3)] by (rule tables_moved_trans)
  qed
qed (simp add: tables_moved_refl)

lemma repoint_all_clears:
  "repoint_all w winner loser ts db = (None, db') \<Longrightarrow> honest_errors w \<Longrightarrow> winner \<noteq> loser \<Longrightarrow> t \<in> set ts \<Longrightarrow> loser \<notin> refs db' t"
proof (induction w winner loser ts db rule: repoint_all.induct)
  case (2 w winner loser t1 ts db)
  show ?case
  proof (cases "exec_repoint w t1 winner loser db")
    case (Inl x)
    then have m: "isMissingTable x" using "2.prems"(1) by (auto split: if_splits)
    then have rest: "repoint_all w winner loser ts db = (None, db')" using "2.prems"(1) Inl by simp
    have "dd_tables db t1 = None"
      using Inl m "2.prems"(2) unique_text by (auto simp: exec_repoint_def honest_errors_def split: option.splits if_splits)
    then have "refs db t1 = {}" by (simp add: refs_def)
    then have "loser \<notin> refs db' t1" using repoint_all_frame [OF rest] "2.prems"(3) by auto
    then show ?thesis using "2.IH"(1) [OF Inl m rest "2.prems"(2,3)] "2.prems"(4) by auto
  next
    case (Inr db1)
    then have rest: "repoint_all w winner loser ts db1 = (None, db')" using "2.prems"(1) by simp
    have "loser \<notin> refs db1 t1" using exec_repoint_refs(1) [OF Inr] "2.prems"(3) by auto
    then have "loser \<notin> refs db' t1" using repoint_all_frame [OF rest] "2.prems"(3) by auto
    then show ?thesis using "2.IH"(2) [OF Inr rest "2.prems"(2,3)] "2.prems"(4) by auto
  qed
qed simp

section \<open>The invariant of the pass\<close>

abbreviation ids :: "dedup_db \<Rightarrow> string set" where
  "ids db \<equiv> dv_id ` set (dd_devices db)"

definition attached :: "(string \<Rightarrow> dedup_key option) \<Rightarrow> dedup_db \<Rightarrow> bool" where
  "attached K db \<longleftrightarrow> (\<forall>t \<in> set fkTablesReferencingDeviceID. \<forall>x \<in> refs db t. K x \<noteq> None \<longrightarrow> x \<in> ids db)"

definition dedup_inv :: "(string \<Rightarrow> dedup_key option) \<Rightarrow> dedup_db \<Rightarrow> bool" where
  "dedup_inv K db \<longleftrightarrow> distinct (map dv_id (dd_devices db)) \<and> (\<forall>d \<in> set (dd_devices db). K (dv_id d) = Some (matchKey d))
     \<and> attached K db \<and> tables_unique db"

text \<open>What a part of the pass does from \<open>db\<close> with \<open>n\<close> merges to \<open>db'\<close> with \<open>n'\<close>.\<close>

definition merge_effect :: "(string \<Rightarrow> dedup_key option) \<Rightarrow> int \<Rightarrow> dedup_db \<Rightarrow> int \<Rightarrow> dedup_db \<Rightarrow> bool" where
  "merge_effect K n db n' db' \<longleftrightarrow> tables_moved K db db' \<and> dd_index db' = dd_index db
     \<and> (\<forall>t. t \<notin> set fkTablesReferencingDeviceID \<longrightarrow> dd_tables db' t = dd_tables db t)
     \<and> (\<exists>P. dd_devices db' = filter P (dd_devices db))
     \<and> n' + int (length (dd_devices db')) = n + int (length (dd_devices db))"

lemma merge_effect_refl: "merge_effect K n db n db"
  by (auto simp: merge_effect_def tables_moved_refl intro: exI [of _ "\<lambda>_. True"])

lemma merge_effect_trans: "merge_effect K n a m b \<Longrightarrow> merge_effect K m b l c \<Longrightarrow> merge_effect K n a l c"
  unfolding merge_effect_def by (auto intro: tables_moved_trans)

lemma removed_one:
  assumes "distinct (map f xs)" and "y \<in> f ` set xs"
  shows "int (length (filter (\<lambda>x. f x \<noteq> y) xs)) = int (length xs) - 1"
  using assms
proof (induction xs)
  case (Cons x xs)
  show ?case
  proof (cases "f x = y")
    case True
    have "f x \<notin> f ` set xs" using Cons.prems(1) by simp
    then have "\<forall>z \<in> set xs. f z \<noteq> y" using True by (metis imageI)
    then have "filter (\<lambda>x. f x \<noteq> y) xs = xs" by simp
    with True show ?thesis by simp
  next
    case False
    with Cons show ?thesis by auto
  qed
qed simp

lemma inv_key:
  assumes "dedup_inv K db" and "l \<in> ids db"
  shows "K l \<noteq> None"
proof -
  obtain d where "d \<in> set (dd_devices db)" "dv_id d = l" using assms(2) by blast
  then have "K l = Some (matchKey d)" using assms(1) by (auto simp: dedup_inv_def)
  then show ?thesis by simp
qed

lemma merge_one:
  assumes inv: "dedup_inv K db" and win: "winner \<in> ids db" and same: "K winner = K l" "winner \<noteq> l" "l \<in> ids db" and h: "honest_errors w"
    and r: "repoint_all w winner l fkTablesReferencingDeviceID db = (None, db1)"
  shows "dedup_inv K (db1\<lparr>dd_devices := filter (\<lambda>d. dv_id d \<noteq> l) (dd_devices db1)\<rparr>)"
    and "merge_effect K n db (n + 1) (db1\<lparr>dd_devices := filter (\<lambda>d. dv_id d \<noteq> l) (dd_devices db1)\<rparr>)"
proof -
  let ?db = "db1\<lparr>dd_devices := filter (\<lambda>d. dv_id d \<noteq> l) (dd_devices db1)\<rparr>"
  note fr = repoint_all_frame [OF r]
  have kl: "K l \<noteq> None" using inv_key [OF inv same(3)] .
  have refs: "refs ?db t = refs db1 t" for t by (simp add: refs_def)
  have i: "ids ?db = ids db - {l}" using fr by auto
  have "attached K ?db"
    unfolding attached_def
  proof (intro ballI impI)
    fix t x assume t: "t \<in> set fkTablesReferencingDeviceID" and x: "x \<in> refs ?db t" and k: "K x \<noteq> None"
    have "x \<noteq> l" using repoint_all_clears [OF r h same(2) t] x by (auto simp: refs)
    moreover have "x = winner \<or> x \<in> refs db t" using fr x refs by auto
    then have "x \<in> ids db" using win inv k t by (auto simp: dedup_inv_def attached_def)
    ultimately show "x \<in> ids ?db" unfolding i by blast
  qed
  moreover have "tables_unique ?db" using fr inv by (simp add: dedup_inv_def tables_unique_def)
  moreover have "distinct (map dv_id (filter (\<lambda>d. dv_id d \<noteq> l) (dd_devices db)))"
    using inv by (simp add: dedup_inv_def distinct_map_filter)
  ultimately show "dedup_inv K ?db" using fr inv by (simp add: dedup_inv_def)
  have "tables_moved K db db1" using repoint_all_moved [OF r same(1) kl] .
  then have "tables_moved K db ?db" by (simp add: tables_moved_def)
  moreover have "int (length (dd_devices ?db)) = int (length (dd_devices db)) - 1"
    using fr removed_one [of dv_id "dd_devices db" l] inv same(3) by (simp add: dedup_inv_def)
  ultimately show "merge_effect K n db (n + 1) ?db" using fr by (auto simp: merge_effect_def)
qed

lemma merge_one_failed:
  assumes inv: "dedup_inv K db" and win: "winner \<in> ids db" and same: "K winner = K l" "l \<in> ids db"
    and r: "repoint_all w winner l fkTablesReferencingDeviceID db = (e, db1)"
  shows "dedup_inv K db1" and "merge_effect K n db n db1"
proof -
  note fr = repoint_all_frame [OF r]
  have kl: "K l \<noteq> None" using inv_key [OF inv same(2)] .
  have "attached K db1"
    unfolding attached_def
  proof (intro ballI impI)
    fix t x assume t: "t \<in> set fkTablesReferencingDeviceID" and x: "x \<in> refs db1 t" and k: "K x \<noteq> None"
    have "x = winner \<or> x \<in> refs db t" using fr x by auto
    then show "x \<in> ids db1" using win inv k t fr by (auto simp: dedup_inv_def attached_def)
  qed
  then show "dedup_inv K db1" using inv fr by (simp add: dedup_inv_def)
  show "merge_effect K n db n db1"
    using fr repoint_all_moved [OF r same(1) kl] by (auto simp: merge_effect_def intro: exI [of _ "\<lambda>_. True"])
qed

lemma merge_losers_spec:
  assumes "merge_losers w winner ls n db = (e, n', db')" and "honest_errors w" and "dedup_inv K db" and "winner \<in> ids db"
    and "distinct ls" and "set ls \<subseteq> ids db" and "\<forall>l \<in> set ls. l \<noteq> winner \<and> K l = K winner"
  shows "dedup_inv K db' \<and> merge_effect K n db n' db' \<and> winner \<in> ids db'
    \<and> (e = None \<longrightarrow> dd_devices db' = filter (\<lambda>d. dv_id d \<notin> set ls) (dd_devices db))"
  using assms
proof (induction ls arbitrary: n db)
  case Nil
  then show ?case by (simp add: merge_effect_refl)
next
  case (Cons l ls)
  have l: "K winner = K l" "winner \<noteq> l" "l \<in> ids db" using Cons.prems(6,7) by auto
  obtain x db1 where r: "repoint_all w winner l fkTablesReferencingDeviceID db = (x, db1)" by fastforce
  note fr = repoint_all_frame [OF r] and failed = merge_one_failed [OF Cons.prems(3,4) l(1,3) r]
  show ?case
  proof (cases "x = None \<and> dw_delete_ok w l")
    case False
    then have res: "db' = db1" "n' = n" "e \<noteq> None" using Cons.prems(1) r by (cases x; auto)+
    from res(3) obtain y where "e = Some y" by auto
    moreover have "dd_devices db1 = dd_devices db" using fr by blast
    ultimately show ?thesis using failed res Cons.prems(4) by simp
  next
    case True
    then have r1: "repoint_all w winner l fkTablesReferencingDeviceID db = (None, db1)" using r by simp
    let ?db = "db1\<lparr>dd_devices := filter (\<lambda>d. dv_id d \<noteq> l) (dd_devices db1)\<rparr>"
    note one = merge_one [OF Cons.prems(3,4) l Cons.prems(2) r1]
    have rest: "merge_losers w winner ls (n + 1) ?db = (e, n', db')" using Cons.prems(1) r1 True by simp
    have i: "ids ?db = ids db - {l}" using fr by auto
    have sub: "set ls \<subseteq> ids ?db" using Cons.prems(5,6) unfolding i by auto
    have win: "winner \<in> ids ?db" using Cons.prems(4) l(2) unfolding i by blast
    have d: "distinct ls" and a: "\<forall>l \<in> set ls. l \<noteq> winner \<and> K l = K winner" using Cons.prems(5,7) by simp_all
    note ih = Cons.IH [OF rest Cons.prems(2) one(1) win d sub a]
    have "filter (\<lambda>d. dv_id d \<notin> set ls) (dd_devices ?db) = filter (\<lambda>d. dv_id d \<notin> set (l # ls)) (dd_devices db)"
      using fr by (auto intro: filter_cong)
    then show ?thesis using ih merge_effect_trans [OF one(2)] by auto
  qed
qed

section \<open>The winners\<close>

lemma pick_winner_in:
  assumes "pick_winner k ds = Some i"
  obtains d where "d \<in> set ds" "matchKey d = k" "dv_id d = i"
proof -
  obtain d rest where s: "sort_key (\<lambda>d. (- dv_created d, dv_id d)) (key_rows k ds) = d # rest" "i = dv_id d"
    using assms by (auto simp: pick_winner_def split: list.splits)
  then have "d \<in> set (sort_key (\<lambda>d. (- dv_created d, dv_id d)) (key_rows k ds))" by simp
  then have "d \<in> set (key_rows k ds)" by (simp only: set_sort)
  with s(2) that show thesis by (auto simp: key_rows_def)
qed

text \<open>No row of the set was created later than the winner's.\<close>

lemma pick_winner_latest:
  assumes "pick_winner (matchKey d) ds = Some i" and "d \<in> set ds" and "distinct (map dv_id ds)"
  obtains v where "v \<in> set ds" "dv_id v = i" "matchKey v = matchKey d" "dv_created d \<le> dv_created v"
proof -
  let ?xs = "sort_key (\<lambda>d. (- dv_created d, dv_id d)) (key_rows (matchKey d) ds)"
  obtain v rest where s: "?xs = v # rest" "i = dv_id v"
    using assms by (auto simp: pick_winner_def split: list.splits)
  have set: "set ?xs = set (key_rows (matchKey d) ds)" by (simp only: set_sort)
  have "d \<in> set ?xs" using assms(2) unfolding set by (simp add: key_rows_def)
  moreover have "sorted (map (\<lambda>d. (- dv_created d, dv_id d)) ?xs)" by (rule sorted_sort_key)
  ultimately have "(- dv_created v, dv_id v) \<le> (- dv_created d, dv_id d)" unfolding s(1) by auto
  then have "dv_created d \<le> dv_created v" by (auto simp: less_eq_prod_def)
  moreover have "v \<in> set (key_rows (matchKey d) ds)" using s(1) set by auto
  ultimately show thesis using that s(2) by (auto simp: key_rows_def)
qed

definition wins :: "device_row list \<Rightarrow> device_row \<Rightarrow> bool" where
  "wins ds d \<longleftrightarrow> pick_winner (matchKey d) ds = Some (dv_id d)"

lemma key_rows_filter: "(\<And>d. d \<in> set ds \<Longrightarrow> matchKey d = k \<Longrightarrow> P d) \<Longrightarrow> key_rows k (filter P ds) = key_rows k ds"
  unfolding key_rows_def filter_filter by (rule filter_cong) auto

lemma losers_of:
  assumes "distinct (map dv_id ds)" and "d \<in> set ds"
  shows "dv_id d \<in> set (filter (\<lambda>i. i \<noteq> winner) (map dv_id (key_rows k ds))) \<longleftrightarrow> matchKey d = k \<and> dv_id d \<noteq> winner"
proof -
  have "dv_id d \<in> dv_id ` {d \<in> set ds. matchKey d = k} \<longleftrightarrow> matchKey d = k"
    using assms by (auto simp: distinct_map inj_on_def image_iff)
  then show ?thesis by (simp add: key_rows_def)
qed

lemma merge_sets_spec:
  assumes "merge_sets w ks n db = (e, n', db')" and "honest_errors w" and "dedup_inv K db" and "distinct ks"
  shows "dedup_inv K db' \<and> merge_effect K n db n' db'
    \<and> (e = None \<longrightarrow> dd_devices db' = filter (\<lambda>d. matchKey d \<in> set ks \<longrightarrow> wins (dd_devices db) d) (dd_devices db))"
  using assms
proof (induction ks arbitrary: n db)
  case Nil
  then show ?case by (simp add: merge_effect_refl)
next
  case (Cons k ks)
  let ?ds = "dd_devices db"
  show ?case
  proof (cases "if dw_pick_ok w k then pick_winner k ?ds else None")
    case None
    then show ?thesis using Cons.prems by (auto simp: merge_effect_refl)
  next
    case (Some winner)
    then have pick: "pick_winner k ?ds = Some winner" by (simp split: if_splits)
    obtain v where v: "v \<in> set ?ds" "matchKey v = k" "dv_id v = winner" using pick_winner_in [OF pick] .
    let ?ls = "filter (\<lambda>i. i \<noteq> winner) (map dv_id (key_rows k ?ds))"
    have K: "\<forall>d \<in> set ?ds. K (dv_id d) = Some (matchKey d)" and dist: "distinct (map dv_id ?ds)"
      using Cons.prems(3) by (simp_all add: dedup_inv_def)
    show ?thesis
    proof (cases "dw_list_ok w k")
      case False
      then show ?thesis using Cons.prems Some by (auto simp: merge_effect_refl)
    next
      case True
      obtain x m db1 where r: "merge_losers w winner ?ls n db = (x, m, db1)" by (metis prod.exhaust)
      have win: "winner \<in> ids db" using v by auto
      have dl: "distinct ?ls" using dist by (simp add: key_rows_def distinct_map_filter)
      have sub: "set ?ls \<subseteq> ids db" by (auto simp: key_rows_def)
      have all: "\<forall>l \<in> set ?ls. l \<noteq> winner \<and> K l = K winner" using K v by (auto simp: key_rows_def)
      note sp = merge_losers_spec [OF r Cons.prems(2,3) win dl sub all]
      show ?thesis
      proof (cases x)
        case (Some y)
        then have "e = Some y" "n' = m" "db' = db1" using Cons.prems(1) \<open>(if _ then _ else _) = _\<close> True r by auto
        then show ?thesis using sp by simp
      next
        case None
        then have rest: "merge_sets w ks m db1 = (e, n', db')" using Cons.prems(1) Some True r by simp
        have ds1: "dd_devices db1 = filter (\<lambda>d. matchKey d = k \<longrightarrow> wins ?ds d) ?ds"
        proof -
          have "dd_devices db1 = filter (\<lambda>d. dv_id d \<notin> set ?ls) ?ds" using sp None by blast
          also have "\<dots> = filter (\<lambda>d. matchKey d = k \<longrightarrow> wins ?ds d) ?ds"
            using losers_of [OF dist] pick by (intro filter_cong refl) (auto simp: wins_def)
          finally show ?thesis .
        qed
        have same: "wins (dd_devices db1) d \<longleftrightarrow> wins ?ds d" if "matchKey d \<noteq> k" for d
          using that key_rows_filter [of ?ds "matchKey d" "\<lambda>d. matchKey d = k \<longrightarrow> wins ?ds d"] by (simp add: wins_def pick_winner_def ds1)
        have dk: "distinct ks" and nk: "k \<notin> set ks" using Cons.prems(4) by simp_all
        have inv1: "dedup_inv K db1" using sp by blast
        note ih = Cons.IH [OF rest Cons.prems(2) inv1 dk]
        have eff: "merge_effect K n db n' db'" using sp ih merge_effect_trans by blast
        have both: "((matchKey d = k \<longrightarrow> wins ?ds d) \<and> (matchKey d \<in> set ks \<longrightarrow> wins (dd_devices db1) d))
            \<longleftrightarrow> (matchKey d \<in> set (k # ks) \<longrightarrow> wins ?ds d)" for d
          using same [of d] nk by (cases "matchKey d = k") auto
        have "filter (\<lambda>d. matchKey d \<in> set ks \<longrightarrow> wins (dd_devices db1) d) (dd_devices db1)
            = filter (\<lambda>d. matchKey d \<in> set ks \<longrightarrow> wins (dd_devices db1) d) (filter (\<lambda>d. matchKey d = k \<longrightarrow> wins ?ds d) ?ds)"
          by (rule arg_cong [OF ds1])
        also have "\<dots> = filter (\<lambda>d. matchKey d \<in> set (k # ks) \<longrightarrow> wins ?ds d) ?ds"
          unfolding filter_filter both ..
        finally have "filter (\<lambda>d. matchKey d \<in> set ks \<longrightarrow> wins (dd_devices db1) d) (dd_devices db1)
            = filter (\<lambda>d. matchKey d \<in> set (k # ks) \<longrightarrow> wins ?ds d) ?ds" .
        with ih eff show ?thesis by auto
      qed
    qed
  qed
qed

section \<open>Properties\<close>

lemma key_of_row: "distinct (map dv_id ds) \<Longrightarrow> d \<in> set ds \<Longrightarrow> key_of ds (dv_id d) = Some (matchKey d)"
  unfolding key_of_def by (rule map_of_is_SomeI) (auto simp: comp_def)

lemma key_of_in: "key_of ds x \<noteq> None \<longleftrightarrow> x \<in> dv_id ` set ds"
  unfolding key_of_def by (auto simp: map_of_eq_None_iff image_image)

lemma dedup_inv_start:
  assumes "distinct (map dv_id (dd_devices db))" and "tables_unique db"
  shows "dedup_inv (key_of (dd_devices db)) db"
  unfolding dedup_inv_def attached_def using assms key_of_row [OF assms(1)] key_of_in by blast

lemma dup_sets_distinct: "distinct (dup_sets ds)"
  by (simp add: dup_sets_def)

lemma single_wins:
  assumes "d \<in> set ds" and "matchKey d \<notin> set (dup_sets ds)"
  shows "wins ds d"
proof -
  have "length (key_rows (matchKey d) ds) \<le> 1" using assms by (auto simp: dup_sets_def)
  moreover have "d \<in> set (key_rows (matchKey d) ds)" using assms(1) by (simp add: key_rows_def)
  ultimately have "key_rows (matchKey d) ds = [d]" by (cases "key_rows (matchKey d) ds") auto
  then show ?thesis by (simp add: wins_def pick_winner_def)
qed

lemma has_winner:
  assumes "k \<in> matchKey ` set ds"
  obtains d where "d \<in> set ds" "matchKey d = k" "wins ds d"
proof -
  have "key_rows k ds \<noteq> []" using assms by (auto simp: key_rows_def filter_empty_conv)
  then have "sort_key (\<lambda>d. (- dv_created d, dv_id d)) (key_rows k ds) \<noteq> []" by (metis length_0_conv length_sort)
  then obtain v rest where "sort_key (\<lambda>d. (- dv_created d, dv_id d)) (key_rows k ds) = v # rest" by (meson list.exhaust)
  then have p: "pick_winner k ds = Some (dv_id v)" by (simp add: pick_winner_def)
  then show thesis using that by (auto elim!: pick_winner_in simp: wins_def)
qed

lemma winners_distinct:
  assumes "distinct (map dv_id ds)"
  shows "distinct (map matchKey (filter (wins ds) ds))"
proof -
  have "inj_on matchKey (set (filter (wins ds) ds))"
    using assms by (auto simp: inj_on_def wins_def distinct_map)
  moreover have "distinct ds" using assms by (simp add: distinct_map)
  ultimately show ?thesis by (simp add: distinct_map)
qed

lemma dedup_spec:
  assumes "DeduplicateDevicesAndCreateIndex w db = (e, n, db')" and "honest_errors w"
    and "distinct (map dv_id (dd_devices db))" and "tables_unique db"
  shows "dedup_inv (key_of (dd_devices db)) db' \<and> tables_moved (key_of (dd_devices db)) db db'
    \<and> (\<forall>t. t \<notin> set fkTablesReferencingDeviceID \<longrightarrow> dd_tables db' t = dd_tables db t)
    \<and> (\<exists>P. dd_devices db' = filter P (dd_devices db))
    \<and> n = int (length (dd_devices db)) - int (length (dd_devices db'))
    \<and> (e = None \<longrightarrow> dd_devices db' = filter (wins (dd_devices db)) (dd_devices db) \<and> dd_index db')"
proof -
  let ?K = "key_of (dd_devices db)" and ?ds = "dd_devices db"
  note inv = dedup_inv_start [OF assms(3,4)]
  show ?thesis
  proof (cases "dw_find_ok w")
    case False
    then have "e \<noteq> None" "n = 0" "db' = db" using assms(1) by (auto simp: DeduplicateDevicesAndCreateIndex_def)
    then show ?thesis using inv by (auto simp: tables_moved_refl intro: exI [of _ "\<lambda>_. True"])
  next
    case True
    obtain x m db1 where r: "merge_sets w (dup_sets ?ds) 0 db = (x, m, db1)" by (metis prod.exhaust)
    note sp = merge_sets_spec [OF r assms(2) inv dup_sets_distinct]
    have same: "n = m" "dd_devices db' = dd_devices db1" "dd_tables db' = dd_tables db1" "e = None \<longrightarrow> x = None \<and> dd_index db'"
      using assms(1) True r by (cases x; auto simp: DeduplicateDevicesAndCreateIndex_def split: if_splits)+
    have inv': "dedup_inv ?K db'"
      using sp same(2,3) by (simp add: dedup_inv_def attached_def tables_unique_def refs_def)
    have tm: "tables_moved ?K db db'" using sp same(3) by (simp add: merge_effect_def tables_moved_def)
    have "filter (\<lambda>d. matchKey d \<in> set (dup_sets ?ds) \<longrightarrow> wins ?ds d) ?ds = filter (wins ?ds) ?ds"
      using single_wins by (intro filter_cong refl) blast
    then show ?thesis using sp same inv' tm by (auto simp: merge_effect_def)
  qed
qed

text \<open>
  C23. When the pass succeeds, each set of rows with one tenant, hostname and MAC address has become its winner, the row
  created last and of these the one with the least id; no two rows share a key any more, the number returned is
  the number of duplicates there were, and the unique index is installed.
\<close>

theorem dedup_complete:
  assumes "DeduplicateDevicesAndCreateIndex w db = (None, n, db')" and "honest_errors w"
    and "distinct (map dv_id (dd_devices db))" and "tables_unique db"
  shows "dd_devices db' = filter (\<lambda>d. pick_winner (matchKey d) (dd_devices db) = Some (dv_id d)) (dd_devices db)
    \<and> distinct (map matchKey (dd_devices db')) \<and> matchKey ` set (dd_devices db') = matchKey ` set (dd_devices db)
    \<and> n = CountDuplicateDevices db \<and> dd_index db'"
proof -
  let ?ds = "dd_devices db"
  note sp = dedup_spec [OF assms]
  have ds': "dd_devices db' = filter (wins ?ds) ?ds" using sp by blast
  have d: "distinct (map matchKey (dd_devices db'))" unfolding ds' by (rule winners_distinct [OF assms(3)])
  have k: "matchKey ` set (dd_devices db') = matchKey ` set ?ds"
  proof
    show "matchKey ` set (dd_devices db') \<subseteq> matchKey ` set ?ds" unfolding ds' by auto
    show "matchKey ` set ?ds \<subseteq> matchKey ` set (dd_devices db')"
    proof
      fix k assume "k \<in> matchKey ` set ?ds"
      then obtain d where "d \<in> set ?ds" "matchKey d = k" "wins ?ds d" by (rule has_winner)
      then show "k \<in> matchKey ` set (dd_devices db')" unfolding ds' by auto
    qed
  qed
  have "length (dd_devices db') = card (matchKey ` set (dd_devices db'))" using distinct_card [OF d] by simp
  then have "length (dd_devices db') = length (remdups (map matchKey ?ds))" by (simp add: k length_remdups_card_conv)
  then have "n = CountDuplicateDevices db" using sp by (simp add: CountDuplicateDevices_def)
  moreover have "dd_index db'" using sp by blast
  ultimately show ?thesis using d k ds' unfolding wins_def by blast
qed

text \<open>
  C24. Whatever the outcome and wherever the pass stopped, no row of a listed table is lost or left behind: a
  row that referred to a device refers to a device that still exists, of the same tenant, hostname and MAC address, and a
  row that referred to none is unchanged.
\<close>

theorem dedup_keeps_references:
  assumes "DeduplicateDevicesAndCreateIndex w db = (e, n, db')" and "honest_errors w"
    and "distinct (map dv_id (dd_devices db))" and "tables_unique db"
    and "t \<in> set fkTablesReferencingDeviceID" and "dd_tables db t = Some rows"
  shows "\<exists>rows'. dd_tables db' t = Some rows' \<and> list_all2 (\<lambda>r r'. ch_id r' = ch_id r \<and> ch_key r' = ch_key r
    \<and> (ch_device r \<notin> dv_id ` set (dd_devices db) \<longrightarrow> r' = r)
    \<and> (\<forall>d \<in> set (dd_devices db). dv_id d = ch_device r \<longrightarrow>
         (\<exists>d' \<in> set (dd_devices db'). dv_id d' = ch_device r' \<and> matchKey d' = matchKey d))) rows rows'"
proof -
  let ?K = "key_of (dd_devices db)"
  note sp = dedup_spec [OF assms(1-4)]
  have "rel_option (list_all2 (moved ?K)) (dd_tables db t) (dd_tables db' t)" using sp by (simp add: tables_moved_def)
  then obtain rows' where r': "dd_tables db' t = Some rows'" "list_all2 (moved ?K) rows rows'"
    using assms(6) by (cases "dd_tables db' t") auto
  have K': "\<forall>d \<in> set (dd_devices db'). ?K (dv_id d) = Some (matchKey d)" and att: "attached ?K db'"
    using sp by (simp_all add: dedup_inv_def)
  have "list_all2 (\<lambda>r r'. ch_id r' = ch_id r \<and> ch_key r' = ch_key r
    \<and> (ch_device r \<notin> dv_id ` set (dd_devices db) \<longrightarrow> r' = r)
    \<and> (\<forall>d \<in> set (dd_devices db). dv_id d = ch_device r \<longrightarrow>
         (\<exists>d' \<in> set (dd_devices db'). dv_id d' = ch_device r' \<and> matchKey d' = matchKey d))) rows rows'"
    using r'(2)
  proof (rule list.rel_mono_strong)
    fix r s assume "r \<in> set rows" "s \<in> set rows'" and m: "moved ?K r s"
    have eq: "s = r\<lparr>ch_device := ch_device s\<rparr>" and k: "ch_device s = ch_device r \<or> ?K (ch_device r) \<noteq> None \<and> ?K (ch_device s) = ?K (ch_device r)"
      using m by (simp_all add: moved_def)
    have "ch_id s = ch_id r" "ch_key s = ch_key r" by (subst eq, simp)+
    moreover have "s = r" if "ch_device r \<notin> dv_id ` set (dd_devices db)"
      using that k eq key_of_in by (metis child_row.surjective child_row.update_convs(2))
    moreover have "\<exists>d' \<in> set (dd_devices db'). dv_id d' = ch_device s \<and> matchKey d' = matchKey d"
      if d: "d \<in> set (dd_devices db)" "dv_id d = ch_device r" for d
    proof -
      have "?K (ch_device s) = Some (matchKey d)" using k key_of_row [OF assms(3) d(1)] d(2) by auto
      moreover have "ch_device s \<in> refs db' t" using \<open>s \<in> set rows'\<close> r'(1) by (simp add: refs_def)
      ultimately have "ch_device s \<in> ids db'" "?K (ch_device s) = Some (matchKey d)"
        using att assms(5) unfolding attached_def by blast+
      then obtain d' where "d' \<in> set (dd_devices db')" "dv_id d' = ch_device s" "?K (dv_id d') = Some (matchKey d)" by auto
      moreover from this K' have "?K (dv_id d') = Some (matchKey d')" by blast
      ultimately have "matchKey d' = matchKey d" by simp
      with \<open>d' \<in> _\<close> \<open>dv_id d' = _\<close> show ?thesis by blast
    qed
    ultimately show "ch_id s = ch_id r \<and> ch_key s = ch_key r \<and> (ch_device r \<notin> dv_id ` set (dd_devices db) \<longrightarrow> s = r)
      \<and> (\<forall>d \<in> set (dd_devices db). dv_id d = ch_device r \<longrightarrow> (\<exists>d' \<in> set (dd_devices db'). dv_id d' = ch_device s \<and> matchKey d' = matchKey d))"
      by blast
  qed
  with r'(1) show ?thesis by blast
qed

text \<open>A second pass finds nothing to do.\<close>

lemma dup_sets_none: "distinct (map matchKey ds) \<Longrightarrow> dup_sets ds = []"
proof -
  assume d: "distinct (map matchKey ds)"
  have "length (key_rows k ds) \<le> 1" for k
  proof -
    have "distinct (map matchKey (key_rows k ds))" using d unfolding key_rows_def by (rule distinct_map_filter)
    moreover have "matchKey ` set (key_rows k ds) \<subseteq> {k}" by (auto simp: key_rows_def)
    ultimately have "length (key_rows k ds) \<le> card {k}"
      by (metis card_mono distinct_card finite.emptyI finite_insert length_map list.set_map)
    then show ?thesis by simp
  qed
  then show ?thesis by (auto simp: dup_sets_def filter_empty_conv not_less)
qed

lemma dedup_idempotent:
  assumes "DeduplicateDevicesAndCreateIndex w db = (None, n, db')" and "honest_errors w"
    and "distinct (map dv_id (dd_devices db))" and "tables_unique db" and "dw_find_ok w'" and "dw_index_ok w'"
  shows "DeduplicateDevicesAndCreateIndex w' db' = (None, 0, db')"
proof -
  have d: "distinct (map matchKey (dd_devices db'))" "dd_index db'" using dedup_complete [OF assms(1-4)] by blast+
  have "db'\<lparr>dd_index := True\<rparr> = db'" using d(2) by (cases db') simp
  with d dup_sets_none [OF d(1)] assms(5,6) show ?thesis by (simp add: DeduplicateDevicesAndCreateIndex_def)
qed

section \<open>A set that cannot be merged\<close>

text \<open>Two rows of a listed table with the same value in the unique index, for two devices of one key.\<close>

definition clash :: "dedup_db \<Rightarrow> bool" where
  "clash db \<longleftrightarrow> (\<exists>t \<in> set fkTablesReferencingDeviceID. \<exists>rows r r' d d'. dd_tables db t = Some rows
     \<and> r \<in> set rows \<and> r' \<in> set rows \<and> ch_key r = ch_key r' \<and> ch_key r \<noteq> None
     \<and> d \<in> set (dd_devices db) \<and> d' \<in> set (dd_devices db) \<and> dv_id d = ch_device r \<and> dv_id d' = ch_device r'
     \<and> dv_id d \<noteq> dv_id d' \<and> matchKey d = matchKey d')"

lemma unique_ok_pair:
  assumes "unique_ok rows" and "i < length rows" and "j < length rows" and "i \<noteq> j" and "ch_key (rows ! i) = ch_key (rows ! j)"
    and "ch_key (rows ! i) \<noteq> None"
  shows "ch_device (rows ! i) \<noteq> ch_device (rows ! j)"
  using assms
proof (induction rows arbitrary: i j)
  case (Cons r rows)
  have u: "unique_ok rows" using Cons.prems(1) by (auto simp: unique_ok_def split: if_splits)
  have new: "\<forall>q \<in> set rows. ch_key r \<noteq> None \<longrightarrow> ch_key q = ch_key r \<longrightarrow> ch_device q \<noteq> ch_device r"
  proof (intro ballI impI notI)
    fix q assume q: "q \<in> set rows" "ch_key r \<noteq> None" "ch_key q = ch_key r" "ch_device q = ch_device r"
    then have "(ch_device r, ch_key r) \<in> (\<lambda>r. (ch_device r, ch_key r)) ` set (filter (\<lambda>r. ch_key r \<noteq> None) rows)"
      by (intro image_eqI [of _ _ q]) simp_all
    with Cons.prems(1) q(2) show False by (simp add: unique_ok_def)
  qed
  show ?case
  proof (cases i)
    case 0
    then obtain j' where "j = Suc j'" using Cons.prems(4) by (cases j) auto
    with 0 Cons.prems new show ?thesis by (auto dest!: nth_mem)
  next
    case (Suc i')
    show ?thesis
    proof (cases j)
      case 0
      with Suc Cons.prems new show ?thesis by (auto dest!: nth_mem)
    next
      case (Suc j')
      with \<open>i = Suc i'\<close> Cons.prems Cons.IH [OF u, of i' j'] show ?thesis by simp
    qed
  qed
qed simp

lemma clash_stays:
  assumes "DeduplicateDevicesAndCreateIndex w db = (e, n, db')" and "honest_errors w"
    and "distinct (map dv_id (dd_devices db))" and "tables_unique db" and "clash db"
  shows "clash db'"
proof -
  obtain t rows r r' d d' where t: "t \<in> set fkTablesReferencingDeviceID" "dd_tables db t = Some rows"
    and r: "r \<in> set rows" "r' \<in> set rows" "ch_key r = ch_key r'" "ch_key r \<noteq> None"
    and d: "d \<in> set (dd_devices db)" "d' \<in> set (dd_devices db)" "dv_id d = ch_device r" "dv_id d' = ch_device r'"
      "dv_id d \<noteq> dv_id d'" "matchKey d = matchKey d'"
    using assms(5) unfolding clash_def by blast
  obtain rows' where rows': "dd_tables db' t = Some rows'" and all: "list_all2 (\<lambda>r r'. ch_id r' = ch_id r \<and> ch_key r' = ch_key r
      \<and> (ch_device r \<notin> dv_id ` set (dd_devices db) \<longrightarrow> r' = r)
      \<and> (\<forall>d \<in> set (dd_devices db). dv_id d = ch_device r \<longrightarrow>
           (\<exists>d' \<in> set (dd_devices db'). dv_id d' = ch_device r' \<and> matchKey d' = matchKey d))) rows rows'"
    using dedup_keeps_references [OF assms(1-4) t] by blast
  obtain i j where i: "i < length rows" "rows ! i = r" and j: "j < length rows" "rows ! j = r'"
    using r(1,2) by (auto simp: in_set_conv_nth)
  have ij: "i \<noteq> j" using i j d(3-5) by auto
  have len: "length rows' = length rows" using all by (rule list_all2_lengthD [symmetric])
  note ai = list_all2_nthD [OF all i(1)] and aj = list_all2_nthD [OF all j(1)]
  obtain x where x: "x \<in> set (dd_devices db')" "dv_id x = ch_device (rows' ! i)" "matchKey x = matchKey d" using ai d(1,3) i(2) by metis
  obtain y where y: "y \<in> set (dd_devices db')" "dv_id y = ch_device (rows' ! j)" "matchKey y = matchKey d'" using aj d(2,4) j(2) by metis
  have k: "ch_key (rows' ! i) = ch_key (rows' ! j)" "ch_key (rows' ! i) \<noteq> None" using ai aj i j r by auto
  have "unique_ok rows'" using dedup_spec [OF assms(1-4)] rows' by (simp add: dedup_inv_def tables_unique_def)
  then have "ch_device (rows' ! i) \<noteq> ch_device (rows' ! j)" using i(1) j(1) len ij k by (intro unique_ok_pair) simp_all
  moreover have "rows' ! i \<in> set rows'" "rows' ! j \<in> set rows'" using i(1) j(1) len by simp_all
  ultimately show ?thesis unfolding clash_def using t(1) rows' k x y d(6) by (metis (no_types, lifting))
qed

lemma clash_fails:
  assumes "DeduplicateDevicesAndCreateIndex w db = (e, n, db')" and "honest_errors w"
    and "distinct (map dv_id (dd_devices db))" and "tables_unique db" and "clash db"
  shows "e \<noteq> None"
proof
  assume "e = None"
  then have d: "distinct (map matchKey (dd_devices db'))" using dedup_complete assms(1-4) by blast
  obtain x y where "x \<in> set (dd_devices db')" "y \<in> set (dd_devices db')" "dv_id x \<noteq> dv_id y" "matchKey x = matchKey y"
    using clash_stays [OF assms] unfolding clash_def by blast
  with d show False by (metis distinct_map inj_onD)
qed

text \<open>Restarts of the server on one database.\<close>

fun restarts :: "dedup_world list \<Rightarrow> dedup_db \<Rightarrow> boot list" where
  "restarts [] db = []"
| "restarts (w # ws) db = (case boot_dedup w db of (b, db') \<Rightarrow> b # restarts ws db')"

lemma clash_restarts:
  "\<forall>w \<in> set ws. honest_errors w \<Longrightarrow> distinct (map dv_id (dd_devices db)) \<Longrightarrow> tables_unique db \<Longrightarrow> clash db
    \<Longrightarrow> restarts ws db = replicate (length ws) Exits"
proof (induction ws arbitrary: db)
  case (Cons w ws)
  obtain e n db' where r: "DeduplicateDevicesAndCreateIndex w db = (e, n, db')" by (metis prod.exhaust)
  have h: "honest_errors w" using Cons.prems(1) by simp
  note c = clash_fails [OF r h Cons.prems(2-4)] clash_stays [OF r h Cons.prems(2-4)] dedup_spec [OF r h Cons.prems(2,3)]
  then have "distinct (map dv_id (dd_devices db'))" "tables_unique db'" by (simp_all add: dedup_inv_def)
  then have "restarts ws db' = replicate (length ws) Exits" using Cons.IH Cons.prems(1) c(2) by simp
  moreover obtain x where "e = Some x" using c(1) by blast
  ultimately show ?case by (simp add: boot_dedup_def r)
qed simp

text \<open>
  If two duplicates have both reported their hardware, the server never boots again: \<open>device_hardware\<close> is
  keyed by the device, the pass cannot give both rows to the winner, its error ends the process, and so does every
  later attempt.
\<close>

theorem duplicate_inventory_blocks_boot:
  assumes "d \<in> set (dd_devices db)" and "d' \<in> set (dd_devices db)" and "dv_id d \<noteq> dv_id d'" and "matchKey d = matchKey d'"
    and "dd_tables db ''device_hardware'' = Some rows" and "r \<in> set rows" and "r' \<in> set rows"
    and "ch_device r = dv_id d" and "ch_device r' = dv_id d'" and "ch_key r = Some []" and "ch_key r' = Some []"
    and "distinct (map dv_id (dd_devices db))" and "tables_unique db" and "\<And>w. w \<in> set ws \<Longrightarrow> honest_errors w"
  shows "restarts ws db = replicate (length ws) Exits"
proof (rule clash_restarts)
  have "''device_hardware'' \<in> set fkTablesReferencingDeviceID" by (simp add: fkTablesReferencingDeviceID_def)
  then show "clash db" unfolding clash_def using assms(1-11) by (metis (no_types, lifting) option.distinct(1))
qed (use assms(12-14) in simp_all)

section \<open>Witnesses\<close>

definition twin :: "string \<Rightarrow> unix \<Rightarrow> device_row" where
  "twin i since = \<lparr>dv_id = i, dv_tenant = ''t'', dv_name = ''pc'', dv_host = ''pc'', dv_mac = None, dv_ip = [], dv_os = [], dv_os_version = [],
     dv_kernel = [], dv_agent_version = [], dv_status = ''online'', dv_created = since, dv_cpu = [], dv_memory = 0, dv_disk = 0,
     dv_agent_ip = [], dv_os_class = [], dv_owner = None, dv_latency = 0, dv_sunshine = (False, False, 0), dv_ts_installed = False,
     dv_ts_connected = False, dv_ts_ip = [], dv_ts_hostname = [], dv_ts_peers = 0, dv_ts_state = []\<rparr>"

definition twins :: "dedup_db" where
  "twins = \<lparr>dd_devices = [twin ''a'' 1, twin ''b'' 2],
     dd_tables = [''alerts'' \<mapsto> [\<lparr>ch_id = ''x'', ch_device = ''a'', ch_key = None\<rparr>]], dd_index = False\<rparr>"

definition twins_merged :: "dedup_db" where
  "twins_merged = \<lparr>dd_devices = [twin ''b'' 2],
     dd_tables = [''alerts'' \<mapsto> [\<lparr>ch_id = ''x'', ch_device = ''b'', ch_key = None\<rparr>]], dd_index = True\<rparr>"

definition calm :: dedup_world where
  "calm = \<lparr>dw_find_ok = True, dw_pick_ok = (\<lambda>_. True), dw_list_ok = (\<lambda>_. True), dw_repoint = (\<lambda>_ _. None),
     dw_delete_ok = (\<lambda>_. True), dw_index_ok = True\<rparr>"

lemma calm_honest: "honest_errors calm"
  by (simp add: honest_errors_def calm_def)

lemma twins_ok: "distinct (map dv_id (dd_devices twins))" "tables_unique twins"
  by (auto simp: twins_def twin_def tables_unique_def unique_ok_def split: if_splits)

lemma twins_pass: "fst (DeduplicateDevicesAndCreateIndex calm twins) = None"
  by code_simp

lemma dedup_complete_witness:
  "dd_devices (snd (snd (DeduplicateDevicesAndCreateIndex calm twins))) = [twin ''b'' 2] \<and> fst (snd (DeduplicateDevicesAndCreateIndex calm twins)) = 1"
proof -
  obtain n db' where r: "DeduplicateDevicesAndCreateIndex calm twins = (None, n, db')" using twins_pass by (metis prod.collapse)
  have k: "matchKey (twin i since) = (''t'', ''pc'', [])" "dv_id (twin i since) = i" "dv_created (twin i since) = since" for i since
    by (simp_all add: matchKey_def twin_def)
  have w: "pick_winner (''t'', ''pc'', []) (dd_devices twins) = Some ''b''"
    by (simp add: pick_winner_def twins_def k key_rows_def less_eq_prod_def)
  have "filter (\<lambda>d. pick_winner (matchKey d) (dd_devices twins) = Some (dv_id d)) (dd_devices twins) = [twin ''b'' 2]"
    using w by (simp add: twins_def k)
  moreover have "CountDuplicateDevices twins = 1" by (simp add: CountDuplicateDevices_def twins_def k)
  ultimately show ?thesis using dedup_complete [OF r calm_honest twins_ok] by (simp add: r)
qed

lemma dedup_keeps_references_witness:
  "\<exists>r. dd_tables (snd (snd (DeduplicateDevicesAndCreateIndex calm twins))) ''alerts'' = Some [r] \<and> ch_id r = ''x'' \<and> ch_device r = ''b''"
proof -
  obtain n db' where r: "DeduplicateDevicesAndCreateIndex calm twins = (None, n, db')" using twins_pass by (metis prod.collapse)
  have t: "''alerts'' \<in> set fkTablesReferencingDeviceID" by (simp add: fkTablesReferencingDeviceID_def)
  have rows: "dd_tables twins ''alerts'' = Some [\<lparr>ch_id = ''x'', ch_device = ''a'', ch_key = None\<rparr>]" by (simp add: twins_def)
  obtain rows' where r': "dd_tables db' ''alerts'' = Some rows'" "list_all2 (\<lambda>r r'. ch_id r' = ch_id r \<and> ch_key r' = ch_key r
    \<and> (ch_device r \<notin> dv_id ` set (dd_devices twins) \<longrightarrow> r' = r)
    \<and> (\<forall>d \<in> set (dd_devices twins). dv_id d = ch_device r \<longrightarrow>
         (\<exists>d' \<in> set (dd_devices db'). dv_id d' = ch_device r' \<and> matchKey d' = matchKey d))) [\<lparr>ch_id = ''x'', ch_device = ''a'', ch_key = None\<rparr>] rows'"
    using dedup_keeps_references [OF r calm_honest twins_ok t rows] by blast
  have "dd_devices db' = [twin ''b'' 2]" using dedup_complete_witness by (simp add: r)
  moreover have a: "twin ''a'' 1 \<in> set (dd_devices twins)" "dv_id (twin ''a'' 1) = ''a''" "dv_id (twin ''b'' 2) = ''b''"
    by (simp_all add: twins_def twin_def)
  moreover obtain z where z: "rows' = [z]" "ch_id z = ''x''" "\<forall>d \<in> set (dd_devices twins). dv_id d = ''a'' \<longrightarrow>
         (\<exists>d' \<in> set (dd_devices db'). dv_id d' = ch_device z \<and> matchKey d' = matchKey d)"
    using r'(2) unfolding list_all2_Cons1 list_all2_Nil by (elim exE conjE) simp
  ultimately have "ch_device z = ''b''" by fastforce
  with r'(1) z show ?thesis by (simp add: r)
qed

definition twins_inventoried :: "dedup_db" where
  "twins_inventoried = twins\<lparr>dd_tables := [''device_hardware'' \<mapsto> [\<lparr>ch_id = [], ch_device = ''a'', ch_key = Some []\<rparr>, \<lparr>ch_id = [], ch_device = ''b'', ch_key = Some []\<rparr>]]\<rparr>"

lemma duplicate_inventory_blocks_boot_witness: "restarts [calm, calm] twins_inventoried = [Exits, Exits]"
proof -
  have "distinct (map dv_id (dd_devices twins_inventoried))" using twins_ok(1) by (simp add: twins_inventoried_def)
  moreover have "tables_unique twins_inventoried"
    by (auto simp: twins_inventoried_def tables_unique_def unique_ok_def split: if_splits)
  ultimately show ?thesis
    using duplicate_inventory_blocks_boot [of "twin ''a'' 1" twins_inventoried "twin ''b'' 2"
        "[\<lparr>ch_id = [], ch_device = ''a'', ch_key = Some []\<rparr>, \<lparr>ch_id = [], ch_device = ''b'', ch_key = Some []\<rparr>]"
        "\<lparr>ch_id = [], ch_device = ''a'', ch_key = Some []\<rparr>" "\<lparr>ch_id = [], ch_device = ''b'', ch_key = Some []\<rparr>" "[calm, calm]"] calm_honest
    by (simp add: twins_inventoried_def twins_def twin_def matchKey_def)
qed

end
