(* ===== verification/SafeHttp.thy ===== *)
theory SafeHttp
  imports Prelude "HOL-Library.Word"
begin

text \<open>
  The guards of outbound requests (\<open>internal/httputil/safehttp.go\<close>): which addresses the server refuses to connect
  to, checked when a URL is stored (\<open>RejectPrivateHost\<close>) and again for each address that is dialled
  (\<open>SafeOutboundClient\<close>, \<open>MetadataSafeClient\<close>).

  An address is \<open>net.IP\<close>: 4 or 16 bytes. The predicates of package \<open>net\<close> are written out. What the
  dialer passes to \<open>Control\<close> is an address with its zone; \<open>net.ParseIP\<close> accepts no zone. Name resolution and
  the parsing of URLs are parameters.
\<close>

unbundle bit_operations_syntax

type_synonym byte = "8 word"
type_synonym ip_addr = "byte list"

section \<open>Package \<open>net\<close>\<close>

definition To4 :: "ip_addr \<Rightarrow> ip_addr option" where
  "To4 ip = (if length ip = 4 then Some ip
     else if length ip = 16 \<and> take 12 ip = replicate 10 0 @ [0xff, 0xff] then Some (drop 12 ip)
     else None)"

text \<open>\<open>ParseIP\<close> and \<open>IPv4\<close> return the 16-byte form.\<close>

definition To16 :: "ip_addr \<Rightarrow> ip_addr" where
  "To16 ip = (if length ip = 4 then replicate 10 0 @ [0xff, 0xff] @ ip else ip)"

definition ip_equal :: "ip_addr \<Rightarrow> ip_addr \<Rightarrow> bool" where
  "ip_equal a b = (To16 a = To16 b)"

definition IsLoopback :: "ip_addr \<Rightarrow> bool" where
  "IsLoopback ip = (case To4 ip of Some q \<Rightarrow> q ! 0 = 127 | None \<Rightarrow> ip_equal ip (replicate 15 0 @ [1]))"

definition IsPrivate :: "ip_addr \<Rightarrow> bool" where
  "IsPrivate ip = (case To4 ip of
       Some q \<Rightarrow> q ! 0 = 10 \<or> q ! 0 = 172 \<and> q ! 1 AND 0xf0 = 16 \<or> q ! 0 = 192 \<and> q ! 1 = 168
     | None \<Rightarrow> length ip = 16 \<and> ip ! 0 AND 0xfe = 0xfc)"

definition IsLinkLocalUnicast :: "ip_addr \<Rightarrow> bool" where
  "IsLinkLocalUnicast ip = (case To4 ip of
       Some q \<Rightarrow> q ! 0 = 169 \<and> q ! 1 = 254
     | None \<Rightarrow> length ip = 16 \<and> ip ! 0 = 0xfe \<and> ip ! 1 AND 0xc0 = 0x80)"

definition IsLinkLocalMulticast :: "ip_addr \<Rightarrow> bool" where
  "IsLinkLocalMulticast ip = (case To4 ip of
       Some q \<Rightarrow> q ! 0 = 224 \<and> q ! 1 = 0 \<and> q ! 2 = 0
     | None \<Rightarrow> length ip = 16 \<and> ip ! 0 = 0xff \<and> ip ! 1 AND 0x0f = 0x02)"

definition IsUnspecified :: "ip_addr \<Rightarrow> bool" where
  "IsUnspecified ip = (ip_equal ip [0, 0, 0, 0] \<or> ip_equal ip (replicate 16 0))"

section \<open>The guards\<close>

definition isMetadataAddr :: "ip_addr \<Rightarrow> bool" where
  "isMetadataAddr ip =
     (if IsLinkLocalUnicast ip then True
      else case To4 ip of Some q \<Rightarrow> q ! 0 = 100 \<and> q ! 1 = 100 \<and> q ! 2 = 100 \<and> q ! 3 = 200 | None \<Rightarrow> False)"

definition isBlockedAddr :: "ip_addr \<Rightarrow> bool" where
  "isBlockedAddr ip =
     (if IsLoopback ip \<or> IsPrivate ip \<or> IsLinkLocalUnicast ip \<or> IsLinkLocalMulticast ip \<or> IsUnspecified ip then True
      else case To4 ip of Some q \<Rightarrow> q ! 0 = 100 \<and> q ! 1 \<ge> 64 \<and> q ! 1 < 128 | None \<Rightarrow> False)"

text \<open>The resolved address that \<open>Dialer.Control\<close> sees, with its zone.\<close>

type_synonym dialed = "ip_addr \<times> string"

definition ParseIP :: "dialed \<Rightarrow> ip_addr option" where
  "ParseIP a = (case a of (ip, zone) \<Rightarrow> if zone = [] then Some (To16 ip) else None)"

datatype dial_error = Not_an_IP | Refused ip_addr

datatype url_error = Invalid_url | Bad_scheme | Missing_host | Lookup_failed | Non_public ip_addr

definition safe_control :: "dialed \<Rightarrow> (dial_error, unit) result" where
  "safe_control a = (case ParseIP a of
       None \<Rightarrow> Inl Not_an_IP
     | Some ip \<Rightarrow> if isBlockedAddr ip then Inl (Refused ip) else Inr ())"

definition metadata_control :: "dialed \<Rightarrow> (dial_error, unit) result" where
  "metadata_control a = (case ParseIP a of
       None \<Rightarrow> Inr ()
     | Some ip \<Rightarrow> if isMetadataAddr ip then Inl (Refused ip) else Inr ())"

text \<open>
  A request of such a client: the dialer tries the addresses that the name resolves to at that moment, in their order, and
  uses the first that it may and can connect to; the first response is the result, a redirect included
  (\<open>ErrUseLastResponse\<close>). The first component lists the addresses it opened a connection to.
\<close>

datatype 'a http_reply = Reply 'a | Redirect string 'a

fun dial :: "(dialed \<Rightarrow> (dial_error, unit) result) \<Rightarrow> (dialed \<Rightarrow> bool) \<Rightarrow> dialed list \<Rightarrow> dialed option" where
  "dial control up [] = None"
| "dial control up (a # as) = (if is_ok (control a) \<and> up a then Some a else dial control up as)"

definition client_do :: "(dialed \<Rightarrow> (dial_error, unit) result) \<Rightarrow> (dialed \<Rightarrow> bool) \<Rightarrow> (dialed \<Rightarrow> 'a http_reply) \<Rightarrow> dialed list
    \<Rightarrow> dialed list \<times> 'a http_reply option" where
  "client_do control up server resolved = (case dial control up resolved of
       None \<Rightarrow> ([], None)
     | Some a \<Rightarrow> ([a], Some (server a)))"

definition RejectPrivateHost :: "(string \<Rightarrow> (string \<times> string) option) \<Rightarrow> (string \<Rightarrow> ip_addr list option) \<Rightarrow> string
    \<Rightarrow> (url_error, unit) result" where
  "RejectPrivateHost parse lookupIP rawURL =
     (case parse rawURL of
        None \<Rightarrow> Inl Invalid_url
      | Some (scheme, host) \<Rightarrow>
          if scheme \<noteq> ''http'' \<and> scheme \<noteq> ''https'' then Inl Bad_scheme
          else if host = [] then Inl Missing_host
          else (case lookupIP host of
              None \<Rightarrow> Inl Lookup_failed
            | Some ips \<Rightarrow> (case List.find isBlockedAddr ips of Some ip \<Rightarrow> Inl (Non_public ip) | None \<Rightarrow> Inr ())))"

section \<open>The same sets as address ranges\<close>

text \<open>Whether an address starts with the first \<open>n\<close> bits of a prefix.\<close>

fun in_range :: "nat \<Rightarrow> byte list \<Rightarrow> byte list \<Rightarrow> bool" where
  "in_range n (p # ps) (x # xs) = (if n \<ge> 8 then x = p \<and> in_range (n - 8) ps xs else drop_bit (8 - n) x = drop_bit (8 - n) p)"
| "in_range n [] xs = (n = 0)"
| "in_range n (p # ps) [] = False"

definition blocked_v4 :: "(byte list \<times> nat) list" where
  "blocked_v4 = [([0, 0, 0, 0], 32), ([10], 8), ([100, 64], 10), ([127], 8), ([169, 254], 16), ([172, 16], 12), ([192, 168], 16),
     ([224, 0, 0], 24)]"

text \<open>Multicast of link scope: \<open>ffx2::/16\<close> for every value of the flags \<open>x\<close>.\<close>

definition blocked_v6 :: "(byte list \<times> nat) list" where
  "blocked_v6 = [(replicate 16 0, 128), (replicate 15 0 @ [1], 128), ([0xfc], 7), ([0xfe, 0x80], 10)]
     @ map (\<lambda>x. ([0xff, push_bit 4 (word_of_nat x) + 2], 16)) [0..<16]"

definition in_ranges :: "(byte list \<times> nat) list \<Rightarrow> ip_addr \<Rightarrow> bool" where
  "in_ranges rs ip = list_ex (\<lambda>(p, n). in_range n p ip) rs"

section \<open>Facts of bytes\<close>

definition bytes :: "byte list" where
  "bytes = map word_of_nat [0..<256]"

lemma in_bytes: "x \<in> set bytes"
proof -
  have "unat x < 256" using unsigned_less [of x, where ?'a = nat] by simp
  then show ?thesis unfolding bytes_def by (auto intro!: image_eqI [of _ _ "unat x"])
qed

lemma byte_facts:
  "list_all (\<lambda>b. (b AND 0xf0 = 16) = (drop_bit 4 b = (drop_bit 4 16 :: byte)) \<and> (b AND 0xfe = 0xfc) = (drop_bit 1 b = (drop_bit 1 0xfc :: byte))
     \<and> (b AND 0xc0 = 0x80) = (drop_bit 6 b = (drop_bit 6 0x80 :: byte)) \<and> (64 \<le> b \<and> b < 128) = (drop_bit 6 b = (drop_bit 6 64 :: byte))
     \<and> (b AND 0x0f = 2) = list_ex (\<lambda>k. b = push_bit 4 (word_of_nat k) + 2) [0..<16]) bytes"
  by code_simp

lemma byte_fact:
  "(b AND 0xf0 = 16) = (drop_bit 4 b = (drop_bit 4 16 :: byte))" "(b AND 0xfe = 0xfc) = (drop_bit 1 b = (drop_bit 1 0xfc :: byte))"
  "(b AND 0xc0 = 0x80) = (drop_bit 6 b = (drop_bit 6 0x80 :: byte))" "(64 \<le> b \<and> b < 128) = (drop_bit 6 b = (drop_bit 6 64 :: byte))"
  "(b AND 0x0f = 2) = list_ex (\<lambda>k. b = push_bit 4 (word_of_nat k) + 2) [0..<16]"
  using byte_facts in_bytes [of b] unfolding list_all_iff by blast+

section \<open>Properties\<close>

lemma list4: "length xs = 4 \<Longrightarrow> \<exists>a b c d. xs = [a, b, c, d]"
  by (auto simp: numeral_eq_Suc length_Suc_conv)

lemma list16: "length xs = 16 \<Longrightarrow> \<exists>a b ys. xs = a # b # ys \<and> length ys = 14"
  by (auto simp: numeral_eq_Suc length_Suc_conv)

lemma To4_length: "To4 ip = Some q \<Longrightarrow> length q = 4"
  by (auto simp: To4_def split: if_splits)

lemma in_range_all: "length p = length x \<Longrightarrow> in_range (8 * length p) p x \<longleftrightarrow> x = p"
proof (induction p x rule: list_induct2)
  case (Cons p ps x xs)
  then show ?case by simp
qed simp

lemma blocked_v4_eq:
  "in_ranges blocked_v4 [a, b, c, d] \<longleftrightarrow> a = 127 \<or> a = 10 \<or> a = 172 \<and> b AND 0xf0 = 16 \<or> a = 192 \<and> b = 168 \<or> a = 169 \<and> b = 254
     \<or> a = 224 \<and> b = 0 \<and> c = 0 \<or> [a, b, c, d] = [0, 0, 0, 0] \<or> a = 100 \<and> 64 \<le> b \<and> b < 128"
  unfolding byte_fact by (simp add: in_ranges_def blocked_v4_def) blast

lemma blocked_v6_eq:
  assumes "length ip = 16"
  shows "in_ranges blocked_v6 ip \<longleftrightarrow> ip = replicate 16 0 \<or> ip = replicate 15 0 @ [1] \<or> ip ! 0 AND 0xfe = 0xfc
     \<or> ip ! 0 = 0xfe \<and> ip ! 1 AND 0xc0 = 0x80 \<or> ip ! 0 = 0xff \<and> ip ! 1 AND 0x0f = 0x02"
proof -
  obtain a b ys where ip: "ip = a # b # ys" "length ys = 14" using list16 [OF assms] by blast
  have "in_range 128 (replicate 16 0) ip \<longleftrightarrow> ip = replicate 16 0" "in_range 128 (replicate 15 0 @ [1]) ip \<longleftrightarrow> ip = replicate 15 0 @ [1]"
    using in_range_all [of "replicate 16 0" ip] in_range_all [of "replicate 15 0 @ [1]" ip] assms by simp_all
  moreover have "in_range 7 [0xfc] ip \<longleftrightarrow> a AND 0xfe = 0xfc" unfolding byte_fact ip by simp
  moreover have "in_range 10 [0xfe, 0x80] ip \<longleftrightarrow> a = 0xfe \<and> b AND 0xc0 = 0x80" unfolding byte_fact ip by simp
  moreover have "list_ex (\<lambda>(p, n). in_range n p ip) (map (\<lambda>x. ([0xff, push_bit 4 (word_of_nat x) + 2], 16)) [0..<16])
      \<longleftrightarrow> a = 0xff \<and> b AND 0x0f = 0x02"
    unfolding byte_fact ip by (auto simp: list_ex_iff)
  ultimately show ?thesis by (simp add: in_ranges_def blocked_v6_def ip)
qed

lemma To4_16: "To4 ip = Some q \<Longrightarrow> To16 ip = replicate 10 0 @ [0xff, 0xff] @ q"
  by (auto simp: To4_def To16_def split: if_splits) (metis append.assoc append_Cons append_Nil append_take_drop_id)

lemma mapped_not_zero: "replicate 10 0 @ [0xff, 0xff] @ q \<noteq> replicate 16 (0 :: byte)"
proof
  assume e: "replicate 10 0 @ [0xff, 0xff] @ q = replicate 16 (0 :: byte)"
  have "(0xff :: byte) \<in> set (replicate 10 0 @ [0xff, 0xff] @ q)" by simp
  then have "(0xff :: byte) \<in> set (replicate 16 0)" unfolding e .
  then show False by simp
qed

lemma unspecified_v4: "To4 ip = Some q \<Longrightarrow> IsUnspecified ip \<longleftrightarrow> q = [0, 0, 0, 0]"
  unfolding IsUnspecified_def ip_equal_def To4_16 using mapped_not_zero [of q] by (simp add: To16_def)

lemma blocked_v4_form:
  assumes "To4 ip = Some q"
  shows "isBlockedAddr ip = in_ranges blocked_v4 q"
proof -
  obtain a b c d where q: "q = [a, b, c, d]" using list4 [OF To4_length [OF assms]] by blast
  show ?thesis
    unfolding isBlockedAddr_def IsLoopback_def IsPrivate_def IsLinkLocalUnicast_def IsLinkLocalMulticast_def unspecified_v4 [OF assms]
      assms q blocked_v4_eq option.case by simp blast
qed

lemma blocked_v6_form:
  assumes "To4 ip = None" and "length ip = 16"
  shows "isBlockedAddr ip = in_ranges blocked_v6 ip"
proof -
  have "IsUnspecified ip \<longleftrightarrow> ip = replicate 16 0"
    using assms by (auto simp: IsUnspecified_def ip_equal_def To16_def To4_def)
  moreover have "IsLoopback ip \<longleftrightarrow> ip = replicate 15 0 @ [1]"
    using assms by (simp add: IsLoopback_def ip_equal_def To16_def)
  ultimately show ?thesis
    unfolding isBlockedAddr_def IsPrivate_def IsLinkLocalUnicast_def IsLinkLocalMulticast_def blocked_v6_eq [OF assms(2)] assms(1) option.case
    using assms(2) by argo
qed

lemma other_lengths:
  assumes "length ip \<noteq> 4" and "length ip \<noteq> 16"
  shows "\<not> isBlockedAddr ip"
proof -
  have "To4 ip = None" "To16 ip = ip" using assms by (simp_all add: To4_def To16_def)
  moreover have "ip \<noteq> To16 [0, 0, 0, 0]" "ip \<noteq> To16 (replicate 16 0)" "ip \<noteq> To16 (replicate 15 0 @ [1])"
    using assms by (auto simp: To16_def)
  ultimately show ?thesis
    using assms(2) unfolding isBlockedAddr_def IsLoopback_def IsPrivate_def IsLinkLocalUnicast_def IsLinkLocalMulticast_def IsUnspecified_def ip_equal_def
    by simp
qed

text \<open>
  C25. The tests of bytes and masks block exactly the documented ranges: of IPv4, also in IPv6 form, this host, private,
  shared, loopback, link-local and local multicast addresses; of IPv6 the unspecified and loopback address, unique local,
  link-local and link-scope multicast addresses.
\<close>

theorem blocked_addresses_are_ranges:
  "isBlockedAddr ip = (if length ip = 4 then in_ranges blocked_v4 ip
     else length ip = 16 \<and> (if take 12 ip = replicate 10 0 @ [0xff, 0xff] then in_ranges blocked_v4 (drop 12 ip) else in_ranges blocked_v6 ip))"
proof -
  consider "length ip = 4" | "length ip = 16" "take 12 ip = replicate 10 0 @ [0xff, 0xff]"
    | "length ip = 16" "take 12 ip \<noteq> replicate 10 0 @ [0xff, 0xff]" | "length ip \<noteq> 4" "length ip \<noteq> 16" by blast
  then show ?thesis
  proof cases
    case 1
    then have "To4 ip = Some ip" by (simp add: To4_def)
    with 1 show ?thesis by (simp add: blocked_v4_form)
  next
    case 2
    then have "To4 ip = Some (drop 12 ip)" by (simp add: To4_def)
    with 2 show ?thesis by (simp only: blocked_v4_form) simp
  next
    case 3
    then have "To4 ip = None" by (simp add: To4_def)
    with 3 show ?thesis by (simp only: blocked_v6_form) simp
  next
    case 4
    then show ?thesis using other_lengths by simp
  qed
qed

text \<open>Whatever the metadata guard refuses, the strict guard refuses too.\<close>

lemma metadata_blocked: "isMetadataAddr ip \<Longrightarrow> isBlockedAddr ip"
  by (auto simp: isMetadataAddr_def isBlockedAddr_def split: if_splits option.splits)

lemma dial_passed: "dial control up as = Some a \<Longrightarrow> a \<in> set as \<and> is_ok (control a)"
  by (induction as) (auto split: if_splits)

lemma client_public:
  assumes "client_do safe_control up server resolved = (contacted, r)"
  shows "\<forall>(ip, zone) \<in> set contacted. zone = [] \<and> \<not> isBlockedAddr (To16 ip)"
  using assms dial_passed [of safe_control up resolved]
  by (auto simp: client_do_def safe_control_def ParseIP_def split: option.splits if_splits)



text \<open>
  What the metadata guard lets through: the metadata service of AWS over IPv6, the translation of the IPv4 metadata
  address (NAT64), and every link-local address that comes with a zone.
\<close>

definition aws_metadata_v6 :: ip_addr where
  "aws_metadata_v6 = [0xfd, 0x00, 0x0e, 0xc2] @ replicate 10 0 @ [0x02, 0x54]"

definition nat64_metadata :: ip_addr where
  "nat64_metadata = [0x00, 0x64, 0xff, 0x9b] @ replicate 8 0 @ [169, 254, 169, 254]"

lemma metadata_guard_gaps:
  "metadata_control (aws_metadata_v6, []) = Inr ()" "metadata_control (nat64_metadata, []) = Inr ()" "safe_control (nat64_metadata, []) = Inr ()"
  "safe_control (aws_metadata_v6, []) \<noteq> Inr ()" "zone \<noteq> [] \<Longrightarrow> metadata_control (ip, zone) = Inr ()"
  by (code_simp, code_simp, code_simp, code_simp) (simp add: metadata_control_def ParseIP_def)

text \<open>A URL that is refused when it is stored has a host with a blocked address at that time.\<close>

lemma reject_private_host_ok:
  "RejectPrivateHost parse lookupIP u = Inr () \<longleftrightarrow> (\<exists>scheme host ips. parse u = Some (scheme, host) \<and> scheme \<in> {''http'', ''https''}
     \<and> host \<noteq> [] \<and> lookupIP host = Some ips \<and> (\<forall>ip \<in> set ips. \<not> isBlockedAddr ip))"
  by (auto simp: RejectPrivateHost_def find_None_iff dest: find_in split: option.splits prod.splits if_splits)

end
