(* ===== verification/Broadcast.thy ===== *)
theory Broadcast
  imports SafeHttp Remediate "HOL-Library.Sublist"
begin

text \<open>
  What leaves the server on an event (\<open>internal/events/events.go\<close>): messages to the browsers that are connected
  to any node, webhooks, and mail to the recipients of alert rules; with the handlers that manage webhooks
  (\<open>internal/handlers/webhooks.go\<close>).

  A connection's queue is the list of messages it holds. JSON is a parameter: \<open>Redis\<close> carries an encoded envelope,
  which the subscriber of every node decodes. An HTTP request is the row it was made for with URL, headers and body and
  the addresses it opened connections to.
\<close>

section \<open>Connected browsers\<close>

record ws_client =
  ws_UserID :: string
  ws_TenantID :: string
  ws_Role :: string
  ws_Send :: "string list option"

type_synonym ws_node = "(nat \<times> ws_client) list"

record ws_envelope =
  en_Kind :: string
  en_TenantID :: string
  en_OwnerID :: string
  en_Payload :: string

definition wsClientSendBuf :: nat where "wsClientSendBuf = 64"

definition pushOrDrop :: "ws_client \<Rightarrow> string \<Rightarrow> ws_client" where
  "pushOrDrop info dat = (case ws_Send info of
       None \<Rightarrow> info
     | Some q \<Rightarrow> if length q < wsClientSendBuf then info\<lparr>ws_Send := Some (q @ [dat])\<rparr> else info)"

definition wsFilteredLocal :: "string \<Rightarrow> string \<Rightarrow> string \<Rightarrow> ws_node \<Rightarrow> ws_node" where
  "wsFilteredLocal tenantID ownerID dat = map (\<lambda>(conn, info).
     (conn, if ws_Role info = ''super_admin'' then pushOrDrop info dat
            else if ws_TenantID info \<noteq> tenantID then info
            else if ws_Role info = ''admin'' \<or> ownerID \<noteq> [] \<and> ws_UserID info = ownerID then pushOrDrop info dat
            else info))"

text \<open>The callback of \<open>StartWSRedisSubscriber\<close>; \<open>None\<close> is a decoding error.\<close>

definition ws_subscriber :: "(string \<Rightarrow> ws_envelope option) \<Rightarrow> string \<Rightarrow> ws_node \<Rightarrow> ws_node" where
  "ws_subscriber dec dat node = (case dec dat of
       None \<Rightarrow> node
     | Some env \<Rightarrow> if en_Kind env \<noteq> ''filtered'' then node
         else wsFilteredLocal (en_TenantID env) (en_OwnerID env) (en_Payload env) node)"

record ws_redis =
  wr_enabled :: bool
  wr_publish_ok :: bool
  wr_enc :: "ws_envelope \<Rightarrow> string option"
  wr_dec :: "string \<Rightarrow> ws_envelope option"

text \<open>On node \<open>i\<close> of a deployment; \<open>payload\<close> is the encoded message, \<open>None\<close> if it cannot be encoded.\<close>

definition WSBroadcastFiltered :: "ws_redis \<Rightarrow> nat \<Rightarrow> string \<Rightarrow> string \<Rightarrow> string option \<Rightarrow> ws_node list \<Rightarrow> ws_node list" where
  "WSBroadcastFiltered rd i tenantID ownerID msg nodes =
     (case msg of
        None \<Rightarrow> nodes
      | Some payload \<Rightarrow>
          let locally = nodes[i := wsFilteredLocal tenantID ownerID payload (nodes ! i)] in
          if wr_enabled rd then
            (case wr_enc rd \<lparr>en_Kind = ''filtered'', en_TenantID = tenantID, en_OwnerID = ownerID, en_Payload = payload\<rparr> of
               Some env \<Rightarrow> if wr_publish_ok rd then map (ws_subscriber (wr_dec rd) env) nodes else locally
             | None \<Rightarrow> locally)
          else locally)"

section \<open>Webhooks\<close>

record webhook_row =
  wh_id :: string
  wh_url :: string
  wh_secret :: string
  wh_events :: string
  wh_enabled :: int
  wh_created :: int
  wh_tenant :: string

record delivery =
  dl_hook :: string
  dl_url :: string
  dl_headers :: "(string \<times> string) list"
  dl_body :: string
  dl_contacted :: "dialed list"

text \<open>The outside: URL parsing, the two name resolutions of a delivery, and who answers.\<close>

record outside =
  os_parse :: "string \<Rightarrow> (string \<times> string) option"
  os_lookup :: "string \<Rightarrow> ip_addr list option"
  os_dial :: "string \<Rightarrow> dialed list"
  os_up :: "dialed \<Rightarrow> bool"
  os_server :: "dialed \<Rightarrow> string http_reply"

definition hook_matches :: "string \<Rightarrow> string \<Rightarrow> webhook_row \<Rightarrow> bool" where
  "hook_matches tenantID event h =
     (wh_enabled h = 1 \<and> (tenantID = [] \<or> wh_tenant h = tenantID) \<and> \<not> (\<not> contains (wh_events h) event \<and> wh_events h \<noteq> ''*''))"

definition deliver :: "crypto_prims \<Rightarrow> string option \<Rightarrow> outside \<Rightarrow> string \<Rightarrow> string \<Rightarrow> webhook_row \<Rightarrow> delivery option" where
  "deliver P encKey out event body h =
     (let plainSecret = (case Decrypt P encKey (wh_secret h) of Inl _ \<Rightarrow> wh_secret h | Inr s \<Rightarrow> s) in
      case RejectPrivateHost (os_parse out) (os_lookup out) (wh_url h) of
        Inl _ \<Rightarrow> None
      | Inr _ \<Rightarrow>
          let headers = [(''Content-Type'', ''application/json''), (''X-VaporRMM-Event'', event)]
                @ (if plainSecret \<noteq> [] then [(''X-VaporRMM-Signature'', hexEncode (hmac_sha256 P plainSecret body))] else [])
          in Some \<lparr>dl_hook = wh_id h, dl_url = wh_url h, dl_headers = headers, dl_body = body,
               dl_contacted = fst (client_do safe_control (os_up out) (os_server out) (os_dial out (wh_url h)))\<rparr>)"

definition TriggerWebhooks :: "crypto_prims \<Rightarrow> string option \<Rightarrow> outside \<Rightarrow> bool \<Rightarrow> string \<Rightarrow> string \<Rightarrow> string \<Rightarrow> webhook_row list \<Rightarrow> delivery list" where
  "TriggerWebhooks P encKey out query_ok tenantID event body hooks =
     (if \<not> query_ok then [] else List.map_filter (deliver P encKey out event body) (filter (hook_matches tenantID event) hooks))"

text \<open>The handlers. An audit entry has tenant, user, action, resource type, resource and details.\<close>

type_synonym audit_entry = "string \<times> string \<times> string \<times> string \<times> string \<times> string"

definition tenant_or_default :: "locals \<Rightarrow> string" where
  "tenant_or_default c = (if l_tenant_id c = [] then ''default'' else l_tenant_id c)"

definition list_webhooks :: "bool \<Rightarrow> locals \<Rightarrow> webhook_row list \<Rightarrow> (http_error, webhook_row list) result" where
  "list_webhooks db_up c hooks =
     (case AdminMiddleware c of Inl e \<Rightarrow> Inl e
      | Inr c \<Rightarrow> if \<not> db_up then Inl (HttpError 500 ''Failed to query webhooks'')
          else Inr (map (\<lambda>h. if wh_secret h \<noteq> [] then h\<lparr>wh_secret := ''********''\<rparr> else h)
                 (sort_key (\<lambda>h. - wh_created h) (filter (\<lambda>h. wh_tenant h = tenant_or_default c) hooks))))"

definition create_webhook ::
  "crypto_prims \<Rightarrow> string option \<Rightarrow> outside \<Rightarrow> bool \<Rightarrow> string \<Rightarrow> string option \<Rightarrow> int \<Rightarrow> locals \<Rightarrow> (string \<times> string \<times> string \<times> bool) option
    \<Rightarrow> webhook_row list \<Rightarrow> (http_error, string) result \<times> audit_entry list \<times> webhook_row list" where
  "create_webhook P encKey out db_up newid nonce now c body hooks =
     (case AdminMiddleware c of Inl e \<Rightarrow> (Inl e, [], hooks)
      | Inr c \<Rightarrow>
        (case body of None \<Rightarrow> (Inl (HttpError 400 ''URL and events are required''), [], hooks)
         | Some (url, secret, events, enabled) \<Rightarrow>
           if url = [] \<or> events = [] then (Inl (HttpError 400 ''URL and events are required''), [], hooks)
           else case RejectPrivateHost (os_parse out) (os_lookup out) url of
             Inl _ \<Rightarrow> (Inl (HttpError 400 ''url not allowed''), [], hooks)
           | Inr _ \<Rightarrow>
             let encSecret = (case Encrypt P encKey nonce secret of Inl _ \<Rightarrow> secret | Inr s \<Rightarrow> s); tid = tenant_or_default c in
             if \<not> db_up then (Inl (HttpError 500 ''Failed to create webhook''), [], hooks)
             else (Inr newid, [(tid, l_user_id c, ''webhook.create'', ''webhook'', newid, ''created webhook '' @ url)],
                 \<lparr>wh_id = newid, wh_url = url, wh_secret = encSecret, wh_events = events, wh_enabled = (if enabled then 1 else 0),
                  wh_created = now, wh_tenant = tid\<rparr> # hooks)))"

definition delete_webhook :: "bool \<Rightarrow> string \<Rightarrow> locals \<Rightarrow> webhook_row list \<Rightarrow> (http_error, unit) result \<times> audit_entry list \<times> webhook_row list" where
  "delete_webhook db_up i c hooks =
     (case AdminMiddleware c of Inl e \<Rightarrow> (Inl e, [], hooks)
      | Inr c \<Rightarrow> if \<not> db_up then (Inl (HttpError 500 ''Failed to delete webhook''), [], hooks)
          else let tid = tenant_or_default c; hooks' = filter (\<lambda>h. \<not> (wh_id h = i \<and> (IsSuperAdmin (l_user_role c) \<or> wh_tenant h = tid))) hooks
          in (Inr (), [(tid, l_user_id c, ''webhook.delete'', ''webhook'', i, ''deleted webhook'')], hooks'))"

section \<open>Alert mail\<close>

record alert_settings =
  as_enabled :: int
  as_host :: string
  as_port :: int
  as_user :: string
  as_password :: string
  as_from :: string
  as_tls :: int

record alert_rule =
  ak_id :: string
  ak_name :: string
  ak_event :: string
  ak_severity :: string
  ak_enabled :: int
  ak_recipients :: string
  ak_webhook :: string
  ak_created :: int
  ak_tenant :: string

definition cr_lf :: "char \<Rightarrow> bool" where
  "cr_lf c = (c = CHR 0x0D \<or> c = CHR 0x0A)"

definition scrub :: "string \<Rightarrow> string" where
  "scrub s = filter (\<lambda>c. \<not> cr_lf c) s"

definition recipients_of :: "string \<Rightarrow> string list" where
  "recipients_of r = (if r = [] then [] else filter (\<lambda>a. a \<noteq> []) (map (\<lambda>raw. trim_space (scrub raw)) (split_on CHR '','' r)))"

definition crlf :: string where "crlf = [CHR 0x0D, CHR 0x0A]"

record mail =
  ml_addr :: string
  ml_auth :: "(string \<times> string) option"
  ml_sender :: string
  ml_to :: "string list"
  ml_header :: "string list"
  ml_body :: string

text \<open>The message that is sent: the header lines, each ended by CR LF, an empty line and the body.\<close>

definition mail_text :: "mail \<Rightarrow> string" where
  "mail_text m = concat (map (\<lambda>l. l @ crlf) (ml_header m)) @ crlf @ ml_body m @ crlf"

definition TriggerEmailAlerts ::
  "crypto_prims \<Rightarrow> string option \<Rightarrow> bool \<Rightarrow> string \<Rightarrow> string \<Rightarrow> string \<Rightarrow> (string \<rightharpoonup> alert_settings) \<Rightarrow> alert_rule list \<Rightarrow> mail option" where
  "TriggerEmailAlerts P encKey db_up tenant event payload settings rules =
     (let tid = (if tenant = [] then ''default'' else tenant) in
      case (if db_up then settings tid else None) of
        None \<Rightarrow> None
      | Some st \<Rightarrow>
        if as_enabled st = 0 \<or> as_host st = [] \<or> as_from st = [] then None
        else
          let password = (case Decrypt P encKey (as_password st) of Inl _ \<Rightarrow> [] | Inr p \<Rightarrow> p);
              recipients = concat (map (\<lambda>k. recipients_of (ak_recipients k))
                 (filter (\<lambda>k. ak_event k = event \<and> ak_enabled k = 1 \<and> ak_tenant k = tid) rules))
          in if recipients = [] then None
             else let from' = scrub (as_from st); subject = scrub (''[vaporRMM] Alert: '' @ event);
                      body = ''Event: '' @ event @ [CHR 0x0A, CHR 0x0A] @ ''Payload:'' @ [CHR 0x0A] @ payload @ [CHR 0x0A, CHR 0x0A]
                        @ ''--'' @ [CHR 0x0A] @ ''vaporRMM Alert System''
                  in Some \<lparr>ml_addr = as_host st @ '':'' @ itoa (as_port st),
                       ml_auth = (if as_user st \<noteq> [] \<and> password \<noteq> [] then Some (as_user st, password) else None),
                       ml_sender = from', ml_to = recipients,
                       ml_header = [''To: '' @ str_join '', '' recipients, ''From: '' @ from', ''Subject: '' @ subject,
                         ''Content-Type: text/plain; charset=UTF-8'', ''MIME-Version: 1.0''],
                       ml_body = body\<rparr>)"

section \<open>Broadcasts reach exactly the entitled browsers\<close>

text \<open>A call of \<open>WSBroadcastFiltered\<close>: the state of Redis, the node, the tenant, the owner and the message.\<close>

type_synonym ws_call = "ws_redis \<times> nat \<times> string \<times> string \<times> string option"

definition ws_calls :: "ws_call list \<Rightarrow> ws_node list \<Rightarrow> ws_node list" where
  "ws_calls cs nodes = foldl (\<lambda>ns (rd, i, t, ow, m). WSBroadcastFiltered rd i t ow m ns) nodes cs"

definition entitled :: "string \<Rightarrow> string \<Rightarrow> ws_client \<Rightarrow> bool" where
  "entitled tenantID ownerID info = (ws_Role info = ''super_admin''
     \<or> ws_TenantID info = tenantID \<and> (ws_Role info = ''admin'' \<or> ownerID \<noteq> [] \<and> ws_UserID info = ownerID))"

definition messages_for :: "ws_client \<Rightarrow> ws_call list \<Rightarrow> string list" where
  "messages_for info cs = List.map_filter (\<lambda>(rd, i, t, ow, m). if entitled t ow info then m else None) cs"

definition json_ok :: "ws_redis \<Rightarrow> bool" where
  "json_ok rd = (\<forall>e s. wr_enc rd e = Some s \<longrightarrow> wr_dec rd s = Some e)"

definition redis_up :: "ws_call \<Rightarrow> bool" where
  "redis_up c = (case c of (rd, i, t, ow, m) \<Rightarrow> wr_enabled rd \<and> wr_publish_ok rd \<and> (case m of None \<Rightarrow> True
     | Some p \<Rightarrow> wr_enc rd \<lparr>en_Kind = ''filtered'', en_TenantID = t, en_OwnerID = ow, en_Payload = p\<rparr> \<noteq> None))"

lemma messages_for_simps:
  "messages_for info [] = []"
  "messages_for info ((rd, i, t, ow, m) # cs)
     = (case m of Some p \<Rightarrow> if entitled t ow info then p # messages_for info cs else messages_for info cs | None \<Rightarrow> messages_for info cs)"
  by (simp_all add: messages_for_def map_filter_simps split: option.splits)

definition ws_offer :: "string \<Rightarrow> string \<Rightarrow> string \<Rightarrow> ws_client \<Rightarrow> ws_client" where
  "ws_offer t ow p info = (if entitled t ow info then pushOrDrop info p else info)"

lemma local_offers: "wsFilteredLocal t ow p = map (\<lambda>(conn, info). (conn, ws_offer t ow p info))"
  unfolding wsFilteredLocal_def by (rule ext, rule map_cong) (auto simp: ws_offer_def entitled_def)

lemma subscriber_offers: "wr_dec rd s = Some \<lparr>en_Kind = ''filtered'', en_TenantID = t, en_OwnerID = ow, en_Payload = p\<rparr>
    \<Longrightarrow> ws_subscriber (wr_dec rd) s = map (\<lambda>(conn, info). (conn, ws_offer t ow p info))"
  by (rule ext) (simp add: ws_subscriber_def local_offers)

lemma entitled_frame: "entitled t ow (info\<lparr>ws_Send := q\<rparr>) = entitled t ow info"
  "messages_for (info\<lparr>ws_Send := q\<rparr>) cs = messages_for info cs"
  by (simp_all add: messages_for_def entitled_def)

text \<open>One call either offers the message to every client of every node, or only to those of its own node.\<close>

lemma broadcast_cases:
  assumes "json_ok rd" and "i < length nodes"
  shows "WSBroadcastFiltered rd i t ow (Some p) nodes = map (map (\<lambda>(conn, info). (conn, ws_offer t ow p info))) nodes
    \<or> \<not> redis_up (rd, i, t, ow, Some p) \<and> WSBroadcastFiltered rd i t ow (Some p) nodes = nodes[i := map (\<lambda>(conn, info). (conn, ws_offer t ow p info)) (nodes ! i)]"
  using assms unfolding WSBroadcastFiltered_def redis_up_def json_ok_def Let_def option.case local_offers
  by (auto split: option.splits simp: subscriber_offers)

definition client_at :: "ws_node list \<Rightarrow> nat \<Rightarrow> nat \<Rightarrow> nat \<times> ws_client \<Rightarrow> bool" where
  "client_at nodes j k c = (j < length nodes \<and> k < length (nodes ! j) \<and> nodes ! j ! k = c)"

lemma broadcast_client:
  assumes "json_ok rd" and "i < length nodes" and "client_at nodes j k (conn, info)"
  shows "client_at (WSBroadcastFiltered rd i t ow (Some p) nodes) j k (conn, ws_offer t ow p info)
    \<or> \<not> redis_up (rd, i, t, ow, Some p) \<and> client_at (WSBroadcastFiltered rd i t ow (Some p) nodes) j k (conn, info)"
  using broadcast_cases [OF assms(1,2), of t ow p] assms(3)
  by (cases "i = j") (auto simp: client_at_def)

lemma broadcast_length: "length (WSBroadcastFiltered rd i t ow m nodes) = length nodes"
  by (simp add: WSBroadcastFiltered_def Let_def split: option.splits)

lemma offered_queue:
  assumes "ws_Send info = Some q" and "length q \<le> wsClientSendBuf"
  shows "ws_offer t ow p info = info\<lparr>ws_Send := Some (if entitled t ow info then q @ take (wsClientSendBuf - length q) [p] else q)\<rparr>"
  using assms by (cases "length q < wsClientSendBuf") (auto simp: ws_offer_def pushOrDrop_def)

lemma take_step: "n \<le> b \<Longrightarrow> take (b - n) [p] @ take (b - (n + length (take (b - n) [p]))) ps = take (b - n) (p # ps)"
  by (cases "n < b") (simp_all add: Suc_diff_Suc [symmetric])

lemma same_queue: "ws_Send info = q \<Longrightarrow> info\<lparr>ws_Send := q\<rparr> = info"
  by (cases info) simp


definition sample_envelope :: ws_envelope where
  "sample_envelope = \<lparr>en_Kind = ''filtered'', en_TenantID = ''acme'', en_OwnerID = [], en_Payload = ''ping''\<rparr>"

definition sample_redis :: ws_redis where
  "sample_redis = \<lparr>wr_enabled = True, wr_publish_ok = True, wr_enc = (\<lambda>e. if e = sample_envelope then Some ''e'' else None),
     wr_dec = (\<lambda>s. if s = ''e'' then Some sample_envelope else None)\<rparr>"

definition sample_browser :: "string \<Rightarrow> ws_client" where
  "sample_browser t = \<lparr>ws_UserID = ''u'', ws_TenantID = t, ws_Role = ''admin'', ws_Send = Some []\<rparr>"


section \<open>Webhooks stay within their tenant\<close>

text \<open>
  A webhook delivery of an event of a tenant belongs to an enabled row of that tenant whose list of events contains the
  event's name, goes only to public addresses, and is signed with the plaintext of the row's secret.
\<close>

theorem webhooks_tenant_scoped:
  assumes "d \<in> set (TriggerWebhooks P encKey out ok tenantID event body hooks)" and "tenantID \<noteq> []"
  shows "\<exists>h \<in> set hooks. wh_id h = dl_hook d \<and> wh_url h = dl_url d \<and> wh_tenant h = tenantID \<and> wh_enabled h = 1
      \<and> (contains (wh_events h) event \<or> wh_events h = ''*'')
      \<and> (\<forall>s. Decrypt P encKey (wh_secret h) = Inr s \<and> s \<noteq> [] \<longrightarrow>
           (''X-VaporRMM-Signature'', hexEncode (hmac_sha256 P s (dl_body d))) \<in> set (dl_headers d))
    \<and> (\<forall>(ip, zone) \<in> set (dl_contacted d). zone = [] \<and> \<not> isBlockedAddr (To16 ip))"
proof -
  obtain h where h: "h \<in> set hooks" "hook_matches tenantID event h" "deliver P encKey out event body h = Some d"
    using assms(1) by (auto simp: TriggerWebhooks_def map_filter_def split: if_splits)
  have "dl_contacted d = fst (client_do safe_control (os_up out) (os_server out) (os_dial out (wh_url h)))"
    using h(3) by (auto simp: deliver_def Let_def split: sum.splits)
  then obtain r where c: "client_do safe_control (os_up out) (os_server out) (os_dial out (wh_url h)) = (dl_contacted d, r)"
    by (metis prod.collapse)
  have "\<forall>(ip, zone) \<in> set (dl_contacted d). zone = [] \<and> \<not> isBlockedAddr (To16 ip)"
    using client_public [OF c] .
  moreover have "wh_id h = dl_hook d \<and> wh_url h = dl_url d \<and> (\<forall>s. Decrypt P encKey (wh_secret h) = Inr s \<and> s \<noteq> [] \<longrightarrow>
       (''X-VaporRMM-Signature'', hexEncode (hmac_sha256 P s (dl_body d))) \<in> set (dl_headers d))"
    using h(3) by (auto simp: deliver_def Let_def split: sum.splits)
  ultimately show ?thesis using h(1,2) assms(2) by (auto simp: hook_matches_def)
qed

definition sample_outside :: "dialed list \<Rightarrow> outside" where
  "sample_outside as = \<lparr>os_parse = (\<lambda>u. Some (''https'', u)), os_lookup = (\<lambda>_. Some [[8, 8, 8, 8]]), os_dial = (\<lambda>_. as),
     os_up = (\<lambda>_. True), os_server = (\<lambda>_. Reply ''ok'')\<rparr>"

definition sample_hook :: "string \<Rightarrow> string \<Rightarrow> webhook_row" where
  "sample_hook t ev = \<lparr>wh_id = ''w'', wh_url = ''hooks.example'', wh_secret = ''s'', wh_events = ev, wh_enabled = 1, wh_created = 0, wh_tenant = t\<rparr>"

lemma webhooks_tenant_scoped_witness:
  "map dl_hook (TriggerWebhooks toy_prims None (sample_outside [([10, 0, 0, 1], []), ([8, 8, 8, 8], [])]) True ''acme'' ''device.offline'' ''{}''
     [sample_hook ''other'' ''*'', sample_hook ''acme'' ''device.offline'', sample_hook ''acme'' ''ticket.created'']) = [''w'']
   \<and> contains (wh_events (sample_hook ''acme'' ''device.offline'')) ''device.offline''"
proof -
  let ?out = "sample_outside [([10, 0, 0, 1], []), ([8, 8, 8, 8], [])]"
  let ?hooks = "[sample_hook ''other'' ''*'', sample_hook ''acme'' ''device.offline'', sample_hook ''acme'' ''ticket.created'']"
  let ?ds = "TriggerWebhooks toy_prims None ?out True ''acme'' ''device.offline'' ''{}'' ?hooks"
  have ds: "map dl_hook ?ds = [''w'']" by code_simp
  then obtain d where d: "?ds = [d]" by (cases ?ds) auto
  have "d \<in> set ?ds" unfolding d by simp
  from webhooks_tenant_scoped [OF this]
  have "\<exists>h \<in> set ?hooks. wh_tenant h = ''acme'' \<and> (contains (wh_events h) ''device.offline'' \<or> wh_events h = ''*'')"
    unfolding list.simps by blast
  then have "contains (wh_events (sample_hook ''acme'' ''device.offline'')) ''device.offline''"
    by (auto simp: sample_hook_def)
  with ds show ?thesis by simp
qed

text \<open>
  The list of events is searched for the event's name as a substring: a webhook for one event also receives every event
  whose name is part of it, and a webhook with a list that contains a star is not one for all events.
\<close>

lemma webhook_events_substring:
  "TriggerWebhooks toy_prims None (sample_outside []) True ''acme'' ''alert'' ''{}'' [sample_hook ''acme'' ''alert.resolved''] \<noteq> []"
  "TriggerWebhooks toy_prims None (sample_outside []) True ''acme'' ''alert'' ''{}'' [sample_hook ''acme'' ''*,ticket.created''] = []"
  by code_simp+

section \<open>Mail headers\<close>

definition plain_line :: "string \<Rightarrow> bool" where
  "plain_line l = (CHR 0x0D \<notin> set l \<and> CHR 0x0A \<notin> set l)"

lemma plain_append: "plain_line (a @ b) \<longleftrightarrow> plain_line a \<and> plain_line b"
  by (auto simp: plain_line_def)

lemma scrub_plain: "plain_line (scrub s)"
  by (simp add: plain_line_def scrub_def cr_lf_def)

lemma trim_space_set: "set (trim_space s) \<subseteq> set s"
  unfolding trim_space_def by (metis set_dropWhileD set_rev subsetI)

lemma plain_subset: "plain_line s \<Longrightarrow> set t \<subseteq> set s \<Longrightarrow> plain_line t"
  by (auto simp: plain_line_def)

lemma recipient_plain: "a \<in> set (recipients_of r) \<Longrightarrow> a \<noteq> [] \<and> plain_line a"
  by (auto simp: recipients_of_def split: if_splits intro: plain_subset [OF scrub_plain trim_space_set])

lemma str_join_plain: "plain_line sep \<Longrightarrow> (\<And>a. a \<in> set as \<Longrightarrow> plain_line a) \<Longrightarrow> plain_line (str_join sep as)"
  by (induction sep as rule: str_join.induct) (auto simp: plain_line_def)

text \<open>
  An alert mail has exactly the five header lines of the code, whatever rules, settings and event hold: no header line
  contains a carriage return or a line feed, and every recipient is a non-empty entry of an enabled rule of the event's tenant.
\<close>

theorem alert_mail_headers_intact:
  assumes "TriggerEmailAlerts P encKey up tenant event payload settings rules = Some m"
  shows "length (ml_header m) = 5 \<and> (\<forall>l \<in> set (ml_header m). plain_line l) \<and> plain_line (ml_sender m) \<and> ml_to m \<noteq> []
    \<and> (\<forall>a \<in> set (ml_to m). a \<noteq> [] \<and> plain_line a \<and> (\<exists>k \<in> set rules. ak_tenant k = (if tenant = [] then ''default'' else tenant)
        \<and> ak_enabled k = 1 \<and> ak_event k = event \<and> a \<in> set (recipients_of (ak_recipients k))))"
proof -
  have st: "plain_line (ml_sender m)" "ml_to m \<noteq> []"
      "ml_to m = concat (map (\<lambda>k. recipients_of (ak_recipients k))
         (filter (\<lambda>k. ak_event k = event \<and> ak_enabled k = 1 \<and> ak_tenant k = (if tenant = [] then ''default'' else tenant)) rules))"
      "ml_header m = [''To: '' @ str_join '', '' (ml_to m), ''From: '' @ ml_sender m, ''Subject: '' @ scrub (''[vaporRMM] Alert: '' @ event),
         ''Content-Type: text/plain; charset=UTF-8'', ''MIME-Version: 1.0'']"
    using assms by (auto simp: TriggerEmailAlerts_def Let_def scrub_plain split: if_splits option.splits)
  have rcpt: "a \<noteq> [] \<and> plain_line a \<and> (\<exists>k \<in> set rules. ak_tenant k = (if tenant = [] then ''default'' else tenant)
        \<and> ak_enabled k = 1 \<and> ak_event k = event \<and> a \<in> set (recipients_of (ak_recipients k)))" if "a \<in> set (ml_to m)" for a
    using that unfolding st(3) by (auto dest: recipient_plain)
  have "plain_line (str_join '', '' (ml_to m))"
    by (rule str_join_plain) (use rcpt in \<open>auto simp: plain_line_def\<close>)
  moreover have "plain_line ''To: ''" "plain_line ''From: ''" "plain_line ''Subject: ''"
      "plain_line ''Content-Type: text/plain; charset=UTF-8''" "plain_line ''MIME-Version: 1.0''"
    by (simp_all add: plain_line_def)
  ultimately have "\<forall>l \<in> set (ml_header m). plain_line l"
    unfolding st(4) using st(1) scrub_plain by (simp only: list.set insert_iff empty_iff plain_append ball_simps)
  moreover have "length (ml_header m) = 5" unfolding st(4) by simp
  ultimately show ?thesis using st(1,2) rcpt by blast
qed

definition sample_settings :: alert_settings where
  "sample_settings = \<lparr>as_enabled = 1, as_host = ''mx'', as_port = 25, as_user = [], as_password = [], as_from = ''rmm@acme'', as_tls = 1\<rparr>"

definition sample_rule :: alert_rule where
  "sample_rule = \<lparr>ak_id = ''r'', ak_name = ''n'', ak_event = ''cpu'', ak_severity = ''high'', ak_enabled = 1,
     ak_recipients = ''ops@acme, x@y'' @ crlf @ ''Bcc: z@y,,'', ak_webhook = [], ak_created = 0, ak_tenant = ''acme''\<rparr>"

lemma alert_mail_headers_intact_witness:
  "ml_to (the (TriggerEmailAlerts toy_prims None True ''acme'' ''cpu'' ''{}'' [''acme'' \<mapsto> sample_settings] [sample_rule])) = [''ops@acme'', ''x@yBcc: z@y'']
   \<and> length (ml_header (the (TriggerEmailAlerts toy_prims None True ''acme'' ''cpu'' ''{}'' [''acme'' \<mapsto> sample_settings] [sample_rule]))) = 5"
proof -
  let ?m = "TriggerEmailAlerts toy_prims None True ''acme'' ''cpu'' ''{}'' [''acme'' \<mapsto> sample_settings] [sample_rule]"
  have to: "map_option ml_to ?m = Some [''ops@acme'', ''x@yBcc: z@y'']" by code_simp
  then obtain m where m: "?m = Some m" by auto
  from alert_mail_headers_intact [OF m] show ?thesis using to unfolding m by simp
qed

end
