(* ===== verification/Alerts.thy ===== *)
theory Alerts
  imports Broadcast
begin

text \<open>
  Incidents and their configuration (\<open>internal/handlers/alerts.go\<close>): the rows that \<open>EmitAlert\<close> writes, at most one
  per tenant, device and type in five minutes, the handlers that list and resolve them, and those of alert rules and mail
  settings.

  The clock is in nanoseconds, as \<open>time.Time\<close> compares it. The limiter is the memory of the process or, when Redis is
  configured and answers, a key set with \<open>SET NX EX\<close>. An identifier that the code draws is a parameter. A settings row
  has the tenant as its key, so the table is a map.
\<close>

section \<open>The limiter\<close>

datatype redis_answer = Redis_off | Redis_error | Redis_up

type_synonym dedup_store = "string \<rightharpoonup> int"

record alert_row =
  ar_id :: string
  ar_tenant :: string
  ar_device :: "string option"
  ar_type :: string
  ar_severity :: string
  ar_message :: string
  ar_resolved :: int
  ar_resolved_at :: "int option"
  ar_resolved_by :: "string option"
  ar_created :: int

record alert_state =
  at_store :: dedup_store
  at_redis :: redis_kv
  at_rows :: "alert_row list"

definition alertDedupWindow :: int where "alertDedupWindow = 5 * minute"

definition alertDedupKey :: "string \<Rightarrow> string \<Rightarrow> string \<Rightarrow> string" where
  "alertDedupKey tenantID deviceID alertType = ''alert_dedup:'' @ tenantID @ ''|'' @ deviceID @ ''|'' @ alertType"

definition dedup_redis :: "int \<Rightarrow> string \<Rightarrow> redis_kv \<Rightarrow> bool \<times> redis_kv" where
  "dedup_redis now key kv = (if redis_get now kv key = None then (True, kv(key \<mapsto> (1, Some (now + alertDedupWindow)))) else (False, kv))"

definition dedup_memory :: "int \<Rightarrow> string \<Rightarrow> dedup_store \<Rightarrow> bool \<times> dedup_store" where
  "dedup_memory now key store =
     (if (case store key of Some t0 \<Rightarrow> now - t0 < alertDedupWindow | None \<Rightarrow> False) then (False, store)
      else (True, (\<lambda>k. case store k of Some t \<Rightarrow> if now - t \<ge> alertDedupWindow then None else Some t | None \<Rightarrow> None)(key \<mapsto> now)))"

definition shouldEmitAlert :: "redis_answer \<Rightarrow> int \<Rightarrow> string \<Rightarrow> string \<Rightarrow> string \<Rightarrow> alert_state \<Rightarrow> bool \<times> alert_state" where
  "shouldEmitAlert redis now tenantID deviceID alertType s =
     (let key = alertDedupKey tenantID deviceID alertType in
      if redis = Redis_up then (case dedup_redis now key (at_redis s) of (ok, kv) \<Rightarrow> (ok, s\<lparr>at_redis := kv\<rparr>))
      else (case dedup_memory now key (at_store s) of (ok, m) \<Rightarrow> (ok, s\<lparr>at_store := m\<rparr>)))"

definition sqlNullable :: "string \<Rightarrow> string option" where
  "sqlNullable s = (if s = [] then None else Some s)"

definition EmitAlert ::
  "redis_answer \<Rightarrow> bool \<Rightarrow> string \<Rightarrow> int \<Rightarrow> string \<Rightarrow> string \<Rightarrow> string \<Rightarrow> string \<Rightarrow> string \<Rightarrow> alert_state \<Rightarrow> alert_state" where
  "EmitAlert redis ins_ok newid now tenantID deviceID alertType severity message s =
     (let tenantID = (if tenantID = [] then ''default'' else tenantID); severity = (if severity = [] then ''warning'' else severity) in
      case shouldEmitAlert redis now tenantID deviceID alertType s of (ok, s) \<Rightarrow>
        if \<not> ok then s
        else if \<not> ins_ok then s
        else s\<lparr>at_rows := \<lparr>ar_id = newid, ar_tenant = tenantID, ar_device = sqlNullable deviceID, ar_type = alertType,
           ar_severity = severity, ar_message = message, ar_resolved = 0, ar_resolved_at = None, ar_resolved_by = None,
           ar_created = now div 1000000000\<rparr> # at_rows s\<rparr>)"

section \<open>Listing and resolving\<close>

definition list_alerts :: "bool \<Rightarrow> bool \<Rightarrow> locals \<Rightarrow> alert_row list \<Rightarrow> (http_error, alert_row list) result" where
  "list_alerts db_up includeResolved c rows =
     (if \<not> db_up then Inl (HttpError 500 ''Failed to query alerts'')
      else Inr (take 500 (sort_key (\<lambda>a. - ar_created a)
        (filter (\<lambda>a. (IsSuperAdmin (l_user_role c) \<or> ar_tenant a = tenant_or_default c) \<and> (includeResolved \<or> ar_resolved a = 0)) rows))))"

definition resolve_alert :: "bool \<Rightarrow> int \<Rightarrow> string \<Rightarrow> locals \<Rightarrow> alert_row list \<Rightarrow> (http_error, unit) result \<times> audit_entry list \<times> alert_row list" where
  "resolve_alert db_up now alertID c rows =
     (case AdminMiddleware c of Inl e \<Rightarrow> (Inl e, [], rows)
      | Inr c \<Rightarrow>
        let tid = tenant_or_default c;
            hit = (\<lambda>a. ar_id a = alertID \<and> (IsSuperAdmin (l_user_role c) \<or> ar_tenant a = tid) \<and> ar_resolved a = 0)
        in if \<not> db_up then (Inl (HttpError 500 ''Failed to resolve alert''), [], rows)
           else if filter hit rows = [] then (Inl (HttpError 404 ''Alert not found or already resolved''), [], rows)
           else (Inr (), [(tid, l_user_id c, ''alert.resolve'', ''alert'', alertID, ''alert resolved'')],
             map (\<lambda>a. if hit a then a\<lparr>ar_resolved := 1, ar_resolved_at := Some now, ar_resolved_by := Some (l_user_id c)\<rparr> else a) rows))"

section \<open>Rules\<close>

definition allowedAlertSeverities :: "string set" where
  "allowedAlertSeverities = {''low'', ''medium'', ''high'', ''critical'', ''info'', ''warning''}"

definition list_rules :: "bool \<Rightarrow> locals \<Rightarrow> alert_rule list \<Rightarrow> (http_error, alert_rule list) result" where
  "list_rules db_up c rules =
     (case AdminMiddleware c of Inl e \<Rightarrow> Inl e
      | Inr c \<Rightarrow> if \<not> db_up then Inl (HttpError 500 ''Failed to query alert rules'')
          else Inr (sort_key (\<lambda>r. - ak_created r) (filter (\<lambda>r. ak_tenant r = tenant_or_default c) rules)))"

record rule_request =
  rq_name :: string
  rq_event :: string
  rq_severity :: string
  rq_recipients :: string
  rq_webhook :: string

definition create_rule ::
  "outside \<Rightarrow> bool \<Rightarrow> string \<Rightarrow> int \<Rightarrow> locals \<Rightarrow> rule_request option \<Rightarrow> alert_rule list
    \<Rightarrow> (http_error, string) result \<times> audit_entry list \<times> alert_rule list" where
  "create_rule out db_up newid now c body rules =
     (case AdminMiddleware c of Inl e \<Rightarrow> (Inl e, [], rules)
      | Inr c \<Rightarrow>
       (case body of None \<Rightarrow> (Inl (HttpError 400 ''Name and event_type are required''), [], rules)
        | Some r \<Rightarrow>
          if rq_name r = [] \<or> rq_event r = [] then (Inl (HttpError 400 ''Name and event_type are required''), [], rules)
          else let severity = (if rq_severity r = [] then ''medium'' else rq_severity r) in
          if severity \<notin> allowedAlertSeverities then (Inl (HttpError 400 ''Invalid severity''), [], rules)
          else if trim_space (rq_webhook r) \<noteq> [] \<and> \<not> is_ok (RejectPrivateHost (os_parse out) (os_lookup out) (rq_webhook r))
          then (Inl (HttpError 400 ''webhook_url''), [], rules)
          else let tid = tenant_or_default c in
          if \<not> db_up then (Inl (HttpError 500 ''Failed to create alert rule''), [], rules)
          else (Inr newid, [(tid, l_user_id c, ''alert_rule.create'', ''alert_rule'', newid, ''created alert rule '' @ rq_name r)],
            \<lparr>ak_id = newid, ak_name = rq_name r, ak_event = rq_event r, ak_severity = severity, ak_enabled = 1,
             ak_recipients = rq_recipients r, ak_webhook = rq_webhook r, ak_created = now, ak_tenant = tid\<rparr> # rules)))"

definition delete_rule :: "bool \<Rightarrow> string \<Rightarrow> locals \<Rightarrow> alert_rule list \<Rightarrow> (http_error, unit) result \<times> audit_entry list \<times> alert_rule list" where
  "delete_rule db_up i c rules =
     (case AdminMiddleware c of Inl e \<Rightarrow> (Inl e, [], rules)
      | Inr c \<Rightarrow>
        let tid = tenant_or_default c in
        if \<not> db_up then (Inl (HttpError 500 ''Failed to delete alert rule''), [], rules)
        else (Inr (), [(tid, l_user_id c, ''alert_rule.delete'', ''alert_rule'', i, ''deleted alert rule'')],
          filter (\<lambda>r. \<not> (ak_id r = i \<and> (IsSuperAdmin (l_user_role c) \<or> ak_tenant r = tid))) rules))"

section \<open>Mail settings\<close>

record settings_view =
  sv_host :: string
  sv_port :: int
  sv_user :: string
  sv_password :: string
  sv_from :: string
  sv_tls :: bool
  sv_enabled :: bool

definition get_settings :: "bool \<Rightarrow> locals \<Rightarrow> (string \<rightharpoonup> alert_settings) \<Rightarrow> (http_error, settings_view) result" where
  "get_settings db_up c settings =
     (case AdminMiddleware c of Inl e \<Rightarrow> Inl e
      | Inr c \<Rightarrow> (case (if db_up then settings (tenant_or_default c) else None) of
          None \<Rightarrow> Inr \<lparr>sv_host = [], sv_port = 587, sv_user = [], sv_password = [], sv_from = [], sv_tls = True, sv_enabled = False\<rparr>
        | Some st \<Rightarrow> Inr \<lparr>sv_host = as_host st, sv_port = as_port st, sv_user = as_user st,
            sv_password = (if as_password st \<noteq> [] then ''********'' else as_password st), sv_from = as_from st,
            sv_tls = (as_tls st \<noteq> 0), sv_enabled = (as_enabled st \<noteq> 0)\<rparr>))"

definition put_settings ::
  "crypto_prims \<Rightarrow> string option \<Rightarrow> string option \<Rightarrow> bool \<Rightarrow> locals \<Rightarrow> settings_view option \<Rightarrow> (string \<rightharpoonup> alert_settings)
    \<Rightarrow> (http_error, unit) result \<times> audit_entry list \<times> (string \<rightharpoonup> alert_settings)" where
  "put_settings P encKey nonce db_up c body settings =
     (case AdminMiddleware c of Inl e \<Rightarrow> (Inl e, [], settings)
      | Inr c \<Rightarrow>
       (case body of None \<Rightarrow> (Inl (HttpError 400 ''Invalid request body''), [], settings)
        | Some r \<Rightarrow>
          let tid = tenant_or_default c;
              encPassword = (case Encrypt P encKey nonce (sv_password r) of Inl _ \<Rightarrow> sv_password r | Inr p \<Rightarrow> p)
          in if \<not> db_up then (Inl (HttpError 500 ''Failed to save alert settings''), [], settings)
             else (Inr (), [(tid, l_user_id c, ''alert_settings.update'', ''alert_settings'', tid, ''updated alert settings'')],
               settings(tid \<mapsto> \<lparr>as_enabled = (if sv_enabled r then 1 else 0), as_host = sv_host r, as_port = sv_port r, as_user = sv_user r,
                 as_password = encPassword, as_from = sv_from r, as_tls = (if sv_tls r then 1 else 0)\<rparr>))))"

section \<open>The limiter keeps its contract\<close>

definition redis_key_used :: "int \<Rightarrow> redis_kv \<Rightarrow> string \<Rightarrow> nat" where
  "redis_key_used t kv k = (if redis_get t kv k = None then 0 else 1)"

definition memory_key_used :: "int \<Rightarrow> dedup_store \<Rightarrow> string \<Rightarrow> nat" where
  "memory_key_used t m k = (case m k of Some t0 \<Rightarrow> if t - t0 < alertDedupWindow then 1 else 0 | None \<Rightarrow> 0)"

lemma redis_get_later: "redis_get now kv k = None \<Longrightarrow> now \<le> t \<Longrightarrow> redis_get t kv k = None"
  by (auto simp: redis_get_def split: option.splits if_splits)

lemma redis_get_set: "redis_get t (kv(k \<mapsto> (n, Some (now + alertDedupWindow)))) k
    = (if t < now + alertDedupWindow then Some (n, Some (now + alertDedupWindow)) else None)" "alertDedupWindow > 0"
  by (simp_all add: redis_get_def alertDedupWindow_def minute_def)

interpretation dedup_rds: sliding_budget dedup_redis redis_key_used "\<lambda>_. True" 1 alertDedupWindow
proof (unfold_locales, goal_cases)
  case (4 s now k t)
  then show ?case by (auto simp: dedup_redis_def split: if_splits)
next
  case (5 j k now t s)
  then show ?case by (simp add: dedup_redis_def redis_key_used_def redis_get_def)
next
  case (6 s now t k)
  then show ?case using redis_get_later by (auto simp: redis_key_used_def)
next
  case (7 s now k t)
  then have "redis_get now s k = None" by (simp add: dedup_redis_def split: if_splits)
  with 7 redis_get_later [OF this \<open>now \<le> t\<close>] show ?case
    by (simp add: dedup_redis_def redis_key_used_def)
qed (auto simp: dedup_redis_def redis_key_used_def redis_get_set split: if_splits)

interpretation dedup_mem: sliding_budget dedup_memory memory_key_used "\<lambda>_. True" 1 alertDedupWindow
proof (unfold_locales, goal_cases)
  case (4 s now k t)
  then show ?case by (simp add: dedup_memory_def split: if_splits)
next
  case (5 j k now t s)
  then show ?case by (auto simp: dedup_memory_def memory_key_used_def split: option.splits)
next
  case (6 s now t k)
  then show ?case by (auto simp: memory_key_used_def split: option.splits)
next
  case (7 s now k t)
  then show ?case by (auto simp: dedup_memory_def memory_key_used_def split: option.splits if_splits)
qed (auto simp: dedup_memory_def memory_key_used_def alertDedupWindow_def minute_def split: option.splits if_splits)

section \<open>At most one row per window\<close>

record emit_call =
  em_redis :: redis_answer
  em_ins_ok :: bool
  em_id :: string
  em_now :: int
  em_tenant :: string
  em_device :: string
  em_type :: string
  em_severity :: string
  em_message :: string

definition emit_calls :: "emit_call list \<Rightarrow> alert_state \<Rightarrow> alert_state" where
  "emit_calls cs s = foldl (\<lambda>s c. EmitAlert (em_redis c) (em_ins_ok c) (em_id c) (em_now c) (em_tenant c) (em_device c) (em_type c)
     (em_severity c) (em_message c) s) s cs"

definition row_key :: "alert_row \<Rightarrow> string" where
  "row_key a = alertDedupKey (ar_tenant a) (case ar_device a of Some d \<Rightarrow> d | None \<Rightarrow> []) (ar_type a)"

definition rows_with :: "string \<Rightarrow> alert_state \<Rightarrow> nat" where
  "rows_with k s = length (filter (\<lambda>a. row_key a = k) (at_rows s))"

definition call_key :: "emit_call \<Rightarrow> string" where
  "call_key c = alertDedupKey (if em_tenant c = [] then ''default'' else em_tenant c) (em_device c) (em_type c)"

definition timed :: "(emit_call \<Rightarrow> bool) \<Rightarrow> emit_call list \<Rightarrow> (int \<times> string) list" where
  "timed p cs = map (\<lambda>c. (em_now c, call_key c)) (filter p cs)"

abbreviation by_redis :: "emit_call \<Rightarrow> bool" where "by_redis c \<equiv> em_redis c = Redis_up"

lemma inserted_key:
  "row_key \<lparr>ar_id = i, ar_tenant = t, ar_device = sqlNullable d, ar_type = ty, ar_severity = sev, ar_message = msg,
     ar_resolved = 0, ar_resolved_at = None, ar_resolved_by = None, ar_created = c\<rparr> = alertDedupKey t d ty"
  by (simp add: row_key_def sqlNullable_def)

lemma admissions_step:
  "admissions res k ((t, j) # hs) s = (if fst (res t j s) \<and> j = k then 1 else 0) + admissions res k hs (snd (res t j s))"
  by (simp split: prod.split)

definition do_emit :: "emit_call \<Rightarrow> alert_state \<Rightarrow> alert_state" where
  "do_emit c s = EmitAlert (em_redis c) (em_ins_ok c) (em_id c) (em_now c) (em_tenant c) (em_device c) (em_type c) (em_severity c) (em_message c) s"

lemma emit_redis:
  assumes "by_redis c" and "dedup_redis (em_now c) (call_key c) (at_redis s) = (ok, kv)"
  shows "at_redis (do_emit c s) = kv" "at_store (do_emit c s) = at_store s"
    "rows_with k (do_emit c s) \<le> rows_with k s + (if ok \<and> call_key c = k then 1 else 0)"
  using assms by (simp_all add: do_emit_def EmitAlert_def shouldEmitAlert_def Let_def call_key_def rows_with_def inserted_key)

lemma emit_memory:
  assumes "\<not> by_redis c" and "dedup_memory (em_now c) (call_key c) (at_store s) = (ok, m)"
  shows "at_store (do_emit c s) = m" "at_redis (do_emit c s) = at_redis s"
    "rows_with k (do_emit c s) \<le> rows_with k s + (if ok \<and> call_key c = k then 1 else 0)"
  using assms by (simp_all add: do_emit_def EmitAlert_def shouldEmitAlert_def Let_def call_key_def rows_with_def inserted_key)

lemma rows_bounded:
  "rows_with k (emit_calls cs s) \<le> rows_with k s + admissions dedup_redis k (timed by_redis cs) (at_redis s)
     + admissions dedup_memory k (timed (\<lambda>c. \<not> by_redis c) cs) (at_store s)"
proof (induction cs arbitrary: s)
  case (Cons c cs)
  have run: "emit_calls (c # cs) s = emit_calls cs (do_emit c s)" by (simp add: emit_calls_def do_emit_def)
  show ?case
  proof (cases "by_redis c")
    case True
    obtain ok kv where d: "dedup_redis (em_now c) (call_key c) (at_redis s) = (ok, kv)" by (cases "dedup_redis (em_now c) (call_key c) (at_redis s)")
    show ?thesis
      using Cons.IH [of "do_emit c s"] emit_redis(1,2) [OF True d] emit_redis(3) [OF True d, of k] True d unfolding run by (simp add: timed_def admissions_step)
  next
    case False
    obtain ok m where d: "dedup_memory (em_now c) (call_key c) (at_store s) = (ok, m)" by (cases "dedup_memory (em_now c) (call_key c) (at_store s)")
    show ?thesis
      using Cons.IH [of "do_emit c s"] emit_memory(1,2) [OF False d] emit_memory(3) [OF False d, of k] False d unfolding run by (simp add: timed_def admissions_step)
  qed
qed (simp add: emit_calls_def timed_def)

lemma rows_window:
  assumes "sorted (t0 # map em_now cs)" and "\<forall>c \<in> set cs. em_now c < t0 + alertDedupWindow"
  shows "admissions dedup_redis k (timed p cs) kv \<le> 1" "admissions dedup_memory k (timed p cs) m \<le> 1"
proof -
  have "sorted (map em_now (filter p cs))" using assms(1) by (simp add: sorted_filter)
  then have s: "sorted (t0 # map fst (timed p cs))" using assms(1) by (auto simp: timed_def comp_def)
  have w: "\<forall>(t, j) \<in> set (timed p cs). t < t0 + alertDedupWindow" using assms(2) by (auto simp: timed_def)
  show "admissions dedup_redis k (timed p cs) kv \<le> 1"
    by (rule dedup_rds.admissions_capped [OF TrueI s w]) (simp add: redis_key_used_def)
  show "admissions dedup_memory k (timed p cs) m \<le> 1"
    by (rule dedup_mem.admissions_capped [OF TrueI s w]) (simp add: memory_key_used_def split: option.split)
qed

text \<open>
  C28. Within any interval shorter than five minutes the calls of \<open>EmitAlert\<close> on a node add at most one row for a
  tenant, device and type while the same limiter decides, and at most two when Redis fails or recovers in between; rows
  whose insertion failed use up the interval as well.
\<close>

theorem alerts_deduplicated:
  assumes "sorted (t0 # map em_now cs)" and "\<forall>c \<in> set cs. em_now c < t0 + alertDedupWindow"
  shows "rows_with k (emit_calls cs s) \<le> rows_with k s
    + (if list_all by_redis cs \<or> list_all (\<lambda>c. \<not> by_redis c) cs then 1 else 2)"
proof -
  have none: "timed p cs = []" if "list_all (\<lambda>c. \<not> p c) cs" for p
    using that by (simp add: timed_def list_all_iff filter_empty_conv)
  show ?thesis
    using rows_bounded [of k cs s] rows_window(1) [OF assms, of k by_redis "at_redis s"] rows_window(2) [OF assms, of k "\<lambda>c. \<not> by_redis c" "at_store s"]
      none [of by_redis] none [of "\<lambda>c. \<not> by_redis c"]
    by (cases "list_all by_redis cs"; cases "list_all (\<lambda>c. \<not> by_redis c) cs") simp_all
qed

definition sample_call :: "redis_answer \<Rightarrow> int \<Rightarrow> emit_call" where
  "sample_call rd now = \<lparr>em_redis = rd, em_ins_ok = True, em_id = ''i'', em_now = now, em_tenant = ''acme'', em_device = ''d1'',
     em_type = ''offline'', em_severity = [], em_message = ''m''\<rparr>"

definition no_alerts :: alert_state where "no_alerts = \<lparr>at_store = Map.empty, at_redis = Map.empty, at_rows = []\<rparr>"

lemma alerts_deduplicated_witness:
  "rows_with ''alert_dedup:acme|d1|offline'' (emit_calls [sample_call Redis_off 0, sample_call Redis_off minute] no_alerts) = 1
   \<and> rows_with ''alert_dedup:acme|d1|offline'' (emit_calls [sample_call Redis_off 0, sample_call Redis_up minute] no_alerts) = 2"
proof -
  let ?k = "''alert_dedup:acme|d1|offline''"
  have le: "rows_with ?k (emit_calls [sample_call Redis_off 0, sample_call Redis_off minute] no_alerts) \<le> rows_with ?k no_alerts + 1"
    "rows_with ?k (emit_calls [sample_call Redis_off 0, sample_call Redis_up minute] no_alerts) \<le> rows_with ?k no_alerts + 2"
    using alerts_deduplicated [of 0 "[sample_call Redis_off 0, sample_call Redis_off minute]" ?k no_alerts]
      alerts_deduplicated [of 0 "[sample_call Redis_off 0, sample_call Redis_up minute]" ?k no_alerts]
    by (simp_all add: sample_call_def minute_def alertDedupWindow_def)
  have "rows_with ?k no_alerts = 0" by (simp add: rows_with_def no_alerts_def)
  moreover have "rows_with ?k (emit_calls [sample_call Redis_off 0, sample_call Redis_off minute] no_alerts) \<ge> 1"
    "rows_with ?k (emit_calls [sample_call Redis_off 0, sample_call Redis_up minute] no_alerts) \<ge> 2" by code_simp+
  ultimately show ?thesis using le by linarith
qed

text \<open>A failed insertion leaves the interval used up: the next alert of the tuple within five minutes is dropped.\<close>

lemma lost_alert_silences:
  "at_rows (emit_calls [(sample_call Redis_off 0)\<lparr>em_ins_ok := False\<rparr>, sample_call Redis_off minute] no_alerts) = []"
  by code_simp

section \<open>Resolving and settings\<close>

text \<open>
  Resolving changes at most open rows that the caller may see, and those get the caller and the time; a resolved row never
  changes again.
\<close>

lemma resolve_once:
  assumes "resolve_alert db_up now i c rows = (r, au, rows')"
  shows "list_all2 (\<lambda>a b. b = a \<or> ar_resolved a = 0 \<and> ar_id a = i \<and> ar_resolved b = 1 \<and> ar_resolved_by b = Some (l_user_id c) \<and> ar_tenant b = ar_tenant a
      \<and> (l_user_role c = ''super_admin'' \<or> l_user_role c = ''admin'' \<and> ar_tenant a = tenant_or_default c)) rows rows'"
  using assms
  by (auto simp: resolve_alert_def Let_def AdminMiddleware_def guard_def IsSuperAdmin_def list_all2_conv_all_nth split: if_splits)

lemma resolve_idempotent:
  assumes "resolve_alert True now i c rows = (Inr (), au, rows')"
  shows "resolve_alert True now' i c rows' = (Inl (HttpError 404 ''Alert not found or already resolved''), [], rows')"
  using assms
  by (auto simp: resolve_alert_def Let_def AdminMiddleware_def guard_def filter_empty_conv split: if_splits)

text \<open>
  Sending back the settings as they were read replaces the stored password by the mask: every mail afterwards signs in with
  eight stars.
\<close>

lemma settings_echo_loses_password:
  assumes "get_settings True c settings = Inr v" and "settings (tenant_or_default c) = Some st" and "as_password st \<noteq> []"
  shows "map_option (\<lambda>s. as_password s) (snd (snd (put_settings P None nonce True c (Some v) settings)) (tenant_or_default c)) = Some ''********''"
  using assms by (auto simp: get_settings_def put_settings_def Let_def AdminMiddleware_def guard_def Encrypt_def split: if_splits)

end
