(* ===== verification/Tenants.thy ===== *)
theory Tenants
  imports Broadcast KillSwitch
begin

text \<open>
  The table of tenants: the handlers of the platform owner (\<open>internal/handlers/tenants.go\<close>; impersonation is in
  \<open>Sessions\<close>), slugs, and the resolution of a host name to a tenant with its cache
  (\<open>internal/middleware/tenant_host.go\<close>, \<open>/caddy/ask\<close> of \<open>internal/handlers/system.go\<close>).

  Ids and secrets that the code draws are parameters, like the answers of the database. The table has a unique index on
  the slug, and the empty slug counts. The clock is in nanoseconds.
\<close>

section \<open>Slugs\<close>

definition slug_alnum :: "char \<Rightarrow> bool" where
  "slug_alnum c = (CHR ''a'' \<le> c \<and> c \<le> CHR ''z'' \<or> CHR ''0'' \<le> c \<and> c \<le> CHR ''9'')"

definition hyphen :: char where "hyphen = CHR ''-''"

text \<open>The language of \<open>tenantSlugRe\<close> and of \<open>signupSlugRe\<close>.\<close>

definition valid_slug :: "string \<Rightarrow> bool" where
  "valid_slug s = (3 \<le> length s \<and> length s \<le> 64 \<and> slug_alnum (hd s) \<and> slug_alnum (last s) \<and> list_all (\<lambda>c. slug_alnum c \<or> c = hyphen) s)"

fun slug_loop :: "string \<Rightarrow> string \<Rightarrow> bool \<Rightarrow> string" where
  "slug_loop [] b prevHyphen = b"
| "slug_loop (ch # name) b prevHyphen =
     (if slug_alnum ch then slug_loop name (b @ [ch]) False
      else if CHR ''A'' \<le> ch \<and> ch \<le> CHR ''Z'' then slug_loop name (b @ [char_of ((of_char ch :: nat) + 32)]) False
      else if \<not> prevHyphen \<and> b \<noteq> [] then slug_loop name (b @ [hyphen]) True
      else slug_loop name b prevHyphen)"

definition trim_hyphens :: "string \<Rightarrow> string" where
  "trim_hyphens b = rev (dropWhile (\<lambda>c. c = hyphen) (rev b))"

definition autoSlug :: "string \<Rightarrow> string" where
  "autoSlug name = (let b = take 64 (trim_hyphens (slug_loop name [] False)) in if length b < 3 then [] else b)"

section \<open>The table\<close>

record tenant_rec =
  tn_id :: string
  tn_name :: string
  tn_slug :: string
  tn_plan :: string
  tn_status :: string
  tn_secret :: "string option"
  tn_max_devices :: int
  tn_max_users :: int
  tn_created :: int
  tn_updated :: int
  tn_suspended_at :: "int option"

record slug_cache =
  sc_entries :: "string \<rightharpoonup> string \<times> string"
  sc_loaded :: "int option"

record tenant_state =
  ts_rows :: "tenant_rec list"
  ts_cache :: slug_cache
  ts_kill :: kill_state
  ts_audit :: "audit_entry list"

definition second :: int where "second = 1000000000"

definition unix_of :: "int \<Rightarrow> int" where "unix_of now = now div second"

definition InvalidateSlugCache :: "slug_cache \<Rightarrow> slug_cache" where
  "InvalidateSlugCache c = \<lparr>sc_entries = Map.empty, sc_loaded = None\<rparr>"

definition audited :: "audit_entry \<Rightarrow> tenant_state \<Rightarrow> tenant_state" where
  "audited e s = s\<lparr>ts_audit := e # ts_audit s\<rparr>"

definition has_newline :: "string \<Rightarrow> bool" where
  "has_newline s = contains_any s [CHR 0x0D, CHR 0x0A]"

section \<open>Handlers of the platform owner\<close>

record tenant_view =
  tv_row :: tenant_rec
  tv_has_key :: bool
  tv_devices :: nat
  tv_users :: nat

definition list_tenants :: "bool \<Rightarrow> locals \<Rightarrow> string list \<Rightarrow> string list \<Rightarrow> tenant_state \<Rightarrow> (http_error, tenant_view list) result" where
  "list_tenants db_up c device_tenants user_tenants s =
     (case SuperAdminMiddleware c of Inl e \<Rightarrow> Inl e
      | Inr c \<Rightarrow> if \<not> db_up then Inl (HttpError 500 ''Failed to query tenants'')
          else Inr (map (\<lambda>t. \<lparr>tv_row = t, tv_has_key = (case tn_secret t of Some k \<Rightarrow> k \<noteq> [] | None \<Rightarrow> False),
                 tv_devices = count_list device_tenants (tn_id t), tv_users = count_list user_tenants (tn_id t)\<rparr>)
               (sort_key (\<lambda>t. - tn_created t) (ts_rows s))))"

record tenant_request =
  tq_name :: string
  tq_slug :: string
  tq_plan :: string
  tq_max_devices :: int
  tq_max_users :: int

definition insert_tenant :: "bool \<Rightarrow> tenant_rec \<Rightarrow> tenant_rec list \<Rightarrow> tenant_rec list option" where
  "insert_tenant db_up t rows = (if \<not> db_up \<or> (\<exists>r \<in> set rows. tn_id r = tn_id t \<or> tn_slug r = tn_slug t) then None else Some (t # rows))"

definition create_tenant :: "bool \<Rightarrow> string \<Rightarrow> int \<Rightarrow> locals \<Rightarrow> tenant_request option \<Rightarrow> tenant_state \<Rightarrow> (http_error, string) result \<times> tenant_state" where
  "create_tenant db_up newid now c body s =
     (case SuperAdminMiddleware c of Inl e \<Rightarrow> (Inl e, s)
      | Inr c \<Rightarrow>
       (case body of None \<Rightarrow> (Inl (HttpError 400 ''name is required''), s)
        | Some r \<Rightarrow>
          if tq_name r = [] then (Inl (HttpError 400 ''name is required''), s)
          else if has_newline (tq_name r) then (Inl (HttpError 400 ''name cannot contain newlines''), s)
          else let slug = (if tq_slug r = [] then autoSlug (tq_name r) else tq_slug r) in
          if slug \<noteq> [] \<and> \<not> valid_slug slug then (Inl (HttpError 400 ''slug must be lowercase alphanumeric with hyphens (3-64 chars)''), s)
          else case insert_tenant db_up \<lparr>tn_id = newid, tn_name = tq_name r, tn_slug = slug, tn_plan = (if tq_plan r = [] then ''free'' else tq_plan r),
                 tn_status = ''active'', tn_secret = None, tn_max_devices = tq_max_devices r, tn_max_users = tq_max_users r,
                 tn_created = unix_of now, tn_updated = unix_of now, tn_suspended_at = None\<rparr> (ts_rows s) of
              None \<Rightarrow> (Inl (HttpError 500 ''Failed to create tenant''), s)
            | Some rows \<Rightarrow> (Inr newid, audited (newid, l_user_id c, ''tenant.create'', ''tenant'', newid, ''created tenant '' @ tq_name r)
                 (s\<lparr>ts_rows := rows, ts_cache := InvalidateSlugCache (ts_cache s)\<rparr>))))"

record tenant_update =
  up_name :: "string option"
  up_plan :: "string option"
  up_status :: "string option"
  up_max_devices :: "int option"
  up_max_users :: "int option"

definition or_old :: "'a option \<Rightarrow> 'a \<Rightarrow> 'a" where
  "or_old new old = (case new of Some x \<Rightarrow> x | None \<Rightarrow> old)"

definition set_fields :: "int \<Rightarrow> tenant_update \<Rightarrow> tenant_rec \<Rightarrow> tenant_rec" where
  "set_fields now u t = t\<lparr>tn_updated := unix_of now, tn_name := or_old (up_name u) (tn_name t), tn_plan := or_old (up_plan u) (tn_plan t),
     tn_status := or_old (up_status u) (tn_status t),
     tn_suspended_at := (case up_status u of None \<Rightarrow> tn_suspended_at t | Some st \<Rightarrow> if st = ''suspended'' then Some (unix_of now) else None),
     tn_max_devices := or_old (up_max_devices u) (tn_max_devices t), tn_max_users := or_old (up_max_users u) (tn_max_users t)\<rparr>"

definition update_tenant ::
  "bool \<Rightarrow> bool \<Rightarrow> int \<Rightarrow> string \<Rightarrow> locals \<Rightarrow> tenant_update option \<Rightarrow> tenant_state \<Rightarrow> (http_error, unit) result \<times> tenant_state" where
  "update_tenant db_up kill_up now tid c body s =
     (case SuperAdminMiddleware c of Inl e \<Rightarrow> (Inl e, s)
      | Inr c \<Rightarrow>
       (case body of None \<Rightarrow> (Inl (HttpError 400 ''Invalid body''), s)
        | Some u \<Rightarrow>
          if (case up_name u of Some n \<Rightarrow> has_newline n | None \<Rightarrow> False) then (Inl (HttpError 400 ''name cannot contain newlines''), s)
          else if (case up_status u of Some st \<Rightarrow> st \<noteq> ''active'' \<and> st \<noteq> ''suspended'' | None \<Rightarrow> False)
          then (Inl (HttpError 400 ''status must be active or suspended''), s)
          else if tid = ''default'' \<and> up_status u = Some ''suspended'' then (Inl (HttpError 400 ''Cannot suspend default tenant''), s)
          else if \<not> db_up then (Inl (HttpError 500 ''Failed to update tenant''), s)
          else if \<not> (\<exists>t \<in> set (ts_rows s). tn_id t = tid) then (Inl (HttpError 404 ''Tenant not found''), s)
          else let s = s\<lparr>ts_rows := map (\<lambda>t. if tn_id t = tid then set_fields now u t else t) (ts_rows s),
                         ts_cache := InvalidateSlugCache (ts_cache s)\<rparr>;
                   s = (case up_status u of None \<Rightarrow> s
                        | Some st \<Rightarrow> s\<lparr>ts_kill := snd (SetKill kill_up (''tenant:'' @ tid) (st = ''suspended'') (ts_kill s))\<rparr>)
               in (Inr (), audited (tid, l_user_id c, ''tenant.update'', ''tenant'', tid, ''updated tenant'') s)))"

definition dataChecks :: "(string \<times> string) list" where
  "dataChecks = [(''users'', ''user(s)''), (''devices'', ''device(s)''), (''agent_tokens'', ''agent token(s)''), (''scripts'', ''script(s)''),
     (''alert_rules'', ''alert rule(s)''), (''alert_settings'', ''alert settings''), (''webhooks'', ''webhook(s)''),
     (''branding'', ''branding row(s)''), (''tickets'', ''ticket(s)''), (''patches'', ''patch(es)''), (''file_transfers'', ''file transfer(s)''),
     (''device_commands'', ''device command(s)''), (''compliance_results'', ''compliance result(s)''), (''metrics_history'', ''metrics row(s)'')]"

text \<open>\<open>rows_of\<close> is the count of a table's rows of the tenant, \<open>None\<close> if the query fails.\<close>

definition delete_tenant ::
  "bool \<Rightarrow> (string \<Rightarrow> nat option) \<Rightarrow> string \<Rightarrow> locals \<Rightarrow> tenant_state \<Rightarrow> (http_error, unit) result \<times> tenant_state" where
  "delete_tenant db_up rows_of tid c s =
     (case SuperAdminMiddleware c of Inl e \<Rightarrow> (Inl e, s)
      | Inr c \<Rightarrow>
        if tid = ''default'' then (Inl (HttpError 400 ''Cannot delete default tenant''), s)
        else (case List.find (\<lambda>(t, _). case rows_of t of Some n \<Rightarrow> n > 0 | None \<Rightarrow> False) dataChecks of
            Some (t, label) \<Rightarrow> (Inl (HttpError 409 (''tenant has rows; remove first: '' @ label)), s)
          | None \<Rightarrow>
            if \<not> db_up then (Inl (HttpError 500 ''Failed to delete tenant''), s)
            else if \<not> (\<exists>t \<in> set (ts_rows s). tn_id t = tid) then (Inl (HttpError 404 ''Tenant not found''), s)
            else (Inr (), audited (tid, l_user_id c, ''tenant.delete'', ''tenant'', tid, ''deleted tenant'')
                (s\<lparr>ts_rows := filter (\<lambda>t. tn_id t \<noteq> tid) (ts_rows s), ts_cache := InvalidateSlugCache (ts_cache s)\<rparr>))))"

section \<open>Registration secrets\<close>

definition hashRegistrationSecret :: "crypto_prims \<Rightarrow> string \<Rightarrow> string" where
  "hashRegistrationSecret P plain = hexEncode (sha256 P plain)"

text \<open>\<open>random24\<close> is what the random generator delivered, \<open>None\<close> its failure.\<close>

definition newRegistrationSecret :: "string option \<Rightarrow> string option" where
  "newRegistrationSecret random24 = map_option (\<lambda>b. ''vrt_'' @ hexEncode b) random24"

definition store_secret :: "crypto_prims \<Rightarrow> bool \<Rightarrow> string option \<Rightarrow> int \<Rightarrow> string \<Rightarrow> string \<Rightarrow> locals \<Rightarrow> tenant_state
    \<Rightarrow> (http_error, string) result \<times> tenant_state" where
  "store_secret P db_up random24 now tid details c s =
     (case newRegistrationSecret random24 of
        None \<Rightarrow> (Inl (HttpError 500 ''Failed to generate secret''), s)
      | Some secret \<Rightarrow>
        if \<not> db_up then (Inl (HttpError 500 ''Failed to store secret''), s)
        else if \<not> (\<exists>t \<in> set (ts_rows s). tn_id t = tid) then (Inl (HttpError 404 ''Tenant not found''), s)
        else (Inr secret, audited (tid, l_user_id c, ''tenant.registration_secret_rotated'', ''tenant'', tid, details)
           (s\<lparr>ts_rows := map (\<lambda>t. if tn_id t = tid then t\<lparr>tn_secret := Some (hashRegistrationSecret P secret), tn_updated := unix_of now\<rparr> else t)
              (ts_rows s)\<rparr>)))"

definition rotate_secret :: "crypto_prims \<Rightarrow> bool \<Rightarrow> string option \<Rightarrow> int \<Rightarrow> string \<Rightarrow> locals \<Rightarrow> tenant_state
    \<Rightarrow> (http_error, string) result \<times> tenant_state" where
  "rotate_secret P db_up random24 now tid c s =
     (case SuperAdminMiddleware c of Inl e \<Rightarrow> (Inl e, s) | Inr c \<Rightarrow> store_secret P db_up random24 now tid ''rotated registration secret'' c s)"

definition rotate_own_secret :: "crypto_prims \<Rightarrow> bool \<Rightarrow> string option \<Rightarrow> int \<Rightarrow> locals \<Rightarrow> tenant_state
    \<Rightarrow> (http_error, string) result \<times> tenant_state" where
  "rotate_own_secret P db_up random24 now c s =
     (case AdminMiddleware c of Inl e \<Rightarrow> (Inl e, s)
      | Inr c \<Rightarrow> store_secret P db_up random24 now (tenant_or_default c) ''rotated registration secret (self-serve)'' c s)"

text \<open>Where agents and invited users are sent to; \<open>host\<close> is the host name of the request.\<close>

definition externalServerURL :: "env \<Rightarrow> string \<Rightarrow> string \<Rightarrow> string" where
  "externalServerURL env protocol host =
     (if env ''PUBLIC_URL'' \<noteq> [] then env ''PUBLIC_URL''
      else (if protocol = ''https'' \<or> env ''SERVER_CERT'' \<noteq> [] then ''https'' else ''http'') @ ''://'' @ host)"

definition install_linux :: "string \<Rightarrow> string \<Rightarrow> string" where
  "install_linux serverURL secret =
     ''curl -fsSL '' @ serverURL @ ''/api/branding/agent-install?format=script | sudo REGISTRATION_SECRET='' @ [CHR 0x27] @ secret @ [CHR 0x27]
     @ '' bash -s -- --server '' @ serverURL"

section \<open>Hosts\<close>

definition slug_entries :: "tenant_rec list \<Rightarrow> string \<rightharpoonup> string \<times> string" where
  "slug_entries rows = foldl (\<lambda>m t. m(to_lower (tn_slug t) \<mapsto> (tn_id t, tn_name t))) Map.empty
     (filter (\<lambda>t. tn_status t = ''active'' \<and> tn_slug t \<noteq> []) rows)"

definition stale_after :: int where "stale_after = 60 * second"

definition reloadIfStale :: "bool \<Rightarrow> int \<Rightarrow> tenant_rec list \<Rightarrow> slug_cache \<Rightarrow> slug_cache" where
  "reloadIfStale db_up now rows c =
     (if (case sc_loaded c of None \<Rightarrow> True | Some t \<Rightarrow> now - t > stale_after) \<or> sc_entries c = Map.empty
      then if db_up then \<lparr>sc_entries = slug_entries rows, sc_loaded = Some now\<rparr> else c
      else c)"

definition lookup_slug :: "bool \<Rightarrow> int \<Rightarrow> tenant_rec list \<Rightarrow> string \<Rightarrow> slug_cache \<Rightarrow> (string \<times> string) option \<times> slug_cache" where
  "lookup_slug db_up now rows slug c = (let c = reloadIfStale db_up now rows c in (sc_entries c (to_lower slug), c))"

definition ExtractSubdomainSlug :: "env \<Rightarrow> string \<Rightarrow> string" where
  "ExtractSubdomainSlug env host =
     (if host = [] then []
      else let host = to_lower (takeWhile (\<lambda>c. c \<noteq> CHR '':'') host);
               base = to_lower (trim_space (env ''BASE_DOMAIN''))
           in if base = [] \<or> host = base then []
              else if \<not> has_suffix host (CHR ''.'' # base) then []
              else let prefix = trim_suffix host (CHR ''.'' # base) in
                if prefix = [] \<or> prefix = ''www'' then []
                else if CHR ''.'' \<in> set prefix then [] else prefix)"

text \<open>The hint that \<open>ResolveTenantFromHost\<close> leaves: id, name and slug of the tenant.\<close>

definition ResolveTenantFromHost :: "env \<Rightarrow> bool \<Rightarrow> int \<Rightarrow> string \<Rightarrow> tenant_rec list \<Rightarrow> slug_cache
    \<Rightarrow> (string \<times> string \<times> string) option \<times> slug_cache" where
  "ResolveTenantFromHost env db_up now host rows c =
     (let slug = ExtractSubdomainSlug env host in
      if slug = [] then (None, c)
      else (case lookup_slug db_up now rows slug c of
          (Some (i, n), c) \<Rightarrow> (Some (i, n, slug), c)
        | (None, c) \<Rightarrow> (None, c)))"

definition SlugIsActive :: "bool \<Rightarrow> int \<Rightarrow> tenant_rec list \<Rightarrow> string \<Rightarrow> slug_cache \<Rightarrow> bool \<times> slug_cache" where
  "SlugIsActive db_up now rows slug c =
     (if slug = [] then (False, c) else case lookup_slug db_up now rows slug c of (r, c) \<Rightarrow> (r \<noteq> None, c))"

definition caddy_ask :: "env \<Rightarrow> bool \<Rightarrow> int \<Rightarrow> string \<Rightarrow> tenant_rec list \<Rightarrow> slug_cache \<Rightarrow> nat \<times> slug_cache" where
  "caddy_ask env db_up now domain rows c =
     (case SlugIsActive db_up now rows (ExtractSubdomainSlug env domain) c of (r, c) \<Rightarrow> (if r then 200 else 404, c))"

section \<open>Host names\<close>

lemma suffix_split: "has_suffix h p \<Longrightarrow> h = trim_suffix h p @ p"
  by (auto simp: has_suffix_iff)

text \<open>
  The slug taken from a host name is \<open>s\<close> exactly if the host, without its port and in lower case, is \<open>s\<close>, a dot and
  the base domain, and \<open>s\<close> is one label other than \<open>www\<close>.
\<close>

theorem host_names_slug:
  assumes "s \<noteq> []"
  shows "ExtractSubdomainSlug env host = s \<longleftrightarrow>
    to_lower (trim_space (env ''BASE_DOMAIN'')) \<noteq> [] \<and> CHR ''.'' \<notin> set s \<and> s \<noteq> ''www''
    \<and> to_lower (takeWhile (\<lambda>c. c \<noteq> CHR '':'') host) = s @ CHR ''.'' # to_lower (trim_space (env ''BASE_DOMAIN''))"
proof -
  let ?h = "to_lower (takeWhile (\<lambda>c. c \<noteq> CHR '':'') host)" and ?b = "to_lower (trim_space (env ''BASE_DOMAIN''))"
  have nil: "host = [] \<Longrightarrow> ?h = []" by (simp add: to_lower_def)
  show ?thesis
  proof (cases "has_suffix ?h (CHR ''.'' # ?b)")
    case True
    from suffix_split [OF this] obtain p where p: "?h = p @ CHR ''.'' # ?b" by metis
    then have "host \<noteq> []" using nil by auto
    then show ?thesis using True assms by (auto simp: ExtractSubdomainSlug_def Let_def p)
  next
    case False
    then have "\<nexists>p. ?h = p @ CHR ''.'' # ?b" by (simp add: has_suffix_iff)
    with False show ?thesis using assms by (auto simp: ExtractSubdomainSlug_def Let_def)
  qed
qed

lemma host_names_slug_witness:
  "ExtractSubdomainSlug ((\<lambda>_. [])(''BASE_DOMAIN'' := '' rmm.Example.com'')) ''Acme.rmm.example.com:8443'' = ''acme''"
  by (subst host_names_slug) (simp, code_simp)

section \<open>How stale the cache can be\<close>

datatype slug_step = Invalidate | Lookup bool int "tenant_rec list" string

fun do_slug_step :: "slug_cache \<Rightarrow> slug_step \<Rightarrow> slug_cache" where
  "do_slug_step c Invalidate = InvalidateSlugCache c"
| "do_slug_step c (Lookup up now rows slug) = snd (lookup_slug up now rows slug c)"

definition slug_run :: "slug_step list \<Rightarrow> slug_cache" where
  "slug_run steps = foldl do_slug_step \<lparr>sc_entries = Map.empty, sc_loaded = None\<rparr> steps"

text \<open>The tables that successful lookups since the last invalidation may have loaded, with the time.\<close>

fun seen_step :: "(int \<times> tenant_rec list) list \<Rightarrow> slug_step \<Rightarrow> (int \<times> tenant_rec list) list" where
  "seen_step acc Invalidate = []"
| "seen_step acc (Lookup up now rows slug) = (if up then (now, rows) # acc else acc)"

definition tables_seen :: "slug_step list \<Rightarrow> (int \<times> tenant_rec list) list" where
  "tables_seen steps = foldl seen_step [] steps"

definition cache_from :: "(int \<times> tenant_rec list) list \<Rightarrow> slug_cache \<Rightarrow> bool" where
  "cache_from seen c = (case sc_loaded c of None \<Rightarrow> sc_entries c = Map.empty | Some t \<Rightarrow> \<exists>T. (t, T) \<in> set seen \<and> sc_entries c = slug_entries T)"

lemma cache_from_step: "cache_from seen c \<Longrightarrow> cache_from (seen_step seen st) (do_slug_step c st)"
  by (cases st) (auto simp: cache_from_def InvalidateSlugCache_def lookup_slug_def reloadIfStale_def Let_def split: option.splits)

lemma cache_from_run: "cache_from (tables_seen steps) (slug_run steps)"
proof (induction steps rule: rev_induct)
  case Nil
  then show ?case by (simp add: cache_from_def slug_run_def)
next
  case (snoc st steps)
  then show ?case using cache_from_step by (simp add: tables_seen_def slug_run_def)
qed

text \<open>
  However requests, failures of the database and changes of tenants interleave, a lookup that can reach the database
  answers from a table that is at most a minute old and that was read since the last change made on this node.
\<close>

theorem slug_cache_fresh:
  "\<exists>(t, T) \<in> set ((now, rows) # tables_seen steps). now - t \<le> 60 * 1000000000
     \<and> fst (lookup_slug True now rows slug (slug_run steps)) = slug_entries T (to_lower slug)"
proof -
  define r where "r = fst (lookup_slug True now rows slug (slug_run steps))"
  have from_run: "cache_from (tables_seen steps) (slug_run steps)" by (rule cache_from_run)
  show ?thesis
  proof (cases "(case sc_loaded (slug_run steps) of None \<Rightarrow> True | Some t \<Rightarrow> now - t > stale_after) \<or> sc_entries (slug_run steps) = Map.empty")
    case True
    then have "r = slug_entries rows (to_lower slug)" unfolding r_def by (simp add: lookup_slug_def reloadIfStale_def Let_def)
    then show ?thesis by (simp add: r_def)
  next
    case False
    then obtain t where t: "sc_loaded (slug_run steps) = Some t" "now - t \<le> stale_after" by (auto split: option.splits)
    obtain T where T: "(t, T) \<in> set (tables_seen steps)" "sc_entries (slug_run steps) = slug_entries T"
      using from_run t(1) by (auto simp: cache_from_def)
    have "r = slug_entries T (to_lower slug)"
      using False T(2) unfolding r_def by (simp add: lookup_slug_def reloadIfStale_def Let_def)
    then show ?thesis using t(2) T(1) unfolding r_def by (auto simp: stale_after_def second_def)
  qed
qed

section \<open>The table stays well formed\<close>

definition tenant_ok :: "tenant_rec \<Rightarrow> bool" where
  "tenant_ok t = ((tn_slug t = [] \<or> valid_slug (tn_slug t)) \<and> tn_status t \<in> {''active'', ''suspended''}
     \<and> (tn_suspended_at t \<noteq> None \<longleftrightarrow> tn_status t = ''suspended'') \<and> (tn_id t = ''default'' \<longrightarrow> tn_status t = ''active''))"

definition tenants_ok :: "tenant_rec list \<Rightarrow> bool" where
  "tenants_ok rows = (distinct (map tn_id rows) \<and> distinct (map tn_slug rows) \<and> list_all tenant_ok rows)"

datatype tenant_op =
    Create bool string int "tenant_request option"
  | Update bool bool int string "tenant_update option"
  | Delete bool "string \<Rightarrow> nat option" string
  | Rotate crypto_prims bool "string option" int string
  | RotateOwn crypto_prims bool "string option" int

fun do_tenant_op :: "locals \<Rightarrow> tenant_op \<Rightarrow> tenant_state \<Rightarrow> tenant_state" where
  "do_tenant_op c (Create up i now b) s = snd (create_tenant up i now c b s)"
| "do_tenant_op c (Update up kup now i b) s = snd (update_tenant up kup now i c b s)"
| "do_tenant_op c (Delete up rows_of i) s = snd (delete_tenant up rows_of i c s)"
| "do_tenant_op c (Rotate P up rnd now i) s = snd (rotate_secret P up rnd now i c s)"
| "do_tenant_op c (RotateOwn P up rnd now) s = snd (rotate_own_secret P up rnd now c s)"

lemma insert_tenant_ok: "insert_tenant up t rows = Some rows' \<Longrightarrow> tenants_ok rows \<Longrightarrow> tenant_ok t \<Longrightarrow> tenants_ok rows'"
  by (auto simp: insert_tenant_def tenants_ok_def image_iff split: if_splits) (metis, metis)

lemma map_tenants_ok:
  assumes "tenants_ok rows" and "\<And>t. t \<in> set rows \<Longrightarrow> tn_id (f t) = tn_id t \<and> tn_slug (f t) = tn_slug t \<and> (tenant_ok t \<longrightarrow> tenant_ok (f t))"
  shows "tenants_ok (map f rows)"
proof -
  have "map tn_id (map f rows) = map tn_id rows" "map tn_slug (map f rows) = map tn_slug rows" using assms(2) by simp_all
  then show ?thesis using assms by (auto simp only: tenants_ok_def list_all_iff set_map)
qed

lemma set_fields_keeps: "tn_id (set_fields now u t) = tn_id t" "tn_slug (set_fields now u t) = tn_slug t"
  by (simp_all add: set_fields_def)

lemma set_fields_ok:
  "tenant_ok t \<Longrightarrow> up_status u \<in> {None, Some ''active'', Some ''suspended''} \<Longrightarrow> \<not> (tn_id t = ''default'' \<and> up_status u = Some ''suspended'')
    \<Longrightarrow> tenant_ok (set_fields now u t)"
  by (auto simp: tenant_ok_def set_fields_def or_old_def split: option.splits)

lemma create_rows:
  "ts_rows (snd (create_tenant up i now c b s)) = ts_rows s \<or>
   (\<exists>t. tenant_ok t \<and> insert_tenant up t (ts_rows s) = Some (ts_rows (snd (create_tenant up i now c b s))))"
proof -
  let ?new = "\<lambda>r slug. \<lparr>tn_id = i, tn_name = tq_name r, tn_slug = slug, tn_plan = (if tq_plan r = [] then ''free'' else tq_plan r),
     tn_status = ''active'', tn_secret = None, tn_max_devices = tq_max_devices r, tn_max_users = tq_max_users r,
     tn_created = unix_of now, tn_updated = unix_of now, tn_suspended_at = None\<rparr>"
  have ok: "slug \<noteq> [] \<longrightarrow> valid_slug slug \<Longrightarrow> tenant_ok (?new r slug)" for r slug by (auto simp: tenant_ok_def)
  show ?thesis
  proof (cases "SuperAdminMiddleware c = Inr c \<and> (\<exists>r. b = Some r \<and> tq_name r \<noteq> [] \<and> \<not> has_newline (tq_name r))")
    case True
    then obtain r where r: "b = Some r" "tq_name r \<noteq> []" "\<not> has_newline (tq_name r)" and c: "SuperAdminMiddleware c = Inr c" by blast
    define slug where "slug = (if tq_slug r = [] then autoSlug (tq_name r) else tq_slug r)"
    show ?thesis
    proof (cases "slug \<noteq> [] \<and> \<not> valid_slug slug")
      case True
      then show ?thesis by (simp add: create_tenant_def Let_def r c slug_def)
    next
      case False
      then have "tenant_ok (?new r slug)" by (intro ok) blast
      moreover have "create_tenant up i now c b s = (case insert_tenant up (?new r slug) (ts_rows s) of
            None \<Rightarrow> (Inl (HttpError 500 ''Failed to create tenant''), s)
          | Some rows \<Rightarrow> (Inr i, audited (i, l_user_id c, ''tenant.create'', ''tenant'', i, ''created tenant '' @ tq_name r)
               (s\<lparr>ts_rows := rows, ts_cache := InvalidateSlugCache (ts_cache s)\<rparr>)))"
        using False by (auto simp: create_tenant_def Let_def r c slug_def [symmetric])
      ultimately show ?thesis by (cases "insert_tenant up (?new r slug) (ts_rows s)") (auto simp: audited_def)
    qed
  next
    case False
    then have "snd (create_tenant up i now c b s) = s"
      by (cases b) (auto simp: create_tenant_def SuperAdminMiddleware_def guard_def)
    then show ?thesis by simp
  qed
qed

lemma tenant_op_ok:
  assumes "tenants_ok (ts_rows s)"
  shows "tenants_ok (ts_rows (do_tenant_op c op s))"
proof (cases op)
  case (Create up i now b)
  then show ?thesis using create_rows [of up i now c b s] insert_tenant_ok assms by auto
next
  case (Update up kup now i b)
  have keep: "tenants_ok (map (\<lambda>t. if tn_id t = i then set_fields now u t else t) (ts_rows s))"
    if "up_status u \<in> {None, Some ''active'', Some ''suspended''}" "\<not> (i = ''default'' \<and> up_status u = Some ''suspended'')" for u
    by (rule map_tenants_ok [OF assms]) (use set_fields_ok [of _ u] that in \<open>auto simp: set_fields_keeps\<close>)
  show ?thesis
  proof (cases "\<exists>u. b = Some u \<and> up_status u \<in> {None, Some ''active'', Some ''suspended''} \<and> \<not> (i = ''default'' \<and> up_status u = Some ''suspended'')")
    case True
    then obtain u where u: "b = Some u" "up_status u \<in> {None, Some ''active'', Some ''suspended''}" "\<not> (i = ''default'' \<and> up_status u = Some ''suspended'')"
      by blast
    show ?thesis
      using keep [OF u(2,3)] assms unfolding Update do_tenant_op.simps update_tenant_def Let_def u(1)
      by (simp add: audited_def split: sum.split option.split)
  next
    case False
    then have "do_tenant_op c op s = s"
      by (cases b) (auto simp: Update update_tenant_def Let_def split: sum.split option.split)
    with assms show ?thesis by simp
  qed
next
  case (Delete up rows_of i)
  have "distinct (map f (filter p (ts_rows s)))" if "distinct (map f (ts_rows s))" for f :: "tenant_rec \<Rightarrow> string" and p
    using that by (simp add: distinct_map_filter)
  then have "tenants_ok (filter p (ts_rows s))" for p
    using assms by (auto simp: tenants_ok_def list_all_iff)
  then show ?thesis
    unfolding Delete do_tenant_op.simps delete_tenant_def Let_def using assms
    by (auto simp: audited_def split: sum.split option.split)
next
  case (Rotate P up rnd now i)
  have "tenants_ok (ts_rows (snd (store_secret P up rnd now i d c s)))" for i d c
    using assms by (auto simp: store_secret_def audited_def tenant_ok_def intro!: map_tenants_ok split: option.split)
  then show ?thesis using assms by (simp add: Rotate rotate_secret_def split: sum.split)
next
  case (RotateOwn P up rnd now)
  have "tenants_ok (ts_rows (snd (store_secret P up rnd now i d c s)))" for i d c
    using assms by (auto simp: store_secret_def audited_def tenant_ok_def intro!: map_tenants_ok split: option.split)
  then show ?thesis using assms by (simp add: RotateOwn rotate_own_secret_def split: sum.split)
qed

lemma ids_of_map: "(\<And>t. tn_id (f t) = tn_id t) \<Longrightarrow> tn_id ` set (map f rows) = tn_id ` set rows"
  unfolding set_map image_image by simp

lemma secret_keeps_ids: "tn_id ` set (ts_rows (snd (store_secret P up rnd now i d c s))) = tn_id ` set (ts_rows s)"
proof -
  have "tn_id ` set (map (\<lambda>t. if tn_id t = i then t\<lparr>tn_secret := x, tn_updated := y\<rparr> else t) (ts_rows s)) = tn_id ` set (ts_rows s)" for x y
    by (rule ids_of_map) simp
  then show ?thesis by (simp add: store_secret_def audited_def del: set_map split: option.split)
qed

lemma default_stays:
  assumes "''default'' \<in> tn_id ` set (ts_rows s)"
  shows "''default'' \<in> tn_id ` set (ts_rows (do_tenant_op c op s))"
proof (cases op)
  case (Create up i now b)
  consider "ts_rows (snd (create_tenant up i now c b s)) = ts_rows s"
    | t where "insert_tenant up t (ts_rows s) = Some (ts_rows (snd (create_tenant up i now c b s)))"
    using create_rows [of up i now c b s] by blast
  then have "set (ts_rows s) \<subseteq> set (ts_rows (snd (create_tenant up i now c b s)))"
  proof cases
    case (2 t)
    then have "ts_rows (snd (create_tenant up i now c b s)) = t # ts_rows s" by (simp add: insert_tenant_def split: if_splits)
    then show ?thesis by auto
  qed simp
  then show ?thesis using assms Create by auto
next
  case (Update up kup now i b)
  have "tn_id ` set (map (\<lambda>t. if tn_id t = i then set_fields now u t else t) (ts_rows s)) = tn_id ` set (ts_rows s)" for u
    by (rule ids_of_map) (simp add: set_fields_keeps)
  with assms show ?thesis
    unfolding Update do_tenant_op.simps update_tenant_def Let_def by (simp add: audited_def del: set_map split: sum.split option.split)
next
  case (Delete up rows_of i)
  then show ?thesis using assms by (auto simp: delete_tenant_def audited_def split: sum.split option.split)
next
  case (Rotate P up rnd now i)
  then show ?thesis using assms secret_keeps_ids by (simp add: rotate_secret_def split: sum.split)
next
  case (RotateOwn P up rnd now)
  then show ?thesis using assms secret_keeps_ids by (simp add: rotate_own_secret_def split: sum.split)
qed

text \<open>
  C29. Starting from a well-formed table, whatever sequence of creations, updates, deletions and secret rotations the owner
  and the admins request and however the database fails, ids and slugs stay unique, every slug is empty or valid, a tenant
  has a suspension time exactly while it is suspended, and the default tenant is never suspended or removed.
\<close>

theorem tenant_table_well_formed:
  assumes "tenants_ok (ts_rows s)"
  shows "tenants_ok (ts_rows (foldl (\<lambda>s (c, op). do_tenant_op c op s) s ops))
    \<and> (''default'' \<in> tn_id ` set (ts_rows s) \<longrightarrow> ''default'' \<in> tn_id ` set (ts_rows (foldl (\<lambda>s (c, op). do_tenant_op c op s) s ops)))"
  using assms
proof (induction ops arbitrary: s)
  case (Cons x ops)
  obtain c op where x: "x = (c, op)" by (cases x)
  have "''default'' \<in> tn_id ` set (ts_rows (do_tenant_op c op s))" if "''default'' \<in> tn_id ` set (ts_rows s)"
    using that default_stays by blast
  then show ?case using Cons.IH [OF tenant_op_ok [OF Cons.prems], of c op] by (simp add: x)
qed simp

definition sample_tenant :: "string \<Rightarrow> string \<Rightarrow> tenant_rec" where
  "sample_tenant i slug = \<lparr>tn_id = i, tn_name = i, tn_slug = slug, tn_plan = ''free'', tn_status = ''active'', tn_secret = None,
     tn_max_devices = 0, tn_max_users = 0, tn_created = 0, tn_updated = 0, tn_suspended_at = None\<rparr>"

definition sample_tenants :: tenant_state where
  "sample_tenants = \<lparr>ts_rows = [sample_tenant ''default'' ''default''], ts_cache = \<lparr>sc_entries = Map.empty, sc_loaded = None\<rparr>,
     ts_kill = no_kills, ts_audit = []\<rparr>"

definition owner :: locals where "owner = no_locals\<lparr>l_user_id := ''root'', l_user_role := ''super_admin''\<rparr>"

definition request_named :: "string \<Rightarrow> tenant_request" where
  "request_named n = \<lparr>tq_name = n, tq_slug = [], tq_plan = [], tq_max_devices = 0, tq_max_users = 0\<rparr>"

lemma tenant_table_well_formed_witness:
  "tenants_ok (ts_rows (foldl (\<lambda>s (c, op). do_tenant_op c op s) sample_tenants
     [(owner, Create True ''t1'' 0 (Some (request_named ''Acme Corp''))), (owner, Delete True (\<lambda>_. Some 0) ''default'')]))"
  using tenant_table_well_formed [of sample_tenants
      "[(owner, Create True ''t1'' 0 (Some (request_named ''Acme Corp''))), (owner, Delete True (\<lambda>_. Some 0) ''default'')]"]
  by (simp add: sample_tenants_def tenants_ok_def tenant_ok_def sample_tenant_def valid_slug_def slug_alnum_def)

section \<open>Derived slugs\<close>

definition slug_form :: "string \<Rightarrow> bool" where
  "slug_form b = (list_all (\<lambda>c. slug_alnum c \<or> c = hyphen) b \<and> (b \<noteq> [] \<longrightarrow> slug_alnum (hd b)))"

lemma lowered_alnum: "CHR ''A'' \<le> ch \<Longrightarrow> ch \<le> CHR ''Z'' \<Longrightarrow> slug_alnum (char_of ((of_char ch :: nat) + 32))"
  by (simp add: slug_alnum_def less_eq_char_def)

lemma slug_loop_form: "slug_form b \<Longrightarrow> slug_form (slug_loop name b ph)"
proof (induction name b ph rule: slug_loop.induct)
  case (2 ch name b ph)
  have add: "slug_form (b @ [x])" if "slug_alnum x \<or> x = hyphen \<and> b \<noteq> []" for x
    using 2(5) that by (cases b) (auto simp: slug_form_def)
  show ?case using 2 add lowered_alnum by simp
qed simp

lemma trim_hyphens_form: "slug_form b \<Longrightarrow> slug_form (trim_hyphens b) \<and> (trim_hyphens b \<noteq> [] \<longrightarrow> last (trim_hyphens b) \<noteq> hyphen)"
proof -
  assume b: "slug_form b"
  define d where "d = dropWhile (\<lambda>c. c = hyphen) (rev b)"
  have t: "trim_hyphens b = rev d" by (simp add: trim_hyphens_def d_def)
  obtain rest where "b = rev d @ rest"
    using that [of "rev (takeWhile (\<lambda>c. c = hyphen) (rev b))"] unfolding d_def rev_append [symmetric] by simp
  then have "slug_form (rev d)" using b by (cases "rev d") (auto simp: slug_form_def)
  moreover have "d \<noteq> [] \<longrightarrow> hd d \<noteq> hyphen" using hd_dropWhile [of "\<lambda>c. c = hyphen" "rev b"] unfolding d_def by blast
  ultimately show ?thesis by (simp add: t last_rev)
qed

text \<open>
  The slug derived from a tenant's name is empty, valid, or has exactly 64 characters and a hyphen at the end, which the
  caller then refuses.
\<close>

theorem derived_slug_form:
  "autoSlug name = [] \<or> valid_slug (autoSlug name) \<or> length (autoSlug name) = 64 \<and> last (autoSlug name) = hyphen"
proof -
  define b where "b = trim_hyphens (slug_loop name [] False)"
  have b: "slug_form b" "b \<noteq> [] \<longrightarrow> last b \<noteq> hyphen"
    unfolding b_def using trim_hyphens_form [OF slug_loop_form, of "[]" name False] by (simp_all add: slug_form_def)
  have a: "autoSlug name = (if length (take 64 b) < 3 then [] else take 64 b)" by (simp add: autoSlug_def b_def Let_def)
  show ?thesis
  proof (cases "length (take 64 b) < 3")
    case False
    then have ne: "take 64 b \<noteq> []" "b \<noteq> []" by auto
    have all: "list_all (\<lambda>c. slug_alnum c \<or> c = hyphen) (take 64 b)"
      using b(1) by (auto simp: slug_form_def list_all_iff dest: in_set_takeD)
    have hd: "slug_alnum (hd (take 64 b))" using b(1) ne by (simp add: slug_form_def hd_take)
    have last: "slug_alnum (last (take 64 b)) \<or> last (take 64 b) = hyphen" using all ne(1) by (simp add: list_all_iff)
    show ?thesis
    proof (cases "last (take 64 b) = hyphen")
      case True
      then have "\<not> length b \<le> 64" using b(2) ne by auto
      then show ?thesis using True False a by simp
    next
      case False
      then have "valid_slug (take 64 b)" using last all hd \<open>\<not> length (take 64 b) < 3\<close> by (simp add: valid_slug_def)
      then show ?thesis using a by simp
    qed
  qed (simp add: a)
qed

text \<open>A long name can derive to a slug that the caller refuses, and only one tenant can be without a slug.\<close>

lemma long_name_refused:
  "fst (create_tenant True ''t1'' 0 owner (Some (request_named (replicate 63 CHR ''a'' @ ''- corp''))) sample_tenants)
     = Inl (HttpError 400 ''slug must be lowercase alphanumeric with hyphens (3-64 chars)'')"
  by code_simp

lemma second_slugless_tenant_fails:
  "let s = snd (create_tenant True ''t1'' 0 owner (Some (request_named ''X'')) sample_tenants)
   in fst (create_tenant True ''t1'' 0 owner (Some (request_named ''X'')) sample_tenants) = Inr ''t1''
    \<and> fst (create_tenant True ''t2'' 0 owner (Some (request_named ''Y'')) s) = Inl (HttpError 500 ''Failed to create tenant'')"
  by code_simp

section \<open>Deletion\<close>

text \<open>
  While the database answers, a tenant is deleted only when none of the tables that the handler checks has a row of it;
  a check whose query fails counts as passed.
\<close>

theorem tenant_delete_needs_empty:
  assumes "fst (delete_tenant True rows_of tid c s) = Inr ()"
  shows "l_user_role c = ''super_admin'' \<and> tid \<noteq> ''default'' \<and> (\<forall>(t, _) \<in> set dataChecks. rows_of t = Some 0 \<or> rows_of t = None)
    \<and> tid \<notin> tn_id ` set (ts_rows (snd (delete_tenant True rows_of tid c s)))
    \<and> sc_entries (ts_cache (snd (delete_tenant True rows_of tid c s))) = Map.empty"
proof -
  have role: "l_user_role c = ''super_admin''" "tid \<noteq> ''default''"
    and found: "List.find (\<lambda>(t, _). case rows_of t of Some n \<Rightarrow> n > 0 | None \<Rightarrow> False) dataChecks = None"
    using assms by (auto simp: delete_tenant_def SuperAdminMiddleware_def IsSuperAdmin_def guard_def split: if_splits option.splits)
  have "\<forall>(t, _) \<in> set dataChecks. rows_of t = Some 0 \<or> rows_of t = None"
    using found unfolding find_None_iff by (auto split: option.splits)
  then show ?thesis
    using role assms found by (auto simp: delete_tenant_def audited_def InvalidateSlugCache_def SuperAdminMiddleware_def IsSuperAdmin_def guard_def split: if_splits)
qed

lemma tenant_delete_needs_empty_witness:
  "''t1'' \<notin> tn_id ` set (ts_rows (snd (delete_tenant True (\<lambda>_. Some 0) ''t1'' owner (sample_tenants\<lparr>ts_rows := [sample_tenant ''t1'' ''acme'']\<rparr>))))"
proof -
  have "fst (delete_tenant True (\<lambda>_. Some 0) ''t1'' owner (sample_tenants\<lparr>ts_rows := [sample_tenant ''t1'' ''acme'']\<rparr>)) = Inr ()"
    by code_simp
  from tenant_delete_needs_empty [OF this] show ?thesis by blast
qed

lemma failed_check_passes:
  "fst (delete_tenant True (\<lambda>t. if t = ''users'' then None else Some 0) ''t1'' owner (sample_tenants\<lparr>ts_rows := [sample_tenant ''t1'' ''acme'']\<rparr>)) = Inr ()"
  by code_simp

end
