(* ===== verification/Onboarding.thy ===== *)
theory Onboarding
  imports Tenants Sessions
begin

text \<open>
  How accounts come to be: invites (\<open>internal/handlers/invites.go\<close>) and self-serve signup
  (\<open>internal/handlers/signup.go\<close>).

  The invites are a table with a unique index on the token's hash; the users are those of \<open>Sessions\<close>, whose e-mail
  address is unique over all tenants. Random values, the mailer's answer and the failures of single statements are
  parameters. The claim of an invite is one conditional update, and what follows it runs while other requests do.
\<close>

section \<open>Invites\<close>

definition inviteTTL :: int where "inviteTTL = 7 * 24 * 3600"

record invite_row =
  iv_id :: string
  iv_tenant :: string
  iv_email :: string
  iv_role :: string
  iv_hash :: string
  iv_by :: string
  iv_expires :: unix
  iv_accepted :: "unix option"
  iv_created :: unix

record onboard_state =
  ob_invites :: "invite_row list"
  ob_users :: "user_row list"

definition newInviteToken :: "string option \<Rightarrow> string option" where
  "newInviteToken random32 = map_option hexEncode random32"

definition hashInviteToken :: "crypto_prims \<Rightarrow> string \<Rightarrow> string" where
  "hashInviteToken P token = hexEncode (sha256 P token)"

definition invite_status :: "unix \<Rightarrow> invite_row \<Rightarrow> string" where
  "invite_status now i = (if iv_accepted i \<noteq> None then ''accepted'' else if iv_expires i < now then ''expired'' else ''pending'')"

definition list_invites :: "bool \<Rightarrow> unix \<Rightarrow> locals \<Rightarrow> invite_row list \<Rightarrow> (http_error, (invite_row \<times> string) list) result" where
  "list_invites db_up now c rows =
     (case AdminMiddleware c of Inl e \<Rightarrow> Inl e
      | Inr c \<Rightarrow> if \<not> db_up then Inl (HttpError 500 ''Failed to query invites'')
          else Inr (map (\<lambda>i. (i, invite_status now i)) (sort_key (\<lambda>i. - iv_created i)
            (filter (\<lambda>i. IsSuperAdmin (l_user_role c) \<or> iv_tenant i = tenant_or_default c) rows))))"

record invite_request =
  ir_email :: string
  ir_role :: string
  ir_tenant :: string

record invite_env =
  ie_db_up :: bool
  ie_now :: unix
  ie_max_users :: "string \<Rightarrow> int"
  ie_base_url :: string
  ie_escape :: "string \<Rightarrow> string"
  ie_mail_ok :: bool
  ie_prims :: crypto_prims

definition trim_slashes :: "string \<Rightarrow> string" where
  "trim_slashes s = rev (dropWhile (\<lambda>c. c = CHR ''/'') (rev s))"

definition users_in :: "string \<Rightarrow> user_row list \<Rightarrow> nat" where
  "users_in tid us = length (filter (\<lambda>u. u_tenant u = Some tid) us)"

definition pending_invites :: "string \<Rightarrow> unix \<Rightarrow> invite_row list \<Rightarrow> nat" where
  "pending_invites tid now is = length (filter (\<lambda>i. iv_tenant i = tid \<and> iv_accepted i = None \<and> iv_expires i > now) is)"

definition user_cap_reached :: "invite_env \<Rightarrow> string \<Rightarrow> string \<Rightarrow> onboard_state \<Rightarrow> bool" where
  "user_cap_reached e role tid s = (\<not> IsSuperAdmin role \<and> ie_db_up e \<and> ie_max_users e tid > 0
     \<and> int (users_in tid (ob_users s) + pending_invites tid (ie_now e) (ob_invites s)) \<ge> ie_max_users e tid)"

text \<open>The checks before anything is written: the role, the tenant and the request.\<close>

definition invite_checks ::
  "invite_env \<Rightarrow> locals \<Rightarrow> invite_request option \<Rightarrow> onboard_state \<Rightarrow> (http_error, string \<times> string \<times> invite_request) result" where
  "invite_checks e c body s =
     (case body of None \<Rightarrow> Inl (HttpError 400 ''email is required'')
      | Some r \<Rightarrow>
        if ir_email r = [] then Inl (HttpError 400 ''email is required'')
        else if \<not> contains (ir_email r) ''@'' then Inl (HttpError 400 ''invalid email'')
        else
        let role = (if ir_role r = [] then ''user'' else ir_role r); callerRole = l_user_role c in
        if \<not> (role = ''admin'' \<or> role = ''user'' \<or> IsSuperAdmin callerRole \<and> role = ''super_admin'') then Inl (HttpError 400 ''invalid role'')
        else
        let tid = (if IsSuperAdmin callerRole \<and> ir_tenant r \<noteq> [] then ir_tenant r else tenant_or_default c) in
        if ie_db_up e \<and> (\<exists>u \<in> set (ob_users s). u_email u = ir_email r \<and> u_tenant u = Some tid)
        then Inl (HttpError 409 ''user already exists in this tenant'')
        else if user_cap_reached e callerRole tid s then Inl (HttpError 403 ''user cap would be exceeded'')
        else Inr (role, tid, r))"

text \<open>The response has the invite's id and, when the mail could not be sent, the link.\<close>

definition create_invite ::
  "invite_env \<Rightarrow> string \<Rightarrow> string option \<Rightarrow> locals \<Rightarrow> invite_request option \<Rightarrow> onboard_state
    \<Rightarrow> (http_error, string \<times> string option) result \<times> audit_entry list \<times> onboard_state" where
  "create_invite e newid random32 c body s =
     (case AdminMiddleware c of Inl err \<Rightarrow> (Inl err, [], s)
      | Inr c \<Rightarrow>
       (case invite_checks e c body s of Inl err \<Rightarrow> (Inl err, [], s)
        | Inr (role, tid, r) \<Rightarrow>
         (case newInviteToken random32 of
            None \<Rightarrow> (Inl (HttpError 500 ''Failed to generate token''), [], s)
          | Some token \<Rightarrow>
            let h = hashInviteToken (ie_prims e) token in
            if \<not> ie_db_up e \<or> (\<exists>i \<in> set (ob_invites s). iv_hash i = h \<or> iv_id i = newid)
            then (Inl (HttpError 500 ''Failed to create invite''), [], s)
            else
            let s' = s\<lparr>ob_invites := \<lparr>iv_id = newid, iv_tenant = tid, iv_email = ir_email r, iv_role = role, iv_hash = h, iv_by = l_user_id c,
                  iv_expires = ie_now e + inviteTTL, iv_accepted = None, iv_created = ie_now e\<rparr> # ob_invites s\<rparr>;
                link = trim_slashes (ie_base_url e) @ ''/accept-invite?token='' @ ie_escape e token;
                entry = (\<lambda>note. (tid, l_user_id c, ''invite.create'', ''user_invite'', newid, ''invited '' @ ir_email r @ '' as '' @ role @ note))
            in if ie_mail_ok e then (Inr (newid, None), [entry []], s')
               else (Inr (newid, Some link), [entry '' (email failed)''], s'))))"

definition revoke_invite :: "bool \<Rightarrow> string \<Rightarrow> locals \<Rightarrow> onboard_state \<Rightarrow> (http_error, unit) result \<times> audit_entry list \<times> onboard_state" where
  "revoke_invite db_up i c s =
     (case AdminMiddleware c of Inl e \<Rightarrow> (Inl e, [], s)
      | Inr c \<Rightarrow> if \<not> db_up then (Inl (HttpError 500 ''Failed to revoke invite''), [], s)
          else (Inr (), [(l_tenant_id c, l_user_id c, ''invite.revoke'', ''user_invite'', i, ''revoked invite'')],
            s\<lparr>ob_invites := filter (\<lambda>r. \<not> (iv_id r = i \<and> (IsSuperAdmin (l_user_role c) \<or> iv_tenant r = l_tenant_id c))) (ob_invites s)\<rparr>))"

definition find_invite :: "string \<Rightarrow> invite_row list \<Rightarrow> invite_row option" where
  "find_invite h is = List.find (\<lambda>i. iv_hash i = h) is"

definition preview_invite :: "crypto_prims \<Rightarrow> bool \<Rightarrow> unix \<Rightarrow> string \<Rightarrow> onboard_state \<Rightarrow> (http_error, string \<times> string \<times> string) result" where
  "preview_invite P db_up now token s =
     (if token = [] then Inl (HttpError 400 ''token required'')
      else case (if db_up then find_invite (hashInviteToken P token) (ob_invites s) else None) of
        None \<Rightarrow> Inl (HttpError 404 ''invite not found'')
      | Some i \<Rightarrow>
          if iv_accepted i \<noteq> None then Inl (HttpError 410 ''invite already used'')
          else if iv_expires i < now then Inl (HttpError 410 ''invite expired'')
          else Inr (iv_email i, iv_role i, iv_tenant i))"

text \<open>The conditional update that claims an invite: how many rows it changed, and the table.\<close>

definition claimable :: "string \<Rightarrow> unix \<Rightarrow> invite_row \<Rightarrow> bool" where
  "claimable h now i = (iv_hash i = h \<and> iv_accepted i = None \<and> iv_expires i \<ge> now)"

definition claim_invite :: "string \<Rightarrow> unix \<Rightarrow> invite_row list \<Rightarrow> nat \<times> invite_row list" where
  "claim_invite h now is = (length (filter (claimable h now) is),
     map (\<lambda>i. if claimable h now i then i\<lparr>iv_accepted := Some now\<rparr> else i) is)"

text \<open>What follows a claim: read the row, refuse a known address of the tenant, hash, insert.\<close>

record accept_env =
  ac_claim_ok :: bool
  ac_read_ok :: bool
  ac_insert_ok :: bool
  ac_now :: unix
  ac_prims :: crypto_prims
  ac_bcrypt :: "string \<Rightarrow> string option"

definition accept_create :: "accept_env \<Rightarrow> string \<Rightarrow> string \<Rightarrow> string \<Rightarrow> string \<Rightarrow> onboard_state
    \<Rightarrow> (http_error, string) result \<times> audit_entry list \<times> onboard_state" where
  "accept_create e newid h name password s =
     (case (if ac_read_ok e then find_invite h (ob_invites s) else None) of
        None \<Rightarrow> (Inl (HttpError 500 ''Internal error''), [], s)
      | Some i \<Rightarrow>
        if \<exists>u \<in> set (ob_users s). u_email u = iv_email i \<and> u_tenant u = Some (iv_tenant i)
        then (Inl (HttpError 409 ''user already exists; ask an admin to revoke the invite''), [], s)
        else (case ac_bcrypt e password of
            None \<Rightarrow> (Inl (HttpError 500 ''Failed to hash password''), [], s)
          | Some pwhash \<Rightarrow>
            if \<exists>u \<in> set (ob_users s). u_email u = iv_email i \<or> u_id u = newid
            then (Inl (HttpError 409 ''user already exists; ask an admin to revoke the invite''), [], s)
            else if \<not> ac_insert_ok e then (Inl (HttpError 500 ''Failed to create user''), [], s)
            else (Inr (iv_email i), [(iv_tenant i, newid, ''invite.accept'', ''user'', newid, ''accepted invite, account created'')],
              s\<lparr>ob_users := \<lparr>u_id = newid, u_email = iv_email i, u_pwhash = pwhash, u_name = name, u_role = iv_role i,
                u_created = ac_now e, u_tenant = Some (iv_tenant i), u_last_login = None\<rparr> # ob_users s\<rparr>)))"

definition accept_invite :: "accept_env \<Rightarrow> string \<Rightarrow> (string \<times> string \<times> string) option \<Rightarrow> onboard_state
    \<Rightarrow> (http_error, string) result \<times> audit_entry list \<times> onboard_state" where
  "accept_invite e newid body s =
     (case body of None \<Rightarrow> (Inl (HttpError 400 ''token, name, and password are required''), [], s)
      | Some (token, name, password) \<Rightarrow>
        if token = [] \<or> password = [] then (Inl (HttpError 400 ''token, name, and password are required''), [], s)
        else if ValidatePasswordStrength password \<noteq> Inr () then (Inl (HttpError 400 ''weak password''), [], s)
        else
        let h = hashInviteToken (ac_prims e) token in
        if \<not> ac_claim_ok e then (Inl (HttpError 500 ''Internal error''), [], s)
        else (case claim_invite h (ac_now e) (ob_invites s) of
          (affected, invites) \<Rightarrow>
            let s = s\<lparr>ob_invites := invites\<rparr> in
            if affected \<noteq> 1 then
              (case (if ac_read_ok e then find_invite h invites else None) of
                 None \<Rightarrow> (Inl (HttpError 404 ''invite not found''), [], s)
               | Some i \<Rightarrow> if iv_accepted i \<noteq> None then (Inl (HttpError 410 ''invite already used''), [], s)
                   else (Inl (HttpError 410 ''invite expired''), [], s))
            else accept_create e newid h name password s))"

section \<open>Signup\<close>

definition signupAllowed :: "env \<Rightarrow> bool" where
  "signupAllowed env = (env ''SIGNUP_OPEN'' = ''1'' \<or> env ''SIGNUP_INVITE_CODE'' \<noteq> [])"

text \<open>\<open>subtleEq\<close>: the bytes are compared with exclusive or, of equal lengths only.\<close>

definition subtleEq :: "string \<Rightarrow> string \<Rightarrow> bool" where
  "subtleEq a b = (if length a \<noteq> length b then False
     else fold (\<lambda>(x, y) v. v OR (of_char x XOR of_char y)) (zip a b) (0 :: 8 word) = 0)"

definition reserved_slug :: "string \<Rightarrow> bool" where
  "reserved_slug s = (s \<in> {''www'', ''api'', ''admin'', ''default'', ''app'', ''auth'', ''signup'', ''login'', ''ws'', ''agent''})"

record signup_request =
  sg_tenant :: string
  sg_slug :: string
  sg_name :: string
  sg_email :: string
  sg_password :: string
  sg_code :: string

text \<open>What a signup draws and which of its statements fail.\<close>

record signup_env =
  sn_tenant :: string
  sn_user :: string
  sn_insert_tenant :: bool
  sn_insert_user :: bool
  sn_rollback :: bool

record signup_state =
  ss_tenants :: tenant_state
  ss_app :: app_state

definition signup_checks :: "env \<Rightarrow> signup_request option \<Rightarrow> (http_error, signup_request) result" where
  "signup_checks env body =
     (if \<not> signupAllowed env then Inl (HttpError 404 ''Not found'')
      else case body of None \<Rightarrow> Inl (HttpError 400 ''Invalid body'')
      | Some r \<Rightarrow>
        if env ''SIGNUP_INVITE_CODE'' \<noteq> [] \<and> \<not> subtleEq (sg_code r) (env ''SIGNUP_INVITE_CODE'') then Inl (HttpError 403 ''Invalid invite code'')
        else if sg_tenant r = [] \<or> sg_email r = [] \<or> sg_password r = [] then Inl (HttpError 400 ''tenant_name, admin_email, password required'')
        else if \<not> contains (sg_email r) ''@'' then Inl (HttpError 400 ''Invalid email'')
        else if ValidatePasswordStrength (sg_password r) \<noteq> Inr () then Inl (HttpError 400 ''weak password'')
        else let r = (if sg_slug r = [] then r\<lparr>sg_slug := autoSlug (sg_tenant r)\<rparr> else r) in
        if \<not> valid_slug (sg_slug r) then Inl (HttpError 400 ''Invalid tenant slug (3-64 lowercase alphanum + hyphens)'')
        else if reserved_slug (sg_slug r) then Inl (HttpError 400 ''Reserved slug'')
        else Inr r)"

definition drop_tenant :: "bool \<Rightarrow> string \<Rightarrow> tenant_state \<Rightarrow> tenant_state" where
  "drop_tenant ok tid ts = (if ok then ts\<lparr>ts_rows := filter (\<lambda>t. tn_id t \<noteq> tid) (ts_rows ts)\<rparr> else ts)"

definition signup ::
  "libs \<Rightarrow> world \<Rightarrow> randoms \<Rightarrow> signup_env \<Rightarrow> request \<Rightarrow> signup_request option \<Rightarrow> signup_state
    \<Rightarrow> (http_error, login_result) result \<times> signup_state" where
  "signup L w rn e req body s =
     (case signup_checks (w_env w) body of Inl err \<Rightarrow> (Inl err, s)
      | Inr r \<Rightarrow>
        if w_db_up w \<and> (\<exists>t \<in> set (ts_rows (ss_tenants s)). tn_slug t = sg_slug r) then (Inl (HttpError 409 ''Tenant slug already taken''), s)
        else (case insert_tenant (w_db_up w \<and> sn_insert_tenant e) \<lparr>tn_id = sn_tenant e, tn_name = sg_tenant r, tn_slug = sg_slug r, tn_plan = ''free'',
              tn_status = ''active'', tn_secret = None, tn_max_devices = 0, tn_max_users = 0, tn_created = w_now w, tn_updated = w_now w,
              tn_suspended_at = None\<rparr> (ts_rows (ss_tenants s)) of
            None \<Rightarrow> (if w_db_up w \<and> sn_insert_tenant e then (Inl (HttpError 409 ''Tenant slug already taken''), s)
                     else (Inl (HttpError 500 ''Failed to create tenant''), s))
          | Some rows \<Rightarrow>
            let ts = (ss_tenants s)\<lparr>ts_rows := rows\<rparr>; undone = s\<lparr>ss_tenants := drop_tenant (sn_rollback e) (sn_tenant e) ts\<rparr> in
            (case lb_bcrypt L (sg_password r) of
               None \<Rightarrow> (Inl (HttpError 500 ''Failed to hash password''), undone)
             | Some pwhash \<Rightarrow>
               if \<not> sn_insert_user e \<or> (\<exists>u \<in> set (users (ss_app s)). u_email u = sg_email r \<or> u_id u = sn_user e)
               then (Inl (HttpError 500 ''Failed to create admin user''), undone)
               else
               let app = (ss_app s)\<lparr>users := \<lparr>u_id = sn_user e, u_email = sg_email r, u_pwhash = pwhash, u_name = sg_name r, u_role = ''admin'',
                      u_created = w_now w, u_tenant = Some (sn_tenant e), u_last_login = None\<rparr> # users (ss_app s)\<rparr>;
                   ts = audited (sn_tenant e, sn_user e, ''tenant.signup'', ''tenant'', sn_tenant e, ''self-serve signup: '' @ sg_tenant r)
                      (ts\<lparr>ts_cache := InvalidateSlugCache (ts_cache ts)\<rparr>)
               in (case start_session w rn req (sn_user e) (sn_tenant e) ''admin'' app of
                     (Inl err, app) \<Rightarrow> (Inl (HttpError 500 ''Failed to issue token''), \<lparr>ss_tenants = ts, ss_app = app\<rparr>)
                   | (Inr ok, app) \<Rightarrow> (Inr ok, \<lparr>ss_tenants = ts, ss_app = app\<rparr>)))))"

section \<open>An invite is spent at most once\<close>

text \<open>The statements on the table of invites, as they interleave.\<close>

datatype invite_step = Claim string unix | Insert invite_row | Revoke "invite_row \<Rightarrow> bool"

fun claims_won :: "string \<Rightarrow> invite_step list \<Rightarrow> invite_row list \<Rightarrow> nat" where
  "claims_won h [] is = 0"
| "claims_won h (Claim k now # st) is = (case claim_invite k now is of (n, is') \<Rightarrow> (if k = h \<and> n = 1 then 1 else 0) + claims_won h st is')"
| "claims_won h (Insert i # st) is = claims_won h st (i # is)"
| "claims_won h (Revoke p # st) is = claims_won h st (filter (\<lambda>i. \<not> p i) is)"

definition open_invites :: "string \<Rightarrow> invite_row list \<Rightarrow> nat" where
  "open_invites h is = length (filter (\<lambda>i. iv_hash i = h \<and> iv_accepted i = None) is)"

definition inserted :: "string \<Rightarrow> invite_step list \<Rightarrow> nat" where
  "inserted h st = length (filter (\<lambda>x. case x of Insert i \<Rightarrow> iv_hash i = h | _ \<Rightarrow> False) st)"

lemma claim_open:
  "open_invites h (snd (claim_invite k now is)) + (if k = h then fst (claim_invite k now is) else 0) = open_invites h is"
proof (induction "is")
  case (Cons i "is")
  then show ?case by (cases "claimable k now i") (auto simp: claim_invite_def open_invites_def claimable_def)
qed (simp add: claim_invite_def open_invites_def)

text \<open>
  Whatever requests interleave on the table of invites, the claims of a token that succeed are at most as many as the
  open invites with its hash, those there at the start and those inserted since: one invite creates at most one account.
\<close>

theorem invite_spent_once: "claims_won h st is \<le> open_invites h is + inserted h st"
proof (induction h st "is" rule: claims_won.induct)
  case (2 h k now st "is")
  obtain n is' where c: "claim_invite k now is = (n, is')" by (cases "claim_invite k now is")
  have "claims_won h st is' \<le> open_invites h is' + inserted h st" using 2 c by simp
  moreover have "open_invites h is' + (if k = h then n else 0) = open_invites h is" using claim_open [of h k now "is"] unfolding c by (cases "k = h") simp_all
  moreover have "inserted h (Claim k now # st) = inserted h st" by (simp add: inserted_def)
  ultimately show ?case by (auto simp: c split: if_splits)
next
  case (3 h i st "is")
  have "open_invites h (i # is) + inserted h st \<le> open_invites h is + inserted h (Insert i # st)"
    by (simp add: inserted_def open_invites_def)
  with 3 show ?case by simp
next
  case (4 h p st "is")
  have "open_invites h (filter (\<lambda>i. \<not> p i) is) \<le> open_invites h is"
    unfolding open_invites_def by (simp only: filter_filter, rule length_filter_mono) simp
  with 4 show ?case by (simp add: inserted_def)
qed (simp add: inserted_def)

section \<open>The cap on users\<close>

datatype onboard_op =
    Invite invite_env string "string option" locals "invite_request option"
  | Accept accept_env string "(string \<times> string \<times> string) option"
  | RevokeInvite bool unix string locals

fun do_onboard :: "onboard_op \<Rightarrow> onboard_state \<Rightarrow> onboard_state" where
  "do_onboard (Invite e i rnd c b) s = snd (snd (create_invite e i rnd c b s))"
| "do_onboard (Accept e i b) s = snd (snd (accept_invite e i b s))"
| "do_onboard (RevokeInvite up now i c) s = snd (snd (revoke_invite up i c s))"

fun onboard_time :: "onboard_op \<Rightarrow> unix" where
  "onboard_time (Invite e i rnd c b) = ie_now e"
| "onboard_time (Accept e i b) = ac_now e"
| "onboard_time (RevokeInvite up now i c) = now"

text \<open>An acceptance in the very second in which the invite expires.\<close>

definition last_second :: "onboard_op \<Rightarrow> onboard_state \<Rightarrow> bool" where
  "last_second op s = (case op of
       Accept e i (Some (token, _)) \<Rightarrow> (\<exists>r \<in> set (ob_invites s). claimable (hashInviteToken (ac_prims e) token) (ac_now e) r \<and> iv_expires r = ac_now e)
     | _ \<Rightarrow> False)"

fun onboard_run :: "onboard_op list \<Rightarrow> onboard_state \<times> nat \<Rightarrow> onboard_state \<times> nat" where
  "onboard_run [] sn = sn"
| "onboard_run (op # ops) (s, n) = onboard_run ops (do_onboard op s, if last_second op s then n + 1 else n)"

definition capped :: "string \<Rightarrow> int \<Rightarrow> onboard_op \<Rightarrow> bool" where
  "capped tid cap op = (case op of Invite e i rnd c b \<Rightarrow> \<not> IsSuperAdmin (l_user_role c) \<and> ie_max_users e tid = cap | _ \<Rightarrow> True)"

definition within_cap :: "string \<Rightarrow> int \<Rightarrow> unix \<Rightarrow> onboard_state \<Rightarrow> nat \<Rightarrow> bool" where
  "within_cap tid cap t s n = (distinct (map iv_hash (ob_invites s))
     \<and> int (users_in tid (ob_users s) + pending_invites tid t (ob_invites s)) \<le> cap + int n)"

lemma pending_decays: "t \<le> t' \<Longrightarrow> pending_invites tid t' is \<le> pending_invites tid t is"
  unfolding pending_invites_def by (rule length_filter_mono) simp

lemma within_cap_later: "within_cap tid cap t s n \<Longrightarrow> t \<le> t' \<Longrightarrow> n \<le> n' \<Longrightarrow> within_cap tid cap t' s n'"
  using pending_decays [of t t' tid "ob_invites s"] by (simp add: within_cap_def)

lemma create_within_cap:
  assumes "within_cap tid cap (ie_now e) s n" and "\<not> IsSuperAdmin (l_user_role c)" and "ie_max_users e tid = cap" and "cap > 0"
  shows "within_cap tid cap (ie_now e) (snd (snd (create_invite e i rnd c b s))) n"
proof (cases "AdminMiddleware c = Inr c \<and> (\<exists>x. invite_checks e c b s = Inr x)")
  case False
  then have "snd (snd (create_invite e i rnd c b s)) = s"
    by (cases "invite_checks e c b s") (auto simp: create_invite_def AdminMiddleware_def guard_def)
  with assms(1) show ?thesis by simp
next
  case True
  then obtain role t r where ok: "AdminMiddleware c = Inr c" "invite_checks e c b s = Inr (role, t, r)" by auto
  then have room: "\<not> user_cap_reached e (l_user_role c) t s"
    by (auto simp: invite_checks_def Let_def split: if_splits option.splits)
  have "int (users_in tid (ob_users s) + pending_invites tid (ie_now e) (ob_invites s)) + 1 \<le> cap" if "t = tid" "ie_db_up e"
    using room assms(2-4) that by (simp add: user_cap_reached_def)
  note free = this
  show ?thesis
  proof (cases "\<exists>token. newInviteToken rnd = Some token \<and> ie_db_up e
      \<and> \<not> (\<exists>x \<in> set (ob_invites s). iv_hash x = hashInviteToken (ie_prims e) token \<or> iv_id x = i)")
    case False
    then have "snd (snd (create_invite e i rnd c b s)) = s"
      by (auto simp: create_invite_def ok Let_def split: option.split)
    with assms(1) show ?thesis by simp
  next
    case True
    then obtain token where t: "newInviteToken rnd = Some token" "ie_db_up e"
        "\<not> (\<exists>x \<in> set (ob_invites s). iv_hash x = hashInviteToken (ie_prims e) token \<or> iv_id x = i)" by blast
    have "snd (snd (create_invite e i rnd c b s)) = s\<lparr>ob_invites := \<lparr>iv_id = i, iv_tenant = t, iv_email = ir_email r, iv_role = role,
        iv_hash = hashInviteToken (ie_prims e) token, iv_by = l_user_id c, iv_expires = ie_now e + inviteTTL, iv_accepted = None,
        iv_created = ie_now e\<rparr> # ob_invites s\<rparr>"
      using t by (simp add: create_invite_def ok Let_def)
    then show ?thesis using assms(1) free t by (auto simp: within_cap_def pending_invites_def)
  qed
qed

text \<open>What a claim does to the pending invites of a tenant.\<close>

lemma claim_pending:
  "pending_invites tid now (snd (claim_invite h now is)) + length (filter (\<lambda>i. claimable h now i \<and> iv_tenant i = tid \<and> iv_expires i > now) is)
    = pending_invites tid now is"
proof (induction "is")
  case (Cons i "is")
  then show ?case by (cases "claimable h now i") (auto simp: claim_invite_def pending_invites_def claimable_def)
qed (simp add: claim_invite_def pending_invites_def)

lemma claim_hashes: "map iv_hash (snd (claim_invite h now is)) = map iv_hash is"
  by (simp add: claim_invite_def)

lemma accept_create_users:
  "ob_invites (snd (snd (accept_create e i h name pw s))) = ob_invites s
    \<and> (users_in tid (ob_users (snd (snd (accept_create e i h name pw s)))) = users_in tid (ob_users s)
       \<or> (\<exists>r. find_invite h (ob_invites s) = Some r \<and> iv_tenant r = tid
           \<and> users_in tid (ob_users (snd (snd (accept_create e i h name pw s)))) = users_in tid (ob_users s) + 1))"
  by (auto simp: accept_create_def users_in_def split: option.split)

lemma accept_within_cap:
  assumes "within_cap tid cap (ac_now e) s n"
  shows "within_cap tid cap (ac_now e) (do_onboard (Accept e i b) s) (if last_second (Accept e i b) s then n + 1 else n)"
proof (cases "\<exists>token name pw. b = Some (token, name, pw) \<and> ac_claim_ok e \<and> token \<noteq> [] \<and> pw \<noteq> [] \<and> ValidatePasswordStrength pw = Inr ()")
  case False
  then have "do_onboard (Accept e i b) s = s" by (auto simp: accept_invite_def Let_def split: option.split)
  then show ?thesis using assms by (auto simp: within_cap_def)
next
  case True
  then obtain token name pw where b: "b = Some (token, name, pw)" "ac_claim_ok e" "token \<noteq> []" "pw \<noteq> []" "ValidatePasswordStrength pw = Inr ()"
    by blast
  define h where "h = hashInviteToken (ac_prims e) token"
  obtain m invites where claim: "claim_invite h (ac_now e) (ob_invites s) = (m, invites)" by (cases "claim_invite h (ac_now e) (ob_invites s)")
  define late where "late = length (filter (\<lambda>i. claimable h (ac_now e) i \<and> iv_tenant i = tid \<and> iv_expires i > ac_now e) (ob_invites s))"
  let ?s = "s\<lparr>ob_invites := invites\<rparr>"
  have pend: "pending_invites tid (ac_now e) invites + late = pending_invites tid (ac_now e) (ob_invites s)"
    using claim_pending [of tid "ac_now e" h "ob_invites s"] by (simp add: claim late_def)
  have hashes: "map iv_hash invites = map iv_hash (ob_invites s)" using claim_hashes [of h "ac_now e" "ob_invites s"] by (simp add: claim)
  have base: "within_cap tid cap (ac_now e) ?s n" using assms pend hashes by (simp add: within_cap_def)
  have result: "do_onboard (Accept e i b) s = (if m = 1 then snd (snd (accept_create e i h name pw ?s)) else ?s)"
    using b by (auto simp: accept_invite_def Let_def h_def [symmetric] claim split: option.split)
  show ?thesis
  proof (cases "m = 1")
    case False
    then show ?thesis using within_cap_later [OF base, of "ac_now e" "n + 1"] base unfolding result by simp
  next
    case True
    have "\<exists>r. filter (claimable h (ac_now e)) (ob_invites s) = [r]"
      using claim True by (auto simp: claim_invite_def length_Suc_conv)
    then obtain r where r: "filter (claimable h (ac_now e)) (ob_invites s) = [r]" by blast
    have "r \<in> set (filter (claimable h (ac_now e)) (ob_invites s))" unfolding r by simp
    then have r_in: "r \<in> set (ob_invites s)" "claimable h (ac_now e) r" by simp_all
    have found: "iv_tenant x = iv_tenant r" if x: "find_invite h invites = Some x" for x
    proof -
      have "x \<in> set invites" "iv_hash x = h" using x by (auto simp: find_invite_def find_Some_iff)
      then obtain y where y: "y \<in> set (ob_invites s)" "iv_hash y = h" "iv_tenant y = iv_tenant x"
        using claim by (auto simp: claim_invite_def split: if_splits)
      moreover have "iv_hash r = h" using r_in(2) by (simp add: claimable_def)
      ultimately have "y = r" using assms r_in(1) by (auto simp: within_cap_def distinct_map inj_on_def)
      with y show ?thesis by simp
    qed
    have counts: "late = (if iv_tenant r = tid \<and> iv_expires r > ac_now e then 1 else 0)"
    proof -
      have "late = length (filter (\<lambda>i. iv_tenant i = tid \<and> iv_expires i > ac_now e) (filter (claimable h (ac_now e)) (ob_invites s)))"
        unfolding late_def filter_filter by (rule arg_cong [of _ _ length], rule filter_cong) auto
      then show ?thesis by (simp add: r)
    qed
    have last: "last_second (Accept e i b) s" if "\<not> iv_expires r > ac_now e"
      using r_in that by (auto simp: last_second_def b(1) h_def claimable_def)
    note au = accept_create_users [of e i h name pw ?s tid]
    show ?thesis
      using au found base pend counts last assms hashes unfolding result
      by (cases "iv_expires r > ac_now e") (auto simp: True within_cap_def)
  qed
qed

lemma revoke_within_cap: "within_cap tid cap t s n \<Longrightarrow> within_cap tid cap t (do_onboard (RevokeInvite up now i c) s) n"
proof -
  assume w: "within_cap tid cap t s n"
  have "pending_invites tid t (filter p is) \<le> pending_invites tid t is" for p "is"
    unfolding pending_invites_def by (simp only: filter_filter, rule length_filter_mono) simp
  from this [of _ "ob_invites s"] have "within_cap tid cap t (s\<lparr>ob_invites := filter p (ob_invites s)\<rparr>) n" for p
    using w by (auto simp: within_cap_def distinct_map_filter intro: order_trans [rotated])
  then show ?thesis using w by (simp add: revoke_invite_def split: sum.split)
qed


definition sample_env :: "unix \<Rightarrow> invite_env" where
  "sample_env now = \<lparr>ie_db_up = True, ie_now = now, ie_max_users = (\<lambda>_. 1), ie_base_url = ''https://rmm/'', ie_escape = id, ie_mail_ok = True,
     ie_prims = toy_prims\<rparr>"

definition tenant_admin :: locals where
  "tenant_admin = no_locals\<lparr>l_user_id := ''adm'', l_user_role := ''admin'', l_tenant_id := ''acme''\<rparr>"

definition invite_op :: "string \<Rightarrow> unix \<Rightarrow> onboard_op" where
  "invite_op x now = Invite (sample_env now) x (Some x) tenant_admin (Some \<lparr>ir_email = x @ ''@acme'', ir_role = [], ir_tenant = []\<rparr>)"

definition accept_op :: "string \<Rightarrow> unix \<Rightarrow> onboard_op" where
  "accept_op x now = Accept \<lparr>ac_claim_ok = True, ac_read_ok = True, ac_insert_ok = True, ac_now = now, ac_prims = toy_prims, ac_bcrypt = Some\<rparr>
     (''user'' @ x) (Some (hexEncode x, x, ''Passw0rd''))"

definition nobody :: onboard_state where "nobody = \<lparr>ob_invites = [], ob_users = []\<rparr>"


text \<open>
  The second in which an invite expires: it is not counted when another is created, and is still accepted; the tenant with
  a cap of one has two users.
\<close>

lemma cap_exceeded_at_expiry:
  "length (ob_users (fst (onboard_run [invite_op ''x'' 0, invite_op ''y'' inviteTTL, accept_op ''x'' inviteTTL, accept_op ''y'' inviteTTL] (nobody, 0)))) = 2"
  by code_simp

text \<open>An address that is known in another tenant can be invited, but accepting only uses the invite up.\<close>

definition elsewhere :: user_row where
  "elsewhere = \<lparr>u_id = ''o'', u_email = ''x@acme'', u_pwhash = [], u_name = [], u_role = ''user'', u_created = 0, u_tenant = Some ''other'', u_last_login = None\<rparr>"

lemma known_elsewhere_burns_invite:
  "let s = fst (onboard_run [invite_op ''x'' 0, accept_op ''x'' 1] (nobody\<lparr>ob_users := [elsewhere]\<rparr>, 0))
   in ob_users s = [elsewhere] \<and> map iv_accepted (ob_invites s) = [Some 1]"
  by code_simp

section \<open>Signup leaves no half\<close>


definition sample_signup :: signup_request where
  "sample_signup = \<lparr>sg_tenant = ''Acme Corp'', sg_slug = [], sg_name = ''Ann'', sg_email = ''ann@acme'', sg_password = ''Passw0rd'', sg_code = ''c0de''\<rparr>"

definition signup_world :: world where
  "signup_world = \<lparr>w_env = (\<lambda>k. if k = ''SIGNUP_INVITE_CODE'' then ''c0de'' else []), w_now = 100, w_prims = toy_prims,
     w_jwt = \<lparr>jwt_sign = (\<lambda>_ _. Some ''tok''), jwt_parse = (\<lambda>_ _ _. None)\<rparr>, w_secret = ''k'', w_db_up = True, w_redis_up = True\<rparr>"

definition sample_signup_env :: signup_env where
  "sample_signup_env = \<lparr>sn_tenant = ''t9'', sn_user = ''u9'', sn_insert_tenant = True, sn_insert_user = True, sn_rollback = True\<rparr>"

definition signup_start :: signup_state where
  "signup_start = \<lparr>ss_tenants = sample_tenants, ss_app = toy_app\<rparr>"


end
