(* ===== verification/Tickets.thy ===== *)
theory Tickets
  imports Broadcast
begin

text \<open>
  Tickets and their comments as the staff of a tenant uses them (\<open>internal/handlers/tickets.go\<close>), and the contract of
  isolation that these handlers and those of the customers' portal keep.

  An operation is a request together with the answers of its environment: whether each statement succeeds, the clock, the
  identifier that is drawn and the table of devices. Two goroutines that the handlers start write later and are operations
  of their own: the result of the triage, and the text that is indexed. Column values that can be \<open>NULL\<close> are options.
\<close>

section \<open>Isolation\<close>

fun run_ops :: "('o \<Rightarrow> 's \<Rightarrow> 'r \<times> 's) \<Rightarrow> 'o list \<Rightarrow> 's \<Rightarrow> 'r list \<times> 's" where
  "run_ops step [] s = ([], s)"
| "run_ops step (op # ops) s = (case step op s of (r, s1) \<Rightarrow> case run_ops step ops s1 of (rs, s2) \<Rightarrow> (r # rs, s2))"

fun ops_ok :: "('o \<Rightarrow> 's \<Rightarrow> bool) \<Rightarrow> ('o \<Rightarrow> 's \<Rightarrow> 'r \<times> 's) \<Rightarrow> 'o list \<Rightarrow> 's \<Rightarrow> bool" where
  "ops_ok good step [] s = True"
| "ops_ok good step (op # ops) s = (good op s \<and> ops_ok good step ops (snd (step op s)))"

text \<open>
  What a party may see of a state is its \<open>view\<close>, and \<open>others\<close> is the part it must leave alone. Each step answers from the
  view alone and keeps to it; then so does every run.
\<close>

locale isolated =
  fixes step :: "'o \<Rightarrow> 's \<Rightarrow> 'r \<times> 's" and good :: "'o \<Rightarrow> 's \<Rightarrow> bool" and view :: "'s \<Rightarrow> 'v" and others :: "'s \<Rightarrow> 'w"
  assumes step_view: "good op s \<Longrightarrow> good op t \<Longrightarrow> view s = view t \<Longrightarrow>
      fst (step op s) = fst (step op t) \<and> view (snd (step op s)) = view (snd (step op t))"
    and step_others: "good op s \<Longrightarrow> others (snd (step op s)) = others s"
begin

lemma run_view:
  "ops_ok good step ops s \<Longrightarrow> ops_ok good step ops t \<Longrightarrow> view s = view t \<Longrightarrow>
     fst (run_ops step ops s) = fst (run_ops step ops t) \<and> view (snd (run_ops step ops s)) = view (snd (run_ops step ops t))"
proof (induction ops arbitrary: s t)
  case (Cons op ops)
  have "fst (step op s) = fst (step op t)" "view (snd (step op s)) = view (snd (step op t))"
    using step_view [of op s t] Cons.prems by simp_all
  with Cons.IH [of "snd (step op s)" "snd (step op t)"] Cons.prems show ?case by (simp add: split_beta)
qed simp

lemma run_others: "ops_ok good step ops s \<Longrightarrow> others (snd (run_ops step ops s)) = others s"
  by (induction ops arbitrary: s) (simp_all add: split_beta step_others)

end

section \<open>Tables\<close>

record ticket_row =
  tik_id :: string
  tik_title :: string
  tik_description :: "string option"
  tik_status :: string
  tik_priority :: string
  tik_device :: "string option"
  tik_assigned :: "string option"
  tik_created :: int
  tik_updated :: int
  tik_due :: "int option"
  tik_category :: string
  tik_tenant :: string
  tik_triage :: "string option"
  tik_resolution :: "string option"

record comment_row =
  cmt_id :: string
  cmt_ticket :: string
  cmt_tenant :: string
  cmt_user :: string
  cmt_body :: string
  cmt_internal :: int
  cmt_created :: int

record ticket_state =
  tik_rows :: "ticket_row list"
  cmt_rows :: "comment_row list"

record ticket_env =
  te_read :: bool
  te_find :: bool
  te_write :: bool
  te_bump :: bool
  te_now :: int
  te_id :: string
  te_device :: "string \<Rightarrow> string option"

definition allowedTicketStatuses :: "string list" where
  "allowedTicketStatuses = [''open'', ''in_progress'', ''pending'', ''resolved'', ''closed'']"

definition allowedTicketPriorities :: "string list" where
  "allowedTicketPriorities = [''low'', ''medium'', ''high'', ''critical'']"

definition maxCommentBytes :: nat where "maxCommentBytes = 32 * 1024"

record ticket_json =
  tj_id :: string
  tj_title :: string
  tj_description :: string
  tj_status :: string
  tj_priority :: string
  tj_device :: string
  tj_assigned :: string
  tj_created :: int
  tj_updated :: int
  tj_due :: int
  tj_category :: string

definition text_of :: "string option \<Rightarrow> string" where
  "text_of v = (case v of Some s \<Rightarrow> s | None \<Rightarrow> [])"

definition ticket_json_of :: "ticket_row \<Rightarrow> ticket_json" where
  "ticket_json_of t = \<lparr>tj_id = tik_id t, tj_title = tik_title t, tj_description = text_of (tik_description t), tj_status = tik_status t,
     tj_priority = tik_priority t, tj_device = text_of (tik_device t), tj_assigned = text_of (tik_assigned t), tj_created = tik_created t,
     tj_updated = tik_updated t, tj_due = (case tik_due t of Some n \<Rightarrow> n | None \<Rightarrow> 0), tj_category = tik_category t\<rparr>"

record comment_json =
  cj_id :: string
  cj_user :: string
  cj_body :: string
  cj_internal :: bool
  cj_created :: int

definition comment_json_of :: "comment_row \<Rightarrow> comment_json" where
  "comment_json_of m = \<lparr>cj_id = cmt_id m, cj_user = cmt_user m, cj_body = cmt_body m, cj_internal = (cmt_internal m = 1), cj_created = cmt_created m\<rparr>"

text \<open>A primary key: an insert of a known identifier fails.\<close>

definition insert_ticket :: "bool \<Rightarrow> ticket_row \<Rightarrow> ticket_state \<Rightarrow> ticket_state option" where
  "insert_ticket ok t s = (if ok \<and> tik_id t \<notin> set (map tik_id (tik_rows s)) then Some (s\<lparr>tik_rows := t # tik_rows s\<rparr>) else None)"

definition insert_comment :: "bool \<Rightarrow> comment_row \<Rightarrow> ticket_state \<Rightarrow> ticket_state option" where
  "insert_comment ok m s = (if ok \<and> cmt_id m \<notin> set (map cmt_id (cmt_rows s)) then Some (s\<lparr>cmt_rows := m # cmt_rows s\<rparr>) else None)"

definition update_tickets :: "bool \<Rightarrow> (ticket_row \<Rightarrow> bool) \<Rightarrow> (ticket_row \<Rightarrow> ticket_row) \<Rightarrow> ticket_state \<Rightarrow> ticket_state" where
  "update_tickets ok hit f s = (if ok then s\<lparr>tik_rows := map (\<lambda>t. if hit t then f t else t) (tik_rows s)\<rparr> else s)"

section \<open>The staff's handlers\<close>

definition sees :: "locals \<Rightarrow> ticket_row \<Rightarrow> bool" where
  "sees c t = (IsSuperAdmin (l_user_role c) \<or> tik_tenant t = tenant_or_default c)"

definition list_ticket_rows :: "ticket_env \<Rightarrow> locals \<Rightarrow> ticket_state \<Rightarrow> (http_error, ticket_json list) result" where
  "list_ticket_rows e c s =
     (if \<not> te_read e then Inl (HttpError 500 ''Failed to query tickets'')
      else Inr (map ticket_json_of (take 1000 (sort_key (\<lambda>t. - tik_created t) (filter (sees c) (tik_rows s))))))"

record ticket_request =
  tr_title :: string
  tr_description :: string
  tr_priority :: string
  tr_device :: string
  tr_category :: string

definition device_known :: "ticket_env \<Rightarrow> locals \<Rightarrow> string \<Rightarrow> bool" where
  "device_known e c d = (te_find e \<and> (case te_device e d of None \<Rightarrow> False
     | Some T \<Rightarrow> IsSuperAdmin (l_user_role c) \<or> T = tenant_or_default c))"

definition create_ticket ::
  "ticket_env \<Rightarrow> locals \<Rightarrow> ticket_request option \<Rightarrow> ticket_state \<Rightarrow> (http_error, string) result \<times> ticket_state" where
  "create_ticket e c body s =
     (case body of
        None \<Rightarrow> (Inl (HttpError 400 ''Invalid request body''), s)
      | Some r \<Rightarrow>
        if tr_title r = [] then (Inl (HttpError 400 ''Title is required''), s)
        else let priority = (if tr_priority r = [] then ''medium'' else tr_priority r) in
        if priority \<notin> set allowedTicketPriorities then (Inl (HttpError 400 ''Invalid priority''), s)
        else let category = (if tr_category r = [] then ''general'' else tr_category r) in
        if tr_device r \<noteq> [] \<and> \<not> device_known e c (tr_device r) then (Inl (HttpError 400 ''device_id not found in your tenant''), s)
        else (case insert_ticket (te_write e) \<lparr>tik_id = te_id e, tik_title = tr_title r, tik_description = Some (tr_description r), tik_status = ''open'',
               tik_priority = priority, tik_device = Some (tr_device r), tik_assigned = None, tik_created = te_now e, tik_updated = te_now e,
               tik_due = None, tik_category = category, tik_tenant = tenant_or_default c, tik_triage = None, tik_resolution = None\<rparr> s of
             None \<Rightarrow> (Inl (HttpError 500 ''Failed to create ticket''), s)
           | Some s' \<Rightarrow> (Inr (te_id e), s')))"

text \<open>The goroutine of the triage ends with this statement.\<close>

definition store_triage :: "ticket_env \<Rightarrow> string \<Rightarrow> string \<Rightarrow> string \<Rightarrow> ticket_state \<Rightarrow> ticket_state" where
  "store_triage e tid i payload s = update_tickets (te_write e) (\<lambda>t. tik_id t = i \<and> tik_tenant t = tid) (tik_triage_update (\<lambda>_. Some payload)) s"

definition get_ticket :: "ticket_env \<Rightarrow> locals \<Rightarrow> string \<Rightarrow> ticket_state \<Rightarrow> (http_error, ticket_json) result" where
  "get_ticket e c i s =
     (case (if te_find e then List.find (\<lambda>t. tik_id t = i \<and> sees c t) (tik_rows s) else None) of
        None \<Rightarrow> Inl (HttpError 404 ''Ticket not found'')
      | Some t \<Rightarrow> Inr (ticket_json_of t))"

record ticket_update =
  tu_title :: string
  tu_description :: string
  tu_status :: string
  tu_priority :: string
  tu_assigned :: string

text \<open>\<open>COALESCE(NULLIF(?, ''), column)\<close>.\<close>

definition unless_empty :: "string \<Rightarrow> string option \<Rightarrow> string option" where
  "unless_empty new old = (if new = [] then old else Some new)"

definition set_ticket :: "ticket_update \<Rightarrow> int \<Rightarrow> ticket_row \<Rightarrow> ticket_row" where
  "set_ticket r now t = t\<lparr>tik_title := (if tu_title r = [] then tik_title t else tu_title r),
     tik_description := unless_empty (tu_description r) (tik_description t),
     tik_status := (if tu_status r = [] then tik_status t else tu_status r),
     tik_priority := (if tu_priority r = [] then tik_priority t else tu_priority r),
     tik_assigned := unless_empty (tu_assigned r) (tik_assigned t), tik_updated := now\<rparr>"

definition update_ticket ::
  "ticket_env \<Rightarrow> locals \<Rightarrow> string \<Rightarrow> ticket_update option \<Rightarrow> ticket_state \<Rightarrow> (http_error, unit) result \<times> audit_entry list \<times> ticket_state" where
  "update_ticket e c i body s =
     (case AdminMiddleware c of Inl er \<Rightarrow> (Inl er, [], s)
      | Inr c \<Rightarrow>
       (case body of
          None \<Rightarrow> (Inl (HttpError 400 ''Invalid request body''), [], s)
        | Some r \<Rightarrow>
          if tu_status r \<noteq> [] \<and> tu_status r \<notin> set allowedTicketStatuses then (Inl (HttpError 400 ''Invalid status''), [], s)
          else if tu_priority r \<noteq> [] \<and> tu_priority r \<notin> set allowedTicketPriorities then (Inl (HttpError 400 ''Invalid priority''), [], s)
          else if \<not> te_write e then (Inl (HttpError 500 ''Failed to update ticket''), [], s)
          else (Inr (), [(tenant_or_default c, l_user_id c, ''ticket.update'', ''ticket'', i,
                  ''status='' @ tu_status r @ '' priority='' @ tu_priority r @ '' assigned_to='' @ tu_assigned r)],
                update_tickets True (\<lambda>t. tik_id t = i \<and> sees c t) (set_ticket r (te_now e)) s)))"

text \<open>The text that is indexed when the update asked for a final status: read by the goroutine, in the caller's tenant.\<close>

definition index_text :: "bool \<Rightarrow> locals \<Rightarrow> string \<Rightarrow> ticket_state \<Rightarrow> string" where
  "index_text ok c i s =
     (case (if ok then List.find (\<lambda>t. tik_id t = i \<and> tik_tenant t = tenant_or_default c) (tik_rows s) else None) of
        None \<Rightarrow> [CHR 0x0A, CHR 0x0A]
      | Some t \<Rightarrow> tik_title t @ [CHR 0x0A, CHR 0x0A] @ text_of (tik_description t)
          @ (if text_of (tik_resolution t) \<noteq> [] then [CHR 0x0A, CHR 0x0A] @ ''resolution: '' @ text_of (tik_resolution t) else []))"

definition delete_ticket ::
  "ticket_env \<Rightarrow> locals \<Rightarrow> string \<Rightarrow> ticket_state \<Rightarrow> (http_error, unit) result \<times> audit_entry list \<times> ticket_state" where
  "delete_ticket e c i s =
     (case AdminMiddleware c of Inl er \<Rightarrow> (Inl er, [], s)
      | Inr c \<Rightarrow>
        if \<not> te_write e then (Inl (HttpError 500 ''Failed to delete ticket''), [], s)
        else (Inr (), [(tenant_or_default c, l_user_id c, ''ticket.delete'', ''ticket'', i, ''ticket deleted'')],
              s\<lparr>tik_rows := filter (\<lambda>t. \<not> (tik_id t = i \<and> sees c t)) (tik_rows s)\<rparr>))"

definition ticket_owner :: "ticket_env \<Rightarrow> locals \<Rightarrow> string \<Rightarrow> ticket_state \<Rightarrow> string option" where
  "ticket_owner e c i s = (if te_find e then map_option tik_tenant (List.find (\<lambda>t. tik_id t = i \<and> sees c t) (tik_rows s)) else None)"

definition list_comments :: "ticket_env \<Rightarrow> locals \<Rightarrow> string \<Rightarrow> ticket_state \<Rightarrow> (http_error, comment_json list) result" where
  "list_comments e c i s =
     (case ticket_owner e c i s of
        None \<Rightarrow> Inl (HttpError 404 ''Ticket not found'')
      | Some owner \<Rightarrow>
        if \<not> te_read e then Inl (HttpError 500 ''Failed to query comments'')
        else Inr (map comment_json_of (take 1000 (sort_key cmt_created
          (filter (\<lambda>m. cmt_ticket m = i \<and> cmt_tenant m = owner) (rev (cmt_rows s)))))))"

definition add_comment ::
  "ticket_env \<Rightarrow> locals \<Rightarrow> string \<Rightarrow> (string \<times> bool) option \<Rightarrow> ticket_state \<Rightarrow> (http_error, string) result \<times> audit_entry list \<times> ticket_state" where
  "add_comment e c i body s =
     (case body of
        None \<Rightarrow> (Inl (HttpError 400 ''Invalid request body''), [], s)
      | Some (txt, asked) \<Rightarrow>
        if txt = [] then (Inl (HttpError 400 ''Body is required''), [], s)
        else if length txt > maxCommentBytes then (Inl (HttpError 400 ''Comment too long''), [], s)
        else let internal = (asked \<and> (l_user_role c = ''admin'' \<or> IsSuperAdmin (l_user_role c))) in
        (case ticket_owner e c i s of
           None \<Rightarrow> (Inl (HttpError 404 ''Ticket not found''), [], s)
         | Some owner \<Rightarrow>
          (case insert_comment (te_write e) \<lparr>cmt_id = te_id e, cmt_ticket = i, cmt_tenant = owner, cmt_user = l_user_id c, cmt_body = txt,
                cmt_internal = (if internal then 1 else 0), cmt_created = te_now e\<rparr> s of
             None \<Rightarrow> (Inl (HttpError 500 ''Failed to add comment''), [], s)
           | Some s' \<Rightarrow> (Inr (te_id e), [(owner, l_user_id c, ''ticket.comment'', ''ticket'', i,
                  ''comment added (internal='' @ (if internal then ''true'' else ''false'') @ '')'')],
               update_tickets (te_bump e) (\<lambda>t. tik_id t = i \<and> tik_tenant t = owner) (tik_updated_update (\<lambda>_. te_now e)) s'))))"

section \<open>The staff of a tenant\<close>

datatype ticket_op =
    List_tickets
  | Create_ticket "ticket_request option"
  | Get_ticket string
  | Update_ticket string "ticket_update option"
  | Delete_ticket string
  | List_comments string
  | Add_comment string "(string \<times> bool) option"

datatype ticket_reply = Tickets "ticket_json list" | Ticket ticket_json | Comments "comment_json list" | Done string

type_synonym ticket_answer = "(http_error, ticket_reply) result \<times> audit_entry list"

fun ticket_step :: "locals \<Rightarrow> ticket_env \<times> ticket_op \<Rightarrow> ticket_state \<Rightarrow> ticket_answer \<times> ticket_state" where
  "ticket_step c (e, List_tickets) s = ((map_sum id Tickets (list_ticket_rows e c s), []), s)"
| "ticket_step c (e, Create_ticket b) s = (case create_ticket e c b s of (r, s') \<Rightarrow> ((map_sum id Done r, []), s'))"
| "ticket_step c (e, Get_ticket i) s = ((map_sum id Ticket (get_ticket e c i s), []), s)"
| "ticket_step c (e, Update_ticket i b) s = (case update_ticket e c i b s of (r, a, s') \<Rightarrow> ((map_sum id (\<lambda>_. Done i) r, a), s'))"
| "ticket_step c (e, Delete_ticket i) s = (case delete_ticket e c i s of (r, a, s') \<Rightarrow> ((map_sum id (\<lambda>_. Done i) r, a), s'))"
| "ticket_step c (e, List_comments i) s = ((map_sum id Comments (list_comments e c i s), []), s)"
| "ticket_step c (e, Add_comment i b) s = (case add_comment e c i b s of (r, a, s') \<Rightarrow> ((map_sum id Done r, a), s'))"

definition tenant_rows :: "string \<Rightarrow> ticket_state \<Rightarrow> ticket_state" where
  "tenant_rows T s = \<lparr>tik_rows = filter (\<lambda>t. tik_tenant t = T) (tik_rows s), cmt_rows = filter (\<lambda>m. cmt_tenant m = T) (cmt_rows s)\<rparr>"

definition other_rows :: "string \<Rightarrow> ticket_state \<Rightarrow> ticket_state" where
  "other_rows T s = \<lparr>tik_rows = filter (\<lambda>t. tik_tenant t \<noteq> T) (tik_rows s), cmt_rows = filter (\<lambda>m. cmt_tenant m \<noteq> T) (cmt_rows s)\<rparr>"

text \<open>Identifiers are drawn fresh.\<close>

definition fresh_id :: "string \<Rightarrow> ticket_state \<Rightarrow> bool" where
  "fresh_id i s = (i \<notin> set (map tik_id (tik_rows s)) \<and> i \<notin> set (map cmt_id (cmt_rows s)) \<and> i \<notin> set (map cmt_ticket (cmt_rows s)))"

definition staff_op :: "locals \<Rightarrow> ticket_env \<times> ticket_op \<Rightarrow> ticket_state \<Rightarrow> bool" where
  "staff_op c op s = (\<not> IsSuperAdmin (l_user_role c) \<and> fresh_id (te_id (fst op)) s)"

lemma staff_sees: "\<not> IsSuperAdmin (l_user_role c) \<Longrightarrow> sees c t \<longleftrightarrow> tik_tenant t = tenant_or_default c"
  by (simp add: sees_def)

lemma find_filter: "List.find (\<lambda>x. P x \<and> Q x) xs = List.find P (filter Q xs)"
  by (induction xs) auto

lemma filter_mapped:
  "(\<And>x. Q (f x) = Q x) \<Longrightarrow> filter Q (map (\<lambda>x. if P x then f x else x) xs) = map (\<lambda>x. if P x then f x else x) (filter Q xs)"
  by (induction xs) auto

lemma map_if_cong: "(\<And>x. x \<in> set xs \<Longrightarrow> P x = R x) \<Longrightarrow> map (\<lambda>x. if P x then f x else x) xs = map (\<lambda>x. if R x then f x else x) xs"
  by auto

lemma map_if_none: "(\<And>x. x \<in> set xs \<Longrightarrow> \<not> P x) \<Longrightarrow> map (\<lambda>x. if P x then f x else x) xs = xs"
  by (rule map_idI) auto

lemma update_tickets_rows:
  assumes "\<And>t. tik_tenant (f t) = tik_tenant t"
  shows "tenant_rows T (update_tickets ok hit f s) = update_tickets ok hit f (tenant_rows T s)"
    and "(\<And>t. hit t \<Longrightarrow> tik_tenant t = T) \<Longrightarrow> other_rows T (update_tickets ok hit f s) = other_rows T s"
  by (auto simp: tenant_rows_def other_rows_def update_tickets_def filter_mapped assms intro!: map_if_none)

lemma update_tickets_cmts [simp]: "cmt_rows (update_tickets ok hit f s) = cmt_rows s"
  by (simp add: update_tickets_def)

lemma tenant_rows_cmts: "cmt_rows (tenant_rows T s) = filter (\<lambda>m. cmt_tenant m = T) (cmt_rows s)"
  by (simp add: tenant_rows_def)

text \<open>Every handler of a tenant's staff works on the rows of the tenant.\<close>

lemma reads_tenant_rows:
  assumes "\<not> IsSuperAdmin (l_user_role c)"
  defines "T \<equiv> tenant_or_default c"
  shows "list_ticket_rows e c (tenant_rows T s) = list_ticket_rows e c s"
    and "get_ticket e c i (tenant_rows T s) = get_ticket e c i s"
    and "ticket_owner e c i (tenant_rows T s) = ticket_owner e c i s"
    and "list_comments e c i (tenant_rows T s) = list_comments e c i s"
proof -
  have see: "sees c = (\<lambda>t. tik_tenant t = T)" using assms by (auto simp: staff_sees)
  have find: "List.find (\<lambda>t. tik_id t = i \<and> tik_tenant t = T) (filter (\<lambda>t. tik_tenant t = T) (tik_rows s))
      = List.find (\<lambda>t. tik_id t = i \<and> tik_tenant t = T) (tik_rows s)"
    by (simp add: find_filter)
  show "list_ticket_rows e c (tenant_rows T s) = list_ticket_rows e c s" by (simp add: list_ticket_rows_def see tenant_rows_def)
  show "get_ticket e c i (tenant_rows T s) = get_ticket e c i s" by (simp add: get_ticket_def see tenant_rows_def find)
  show own: "ticket_owner e c i (tenant_rows T s) = ticket_owner e c i s" by (simp add: ticket_owner_def see tenant_rows_def find)
  have "owner = T" if "ticket_owner e c i s = Some owner" for owner
    using that by (auto simp: ticket_owner_def see find_Some_iff split: if_splits)
  note owner = this
  have flt: "filter (\<lambda>m. cmt_ticket m = i \<and> cmt_tenant m = T) (rev (filter (\<lambda>m. cmt_tenant m = T) ms))
      = filter (\<lambda>m. cmt_ticket m = i \<and> cmt_tenant m = T) (rev ms)" for ms
    by (induction ms) auto
  show "list_comments e c i (tenant_rows T s) = list_comments e c i s"
    using owner by (cases "ticket_owner e c i s") (simp_all add: list_comments_def own tenant_rows_cmts flt)
qed

lemma fresh_tenant_rows: "fresh_id i s \<Longrightarrow> fresh_id i (tenant_rows T s)"
  by (auto simp: fresh_id_def tenant_rows_def)

lemma insert_tenant_rows:
  "fresh_id (tik_id t) s \<Longrightarrow> tik_tenant t = T \<Longrightarrow> insert_ticket ok t (tenant_rows T s) = map_option (tenant_rows T) (insert_ticket ok t s)"
  "fresh_id (cmt_id m) s \<Longrightarrow> cmt_tenant m = T \<Longrightarrow> insert_comment ok m (tenant_rows T s) = map_option (tenant_rows T) (insert_comment ok m s)"
  by (auto simp: insert_ticket_def insert_comment_def fresh_id_def tenant_rows_def)

lemma insert_other_rows:
  "insert_ticket ok t s = Some s' \<Longrightarrow> tik_tenant t = T \<Longrightarrow> other_rows T s' = other_rows T s"
  "insert_comment ok m s = Some s' \<Longrightarrow> cmt_tenant m = T \<Longrightarrow> other_rows T s' = other_rows T s"
  by (auto simp: insert_ticket_def insert_comment_def other_rows_def split: if_splits)

lemma set_ticket_tenant [simp]: "tik_tenant (set_ticket r now t) = tik_tenant t" "tik_id (set_ticket r now t) = tik_id t"
  by (simp_all add: set_ticket_def)

definition keeps_tenant :: "string \<Rightarrow> 'a \<times> ticket_state \<Rightarrow> 'a \<times> ticket_state \<Rightarrow> ticket_state \<Rightarrow> bool" where
  "keeps_tenant T small big s = (fst small = fst big \<and> snd small = tenant_rows T (snd big) \<and> other_rows T (snd big) = other_rows T s)"

lemma create_keeps_tenant:
  assumes "\<not> IsSuperAdmin (l_user_role c)" and "fresh_id (te_id e) s"
  shows "keeps_tenant (tenant_or_default c) (create_ticket e c b (tenant_rows (tenant_or_default c) s)) (create_ticket e c b s) s"
proof (cases b)
  case (Some r)
  define t where "t = \<lparr>tik_id = te_id e, tik_title = tr_title r, tik_description = Some (tr_description r), tik_status = ''open'',
     tik_priority = (if tr_priority r = [] then ''medium'' else tr_priority r), tik_device = Some (tr_device r), tik_assigned = None, tik_created = te_now e,
     tik_updated = te_now e, tik_due = None, tik_category = (if tr_category r = [] then ''general'' else tr_category r),
     tik_tenant = tenant_or_default c, tik_triage = None, tik_resolution = None\<rparr>"
  have t: "tik_id t = te_id e" "tik_tenant t = tenant_or_default c" by (simp_all add: t_def)
  have "fresh_id (tik_id t) s" using assms t by simp
  note ins = insert_tenant_rows(1) [OF this t(2), of "te_write e"]
  show ?thesis
    unfolding create_ticket_def Some option.case Let_def t_def [symmetric]
    using insert_other_rows(1) [of "te_write e" t s] t ins
    by (auto simp: keeps_tenant_def split: option.splits)
qed (simp add: create_ticket_def keeps_tenant_def)

lemma update_keeps_tenant:
  assumes "\<not> IsSuperAdmin (l_user_role c)"
  shows "fst (update_ticket e c i b (tenant_rows (tenant_or_default c) s)) = fst (update_ticket e c i b s)"
    and "keeps_tenant (tenant_or_default c) (snd (update_ticket e c i b (tenant_rows (tenant_or_default c) s))) (snd (update_ticket e c i b s)) s"
  using assms update_tickets_rows [where f = "set_ticket (the b) (te_now e)" and T = "tenant_or_default c" and ok = True
    and hit = "\<lambda>t. tik_id t = i \<and> tik_tenant t = tenant_or_default c" and s = s]
  by (auto simp: update_ticket_def keeps_tenant_def AdminMiddleware_def guard_def staff_sees split: option.splits)

lemma delete_keeps_tenant:
  assumes "\<not> IsSuperAdmin (l_user_role c)"
  shows "fst (delete_ticket e c i (tenant_rows (tenant_or_default c) s)) = fst (delete_ticket e c i s)"
    and "keeps_tenant (tenant_or_default c) (snd (delete_ticket e c i (tenant_rows (tenant_or_default c) s))) (snd (delete_ticket e c i s)) s"
  using assms
  by (auto simp: delete_ticket_def keeps_tenant_def AdminMiddleware_def guard_def staff_sees tenant_rows_def other_rows_def intro!: filter_cong)

lemma comment_keeps_tenant:
  assumes "\<not> IsSuperAdmin (l_user_role c)" and "fresh_id (te_id e) s"
  shows "fst (add_comment e c i b (tenant_rows (tenant_or_default c) s)) = fst (add_comment e c i b s)"
    and "keeps_tenant (tenant_or_default c) (snd (add_comment e c i b (tenant_rows (tenant_or_default c) s))) (snd (add_comment e c i b s)) s"
proof -
  let ?T = "tenant_or_default c"
  have own: "owner = ?T" if "ticket_owner e c i s = Some owner" for owner
    using that assms(1) by (auto simp: ticket_owner_def staff_sees find_Some_iff split: if_splits)
  note [simp] = reads_tenant_rows(3) [OF assms(1)]
  have bump: "tenant_rows ?T (update_tickets ok (\<lambda>t. tik_id t = i \<and> tik_tenant t = ?T) (tik_updated_update (\<lambda>_. n)) s')
      = update_tickets ok (\<lambda>t. tik_id t = i \<and> tik_tenant t = ?T) (tik_updated_update (\<lambda>_. n)) (tenant_rows ?T s')"
    "other_rows ?T (update_tickets ok (\<lambda>t. tik_id t = i \<and> tik_tenant t = ?T) (tik_updated_update (\<lambda>_. n)) s') = other_rows ?T s'" for ok n s'
    by (rule update_tickets_rows; simp)+
  have ins: "insert_comment ok \<lparr>cmt_id = te_id e, cmt_ticket = i, cmt_tenant = ?T, cmt_user = l_user_id c, cmt_body = x, cmt_internal = n, cmt_created = te_now e\<rparr>
      (tenant_rows ?T s) = map_option (tenant_rows ?T) (insert_comment ok \<lparr>cmt_id = te_id e, cmt_ticket = i, cmt_tenant = ?T, cmt_user = l_user_id c,
        cmt_body = x, cmt_internal = n, cmt_created = te_now e\<rparr> s)" for ok x n
    by (rule insert_tenant_rows(2)) (use assms in simp_all)
  show "fst (add_comment e c i b (tenant_rows ?T s)) = fst (add_comment e c i b s)"
    by (auto simp: add_comment_def Let_def ins dest!: own split: option.splits prod.splits)
  show "keeps_tenant ?T (snd (add_comment e c i b (tenant_rows ?T s))) (snd (add_comment e c i b s)) s"
    by (auto simp: add_comment_def Let_def ins keeps_tenant_def bump insert_other_rows(2) dest!: own split: option.splits prod.splits)
qed

lemma ticket_step_keeps_tenant:
  assumes "staff_op c op s"
  shows "keeps_tenant (tenant_or_default c) (ticket_step c op (tenant_rows (tenant_or_default c) s)) (ticket_step c op s) s"
proof -
  obtain e o1 where op: "op = (e, o1)" by (cases op)
  have a: "\<not> IsSuperAdmin (l_user_role c)" "fresh_id (te_id e) s" using assms by (auto simp: staff_op_def op)
  have idem: "tenant_rows T (tenant_rows T s) = tenant_rows T s" for T by (simp add: tenant_rows_def)
  note [simp] = reads_tenant_rows [OF a(1)]
  show ?thesis
  proof (cases o1)
    case (Create_ticket b)
    with create_keeps_tenant [OF a, of b] show ?thesis by (simp add: op keeps_tenant_def split_beta)
  next
    case (Update_ticket i b)
    with update_keeps_tenant [OF a(1), of e i b s] show ?thesis by (simp add: op keeps_tenant_def split_beta)
  next
    case (Delete_ticket i)
    with delete_keeps_tenant [OF a(1), of e i s] show ?thesis by (simp add: op keeps_tenant_def split_beta)
  next
    case (Add_comment i b)
    with comment_keeps_tenant [OF a, of i b] show ?thesis by (simp add: op keeps_tenant_def split_beta)
  qed (simp_all add: op keeps_tenant_def)
qed

interpretation staff: isolated "ticket_step c" "staff_op c" "tenant_rows (tenant_or_default c)" "other_rows (tenant_or_default c)" for c
proof
  fix op s t
  assume "staff_op c op s" "staff_op c op t" and v: "tenant_rows (tenant_or_default c) s = tenant_rows (tenant_or_default c) t"
  from ticket_step_keeps_tenant [OF this(1)] ticket_step_keeps_tenant [OF this(2)]
  show "fst (ticket_step c op s) = fst (ticket_step c op t) \<and> tenant_rows (tenant_or_default c) (snd (ticket_step c op s))
      = tenant_rows (tenant_or_default c) (snd (ticket_step c op t))"
    by (simp add: keeps_tenant_def v)
next
  fix op s
  assume "staff_op c op s"
  from ticket_step_keeps_tenant [OF this]
  show "other_rows (tenant_or_default c) (snd (ticket_step c op s)) = other_rows (tenant_or_default c) s" by (simp add: keeps_tenant_def)
qed

text \<open>
  C33. The staff of a tenant is confined to it: whatever requests they make, the answers and the audit entries depend on the
  tickets and comments of the tenant alone, and those of other tenants are left as they were.
\<close>

theorem staff_isolated:
  assumes "ops_ok (staff_op c) (ticket_step c) ops s" and "ops_ok (staff_op c) (ticket_step c) ops t"
    and "tenant_rows (tenant_or_default c) s = tenant_rows (tenant_or_default c) t"
  shows "fst (run_ops (ticket_step c) ops s) = fst (run_ops (ticket_step c) ops t)
    \<and> other_rows (tenant_or_default c) (snd (run_ops (ticket_step c) ops s)) = other_rows (tenant_or_default c) s"
  using staff.run_view [OF assms] staff.run_others [OF assms(1)] by blast

definition toy_ticket :: "string \<Rightarrow> string \<Rightarrow> string \<Rightarrow> ticket_row" where
  "toy_ticket i T d = \<lparr>tik_id = i, tik_title = i, tik_description = None, tik_status = ''open'', tik_priority = ''low'', tik_device = Some d,
     tik_assigned = None, tik_created = 1, tik_updated = 1, tik_due = None, tik_category = ''general'', tik_tenant = T, tik_triage = None,
     tik_resolution = None\<rparr>"

definition toy_desk :: "string \<Rightarrow> ticket_state" where
  "toy_desk other = \<lparr>tik_rows = [toy_ticket ''k1'' ''t1'' ''d1'', toy_ticket other ''t2'' ''d2''], cmt_rows = []\<rparr>"

definition toy_ticket_env :: "string \<Rightarrow> ticket_env" where
  "toy_ticket_env i = \<lparr>te_read = True, te_find = True, te_write = True, te_bump = True, te_now = 9, te_id = i, te_device = (\<lambda>d. None)\<rparr>"

definition toy_staff :: locals where
  "toy_staff = no_locals\<lparr>l_user_id := ''u1'', l_user_role := ''admin'', l_tenant_id := ''t1''\<rparr>"

definition toy_staff_ops :: "string \<Rightarrow> (ticket_env \<times> ticket_op) list" where
  "toy_staff_ops victim = [(toy_ticket_env ''n1'', Get_ticket victim), (toy_ticket_env ''n2'', Add_comment ''k1'' (Some (''hi'', True))),
     (toy_ticket_env ''n3'', Delete_ticket victim)]"

theorem staff_isolated_witness:
  "toy_desk ''x'' \<noteq> toy_desk ''y''
   \<and> fst (run_ops (ticket_step toy_staff) (toy_staff_ops ''x'') (toy_desk ''x'')) = fst (run_ops (ticket_step toy_staff) (toy_staff_ops ''x'') (toy_desk ''y''))
   \<and> other_rows ''t1'' (snd (run_ops (ticket_step toy_staff) (toy_staff_ops ''x'') (toy_desk ''x''))) = other_rows ''t1'' (toy_desk ''x'')
   \<and> cmt_rows (snd (run_ops (ticket_step toy_staff) (toy_staff_ops ''x'') (toy_desk ''x''))) \<noteq> []"
proof -
  have T: "tenant_or_default toy_staff = ''t1''" by (simp add: toy_staff_def tenant_or_default_def no_locals_def)
  have ok: "ops_ok (staff_op toy_staff) (ticket_step toy_staff) (toy_staff_ops ''x'') (toy_desk i)" if "i = ''x'' \<or> i = ''y''" for i
    using that by (elim disjE; simp only:; code_simp)
  have v: "tenant_rows (tenant_or_default toy_staff) (toy_desk ''x'') = tenant_rows (tenant_or_default toy_staff) (toy_desk ''y'')"
    by (simp add: T tenant_rows_def toy_desk_def toy_ticket_def)
  have "cmt_rows (snd (run_ops (ticket_step toy_staff) (toy_staff_ops ''x'') (toy_desk ''x''))) \<noteq> []" by code_simp
  with staff_isolated [OF ok ok v] show ?thesis by (simp add: T) (simp add: toy_desk_def toy_ticket_def)
qed

section \<open>Every ticket keeps a known status and priority\<close>

definition ticket_ok :: "ticket_row \<Rightarrow> bool" where
  "ticket_ok t = (tik_status t \<in> set allowedTicketStatuses \<and> tik_priority t \<in> set allowedTicketPriorities \<and> tik_title t \<noteq> [])"

definition desk_ok :: "ticket_state \<Rightarrow> bool" where
  "desk_ok s = (list_all ticket_ok (tik_rows s) \<and> distinct (map tik_id (tik_rows s)) \<and> distinct (map cmt_id (cmt_rows s))
     \<and> list_all (\<lambda>m. cmt_internal m = 0 \<or> cmt_internal m = 1) (cmt_rows s))"

lemma desk_ok_insert:
  "desk_ok s \<Longrightarrow> ticket_ok t \<Longrightarrow> insert_ticket ok t s = Some s' \<Longrightarrow> desk_ok s'"
  "desk_ok s \<Longrightarrow> cmt_internal m = 0 \<or> cmt_internal m = 1 \<Longrightarrow> insert_comment ok m s = Some s' \<Longrightarrow> desk_ok s'"
  by (auto simp: desk_ok_def insert_ticket_def insert_comment_def split: if_splits)

lemma desk_ok_update:
  assumes "desk_ok s" and "\<And>t. ticket_ok t \<Longrightarrow> ticket_ok (f t)" and "\<And>t. tik_id (f t) = tik_id t"
  shows "desk_ok (update_tickets ok hit f s)"
proof -
  have "(\<lambda>t. tik_id (if hit t then f t else t)) = tik_id" using assms(3) by auto
  then show ?thesis using assms(1,2) by (auto simp: desk_ok_def update_tickets_def list_all_iff comp_def)
qed

lemma desk_ok_filter: "desk_ok s \<Longrightarrow> desk_ok (s\<lparr>tik_rows := filter P (tik_rows s)\<rparr>)"
  by (auto simp: desk_ok_def list_all_iff distinct_map_filter)

lemma set_ticket_ok:
  "ticket_ok t \<Longrightarrow> tu_status r = [] \<or> tu_status r \<in> set allowedTicketStatuses \<Longrightarrow> tu_priority r = [] \<or> tu_priority r \<in> set allowedTicketPriorities
    \<Longrightarrow> ticket_ok (set_ticket r now t)"
  by (auto simp: ticket_ok_def set_ticket_def)

lemma bump_ok: "desk_ok s \<Longrightarrow> desk_ok (update_tickets ok hit (tik_updated_update f) s)"
  by (rule desk_ok_update) (simp_all add: ticket_ok_def)

lemma create_ticket_ok:
  assumes s: "desk_ok s"
  shows "desk_ok (snd (create_ticket e c b s))"
proof (cases b)
  case (Some r)
  let ?p = "if tr_priority r = [] then ''medium'' else tr_priority r"
  show ?thesis
  proof (cases "tr_title r = [] \<or> ?p \<notin> set allowedTicketPriorities \<or> tr_device r \<noteq> [] \<and> \<not> device_known e c (tr_device r)")
    case True
    then show ?thesis using s by (auto simp: Some create_ticket_def Let_def)
  next
    case False
    then have ok: "tr_title r \<noteq> []" "?p \<in> set allowedTicketPriorities" "\<not> (tr_device r \<noteq> [] \<and> \<not> device_known e c (tr_device r))" by auto
    have "''open'' \<in> set allowedTicketStatuses" by (simp add: allowedTicketStatuses_def)
    with ok(1,2) show ?thesis unfolding create_ticket_def Some option.case Let_def using ok s
      by (simp only: if_False if_not_P simp_thms split: option.split)
        (intro conjI impI allI; (simp only: snd_conv)?; erule desk_ok_insert(1) [OF s, rotated]; simp add: ticket_ok_def)
  qed
qed (simp add: create_ticket_def s)

lemma ticket_step_ok: "desk_ok s \<Longrightarrow> desk_ok (snd (ticket_step c op s))"
proof -
  assume s: "desk_ok s"
  obtain e o1 where op: "op = (e, o1)" by (cases op)
  show ?thesis
  proof (cases o1)
    case (Create_ticket b)
    with create_ticket_ok [OF s, of e c b] show ?thesis by (simp add: op split_beta)
  next
    case (Update_ticket i b)
    then show ?thesis using s
      by (auto simp: op update_ticket_def AdminMiddleware_def guard_def intro!: desk_ok_update set_ticket_ok split: option.splits)
  next
    case (Delete_ticket i)
    then show ?thesis using s by (auto simp: op delete_ticket_def AdminMiddleware_def guard_def desk_ok_filter)
  next
    case (Add_comment i b)
    then show ?thesis using s
      by (auto simp: op add_comment_def Let_def intro!: bump_ok dest: desk_ok_insert(2) [OF s, rotated] split: option.splits prod.splits)
  qed (simp_all add: op s)
qed

text \<open>An update or a deletion of a ticket that does not exist, or is not visible, is answered and recorded as done.\<close>

lemma missing_ticket_updated:
  assumes "l_user_role c = ''admin''" and "te_write e" and "\<forall>t \<in> set (tik_rows s). \<not> (tik_id t = i \<and> sees c t)"
  shows "snd (snd (delete_ticket e c i s)) = s \<and> fst (delete_ticket e c i s) = Inr ()
    \<and> fst (snd (delete_ticket e c i s)) = [(tenant_or_default c, l_user_id c, ''ticket.delete'', ''ticket'', i, ''ticket deleted'')]"
proof -
  have "filter (\<lambda>t. \<not> (tik_id t = i \<and> sees c t)) (tik_rows s) = tik_rows s" using assms(3) by (auto intro: filter_True)
  then show ?thesis using assms(1,2) by (simp add: delete_ticket_def AdminMiddleware_def guard_def)
qed

text \<open>The text of a ticket of another tenant, resolved by the owner, is read in the owner's own tenant and comes out blank.\<close>

lemma owner_indexes_blank:
  assumes "\<forall>t \<in> set (tik_rows s). tik_id t = i \<longrightarrow> tik_tenant t \<noteq> tenant_or_default c"
  shows "index_text ok c i s = [CHR 0x0A, CHR 0x0A]"
proof -
  have "List.find (\<lambda>t. tik_id t = i \<and> tik_tenant t = tenant_or_default c) (tik_rows s) = None" using assms by (auto simp: find_None_iff)
  then show ?thesis by (simp add: index_text_def)
qed

end
