(* ===== verification/AiAdmin.thy ===== *)
theory AiAdmin
  imports KillSwitch Tickets AiSearch
begin

text \<open>
  The settings of the AI layer as administrators change them (\<open>internal/handlers/ai.go\<close>): the master switch and the caps of a
  tenant, its providers, routing rules and capabilities, the labels of its runs, and the kill switches.

  A tenant admin acts on the own tenant, the owner on any. The tables hold the columns that \<open>Run\<close> reads (theory AiRun) and
  those that only these handlers use, as extensions of the records there, and \<open>runs_on\<close> is what \<open>Run\<close> sees of them. The
  statements of a handler are numbered; \<open>ae_up\<close> says which succeed. Clock, identifiers, nonces, JSON, the parser of
  URLs and the resolver are answers of the environment as well.
\<close>

section \<open>Tables\<close>

record tenant_ai = ai_tenant +
  at_billing :: "string option"
  at_dpa :: "unix option"

record provider_adm = provider_row +
  pv_id :: string
  pv_created :: unix
  pv_updated :: unix

record routing_row = route +
  rt_id :: string
  rt_tenant :: string
  rt_task :: string
  rt_fallback :: "string option"
  rt_embed :: "string option"
  rt_max_in :: "int option"
  rt_max_out :: "int option"
  rt_created :: unix
  rt_updated :: unix

record cap_row = cap_config +
  cc_id :: string
  cc_promotion :: string
  cc_updated :: unix

record labelled_run = ai_run +
  ru_set_by :: "string option"
  ru_set_at :: "unix option"
  ru_latency :: int
  ru_rb_tried :: int
  ru_rb_ok :: int

record kill_row =
  kl_scope :: string
  kl_enabled :: int
  kl_reason :: string
  kl_user :: string
  kl_at :: unix

record admin_state =
  ad_caps :: cap_registry
  ad_sys :: sys_features
  ad_factories :: "(string \<times> factory) list"
  ad_tenants :: "string \<rightharpoonup> tenant_ai"
  ad_providers :: "provider_adm list"
  ad_routes :: "routing_row list"
  ad_configs :: "string \<times> string \<rightharpoonup> cap_row"
  ad_runs :: "labelled_run list"
  ad_kills :: "kill_row list"
  ad_flags :: "string \<Rightarrow> bool"
  ad_counters :: "string \<Rightarrow> int"

definition route_of :: "string \<Rightarrow> string \<Rightarrow> routing_row list \<Rightarrow> routing_row option" where
  "route_of tid task rs = List.find (\<lambda>r. rt_tenant r = tid \<and> rt_task r = task) rs"

definition provider_of :: "string \<Rightarrow> provider_adm list \<Rightarrow> provider_adm option" where
  "provider_of i ps = List.find (\<lambda>p. pv_id p = i) ps"

definition runs_on :: "admin_state \<Rightarrow> ai_state" where
  "runs_on s = \<lparr>ai_caps = ad_caps s, ai_sys = ad_sys s, ai_factories = ad_factories s, ai_flags = ad_flags s,
     ai_tenants = (\<lambda>t. map_option ai_tenant.truncate (ad_tenants s t)),
     ai_configs = (\<lambda>k. map_option cap_config.truncate (ad_configs s k)),
     ai_routes = (\<lambda>(t, task). map_option route.truncate (route_of t task (ad_routes s))),
     ai_providers = (\<lambda>i. map_option provider_row.truncate (provider_of i (ad_providers s))),
     ai_runs = map ai_run.truncate (ad_runs s), ai_counters = ad_counters s\<rparr>"

section \<open>Requests\<close>

record admin_env =
  ae_up :: "nat \<Rightarrow> bool"
  ae_now :: unix
  ae_id :: string
  ae_nonce :: "string option"
  ae_world :: ai_world
  ae_filter_json :: "scope_filter \<Rightarrow> string option"
  ae_filter_of :: "string \<Rightarrow> scope_filter"
  ae_promotion_json :: "promotion \<Rightarrow> string"
  ae_parse_url :: "string \<Rightarrow> (string \<times> string \<times> string) option"
  ae_lookup :: "string \<Rightarrow> ip_addr list"
  ae_quote :: "string \<Rightarrow> string"

type_synonym 'a admin_answer = "(http_error, 'a) result \<times> audit_entry list \<times> admin_state"

text \<open>Both gates stand before every handler.\<close>

definition aiDialectGate :: "admin_env \<Rightarrow> locals \<Rightarrow> (http_error, locals) result" where
  "aiDialectGate e c = (case SupportedDialect (ae_world e) of
       Inl _ \<Rightarrow> Inl (HttpError 503 ''ai: AI features require PostgreSQL; current deployment uses SQLite'')
     | Inr _ \<Rightarrow> Inr c)"

definition targetTenant :: "locals \<Rightarrow> string \<Rightarrow> string" where
  "targetTenant c q =
     (if \<not> IsSuperAdmin (l_user_role c) then tenant_or_default c
      else if q \<noteq> [] then q else tenant_or_default c)"

definition boolToInt :: "bool \<Rightarrow> int" where "boolToInt b = (if b then 1 else 0)"

definition bool_text :: "bool \<Rightarrow> string" where "bool_text b = (if b then ''true'' else ''false'')"

section \<open>The master switch\<close>

record tenant_json =
  ti_tenant :: string
  ti_enabled :: bool
  ti_billing :: string
  ti_chat_cap :: int
  ti_embed_cap :: int
  ti_dpa :: "unix option"

definition aiGetTenant :: "admin_env \<Rightarrow> locals \<Rightarrow> string \<Rightarrow> admin_state \<Rightarrow> (http_error, tenant_json) result" where
  "aiGetTenant e c q s =
     (let tid = targetTenant c q in
      case (if ae_up e 0 then ad_tenants s tid else None) of
        None \<Rightarrow> Inl (HttpError 404 ''tenant not found'')
      | Some t \<Rightarrow> Inr \<lparr>ti_tenant = tid, ti_enabled = (at_enabled t = 1),
          ti_billing = (case at_billing t of None \<Rightarrow> ''absorb'' | Some b \<Rightarrow> b),
          ti_chat_cap = at_chat_cap t, ti_embed_cap = at_embed_cap t, ti_dpa = at_dpa t\<rparr>)"

record tenant_patch =
  tp_enabled :: "bool option"
  tp_billing :: "string option"
  tp_chat :: "int option"
  tp_embed :: "int option"
  tp_dpa :: "bool option"

definition maxDailyCostMicros :: int where "maxDailyCostMicros = 100000 * 1000000"

definition cap_in_range :: "int option \<Rightarrow> bool" where
  "cap_in_range v = (case v of None \<Rightarrow> True | Some n \<Rightarrow> \<not> (n < 0 \<or> n > maxDailyCostMicros))"

definition squoted :: "string \<Rightarrow> string" where "squoted s = [CHR 0x27] @ s @ [CHR 0x27]"

definition tenant_patch_checks :: "locals \<Rightarrow> tenant_patch \<Rightarrow> (http_error, unit) result" where
  "tenant_patch_checks c p =
     (if tp_enabled p = Some True \<and> \<not> IsSuperAdmin (l_user_role c) then Inl (HttpError 403 ''only super_admin may enable AI for a tenant'')
      else if tp_billing p \<noteq> None \<and> tp_billing p \<noteq> Some ''absorb'' \<and> tp_billing p \<noteq> Some ''passthrough''
        then Inl (HttpError 400 (''ai_billing_mode must be '' @ squoted ''absorb'' @ '' or '' @ squoted ''passthrough''))
      else if \<not> cap_in_range (tp_chat p) then Inl (HttpError 400 ''cost cap must be between 0 and 100,000,000,000 micros ($100k/day)'')
      else if \<not> cap_in_range (tp_embed p) then Inl (HttpError 400 ''cost cap must be between 0 and 100,000,000,000 micros ($100k/day)'')
      else Inr ())"

text \<open>A field that the request leaves out keeps its column.\<close>

definition patched_or :: "'a option \<Rightarrow> 'a \<Rightarrow> 'a" where
  "patched_or v old = (case v of Some x \<Rightarrow> x | None \<Rightarrow> old)"

definition set_tenant :: "tenant_patch \<Rightarrow> unix \<Rightarrow> tenant_ai \<Rightarrow> tenant_ai" where
  "set_tenant p now t = t\<lparr>at_enabled := patched_or (map_option boolToInt (tp_enabled p)) (at_enabled t),
     at_billing := (if tp_billing p = None then at_billing t else tp_billing p),
     at_chat_cap := patched_or (tp_chat p) (at_chat_cap t), at_embed_cap := patched_or (tp_embed p) (at_embed_cap t),
     at_dpa := (if tp_dpa p = Some True then Some now else at_dpa t)\<rparr>"

definition aiPatchTenant :: "admin_env \<Rightarrow> locals \<Rightarrow> string \<Rightarrow> tenant_patch option \<Rightarrow> admin_state \<Rightarrow> string admin_answer" where
  "aiPatchTenant e c q body s =
     (let tid = targetTenant c q in
      case body of
        None \<Rightarrow> (Inl (HttpError 400 ''invalid body''), [], s)
      | Some p \<Rightarrow>
        (case tenant_patch_checks c p of
           Inl er \<Rightarrow> (Inl er, [], s)
         | Inr _ \<Rightarrow>
           if tp_enabled p = None \<and> tp_billing p = None \<and> tp_chat p = None \<and> tp_embed p = None \<and> tp_dpa p \<noteq> Some True
           then (Inr ''no changes'', [], s)
           else if \<not> ae_up e 0 then (Inl (HttpError 500 ''update failed''), [], s)
           else (Inr ''updated'', [(tid, l_user_id c, ''ai.tenant.update'', ''tenant'', tid, ''updated AI tenant settings'')],
                 s\<lparr>ad_tenants := (ad_tenants s)(tid := map_option (set_tenant p (ae_now e)) (ad_tenants s tid))\<rparr>)))"

section \<open>Providers\<close>

datatype base_url_error = Bad_base_url | Bad_base_scheme string | No_base_host
  | Base_loopback ip_addr | Base_link_local ip_addr | Base_private ip_addr

fun check_base_ips :: "string \<Rightarrow> ip_addr list \<Rightarrow> (base_url_error, unit) result" where
  "check_base_ips trust [] = Inr ()"
| "check_base_ips trust (ip # ips) =
     (if IsLoopback ip \<or> IsUnspecified ip then Inl (Base_loopback ip)
      else if IsLinkLocalUnicast ip then Inl (Base_link_local ip)
      else if trust = ''external'' \<and> IsPrivate ip then Inl (Base_private ip)
      else check_base_ips trust ips)"

text \<open>Parsed, a URL is its scheme, its host with the port and its host name. A name that does not resolve has no addresses.\<close>

definition validateProviderBaseURL :: "admin_env \<Rightarrow> string \<Rightarrow> string \<Rightarrow> (base_url_error, unit) result" where
  "validateProviderBaseURL e baseURL trust =
     (if baseURL = [] then Inr ()
      else case ae_parse_url e baseURL of
        None \<Rightarrow> Inl Bad_base_url
      | Some (scheme, hostport, host) \<Rightarrow>
          if scheme \<noteq> ''http'' \<and> scheme \<noteq> ''https'' then Inl (Bad_base_scheme scheme)
          else if hostport = [] then Inl No_base_host
          else check_base_ips trust (ae_lookup e host))"

text \<open>The text of the error up to what it was computed from.\<close>

fun base_url_text :: "base_url_error \<Rightarrow> string" where
  "base_url_text Bad_base_url = ''invalid base_url''"
| "base_url_text (Bad_base_scheme scheme) = ''base_url must be http or https''"
| "base_url_text No_base_host = ''base_url missing host''"
| "base_url_text (Base_loopback ip) = ''base_url may not point at loopback / unspecified address''"
| "base_url_text (Base_link_local ip) = ''base_url may not point at link-local address''"
| "base_url_text (Base_private ip) = ''external-trust provider may not point at a non-public address''"

definition trust_levels :: "string list" where
  "trust_levels = [''local'', ''external'', ''self_hosted'']"

record provider_json =
  pj_id :: string
  pj_kind :: string
  pj_name :: string
  pj_base_url :: string
  pj_region :: string
  pj_trust :: string
  pj_enabled :: bool
  pj_created :: unix
  pj_updated :: unix

definition provider_json_of :: "provider_adm \<Rightarrow> provider_json" where
  "provider_json_of p = \<lparr>pj_id = pv_id p, pj_kind = pv_kind p, pj_name = pv_name p, pj_base_url = pv_base_url p, pj_region = pv_region p,
     pj_trust = pv_trust p, pj_enabled = (pv_enabled p = 1), pj_created = pv_created p, pj_updated = pv_updated p\<rparr>"

definition aiListProviders ::
  "admin_env \<Rightarrow> locals \<Rightarrow> string \<Rightarrow> admin_state \<Rightarrow> (http_error, provider_json list \<times> string list) result" where
  "aiListProviders e c q s =
     (let tid = targetTenant c q in
      if \<not> ae_up e 0 then Inl (HttpError 500 ''list failed'')
      else Inr (map provider_json_of (sort_key pv_name (filter (\<lambda>p. pv_tenant p = tid) (ad_providers s))), KnownKinds (ad_factories s)))"

record provider_create =
  pn_kind :: string
  pn_name :: string
  pn_base_url :: string
  pn_api_key :: string
  pn_region :: string
  pn_trust :: string
  pn_enabled :: bool

definition seal_key :: "admin_env \<Rightarrow> string \<Rightarrow> (crypto_error, string) result" where
  "seal_key e key = Encrypt (rw_prims (ae_world e)) (rw_key (ae_world e)) (ae_nonce e) key"

definition new_provider :: "admin_env \<Rightarrow> string \<Rightarrow> provider_create \<Rightarrow> string \<Rightarrow> string \<Rightarrow> provider_adm" where
  "new_provider e tid p trust encKey = \<lparr>pv_tenant = tid, pv_kind = pn_kind p, pv_name = pn_name p, pv_base_url = pn_base_url p,
     pv_api_key = nullable encKey, pv_region = pn_region p, pv_trust = trust, pv_enabled = boolToInt (pn_enabled p),
     pv_id = ae_id e, pv_created = ae_now e, pv_updated = ae_now e\<rparr>"

definition aiCreateProvider :: "admin_env \<Rightarrow> locals \<Rightarrow> string \<Rightarrow> provider_create option \<Rightarrow> admin_state \<Rightarrow> string admin_answer" where
  "aiCreateProvider e c q body s =
     (let tid = targetTenant c q in
      case body of
        None \<Rightarrow> (Inl (HttpError 400 ''kind and name required''), [], s)
      | Some p \<Rightarrow>
        if pn_kind p = [] \<or> pn_name p = [] then (Inl (HttpError 400 ''kind and name required''), [], s)
        else if pn_kind p \<notin> set (KnownKinds (ad_factories s)) then (Inl (HttpError 400 ''unknown provider kind''), [], s)
        else let trust = (if pn_trust p = [] then ''external'' else pn_trust p) in
        if trust \<notin> set trust_levels then (Inl (HttpError 400 ''invalid model_trust_level''), [], s)
        else (case validateProviderBaseURL e (pn_base_url p) trust of
           Inl er \<Rightarrow> (Inl (HttpError 400 (base_url_text er)), [], s)
         | Inr _ \<Rightarrow>
           (case (if pn_api_key p = [] then Inr [] else seal_key e (pn_api_key p)) of
              Inl _ \<Rightarrow> (Inl (HttpError 500 ''key encrypt failed''), [], s)
            | Inr encKey \<Rightarrow>
              if \<not> ae_up e 0 \<or> ae_id e \<in> set (map pv_id (ad_providers s)) then (Inl (HttpError 500 ''create failed''), [], s)
              else (Inr (ae_id e), [(tid, l_user_id c, ''ai.provider.create'', ''ai_provider'', ae_id e,
                       ''kind='' @ pn_kind p @ '' name='' @ pn_name p)],
                    s\<lparr>ad_providers := new_provider e tid p trust encKey # ad_providers s\<rparr>))))"

record provider_patch =
  px_name :: "string option"
  px_base_url :: "string option"
  px_api_key :: "string option"
  px_region :: "string option"
  px_trust :: "string option"
  px_enabled :: "bool option"

text \<open>The column of the key as the patch leaves it: \<open>None\<close> when the patch does not mention it.\<close>

definition patched_key :: "admin_env \<Rightarrow> provider_patch \<Rightarrow> (crypto_error, string option option) result" where
  "patched_key e p = (case px_api_key p of
       None \<Rightarrow> Inr None
     | Some k \<Rightarrow> if k = [] then Inr (Some None) else (case seal_key e k of Inl er \<Rightarrow> Inl er | Inr v \<Rightarrow> Inr (Some (Some v))))"

definition set_provider :: "provider_patch \<Rightarrow> string option option \<Rightarrow> unix \<Rightarrow> provider_adm \<Rightarrow> provider_adm" where
  "set_provider p key now r = r\<lparr>pv_updated := now, pv_name := patched_or (px_name p) (pv_name r), pv_base_url := patched_or (px_base_url p) (pv_base_url r),
     pv_api_key := patched_or key (pv_api_key r), pv_region := patched_or (px_region p) (pv_region r), pv_trust := patched_or (px_trust p) (pv_trust r),
     pv_enabled := patched_or (map_option boolToInt (px_enabled p)) (pv_enabled r)\<rparr>"

definition own_provider :: "string \<Rightarrow> string \<Rightarrow> provider_adm \<Rightarrow> bool" where
  "own_provider i tid p = (pv_id p = i \<and> pv_tenant p = tid)"

text \<open>The address and the trust level that the patch leads to; when the row cannot be read, both columns count as empty.\<close>

definition next_endpoint :: "bool \<Rightarrow> string \<Rightarrow> string \<Rightarrow> provider_patch \<Rightarrow> admin_state \<Rightarrow> string \<times> string" where
  "next_endpoint up i tid p s =
     (let (currURL, currTrust) = (case (if up then List.find (own_provider i tid) (ad_providers s) else None) of
            None \<Rightarrow> ([], []) | Some r \<Rightarrow> (pv_base_url r, pv_trust r))
      in (patched_or (px_base_url p) currURL, patched_or (px_trust p) currTrust))"

definition aiPatchProvider ::
  "admin_env \<Rightarrow> locals \<Rightarrow> string \<Rightarrow> string \<Rightarrow> provider_patch option \<Rightarrow> admin_state \<Rightarrow> string admin_answer" where
  "aiPatchProvider e c q i body s =
     (let tid = targetTenant c q in
      case body of
        None \<Rightarrow> (Inl (HttpError 400 ''invalid body''), [], s)
      | Some p \<Rightarrow>
        (case patched_key e p of
           Inl _ \<Rightarrow> (Inl (HttpError 500 ''key encrypt failed''), [], s)
         | Inr key \<Rightarrow>
           if px_trust p \<noteq> None \<and> the (px_trust p) \<notin> set trust_levels then (Inl (HttpError 400 ''invalid model_trust_level''), [], s)
           else (case (if px_base_url p \<noteq> None \<or> px_trust p \<noteq> None
                       then (case next_endpoint (ae_up e 0) i tid p s of (url, trust) \<Rightarrow> validateProviderBaseURL e url trust) else Inr ()) of
              Inl er \<Rightarrow> (Inl (HttpError 400 (base_url_text er)), [], s)
            | Inr _ \<Rightarrow>
              if \<not> ae_up e 1 then (Inl (HttpError 500 ''update failed''), [], s)
              else if \<not> list_ex (own_provider i tid) (ad_providers s) then (Inl (HttpError 404 ''provider not found''), [], s)
              else (Inr ''updated'', [(tid, l_user_id c, ''ai.provider.update'', ''ai_provider'', i, ''updated provider'')],
                    s\<lparr>ad_providers := map (\<lambda>r. if own_provider i tid r then set_provider p key (ae_now e) r else r) (ad_providers s)\<rparr>))))"

definition aiDeleteProvider :: "admin_env \<Rightarrow> locals \<Rightarrow> string \<Rightarrow> string \<Rightarrow> admin_state \<Rightarrow> string admin_answer" where
  "aiDeleteProvider e c q i s =
     (let tid = targetTenant c q in
      if \<not> ae_up e 0 then (Inl (HttpError 500 ''delete failed''), [], s)
      else if \<not> list_ex (own_provider i tid) (ad_providers s) then (Inl (HttpError 404 ''provider not found''), [], s)
      else (Inr ''deleted'', [(tid, l_user_id c, ''ai.provider.delete'', ''ai_provider'', i, ''deleted provider'')],
            s\<lparr>ad_providers := filter (\<lambda>r. \<not> own_provider i tid r) (ad_providers s)\<rparr>))"

section \<open>Routing rules\<close>

text \<open>The text of a rule, then its amounts: cost per call, tokens in and out, rates in and out.\<close>

record routing_json =
  rj_id :: string
  rj_task :: string
  rj_preferred :: string
  rj_fallback :: string
  rj_model :: string
  rj_embed :: string
  rj_amounts :: "int list"

definition int_of :: "int option \<Rightarrow> int" where
  "int_of v = (case v of Some n \<Rightarrow> n | None \<Rightarrow> 0)"

definition routing_json_of :: "routing_row \<Rightarrow> routing_json" where
  "routing_json_of r = \<lparr>rj_id = rt_id r, rj_task = rt_task r, rj_preferred = rt_provider r, rj_fallback = text_of (rt_fallback r),
     rj_model = rt_model r, rj_embed = text_of (rt_embed r),
     rj_amounts = map int_of [rt_max_cost r, rt_max_in r, rt_max_out r, rt_in r, rt_out r]\<rparr>"

definition aiListRouting :: "admin_env \<Rightarrow> locals \<Rightarrow> string \<Rightarrow> admin_state \<Rightarrow> (http_error, routing_json list) result" where
  "aiListRouting e c q s =
     (let tid = targetTenant c q in
      if \<not> ae_up e 0 then Inl (HttpError 500 ''list failed'')
      else Inr (map routing_json_of (sort_key rt_task (filter (\<lambda>r. rt_tenant r = tid) (ad_routes s)))))"

record routing_create =
  rq_task :: string
  rq_preferred :: string
  rq_fallback :: string
  rq_model :: string
  rq_embed :: string
  rq_max_cost :: int
  rq_max_in :: int
  rq_max_out :: int
  rq_in :: int
  rq_out :: int

definition validTaskType :: "string \<Rightarrow> bool" where
  "validTaskType t = (t \<in> set [''classify'', ''reason'', ''summarize'', ''embed'', ''generate''])"

definition providerOwned :: "bool \<Rightarrow> string \<Rightarrow> string \<Rightarrow> admin_state \<Rightarrow> bool" where
  "providerOwned up i tid s = (up \<and> length (filter (own_provider i tid) (ad_providers s)) > 0)"

definition new_route :: "admin_env \<Rightarrow> string \<Rightarrow> routing_create \<Rightarrow> routing_row" where
  "new_route e tid p = \<lparr>rt_provider = rq_preferred p, rt_model = rq_model p, rt_max_cost = Some (rq_max_cost p), rt_in = Some (rq_in p),
     rt_out = Some (rq_out p), rt_id = ae_id e, rt_tenant = tid, rt_task = rq_task p, rt_fallback = nullable (rq_fallback p),
     rt_embed = nullable (rq_embed p), rt_max_in = Some (rq_max_in p), rt_max_out = Some (rq_max_out p),
     rt_created = ae_now e, rt_updated = ae_now e\<rparr>"

text \<open>The primary key, and the unique index over tenant and task.\<close>

definition route_clash :: "routing_row \<Rightarrow> routing_row list \<Rightarrow> bool" where
  "route_clash n rs = list_ex (\<lambda>r. rt_id r = rt_id n \<or> rt_tenant r = rt_tenant n \<and> rt_task r = rt_task n) rs"

definition aiCreateRouting :: "admin_env \<Rightarrow> locals \<Rightarrow> string \<Rightarrow> routing_create option \<Rightarrow> admin_state \<Rightarrow> string admin_answer" where
  "aiCreateRouting e c q body s =
     (let tid = targetTenant c q in
      case body of
        None \<Rightarrow> (Inl (HttpError 400 ''task_type, preferred_provider_id, model_name required''), [], s)
      | Some p \<Rightarrow>
        if rq_task p = [] \<or> rq_preferred p = [] \<or> rq_model p = []
        then (Inl (HttpError 400 ''task_type, preferred_provider_id, model_name required''), [], s)
        else if \<not> validTaskType (rq_task p) then (Inl (HttpError 400 ''invalid task_type''), [], s)
        else if \<not> providerOwned (ae_up e 0) (rq_preferred p) tid s
        then (Inl (HttpError 400 ''preferred provider not found in tenant''), [], s)
        else if rq_fallback p \<noteq> [] \<and> \<not> providerOwned (ae_up e 1) (rq_fallback p) tid s
        then (Inl (HttpError 400 ''fallback provider not found in tenant''), [], s)
        else if \<not> ae_up e 2 \<or> route_clash (new_route e tid p) (ad_routes s)
        then (Inl (HttpError 409 ''create failed (routing rule for this task_type may already exist)''), [], s)
        else (Inr (ae_id e), [(tid, l_user_id c, ''ai.routing.create'', ''ai_routing_rule'', ae_id e, ''task='' @ rq_task p)],
              s\<lparr>ad_routes := new_route e tid p # ad_routes s\<rparr>))"

definition text_or :: "string \<Rightarrow> string \<Rightarrow> string" where
  "text_or new old = (if new \<noteq> [] then new else old)"

definition set_route :: "routing_create \<Rightarrow> unix \<Rightarrow> routing_row \<Rightarrow> routing_row" where
  "set_route p now r = r\<lparr>rt_updated := now, rt_provider := text_or (rq_preferred p) (rt_provider r),
     rt_fallback := (if rq_fallback p \<noteq> [] then Some (rq_fallback p) else rt_fallback r),
     rt_model := text_or (rq_model p) (rt_model r),
     rt_embed := (if rq_embed p \<noteq> [] then Some (rq_embed p) else rt_embed r),
     rt_max_cost := (if rq_max_cost p > 0 then Some (rq_max_cost p) else rt_max_cost r),
     rt_max_in := (if rq_max_in p > 0 then Some (rq_max_in p) else rt_max_in r),
     rt_max_out := (if rq_max_out p > 0 then Some (rq_max_out p) else rt_max_out r),
     rt_in := (if rq_in p \<ge> 0 then Some (rq_in p) else rt_in r),
     rt_out := (if rq_out p \<ge> 0 then Some (rq_out p) else rt_out r)\<rparr>"

definition own_route :: "string \<Rightarrow> string \<Rightarrow> routing_row \<Rightarrow> bool" where
  "own_route i tid r = (rt_id r = i \<and> rt_tenant r = tid)"

definition aiPatchRouting ::
  "admin_env \<Rightarrow> locals \<Rightarrow> string \<Rightarrow> string \<Rightarrow> routing_create option \<Rightarrow> admin_state \<Rightarrow> string admin_answer" where
  "aiPatchRouting e c q i body s =
     (let tid = targetTenant c q in
      case body of
        None \<Rightarrow> (Inl (HttpError 400 ''invalid body''), [], s)
      | Some p \<Rightarrow>
        if rq_preferred p \<noteq> [] \<and> \<not> providerOwned (ae_up e 0) (rq_preferred p) tid s
        then (Inl (HttpError 400 ''preferred provider not in tenant''), [], s)
        else if rq_fallback p \<noteq> [] \<and> \<not> providerOwned (ae_up e 1) (rq_fallback p) tid s
        then (Inl (HttpError 400 ''fallback provider not in tenant''), [], s)
        else if \<not> ae_up e 2 then (Inl (HttpError 500 ''update failed''), [], s)
        else if \<not> list_ex (own_route i tid) (ad_routes s) then (Inl (HttpError 404 ''routing rule not found''), [], s)
        else (Inr ''updated'', [(tid, l_user_id c, ''ai.routing.update'', ''ai_routing_rule'', i, ''updated routing rule'')],
              s\<lparr>ad_routes := map (\<lambda>r. if own_route i tid r then set_route p (ae_now e) r else r) (ad_routes s)\<rparr>))"

definition aiDeleteRouting :: "admin_env \<Rightarrow> locals \<Rightarrow> string \<Rightarrow> string \<Rightarrow> admin_state \<Rightarrow> string admin_answer" where
  "aiDeleteRouting e c q i s =
     (let tid = targetTenant c q in
      if \<not> ae_up e 0 then (Inl (HttpError 500 ''delete failed''), [], s)
      else if \<not> list_ex (own_route i tid) (ad_routes s) then (Inl (HttpError 404 ''routing rule not found''), [], s)
      else (Inr ''deleted'', [(tid, l_user_id c, ''ai.routing.delete'', ''ai_routing_rule'', i, ''deleted routing rule'')],
            s\<lparr>ad_routes := filter (\<lambda>r. \<not> own_route i tid r) (ad_routes s)\<rparr>))"

section \<open>Kill switches\<close>

definition upsert_kill :: "kill_row \<Rightarrow> kill_row list \<Rightarrow> kill_row list" where
  "upsert_kill k rows = k # filter (\<lambda>r. kl_scope r \<noteq> kl_scope k) rows"

text \<open>\<open>SetKill\<close> on the rows with all their columns.\<close>

definition set_kill :: "bool \<Rightarrow> string \<Rightarrow> bool \<Rightarrow> string \<Rightarrow> string \<Rightarrow> unix \<Rightarrow> admin_state \<Rightarrow> bool \<times> admin_state" where
  "set_kill up scope killed reason uid now s =
     (if \<not> up then (False, s)
      else (True, s\<lparr>ad_kills := upsert_kill \<lparr>kl_scope = scope, kl_enabled = boolToInt killed, kl_reason = reason, kl_user = uid, kl_at = now\<rparr> (ad_kills s),
                    ad_flags := (ad_flags s)(scope := killed)\<rparr>))"

definition kills_on :: "admin_state \<Rightarrow> kill_state" where
  "kills_on s = \<lparr>k_rows = (\<lambda>sc. map_option kl_enabled (List.find (\<lambda>r. kl_scope r = sc) (ad_kills s))),
     k_flags = ad_flags s, k_setting = {#}, k_loading = {#}\<rparr>"

definition well_formed_part :: "string \<Rightarrow> bool" where
  "well_formed_part p = (\<not> contains_any p ('' /'' @ [CHR 0x09, CHR 0x0D, CHR 0x0A]))"

definition validateKillScope :: "string \<Rightarrow> bool" where
  "validateKillScope s =
     (if s = ''global'' then True
      else let parts = split_on CHR '':'' s in
        (case parts of
           [a, b] \<Rightarrow> \<not> (a \<noteq> ''tenant'' \<and> a \<noteq> ''capability'' \<or> b = [])
         | [a, b, c, d] \<Rightarrow> \<not> (a \<noteq> ''tenant'' \<or> b = [] \<or> c \<noteq> ''capability'' \<or> d = [])
         | _ \<Rightarrow> False)
        \<and> list_all well_formed_part parts)"

definition aiListKill :: "admin_env \<Rightarrow> locals \<Rightarrow> admin_state \<Rightarrow> (http_error, kill_row list) result" where
  "aiListKill e c s =
     (if \<not> ae_up e 0 then Inl (HttpError 500 ''list failed'')
      else let tid = tenant_or_default c in
        Inr (filter (\<lambda>k. \<not> (\<not> IsSuperAdmin (l_user_role c) \<and> kl_scope k \<noteq> ''global'' \<and> \<not> has_prefix (kl_scope k) (''tenant:'' @ tid)))
               (sort_key kl_scope (ad_kills s))))"

definition kill_allowed :: "locals \<Rightarrow> string \<Rightarrow> (http_error, unit) result" where
  "kill_allowed c scope =
     (let tid = tenant_or_default c in
      if scope = ''global'' then
        guard (IsSuperAdmin (l_user_role c)) (HttpError 403 ''global kill switch is super_admin only'') (Inr ())
      else if has_prefix scope ''capability:'' then
        guard (IsSuperAdmin (l_user_role c)) (HttpError 403 ''global capability kill switch is super_admin only'') (Inr ())
      else if has_prefix scope ''tenant:'' then
        (if \<not> IsSuperAdmin (l_user_role c) \<and> \<not> has_prefix scope (''tenant:'' @ tid @ '':'') \<and> scope \<noteq> ''tenant:'' @ tid
         then Inl (HttpError 403 ''cannot flip kill switch for another tenant'') else Inr ())
      else Inl (HttpError 400 ''scope must be global, tenant, capability or tenant capability''))"

text \<open>A request names the scope, whether it is killed, and a reason.\<close>

definition aiSetKill :: "admin_env \<Rightarrow> locals \<Rightarrow> (string \<times> bool \<times> string) option \<Rightarrow> admin_state \<Rightarrow> string admin_answer" where
  "aiSetKill e c body s =
     (case body of
        None \<Rightarrow> (Inl (HttpError 400 ''scope required''), [], s)
      | Some (scope, killed, reason) \<Rightarrow>
        if scope = [] then (Inl (HttpError 400 ''scope required''), [], s)
        else if \<not> validateKillScope scope then (Inl (HttpError 400 (''scope '' @ ae_quote e scope @ '' is not well-formed'')), [], s)
        else (case kill_allowed c scope of
           Inl er \<Rightarrow> (Inl er, [], s)
         | Inr _ \<Rightarrow>
           (case set_kill (ae_up e 0) scope killed reason (l_user_id c) (ae_now e) s of
              (False, s') \<Rightarrow> (Inl (HttpError 500 ''ai: persist kill switch''), [], s')
            | (True, s') \<Rightarrow> (Inr ''set'', [(tenant_or_default c, l_user_id c, ''ai.killswitch.set'', ''ai_kill_switch'', scope,
                  ''killed='' @ bool_text killed @ '' reason='' @ ae_quote e reason)], s'))))"

section \<open>Capabilities\<close>

text \<open>A tenant without a row for a capability: the variables keep their zero values.\<close>

definition zero_config :: cap_config where
  "zero_config = \<lparr>cc_enabled = 0, cc_rung = [], cc_scope = None, cc_confidence = 0, cc_blast_max = 0, cc_blast_window = 0, cc_demoted_at = None\<rparr>"

definition config_of :: "string \<Rightarrow> string \<Rightarrow> admin_state \<Rightarrow> cap_config" where
  "config_of tid name s = (case ad_configs s (tid, name) of Some r \<Rightarrow> cap_config.truncate r | None \<Rightarrow> zero_config)"

record capability_json =
  kj_capability :: capability
  kj_unmet :: "string list"
  kj_enabled :: bool
  kj_rung :: rung
  kj_scope :: scope_filter
  kj_confidence :: int
  kj_blast_max :: int
  kj_blast_window :: int
  kj_killed :: bool

definition unmet_of :: "string \<Rightarrow> admin_state \<Rightarrow> string list" where
  "unmet_of name s = (case CheckDependencies (ad_caps s) (ad_sys s) name of Inl _ \<Rightarrow> [] | Inr unmet \<Rightarrow> unmet)"

definition shown_scope :: "admin_env \<Rightarrow> capability \<Rightarrow> cap_config \<Rightarrow> scope_filter" where
  "shown_scope e cap cc = (case cc_scope cc of None \<Rightarrow> cb_DefaultScope cap
     | Some raw \<Rightarrow> if raw = [] then no_scope else ae_filter_of e raw)"

definition capability_json_of :: "admin_env \<Rightarrow> string \<Rightarrow> admin_state \<Rightarrow> capability \<Rightarrow> capability_json" where
  "capability_json_of e tid s cap = (let cc = config_of tid (cb_Name cap) s in
     \<lparr>kj_capability = cap, kj_unmet = unmet_of (cb_Name cap) s, kj_enabled = (cc_enabled cc = 1), kj_rung = cc_rung cc,
      kj_scope = shown_scope e cap cc, kj_confidence = cc_confidence cc, kj_blast_max = cc_blast_max cc,
      kj_blast_window = cc_blast_window cc, kj_killed = IsKilled (ad_flags s) tid (cb_Name cap)\<rparr>)"

text \<open>A capability whose row cannot be read is left out.\<close>

definition aiListCapabilities :: "admin_env \<Rightarrow> locals \<Rightarrow> string \<Rightarrow> admin_state \<Rightarrow> capability_json list" where
  "aiListCapabilities e c q s =
     (let tid = targetTenant c q in
      concat (map (\<lambda>(i, cap). if ae_up e i then [capability_json_of e tid s cap] else []) (enumerate 0 (All (ad_caps s)))))"

record capability_patch =
  cp_enabled :: "bool option"
  cp_rung :: "rung option"
  cp_scope :: "scope_filter option"
  cp_confidence :: "int option"
  cp_blast_max :: "int option"
  cp_blast_window :: "int option"
  cp_kill :: "bool option"

definition rung_check :: "locals \<Rightarrow> rung option \<Rightarrow> (http_error, unit) result" where
  "rung_check c r = (case r of
       None \<Rightarrow> Inr ()
     | Some newRung \<Rightarrow>
         if newRung \<notin> {RungShadow, RungSuggest, RungActLow, RungActPolicy, RungAutonomous} then Inl (HttpError 400 ''invalid rung'')
         else if newRung \<in> {RungActLow, RungActPolicy, RungAutonomous} \<and> \<not> IsSuperAdmin (l_user_role c)
         then Inl (HttpError 403 (''only super_admin may promote past '' @ squoted ''suggest''))
         else Inr ())"

text \<open>The column of the filter: what the patch says, else the stored text, else the default of the capability.\<close>

definition scope_column :: "admin_env \<Rightarrow> capability \<Rightarrow> scope_filter option \<Rightarrow> string option \<Rightarrow> string option" where
  "scope_column e cap patched stored =
     (if patched = None \<and> stored \<noteq> None then nullable (the stored)
      else (case ae_filter_json e (patched_or patched (cb_DefaultScope cap)) of None \<Rightarrow> None | Some j \<Rightarrow> nullable j))"

definition merged_config :: "admin_env \<Rightarrow> capability \<Rightarrow> capability_patch \<Rightarrow> cap_config \<Rightarrow> cap_config" where
  "merged_config e cap p old = \<lparr>cc_enabled = patched_or (map_option boolToInt (cp_enabled p)) (cc_enabled old), cc_rung = patched_or (cp_rung p) (cc_rung old),
     cc_scope = scope_column e cap (cp_scope p) (cc_scope old), cc_confidence = patched_or (cp_confidence p) (cc_confidence old),
     cc_blast_max = patched_or (cp_blast_max p) (cc_blast_max old), cc_blast_window = patched_or (cp_blast_window p) (cc_blast_window old),
     cc_demoted_at = cc_demoted_at old\<rparr>"

definition upsert_config :: "admin_env \<Rightarrow> capability \<Rightarrow> cap_config \<Rightarrow> cap_row option \<Rightarrow> cap_row" where
  "upsert_config e cap n old = (case old of
       Some r \<Rightarrow> cap_config.extend n \<lparr>cc_id = cc_id r, cc_promotion = cc_promotion r, cc_updated = ae_now e\<rparr>
     | None \<Rightarrow> cap_config.extend n \<lparr>cc_id = ae_id e, cc_promotion = ae_promotion_json e (cb_DefaultPromotion cap), cc_updated = ae_now e\<rparr>)"

definition capability_kill :: "admin_env \<Rightarrow> locals \<Rightarrow> string \<Rightarrow> string \<Rightarrow> bool option \<Rightarrow> admin_state \<Rightarrow> admin_state" where
  "capability_kill e c tid name k s = (case k of
       None \<Rightarrow> s
     | Some killed \<Rightarrow> snd (set_kill (ae_up e 2) (''tenant:'' @ tid @ '':capability:'' @ name) killed ''set via dashboard'' (l_user_id c) (ae_now e) s))"

definition aiPatchCapability ::
  "admin_env \<Rightarrow> locals \<Rightarrow> string \<Rightarrow> string \<Rightarrow> capability_patch option \<Rightarrow> admin_state \<Rightarrow> string admin_answer" where
  "aiPatchCapability e c q name body s =
     (let tid = targetTenant c q in
      case Lookup (ad_caps s) name of
        None \<Rightarrow> (Inl (HttpError 404 ''capability not registered''), [], s)
      | Some cap \<Rightarrow>
       (case body of
          None \<Rightarrow> (Inl (HttpError 400 ''invalid body''), [], s)
        | Some p \<Rightarrow>
          (case rung_check c (cp_rung p) of
             Inl er \<Rightarrow> (Inl er, [], s)
           | Inr _ \<Rightarrow>
             if cp_enabled p = Some True \<and> unmet_of name s \<noteq> [] then (Inl (HttpError 424 ''unmet capability dependencies''), [], s)
             else if \<not> ae_up e 0 then (Inl (HttpError 500 ''load failed''), [], s)
             else if \<not> ae_up e 1 then (Inl (HttpError 500 ''upsert failed''), [], s)
             else let n = merged_config e cap p (config_of tid name s) in
               (Inr ''updated'', [(tid, l_user_id c, ''ai.capability.update'', ''ai_capability'', name,
                   ''enabled='' @ bool_text (cc_enabled n = 1) @ '' rung='' @ cc_rung n)],
                capability_kill e c tid name (cp_kill p)
                  (s\<lparr>ad_configs := (ad_configs s)((tid, name) \<mapsto> upsert_config e cap n (ad_configs s (tid, name)))\<rparr>)))))"

section \<open>Runs\<close>

definition clamp_or :: "int \<Rightarrow> int \<Rightarrow> int \<Rightarrow> int" where
  "clamp_or most other n = (if n \<le> 0 \<or> n > most then other else n)"

record run_json =
  uj_run :: ai_run
  uj_latency :: int
  uj_rb_tried :: bool
  uj_rb_ok :: bool

text \<open>Of \<open>uj_run\<close> the answer holds the identifier, capability, type, model, trust, tokens, cost, rung, outcome and time.\<close>

definition run_json_of :: "labelled_run \<Rightarrow> run_json" where
  "run_json_of r = \<lparr>uj_run = (ai_run.truncate r)\<lparr>ru_customer := None, ru_device := None, ru_ticket := None, ru_chain := [], ru_provider := [],
       ru_output := [], ru_action := None, ru_snap := [], ru_status := [], ru_signed := []\<rparr>,
     uj_latency = ru_latency r, uj_rb_tried = (ru_rb_tried r = 1), uj_rb_ok = (ru_rb_ok r = 1)\<rparr>"

text \<open>\<open>limit\<close> and \<open>offset\<close> as \<open>Atoi\<close> reads them; the database refuses a negative offset.\<close>

definition aiListRuns ::
  "admin_env \<Rightarrow> locals \<Rightarrow> string \<Rightarrow> int \<Rightarrow> int \<Rightarrow> string \<Rightarrow> admin_state \<Rightarrow> (http_error, run_json list) result" where
  "aiListRuns e c q limit offset capFilter s =
     (let tid = targetTenant c q; limit = clamp_or 500 100 limit in
      if \<not> ae_up e 0 \<or> offset < 0 then Inl (HttpError 500 ''list failed'')
      else Inr (map run_json_of (take (nat limit) (drop (nat offset) (sort_key (\<lambda>r. - ru_created r)
             (filter (\<lambda>r. ru_tenant r = tid \<and> (capFilter \<noteq> [] \<longrightarrow> ru_capability r = Some capFilter)) (ad_runs s)))))))"

definition aiVerifyRun ::
  "admin_env \<Rightarrow> locals \<Rightarrow> string \<Rightarrow> string \<Rightarrow> admin_state \<Rightarrow> (http_error, string \<times> string \<times> string \<times> bool) result" where
  "aiVerifyRun e c q i s =
     (case (if ae_up e 0 then LoadRunForVerification i (targetTenant c q) (runs_on s) else Inl ErrCapNotFound) of
        Inl _ \<Rightarrow> Inl (HttpError 404 ''ai: capability not registered in this build'')
      | Inr row \<Rightarrow> (let expected = RecomputeSignature (ae_world e) row in
           Inr (i, rv_Signed row, expected, expected = rv_Signed row)))"

definition own_run :: "string \<Rightarrow> string \<Rightarrow> labelled_run \<Rightarrow> bool" where
  "own_run i tid r = (ru_id r = i \<and> ru_tenant r = tid)"

text \<open>The body is the outcome and the reason.\<close>

definition aiLabelRun ::
  "admin_env \<Rightarrow> locals \<Rightarrow> string \<Rightarrow> string \<Rightarrow> (string \<times> string) option \<Rightarrow> admin_state \<Rightarrow> string admin_answer" where
  "aiLabelRun e c q i body s =
     (let tid = targetTenant c q; uid = l_user_id c in
      case body of
        None \<Rightarrow> (Inl (HttpError 400 ''invalid body''), [], s)
      | Some (outcome, reason) \<Rightarrow>
        if outcome \<notin> {''correct'', ''incorrect'', ''unclear''}
        then (Inl (HttpError 400 ''outcome must be correct | incorrect | unclear''), [], s)
        else (case (if ae_up e 0 then List.find (own_run i tid) (ad_runs s) else None) of
           None \<Rightarrow> (Inl (HttpError 404 ''run not found''), [], s)
         | Some r \<Rightarrow>
           if text_of (ru_outcome r) \<noteq> [] \<and> \<not> IsSuperAdmin (l_user_role c) \<and> text_of (ru_set_by r) \<noteq> uid
           then (Inl (HttpError 409 ''run already labelled by another user; only super_admin may override''), [], s)
           else if \<not> ae_up e 1 then (Inl (HttpError 500 ''label failed''), [], s)
           else (Inr ''labelled'', [(tid, uid, ''ai.run.label'', ''ai_run'', i, ''outcome='' @ outcome @ '' reason='' @ ae_quote e reason)],
                 s\<lparr>ad_runs := map (\<lambda>r. if own_run i tid r
                     then r\<lparr>ru_outcome := Some outcome, ru_set_by := Some uid, ru_set_at := Some (ae_now e)\<rparr> else r) (ad_runs s)\<rparr>)))"

record metrics_json =
  mj_capability :: string
  mj_days :: int
  mj_calls :: nat
  mj_correct :: nat
  mj_incorrect :: nat
  mj_unclear :: nat
  mj_rate :: rat
  mj_precision :: rat
  mj_cost :: int

definition counted :: "string \<Rightarrow> labelled_run list \<Rightarrow> nat" where
  "counted outcome rs = length (filter (\<lambda>r. ru_outcome r = Some outcome) rs)"

definition ratio :: "nat \<Rightarrow> nat \<Rightarrow> rat" where
  "ratio a b = (if b > 0 then of_nat a / of_nat b else 0)"

definition metrics_of :: "int \<Rightarrow> string \<Rightarrow> labelled_run list \<Rightarrow> metrics_json" where
  "metrics_of days cap rs =
     (let lc = counted ''correct'' rs; li = counted ''incorrect'' rs; lu = counted ''unclear'' rs; labelled = lc + li + lu in
      \<lparr>mj_capability = cap, mj_days = days, mj_calls = length rs, mj_correct = lc, mj_incorrect = li, mj_unclear = lu,
       mj_rate = ratio labelled (length rs), mj_precision = ratio lc labelled, mj_cost = sum_list (map ru_cost rs)\<rparr>)"

text \<open>The groups of \<open>GROUP BY\<close> with the runs that count: no failed call, and a capability.\<close>

definition metric_rows :: "string \<Rightarrow> unix \<Rightarrow> labelled_run list \<Rightarrow> labelled_run list" where
  "metric_rows tid since rs = filter (\<lambda>r. ru_tenant r = tid \<and> ru_created r \<ge> since \<and> ru_capability r \<noteq> None \<and> ru_capability r \<noteq> Some []
     \<and> \<not> has_prefix (ru_output r) ''[error]'') rs"

definition aiCapabilityMetrics ::
  "admin_env \<Rightarrow> locals \<Rightarrow> string \<Rightarrow> int \<Rightarrow> admin_state \<Rightarrow> (http_error, metrics_json list \<times> unix) result" where
  "aiCapabilityMetrics e c q days s =
     (let tid = targetTenant c q; days = clamp_or 90 14 days; since = ae_now e - days * 86400; rs = metric_rows tid since (ad_runs s) in
      if \<not> ae_up e 0 then Inl (HttpError 500 ''metrics query failed'')
      else Inr (take 200 (sort_key (\<lambda>m. - int (mj_calls m))
              (map (\<lambda>cap. metrics_of days cap (filter (\<lambda>r. ru_capability r = Some cap) rs)) (remdups (map (\<lambda>r. the (ru_capability r)) rs)))), since))"

section \<open>Errors of the chokepoint\<close>

text \<open>The status for an error of \<open>Run\<close>; only the sentinels are told apart.\<close>

fun aiMapErr :: "ai_error \<Rightarrow> nat" where
  "aiMapErr ErrAINotSupported = 503"
| "aiMapErr ErrAIDisabled = 403"
| "aiMapErr ErrCapabilityDisabled = 403"
| "aiMapErr ErrCapabilityKilled = 503"
| "aiMapErr ErrCostCap = 402"
| "aiMapErr (ErrTenantSuspended st) = 403"
| "aiMapErr (ErrUnmetDependency unmet) = 424"
| "aiMapErr ErrProviderCapMismatch = 424"
| "aiMapErr ErrCapNotFound = 424"
| "aiMapErr ErrNoProvider = 503"
| "aiMapErr e = 500"

text \<open>The search of an operator; \<open>E\<close>, \<open>w\<close> and the identifier of the run are those of \<open>Search\<close>.\<close>

definition aiAssistSearch ::
  "search_env \<Rightarrow> ai_world \<Rightarrow> string \<Rightarrow> locals \<Rightarrow> string \<Rightarrow> (string \<times> string) option \<Rightarrow> ai_state \<Rightarrow> (nat, search_result) result \<times> ai_state" where
  "aiAssistSearch E w runID c q body s =
     (case body of
        None \<Rightarrow> (Inl 400, s)
      | Some (query, customerID) \<Rightarrow>
        if query = [] then (Inl 400, s)
        else (case Search E w runID \<lparr>ps_TenantID = targetTenant c q, ps_CustomerID = customerID\<rparr> query s of
            (Inl (Run_error er), s') \<Rightarrow> (Inl (aiMapErr er), s')
          | (Inl _, s') \<Rightarrow> (Inl 500, s')
          | (Inr res, s') \<Rightarrow> (Inr res, s')))"

section \<open>Playbooks and probes\<close>

definition aiListPlaybooks :: "pb_registry \<Rightarrow> (string \<times> string \<times> string) list" where
  "aiListPlaybooks pbs = map (\<lambda>p. (pb_Name p, pb_Description p, pb_Severity p)) (AllPlaybooks pbs)"

record probe_listed = probe_row +
  qb_window_ends :: unix
  qb_outcome_at :: "unix option"
  qb_created :: unix

text \<open>An answer has the texts (identifier, device, capability, playbook, token, signature, status, outcome) and the numbers
  (due time, end of the window, attempts, time of the outcome, creation).\<close>

definition probe_json_of :: "probe_listed \<Rightarrow> string list \<times> int list" where
  "probe_json_of p = ([qb_id p, qb_device p, qb_capability p, qb_playbook p, qb_token p, text_of (qb_sig p), qb_status p, text_of (qb_outcome p)],
     [qb_run_at p, qb_window_ends p, qb_attempts p, int_of (qb_outcome_at p), qb_created p])"

definition aiListProbes ::
  "bool \<Rightarrow> locals \<Rightarrow> string \<Rightarrow> string \<Rightarrow> int \<Rightarrow> probe_listed list \<Rightarrow> (http_error, (string list \<times> int list) list) result" where
  "aiListProbes up c q status limit ps =
     (let tid = targetTenant c q; limit = clamp_or 500 100 limit in
      if \<not> up then Inl (HttpError 500 ''list failed'')
      else Inr (map probe_json_of (take (nat limit) (sort_key (\<lambda>p. - qb_created p)
             (filter (\<lambda>p. qb_tenant p = tid \<and> (if status \<noteq> [] then qb_status p = status else True)) ps)))))"

section \<open>Requests in any order\<close>

datatype ai_op =
    Get_tenant
  | Patch_tenant "tenant_patch option"
  | List_providers
  | Create_provider "provider_create option"
  | Patch_provider string "provider_patch option"
  | Delete_provider string
  | List_routing
  | Create_routing "routing_create option"
  | Patch_routing string "routing_create option"
  | Delete_routing string
  | List_capabilities
  | Patch_capability string "capability_patch option"
  | List_runs int int string
  | Verify_run string
  | Label_run string "(string \<times> string) option"
  | Show_metrics int
  | List_kill
  | Set_kill "(string \<times> bool \<times> string) option"

datatype ai_reply = Said string | Shown_tenant tenant_json | Providers "provider_json list \<times> string list" | Routes "routing_json list"
  | Capabilities "capability_json list" | Runs "run_json list" | Verified "string \<times> string \<times> string \<times> bool"
  | Metrics "metrics_json list \<times> unix" | Kills "kill_row list"

definition read_only :: "(http_error, ai_reply) result \<Rightarrow> admin_state \<Rightarrow> ai_reply admin_answer" where
  "read_only r s = (r, [], s)"

definition with_reply :: "('a \<Rightarrow> ai_reply) \<Rightarrow> 'a admin_answer \<Rightarrow> ai_reply admin_answer" where
  "with_reply f r = (case r of (x, a, s) \<Rightarrow> (map_sum id f x, a, s))"

fun do_ai_op :: "admin_env \<Rightarrow> locals \<Rightarrow> string \<Rightarrow> ai_op \<Rightarrow> admin_state \<Rightarrow> ai_reply admin_answer" where
  "do_ai_op e c q Get_tenant s = read_only (map_sum id Shown_tenant (aiGetTenant e c q s)) s"
| "do_ai_op e c q (Patch_tenant b) s = with_reply Said (aiPatchTenant e c q b s)"
| "do_ai_op e c q List_providers s = read_only (map_sum id Providers (aiListProviders e c q s)) s"
| "do_ai_op e c q (Create_provider b) s = with_reply Said (aiCreateProvider e c q b s)"
| "do_ai_op e c q (Patch_provider i b) s = with_reply Said (aiPatchProvider e c q i b s)"
| "do_ai_op e c q (Delete_provider i) s = with_reply Said (aiDeleteProvider e c q i s)"
| "do_ai_op e c q List_routing s = read_only (map_sum id Routes (aiListRouting e c q s)) s"
| "do_ai_op e c q (Create_routing b) s = with_reply Said (aiCreateRouting e c q b s)"
| "do_ai_op e c q (Patch_routing i b) s = with_reply Said (aiPatchRouting e c q i b s)"
| "do_ai_op e c q (Delete_routing i) s = with_reply Said (aiDeleteRouting e c q i s)"
| "do_ai_op e c q List_capabilities s = read_only (Inr (Capabilities (aiListCapabilities e c q s))) s"
| "do_ai_op e c q (Patch_capability n b) s = with_reply Said (aiPatchCapability e c q n b s)"
| "do_ai_op e c q (List_runs l k f) s = read_only (map_sum id Runs (aiListRuns e c q l k f s)) s"
| "do_ai_op e c q (Verify_run i) s = read_only (map_sum id Verified (aiVerifyRun e c q i s)) s"
| "do_ai_op e c q (Label_run i b) s = with_reply Said (aiLabelRun e c q i b s)"
| "do_ai_op e c q (Show_metrics d) s = read_only (map_sum id Metrics (aiCapabilityMetrics e c q d s)) s"
| "do_ai_op e c q List_kill s = read_only (map_sum id Kills (aiListKill e c s)) s"
| "do_ai_op e c q (Set_kill b) s = with_reply Said (aiSetKill e c b s)"

text \<open>A request: who asks, the tenant of its query, the operation, and what it meets.\<close>

type_synonym ai_request = "locals \<times> string \<times> admin_env \<times> ai_op"

definition ai_step :: "ai_request \<Rightarrow> admin_state \<Rightarrow> ((http_error, ai_reply) result \<times> audit_entry list) \<times> admin_state" where
  "ai_step r s = (case r of (c, q, e, op) \<Rightarrow>
     (case AdminMiddleware c of
        Inl er \<Rightarrow> ((Inl er, []), s)
      | Inr c \<Rightarrow>
       (case aiDialectGate e c of
          Inl er \<Rightarrow> ((Inl er, []), s)
        | Inr c \<Rightarrow> (case do_ai_op e c q op s of (x, a, s') \<Rightarrow> ((x, a), s')))))"

end
