(* ===== verification/AiAdminProps.thy ===== *)
theory AiAdminProps
  imports AiAdmin
begin

text \<open>
  What the settings of the AI layer (theory AiAdmin) guarantee in any sequence of requests: which provider a run uses, how far tenant
  admins can raise their own tenant, and that they do not reach others. The last section states what the handlers do beyond that.
\<close>

section \<open>A run uses its own tenant's provider\<close>

lemma run_ops_invariant:
  assumes "\<And>op s. good op s \<Longrightarrow> I s \<Longrightarrow> I (snd (step op s))"
  shows "ops_ok good step ops s \<Longrightarrow> I s \<Longrightarrow> I (snd (run_ops step ops s))"
  by (induction ops arbitrary: s) (simp_all add: split_beta assms)

definition rt_refs :: "routing_row \<Rightarrow> string set" where
  "rt_refs r = insert (rt_provider r) (set_option (rt_fallback r))"

definition own_refs :: "routing_row \<Rightarrow> provider_adm list \<Rightarrow> bool" where
  "own_refs r ps = (\<forall>p \<in> set ps. pv_id p \<in> rt_refs r \<longrightarrow> pv_tenant p = rt_tenant r)"

text \<open>Rules refer to providers of their own tenant, or to deleted ones.\<close>

definition ai_inv :: "admin_state \<Rightarrow> bool" where
  "ai_inv s = (distinct (map pv_id (ad_providers s)) \<and> (\<forall>r \<in> set (ad_routes s). own_refs r (ad_providers s)))"

text \<open>Identifiers are drawn fresh: not among those a rule still refers to.\<close>

definition fresh_request :: "ai_request \<Rightarrow> admin_state \<Rightarrow> bool" where
  "fresh_request r s = (case r of (c, q, e, op) \<Rightarrow> \<forall>x \<in> set (ad_routes s). ae_id e \<notin> rt_refs x)"

lemma set_provider_keeps [simp]: "pv_id (set_provider p k n r) = pv_id r" "pv_tenant (set_provider p k n r) = pv_tenant r"
  by (simp_all add: set_provider_def)

lemma set_route_keeps [simp]: "rt_id (set_route p n r) = rt_id r" "rt_tenant (set_route p n r) = rt_tenant r" "rt_task (set_route p n r) = rt_task r"
  by (simp_all add: set_route_def)

lemma owned_provider:
  assumes "providerOwned up i tid s" and "ai_inv s" and "p \<in> set (ad_providers s)" and "pv_id p = i"
  shows "pv_tenant p = tid"
proof -
  from assms(1) obtain p' where p': "p' \<in> set (ad_providers s)" "pv_id p' = i" "pv_tenant p' = tid"
    by (auto simp: providerOwned_def own_provider_def filter_empty_conv)
  then have "p' = p" using assms by (auto simp: ai_inv_def distinct_map dest: inj_onD)
  with p' show ?thesis by simp
qed

lemma own_refs_shrink: "set ps \<subseteq> set qs \<Longrightarrow> own_refs r qs \<Longrightarrow> own_refs r ps"
  by (auto simp: own_refs_def)

lemma set_some_provider [simp]:
  "pv_id (if b then set_provider p k n r else r) = pv_id r" "pv_tenant (if b then set_provider p k n r else r) = pv_tenant r"
  by simp_all

lemma own_refs_update: "own_refs r (map (\<lambda>x. if P x then set_provider p k n x else x) ps) = own_refs r ps"
  by (simp only: own_refs_def set_map ball_simps set_some_provider)

lemma rt_refs_new: "rt_refs (new_route e tid p) = insert (rq_preferred p) (set_option (nullable (rq_fallback p)))"
  by (simp add: rt_refs_def new_route_def)

lemma rt_refs_set: "rt_refs (set_route p n r) \<subseteq> rt_refs r \<union> ({rq_preferred p, rq_fallback p} - {[]})"
  by (auto simp: rt_refs_def set_route_def text_or_def)

lemma set_kill_frame [simp]:
  "ad_providers (snd (set_kill up sc k re u n s)) = ad_providers s" "ad_routes (snd (set_kill up sc k re u n s)) = ad_routes s"
  "ad_tenants (snd (set_kill up sc k re u n s)) = ad_tenants s" "ad_configs (snd (set_kill up sc k re u n s)) = ad_configs s"
  "ad_runs (snd (set_kill up sc k re u n s)) = ad_runs s" "ad_counters (snd (set_kill up sc k re u n s)) = ad_counters s"
  "ad_caps (snd (set_kill up sc k re u n s)) = ad_caps s" "ad_sys (snd (set_kill up sc k re u n s)) = ad_sys s"
  "ad_factories (snd (set_kill up sc k re u n s)) = ad_factories s"
  by (simp_all add: set_kill_def)

lemma capability_kill_frame [simp]:
  "ad_providers (capability_kill e c t n k s) = ad_providers s" "ad_routes (capability_kill e c t n k s) = ad_routes s"
  "ad_tenants (capability_kill e c t n k s) = ad_tenants s" "ad_configs (capability_kill e c t n k s) = ad_configs s"
  "ad_runs (capability_kill e c t n k s) = ad_runs s" "ad_counters (capability_kill e c t n k s) = ad_counters s"
  "ad_caps (capability_kill e c t n k s) = ad_caps s" "ad_sys (capability_kill e c t n k s) = ad_sys s"
  "ad_factories (capability_kill e c t n k s) = ad_factories s"
  by (simp_all add: capability_kill_def split: option.splits)

lemma create_provider_inv:
  assumes "ai_inv s" and "\<forall>x \<in> set (ad_routes s). ae_id e \<notin> rt_refs x"
  shows "ai_inv (snd (snd (aiCreateProvider e c q b s)))"
  using assms
  by (auto simp: aiCreateProvider_def Let_def ai_inv_def own_refs_def new_provider_def split: option.split sum.split)

lemma patch_provider_inv: "ai_inv s \<Longrightarrow> ai_inv (snd (snd (aiPatchProvider e c q i b s)))"
proof -
  have ids: "map pv_id (map (\<lambda>x. if P x then set_provider p k n x else x) ps) = map pv_id ps" for P p k n ps
    by (simp only: map_map comp_def set_some_provider)
  assume "ai_inv s"
  then have "ai_inv (s\<lparr>ad_providers := map (\<lambda>x. if P x then set_provider p k n x else x) (ad_providers s)\<rparr>)" for P p k n
    by (simp add: ai_inv_def own_refs_update ids del: map_map)
  then show ?thesis using \<open>ai_inv s\<close> by (simp add: aiPatchProvider_def Let_def split: option.split sum.split)
qed

lemma delete_provider_inv: "ai_inv s \<Longrightarrow> ai_inv (snd (snd (aiDeleteProvider e c q i s)))"
  by (auto simp: aiDeleteProvider_def Let_def ai_inv_def distinct_map_filter intro: own_refs_shrink [of _ "ad_providers s"])

lemma create_routing_inv:
  assumes "ai_inv s"
  shows "ai_inv (snd (snd (aiCreateRouting e c q b s)))"
proof -
  have "own_refs (new_route e t p) (ad_providers s)"
    if "providerOwned u1 (rq_preferred p) t s" "rq_fallback p \<noteq> [] \<longrightarrow> providerOwned u2 (rq_fallback p) t s" for t p u1 u2
    using that owned_provider [OF that(1) assms] owned_provider [of u2 "rq_fallback p" t s, OF _ assms]
    by (auto simp: own_refs_def rt_refs_new nullable_def) (simp_all add: new_route_def)
  with assms show ?thesis by (auto simp: aiCreateRouting_def Let_def ai_inv_def split: option.split)
qed

lemma patch_routing_inv:
  assumes "ai_inv s"
  shows "ai_inv (snd (snd (aiPatchRouting e c q i b s)))"
proof -
  have own: "own_refs (set_route p n r) (ad_providers s)"
    if "rq_preferred p \<noteq> [] \<longrightarrow> providerOwned u1 (rq_preferred p) t s" "rq_fallback p \<noteq> [] \<longrightarrow> providerOwned u2 (rq_fallback p) t s"
      "own_route i t r" "r \<in> set (ad_routes s)" for t p u1 u2 n r
  proof -
    have "own_refs r (ad_providers s)" and "rt_tenant r = t" using assms that by (auto simp: ai_inv_def own_route_def)
    then show ?thesis
      using that(1,2) owned_provider [of u1 "rq_preferred p" t s, OF _ assms] owned_provider [of u2 "rq_fallback p" t s, OF _ assms]
        rt_refs_set [of p n r]
      by (fastforce simp: own_refs_def)
  qed
  show ?thesis using assms
    by (auto simp: aiPatchRouting_def Let_def ai_inv_def simp del: not_Cons_self split: option.split) (blast intro: own)+
qed


lemma other_tables_inv:
  assumes "ai_inv s"
  shows "ai_inv (snd (snd (aiPatchTenant e c q b1 s)))" and "ai_inv (snd (snd (aiDeleteRouting e c q i s)))"
    and "ai_inv (snd (snd (aiPatchCapability e c q n b2 s)))" and "ai_inv (snd (snd (aiLabelRun e c q i b3 s)))"
    and "ai_inv (snd (snd (aiSetKill e c b4 s)))"
  using assms
  by (auto simp: aiPatchTenant_def aiDeleteRouting_def aiPatchCapability_def aiLabelRun_def aiSetKill_def set_kill_def ai_inv_def Let_def
      split: option.split sum.split)

lemma with_reply_state [simp]: "snd (snd (with_reply f r)) = snd (snd r)" "snd (snd (read_only x s)) = s"
  by (simp_all add: with_reply_def read_only_def split_beta)

lemma ai_step_state:
  "snd (ai_step (c, q, e, op) s) = (if is_ok (AdminMiddleware c) \<and> is_ok (aiDialectGate e c) then snd (snd (do_ai_op e c q op s)) else s)"
  by (auto simp: ai_step_def AdminMiddleware_def aiDialectGate_def guard_def split_beta split: sum.split)

lemma ai_step_inv:
  assumes "fresh_request r s" and "ai_inv s"
  shows "ai_inv (snd (ai_step r s))"
proof -
  obtain c q e op where r: "r = (c, q, e, op)" by (cases r)
  have "ai_inv (snd (snd (do_ai_op e c q op s)))"
    using assms create_provider_inv [of s e c q] patch_provider_inv [of s e c q] delete_provider_inv [of s e c q]
      create_routing_inv [of s e c q] patch_routing_inv [of s e c q] other_tables_inv [of s]
    by (cases op) (simp_all add: fresh_request_def r)
  then show ?thesis using assms(2) by (simp add: r ai_step_state)
qed

lemma own_route_found: "route_of t task rs = Some r \<Longrightarrow> r \<in> set rs \<and> rt_tenant r = t"
  by (auto simp: route_of_def find_Some_iff)

lemma own_provider_found: "provider_of i ps = Some p \<Longrightarrow> p \<in> set ps \<and> pv_id p = i"
  by (auto simp: provider_of_def find_Some_iff)

lemma truncated [simp]: "pv_tenant (provider_row.truncate p) = pv_tenant p" "rt_provider (route.truncate r) = rt_provider r"
  "at_enabled (ai_tenant.truncate t) = at_enabled t" "cc_rung (cap_config.truncate k) = cc_rung k" "cc_enabled (cap_config.truncate k) = cc_enabled k"
  by (simp_all add: provider_row.truncate_def route.truncate_def ai_tenant.truncate_def cap_config.truncate_def)

lemma loadProvider_tenant:
  "loadProvider w i s = Inr pc \<Longrightarrow> \<exists>p. ai_providers s i = Some p \<and> pc_ID pc = i \<and> pc_TenantID pc = pv_tenant p"
  by (auto simp: loadProvider_def Let_def split: if_splits option.splits sum.splits)

text \<open>
  C35. Whatever administrators and the owner request, for whichever tenants and with whichever statements failing, a run of a tenant
  is sent to a provider of that tenant, with its key: the provider that \<open>Run\<close> loads is a row of the tenant of its input.
\<close>

theorem runs_use_own_provider:
  assumes "ops_ok fresh_request ai_step rs s" and "ai_inv s"
    and "loadRuntime w inp (runs_on (snd (run_ops ai_step rs s))) = Inr cfg"
  shows "pc_TenantID (rc_providerCfg cfg) = in_TenantID inp
    \<and> list_ex (own_provider (pc_ID (rc_providerCfg cfg)) (in_TenantID inp)) (ad_providers (snd (run_ops ai_step rs s)))"
proof -
  let ?s = "snd (run_ops ai_step rs s)"
  have inv: "ai_inv ?s" by (rule run_ops_invariant [OF ai_step_inv assms(1,2)])
  from loadRuntime_ok [OF assms(3)] obtain r0 where r0: "ai_routes (runs_on ?s) (in_TenantID inp, task_type (runs_on ?s) inp) = Some r0"
    and lp: "loadProvider w (rt_provider r0) (runs_on ?s) = Inr (rc_providerCfg cfg)" by blast
  from r0 obtain r where r: "r \<in> set (ad_routes ?s)" "rt_tenant r = in_TenantID inp" "rt_provider r = rt_provider r0"
    by (auto simp: runs_on_def dest: own_route_found)
  from loadProvider_tenant [OF lp] obtain p where p: "p \<in> set (ad_providers ?s)" "pv_id p = rt_provider r0"
      "pc_ID (rc_providerCfg cfg) = rt_provider r0" "pc_TenantID (rc_providerCfg cfg) = pv_tenant p"
    by (auto simp: runs_on_def dest: own_provider_found)
  have "pv_tenant p = in_TenantID inp" using inv r p(1,2) by (auto simp: ai_inv_def own_refs_def rt_refs_def)
  then show ?thesis using p by (auto simp: list_ex_iff own_provider_def)
qed

definition toy_admin :: "string \<Rightarrow> string \<Rightarrow> locals" where
  "toy_admin role T = no_locals\<lparr>l_user_id := ''u1'', l_user_role := role, l_tenant_id := T\<rparr>"

definition toy_admin_env :: "string \<Rightarrow> admin_env" where
  "toy_admin_env i = \<lparr>ae_up = (\<lambda>_. True), ae_now = 7, ae_id = i, ae_nonce = None, ae_world = toy_ai_world, ae_filter_json = (\<lambda>_. Some ''f''),
     ae_filter_of = (\<lambda>_. no_scope), ae_promotion_json = (\<lambda>_. ''p''), ae_parse_url = (\<lambda>_. None), ae_lookup = (\<lambda>_. []), ae_quote = (\<lambda>x. x)\<rparr>"

definition toy_settings :: admin_state where
  "toy_settings = \<lparr>ad_caps = [(''c'', toy_capability)], ad_sys = Map.empty, ad_factories = ai_factories toy_ai,
     ad_tenants = [''t'' \<mapsto> ai_tenant.extend \<lparr>at_enabled = 1, at_status = ''active'', at_chat_cap = 100, at_embed_cap = 100\<rparr> \<lparr>at_billing = None, at_dpa = None\<rparr>],
     ad_providers = [], ad_routes = [], ad_configs = Map.empty, ad_runs = [], ad_kills = [], ad_flags = (\<lambda>_. False), ad_counters = (\<lambda>_. 0)\<rparr>"

definition toy_requests :: "ai_request list" where
  "toy_requests = [(toy_admin ''admin'' ''t'', [], toy_admin_env ''p1'', Create_provider (Some \<lparr>pn_kind = ''k'', pn_name = ''n'', pn_base_url = [],
       pn_api_key = [], pn_region = [], pn_trust = [], pn_enabled = True\<rparr>)),
     (toy_admin ''super_admin'' ''o'', ''t'', toy_admin_env ''r1'', Create_routing (Some \<lparr>rq_task = ''classify'', rq_preferred = ''p1'', rq_fallback = [],
       rq_model = ''m'', rq_embed = [], rq_max_cost = 0, rq_max_in = 0, rq_max_out = 0, rq_in = 0, rq_out = 0\<rparr>))]"


lemma toy_settings_reached:
  "ops_ok fresh_request ai_step toy_requests toy_settings"
  "\<exists>cfg. loadRuntime toy_ai_world toy_input (runs_on (snd (run_ops ai_step toy_requests toy_settings))) = Inr cfg \<and> pc_ID (rc_providerCfg cfg) = ''p1''"
  by (simp_all add: toy_requests_def toy_settings_def toy_admin_def toy_admin_env_def toy_ai_world_def toy_ai_def toy_input_def no_locals_def ai_step_def
      AdminMiddleware_def aiDialectGate_def SupportedDialect_def guard_def aiCreateProvider_def aiCreateRouting_def validateProviderBaseURL_def Let_def
      targetTenant_def tenant_or_default_def IsSuperAdmin_def KnownKinds_def trust_levels_def nullable_def boolToInt_def new_provider_def new_route_def
      with_reply_def validTaskType_def providerOwned_def own_provider_def route_clash_def fresh_request_def rt_refs_def runs_on_def route_of_def
      provider_of_def loadRuntime_def task_type_def Lookup_def toy_capability_def loadProvider_def truncated ai_tenant.truncate_def route.truncate_def
      provider_row.truncate_def ai_tenant.extend_def)


theorem runs_use_own_provider_witness:
  "\<exists>cfg. loadRuntime toy_ai_world toy_input (runs_on (snd (run_ops ai_step toy_requests toy_settings))) = Inr cfg
     \<and> pc_TenantID (rc_providerCfg cfg) = ''t''"
proof -
  have i: "ai_inv toy_settings" by (simp add: ai_inv_def toy_settings_def)
  obtain cfg where cfg: "loadRuntime toy_ai_world toy_input (runs_on (snd (run_ops ai_step toy_requests toy_settings))) = Inr cfg"
    using toy_settings_reached(2) by blast
  from runs_use_own_provider [OF toy_settings_reached(1) i cfg] have "pc_TenantID (rc_providerCfg cfg) = ''t''"
    by (simp add: toy_input_def)
  with cfg show ?thesis by blast
qed

section \<open>A tenant admin cannot escalate\<close>

definition admin_request :: "ai_request \<Rightarrow> admin_state \<Rightarrow> bool" where
  "admin_request r s = (case r of (c, q, e, op) \<Rightarrow> \<not> IsSuperAdmin (l_user_role c))"

definition ai_on :: "string \<Rightarrow> admin_state \<Rightarrow> bool" where
  "ai_on T s = (case ad_tenants s T of Some t \<Rightarrow> at_enabled t = 1 | None \<Rightarrow> False)"

text \<open>Since \<open>s0\<close>, no tenant was switched on and no capability was moved to a rung past \<open>suggest\<close>.\<close>

definition not_raised :: "admin_state \<Rightarrow> admin_state \<Rightarrow> bool" where
  "not_raised s0 s = ((\<forall>T. ai_on T s \<longrightarrow> ai_on T s0)
     \<and> (\<forall>T n. cc_rung (config_of T n s) = cc_rung (config_of T n s0) \<or> \<not> rungAtLeast (cc_rung (config_of T n s)) RungActLow))"

lemma low_rungs: "rung_check c r = Inr () \<Longrightarrow> \<not> IsSuperAdmin (l_user_role c) \<Longrightarrow> r = Some x \<Longrightarrow> \<not> rungAtLeast x RungActLow"
  by (auto simp: rung_check_def rungAtLeast_def rung_order_def rung_defs split: if_splits)

lemma patch_tenant_off:
  assumes "\<not> IsSuperAdmin (l_user_role c)" and "ai_on T (snd (snd (aiPatchTenant e c q b s)))"
  shows "ai_on T s"
  using assms
  by (auto simp: aiPatchTenant_def Let_def ai_on_def tenant_patch_checks_def set_tenant_def patched_or_def boolToInt_def
      split: option.splits sum.splits if_splits)

lemma patch_capability_low:
  assumes "\<not> IsSuperAdmin (l_user_role c)"
  shows "cc_rung (config_of T n (snd (snd (aiPatchCapability e c q m b s)))) = cc_rung (config_of T n s)
    \<or> \<not> rungAtLeast (cc_rung (config_of T n (snd (snd (aiPatchCapability e c q m b s))))) RungActLow"
  using assms low_rungs [of c]
  by (auto simp: aiPatchCapability_def Let_def config_of_def upsert_config_def cap_config.truncate_def cap_config.extend_def merged_config_def patched_or_def
      split: option.splits sum.splits)

lemma kill_configs [simp]:
  "ad_configs (snd (snd (aiSetKill e c b s))) = ad_configs s" "ad_tenants (snd (snd (aiSetKill e c b s))) = ad_tenants s"
  by (auto simp: aiSetKill_def set_kill_def split: option.split sum.split)

lemma keeps_configs [simp]:
  "ad_configs (snd (snd (aiPatchTenant e c q b1 s))) = ad_configs s"
  "ad_configs (snd (snd (aiCreateProvider e c q b2 s))) = ad_configs s" "ad_tenants (snd (snd (aiCreateProvider e c q b2 s))) = ad_tenants s"
  "ad_configs (snd (snd (aiPatchProvider e c q i b3 s))) = ad_configs s" "ad_tenants (snd (snd (aiPatchProvider e c q i b3 s))) = ad_tenants s"
  "ad_configs (snd (snd (aiDeleteProvider e c q i s))) = ad_configs s" "ad_tenants (snd (snd (aiDeleteProvider e c q i s))) = ad_tenants s"
  "ad_configs (snd (snd (aiCreateRouting e c q b4 s))) = ad_configs s" "ad_tenants (snd (snd (aiCreateRouting e c q b4 s))) = ad_tenants s"
  "ad_configs (snd (snd (aiPatchRouting e c q i b4 s))) = ad_configs s" "ad_tenants (snd (snd (aiPatchRouting e c q i b4 s))) = ad_tenants s"
  "ad_configs (snd (snd (aiDeleteRouting e c q i s))) = ad_configs s" "ad_tenants (snd (snd (aiDeleteRouting e c q i s))) = ad_tenants s"
  "ad_tenants (snd (snd (aiPatchCapability e c q n b5 s))) = ad_tenants s"
  "ad_configs (snd (snd (aiLabelRun e c q i b6 s))) = ad_configs s" "ad_tenants (snd (snd (aiLabelRun e c q i b6 s))) = ad_tenants s"
  by (auto simp: aiPatchTenant_def aiCreateProvider_def aiPatchProvider_def aiDeleteProvider_def aiCreateRouting_def aiPatchRouting_def
      aiDeleteRouting_def aiPatchCapability_def aiLabelRun_def Let_def split: option.split sum.split)


lemma do_ai_op_not_raised:
  assumes "\<not> IsSuperAdmin (l_user_role c)"
  shows "(ai_on T (snd (snd (do_ai_op e c q op s))) \<longrightarrow> ai_on T s)
    \<and> (cc_rung (config_of U n (snd (snd (do_ai_op e c q op s)))) = cc_rung (config_of U n s)
       \<or> \<not> rungAtLeast (cc_rung (config_of U n (snd (snd (do_ai_op e c q op s))))) RungActLow)"
proof (cases op)
  case (Patch_tenant b)
  then show ?thesis using patch_tenant_off [OF assms, of T e q b s] by (simp add: config_of_def)
next
  case (Patch_capability m b)
  then show ?thesis using patch_capability_low [OF assms, of U n e q m b s] by (simp add: ai_on_def)
qed (simp_all add: ai_on_def config_of_def)

lemma ai_step_not_raised:
  assumes "admin_request r s" and "not_raised s0 s"
  shows "not_raised s0 (snd (ai_step r s))"
proof -
  obtain c q e op where r: "r = (c, q, e, op)" by (cases r)
  have "\<not> IsSuperAdmin (l_user_role c)" using assms(1) by (simp add: admin_request_def r)
  note step = do_ai_op_not_raised [OF this, of _ e q op s]
  have "not_raised s0 (snd (snd (do_ai_op e c q op s)))"
    unfolding not_raised_def using step assms(2) unfolding not_raised_def by metis
  then show ?thesis using assms(2) by (simp add: r ai_step_state)
qed

lemma loadRuntime_rung:
  "loadRuntime w inp (runs_on s) = Inr cfg \<Longrightarrow> ai_on (in_TenantID inp) s \<and> rc_rung cfg = cc_rung (config_of (in_TenantID inp) (in_CapabilityID inp) s)"
  by (auto simp: loadRuntime_def runs_on_def ai_on_def config_of_def zero_config_def Let_def split: if_splits option.splits sum.splits)

text \<open>
  C36. Without the owner nobody escalates. Whatever tenant admins (and users below them) request, for whichever tenant they name and
  with whichever statements failing: a run that \<open>Run\<close> then configures belongs to a tenant whose AI was switched on before, and it
  has the rung its capability had before or one below \<open>act_low\<close>, at which nothing is applied without a person.
\<close>

theorem admins_cannot_escalate:
  assumes "ops_ok admin_request ai_step rs s"
    and "loadRuntime w inp (runs_on (snd (run_ops ai_step rs s))) = Inr cfg"
  shows "ai_on (in_TenantID inp) s
    \<and> (rc_rung cfg = cc_rung (config_of (in_TenantID inp) (in_CapabilityID inp) s) \<or> \<not> rungAtLeast (rc_rung cfg) RungActLow)"
proof -
  have refl: "not_raised s s" by (simp add: not_raised_def)
  have "not_raised s (snd (run_ops ai_step rs s))"
    by (rule run_ops_invariant [where I = "not_raised s", OF _ assms(1) refl]) (rule ai_step_not_raised)
  then show ?thesis using loadRuntime_rung [OF assms(2)] by (simp add: not_raised_def)
qed

definition toy_raise :: "string \<Rightarrow> string \<Rightarrow> ai_request" where
  "toy_raise role r = (toy_admin role ''t'', [], toy_admin_env ''k1'', Patch_capability ''c'' (Some \<lparr>cp_enabled = Some True, cp_rung = Some r, cp_scope = None,
     cp_confidence = None, cp_blast_max = None, cp_blast_window = None, cp_kill = None\<rparr>))"

lemmas eval_admin = toy_settings_def toy_admin_def toy_admin_env_def toy_ai_world_def toy_ai_def toy_input_def no_locals_def ai_step_def
  AdminMiddleware_def aiDialectGate_def SupportedDialect_def guard_def Let_def targetTenant_def tenant_or_default_def IsSuperAdmin_def
  with_reply_def runs_on_def


definition toy_ready :: admin_state where
  "toy_ready = toy_settings\<lparr>
     ad_providers := [provider_row.extend \<lparr>pv_tenant = ''t'', pv_kind = ''k'', pv_name = ''n'', pv_base_url = [], pv_api_key = None, pv_region = [],
         pv_trust = ''external'', pv_enabled = 1\<rparr> \<lparr>pv_id = ''p1'', pv_created = 1, pv_updated = 1\<rparr>],
     ad_routes := [route.extend \<lparr>rt_provider = ''p1'', rt_model = ''m'', rt_max_cost = None, rt_in = None, rt_out = None\<rparr>
         \<lparr>rt_id = ''r1'', rt_tenant = ''t'', rt_task = ''classify'', rt_fallback = None, rt_embed = None, rt_max_in = None, rt_max_out = None,
          rt_created = 1, rt_updated = 1\<rparr>],
     ad_configs := [(''t'', ''c'') \<mapsto> cap_config.extend (zero_config\<lparr>cc_enabled := 1, cc_rung := RungShadow, cc_scope := None\<rparr>)
         \<lparr>cc_id = ''k0'', cc_promotion = [], cc_updated = 1\<rparr>]\<rparr>"

definition toy_raises :: "ai_request list" where
  "toy_raises = [toy_raise ''admin'' RungSuggest, toy_raise ''admin'' RungAutonomous]"

lemma toy_ready_loads:
  "ai_inv toy_ready"
  "\<exists>cfg. loadRuntime toy_ai_world toy_input (runs_on toy_ready) = Inr cfg"
  by (simp_all add: toy_ready_def ai_inv_def own_refs_def eval_admin loadRuntime_def route_of_def provider_of_def task_type_def Lookup_def toy_capability_def
      loadProvider_def ai_tenant.truncate_def ai_tenant.extend_def route.truncate_def route.extend_def provider_row.truncate_def provider_row.extend_def rt_refs_def
      cap_config.truncate_def cap_config.extend_def zero_config_def)

lemma toy_raised:
  "\<exists>cfg. loadRuntime toy_ai_world toy_input (runs_on (snd (run_ops ai_step toy_raises toy_ready))) = Inr cfg \<and> rc_rung cfg = RungSuggest"
proof -
  have "CheckDependencies [(''c'', toy_capability)] Map.empty ''c'' = Inr []" by code_simp
  then show ?thesis
    by (simp add: toy_raises_def toy_raise_def toy_ready_def eval_admin rung_defs aiPatchCapability_def Lookup_def rung_check_def unmet_of_def
        loadRuntime_def route_of_def provider_of_def task_type_def toy_capability_def config_of_def zero_config_def merged_config_def patched_or_def
        upsert_config_def capability_kill_def scope_column_def nullable_def cap_config.extend_def cap_config.truncate_def ParseScopeFilter_def boolToInt_def
        loadProvider_def ai_tenant.truncate_def ai_tenant.extend_def route.truncate_def route.extend_def provider_row.truncate_def provider_row.extend_def)
qed

theorem admins_cannot_escalate_witness:
  "\<exists>cfg. loadRuntime toy_ai_world toy_input (runs_on (snd (run_ops ai_step toy_raises toy_ready))) = Inr cfg
     \<and> ai_on ''t'' toy_ready \<and> rc_rung cfg = RungSuggest \<and> fst (fst (ai_step (toy_raise ''admin'' RungAutonomous) toy_ready))
        = Inl (HttpError 403 (''only super_admin may promote past '' @ squoted ''suggest''))"
proof -
  have ok: "ops_ok admin_request ai_step toy_raises toy_ready"
    by (simp add: toy_raises_def toy_raise_def admin_request_def toy_admin_def IsSuperAdmin_def no_locals_def)
  obtain cfg where cfg: "loadRuntime toy_ai_world toy_input (runs_on (snd (run_ops ai_step toy_raises toy_ready))) = Inr cfg" "rc_rung cfg = RungSuggest"
    using toy_raised by blast
  have "fst (fst (ai_step (toy_raise ''admin'' RungAutonomous) toy_ready)) = Inl (HttpError 403 (''only super_admin may promote past '' @ squoted ''suggest''))"
    by (simp add: toy_raise_def toy_ready_def eval_admin rung_defs aiPatchCapability_def Lookup_def rung_check_def)
  with admins_cannot_escalate [OF ok cfg(1)] cfg show ?thesis by (simp add: toy_input_def)
qed


section \<open>Other tenants are not affected\<close>

definition no_colon :: "string \<Rightarrow> bool" where
  "no_colon s = (CHR '':'' \<notin> set s)"

definition staff_request :: "string \<Rightarrow> ai_request \<Rightarrow> admin_state \<Rightarrow> bool" where
  "staff_request T r s = (fresh_request r s \<and> admin_request r s \<and> (case r of (c, q, e, op) \<Rightarrow> tenant_or_default c = T))"

text \<open>What the runs of a tenant read.\<close>

definition same_for :: "string \<Rightarrow> admin_state \<Rightarrow> admin_state \<Rightarrow> bool" where
  "same_for U s t = (ad_caps s = ad_caps t \<and> ad_sys s = ad_sys t \<and> ad_factories s = ad_factories t \<and> ad_counters s = ad_counters t
     \<and> ad_tenants s U = ad_tenants t U \<and> (\<forall>n. ad_configs s (U, n) = ad_configs t (U, n))
     \<and> filter (\<lambda>r. rt_tenant r = U) (ad_routes s) = filter (\<lambda>r. rt_tenant r = U) (ad_routes t)
     \<and> filter (\<lambda>p. pv_tenant p = U) (ad_providers s) = filter (\<lambda>p. pv_tenant p = U) (ad_providers t)
     \<and> filter (\<lambda>r. ru_tenant r = U) (ad_runs s) = filter (\<lambda>r. ru_tenant r = U) (ad_runs t)
     \<and> (\<forall>n. IsKilled (ad_flags s) U n = IsKilled (ad_flags t) U n))"

lemma other_scope:
  assumes "no_colon T" and "no_colon U" and "T \<noteq> U" and "sc = ''tenant:'' @ T \<or> (\<exists>x. sc = ''tenant:'' @ T @ '':'' @ x)"
  shows "IsKilled (f(sc := k)) U n = IsKilled f U n"
proof -
  have a: "T @ '':'' @ x \<noteq> U @ '':'' @ y" for x y
    using assms(1-3) append_sep_eq [of "CHR '':''" T U x y] by (auto simp: no_colon_def)
  have b: "T @ '':'' @ x \<noteq> U" "T \<noteq> U @ '':'' @ y" for x y using assms(1,2) by (auto simp: no_colon_def)
  have "sc \<noteq> scopeGlobal" "sc \<noteq> scopeTenant U" "sc \<noteq> scopeCap n" "sc \<noteq> scopeTenantCap U n"
    using assms(3,4) a [where y = "''capability:'' @ n", THEN not_sym] b(1) b(2) [where y = "''capability:'' @ n", THEN not_sym]
    by (auto simp: scopeGlobal_def scopeTenant_def scopeCap_def scopeTenantCap_def)
  then show ?thesis by (simp add: IsKilled_iff)
qed

lemma set_kill_flags [simp]: "ad_flags (snd (set_kill up sc k re u n s)) = (if up then (ad_flags s)(sc := k) else ad_flags s)"
  by (simp add: set_kill_def)

lemma set_kill_same_for:
  assumes "no_colon T" and "no_colon U" and "T \<noteq> U" and "sc = ''tenant:'' @ T \<or> (\<exists>x. sc = ''tenant:'' @ T @ '':'' @ x)"
  shows "same_for U (snd (set_kill up sc k re u n s)) s"
  using other_scope [OF assms] by (simp add: same_for_def)

lemma kill_allowed_own:
  assumes "kill_allowed c sc = Inr ()" and "\<not> IsSuperAdmin (l_user_role c)"
  shows "sc = ''tenant:'' @ tenant_or_default c \<or> (\<exists>x. sc = ''tenant:'' @ tenant_or_default c @ '':'' @ x)"
  using assms by (auto simp: kill_allowed_def Let_def guard_def has_prefix_iff split: if_splits)


lemma target_own: "\<not> IsSuperAdmin (l_user_role c) \<Longrightarrow> targetTenant c q = tenant_or_default c"
  by (simp add: targetTenant_def)

lemma same_for_refl [simp]: "same_for U s s"
  by (simp add: same_for_def)

lemma same_for_trans: "same_for U s t \<Longrightarrow> same_for U t u \<Longrightarrow> same_for U s u"
  by (simp add: same_for_def)

lemma updates_same_for [simp]:
  "T \<noteq> U \<Longrightarrow> same_for U (s\<lparr>ad_tenants := (ad_tenants s)(T := x)\<rparr>) s"
  "T \<noteq> U \<Longrightarrow> same_for U (s\<lparr>ad_configs := (ad_configs s)((T, n) \<mapsto> y)\<rparr>) s"
  "T \<noteq> U \<Longrightarrow> pv_tenant p = T \<Longrightarrow> same_for U (s\<lparr>ad_providers := p # ad_providers s\<rparr>) s"
  "T \<noteq> U \<Longrightarrow> rt_tenant r = T \<Longrightarrow> same_for U (s\<lparr>ad_routes := r # ad_routes s\<rparr>) s"
  by (auto simp: same_for_def)

lemma maps_same_for [simp]:
  "T \<noteq> U \<Longrightarrow> same_for U (s\<lparr>ad_providers := map (\<lambda>r. if own_provider i T r then set_provider p k n r else r) (ad_providers s)\<rparr>) s"
  "T \<noteq> U \<Longrightarrow> same_for U (s\<lparr>ad_routes := map (\<lambda>r. if own_route i T r then set_route b n r else r) (ad_routes s)\<rparr>) s"
  "T \<noteq> U \<Longrightarrow> same_for U (s\<lparr>ad_runs := map (\<lambda>r. if own_run i T r
     then r\<lparr>ru_outcome := x, ru_set_by := y, ru_set_at := z\<rparr> else r) (ad_runs s)\<rparr>) s"
  by (auto simp: same_for_def own_provider_def own_route_def own_run_def intro!: filter_map_none)

lemma deletes_same_for [simp]:
  "T \<noteq> U \<Longrightarrow> same_for U (s\<lparr>ad_providers := filter (\<lambda>r. \<not> own_provider i T r) (ad_providers s)\<rparr>) s"
  "T \<noteq> U \<Longrightarrow> same_for U (s\<lparr>ad_routes := filter (\<lambda>r. \<not> own_route i T r) (ad_routes s)\<rparr>) s"
  by (auto simp: same_for_def own_provider_def own_route_def intro!: filter_cong)

lemma capability_kill_same_for:
  assumes "no_colon T" and "no_colon U" and "T \<noteq> U"
  shows "same_for U (capability_kill e c T n k s) s"
  using set_kill_same_for [OF assms, where sc = "''tenant:'' @ T @ '':capability:'' @ n"] by (simp add: capability_kill_def split: option.split)

lemma aiSetKill_state:
  "snd (snd (aiSetKill e c b s)) = s \<or> (\<exists>sc k re. kill_allowed c sc = Inr ()
     \<and> snd (snd (aiSetKill e c b s)) = snd (set_kill (ae_up e 0) sc k re (l_user_id c) (ae_now e) s))"
proof (cases b)
  case (Some r)
  obtain sc k re where r: "r = (sc, k, re)" by (cases r)
  show ?thesis
  proof (cases "kill_allowed c sc")
    case (Inr u)
    then have "snd (snd (aiSetKill e c b s)) = s \<or> snd (snd (aiSetKill e c b s)) = snd (set_kill (ae_up e 0) sc k re (l_user_id c) (ae_now e) s)"
      by (cases "set_kill (ae_up e 0) sc k re (l_user_id c) (ae_now e) s") (simp add: aiSetKill_def Some r split: bool.split)
    with Inr show ?thesis by auto
  qed (simp add: aiSetKill_def Some r)
qed (simp add: aiSetKill_def)

lemma do_ai_op_same_for:
  assumes "\<not> IsSuperAdmin (l_user_role c)" and "no_colon (tenant_or_default c)" and "no_colon U" and "tenant_or_default c \<noteq> U"
  shows "same_for U (snd (snd (do_ai_op e c q op s))) s"
proof -
  note [simp] = target_own [OF assms(1)]
  note ne = assms(4)
  show ?thesis
  proof (cases op)
    case (Patch_capability n b)
    have "same_for U (snd (snd (aiPatchCapability e c q n b s))) s"
      using same_for_trans [OF capability_kill_same_for [OF assms(2-4)] updates_same_for(2) [OF ne]]
      by (simp add: aiPatchCapability_def Let_def split: option.split sum.split)
    then show ?thesis by (simp add: Patch_capability)
  next
    case (Set_kill b)
    have "same_for U (snd (snd (aiSetKill e c b s))) s"
      using aiSetKill_state [of e c b s] set_kill_same_for [OF assms(2-4) kill_allowed_own [OF _ assms(1)]] by (elim disjE exE conjE) simp_all
    then show ?thesis by (simp add: Set_kill)
  qed (use ne in \<open>simp_all add: aiPatchTenant_def aiCreateProvider_def aiPatchProvider_def aiDeleteProvider_def aiCreateRouting_def aiPatchRouting_def
      aiDeleteRouting_def aiLabelRun_def Let_def new_provider_def new_route_def split: option.split sum.split\<close>)
qed


lemma ai_step_same_for:
  assumes "staff_request T r s" and "no_colon T" and "no_colon U" and "T \<noteq> U"
  shows "same_for U (snd (ai_step r s)) s"
proof -
  obtain c q e op where r: "r = (c, q, e, op)" by (cases r)
  have "\<not> IsSuperAdmin (l_user_role c)" "tenant_or_default c = T" using assms(1) by (auto simp: staff_request_def admin_request_def r)
  then show ?thesis using do_ai_op_same_for [of c U e q op s] assms(2-4) by (simp add: r ai_step_state)
qed

lemma find_by_filter:
  "(\<And>x. x \<in> set xs \<Longrightarrow> P x \<Longrightarrow> Q x) \<Longrightarrow> List.find P xs = List.find P (filter Q xs)"
  by (induction xs) auto

lemma route_of_filter: "route_of U task rs = route_of U task (filter (\<lambda>r. rt_tenant r = U) rs)"
  unfolding route_of_def by (rule find_by_filter) simp

lemma provider_of_filter:
  assumes "ai_inv s" and "route_of U task (ad_routes s) = Some r"
  shows "provider_of (rt_provider r) (ad_providers s) = provider_of (rt_provider r) (filter (\<lambda>p. pv_tenant p = U) (ad_providers s))"
  unfolding provider_of_def
proof (rule find_by_filter)
  fix p
  assume "p \<in> set (ad_providers s)" "pv_id p = rt_provider r"
  with assms own_route_found [OF assms(2)] show "pv_tenant p = U" by (auto simp: ai_inv_def own_refs_def rt_refs_def)
qed

text \<open>The chokepoint reads the same of both states.\<close>

definition reads_same :: "string \<Rightarrow> ai_state \<Rightarrow> ai_state \<Rightarrow> bool" where
  "reads_same U a b = (ai_caps a = ai_caps b \<and> ai_sys a = ai_sys b \<and> ai_factories a = ai_factories b \<and> ai_counters a = ai_counters b
     \<and> ai_tenants a U = ai_tenants b U \<and> (\<forall>n. ai_configs a (U, n) = ai_configs b (U, n)) \<and> (\<forall>x. ai_routes a (U, x) = ai_routes b (U, x))
     \<and> (\<forall>x r. ai_routes a (U, x) = Some r \<longrightarrow> ai_providers a (rt_provider r) = ai_providers b (rt_provider r))
     \<and> filter (\<lambda>r. ru_tenant r = U) (ai_runs a) = filter (\<lambda>r. ru_tenant r = U) (ai_runs b)
     \<and> (\<forall>n. IsKilled (ai_flags a) U n = IsKilled (ai_flags b) U n))"

lemma same_for_reads:
  assumes "same_for U s t" and "ai_inv s" and "ai_inv t"
  shows "reads_same U (runs_on s) (runs_on t)"
proof -
  have r: "route_of U x (ad_routes s) = route_of U x (ad_routes t)" for x
    using assms(1) route_of_filter [of U x "ad_routes s"] route_of_filter [of U x "ad_routes t"] by (simp add: same_for_def)
  have p: "provider_of (rt_provider q) (ad_providers s) = provider_of (rt_provider q) (ad_providers t)" if "route_of U x (ad_routes t) = Some q" for x q
    using assms(1) provider_of_filter [OF assms(3) that] provider_of_filter [OF assms(2), of U x q] that by (simp add: same_for_def r)
  have runs: "filter (\<lambda>r. ru_tenant r = U) (map ai_run.truncate xs) = map ai_run.truncate (filter (\<lambda>r. ru_tenant r = U) xs)" for xs :: "labelled_run list"
    by (simp add: filter_map comp_def ai_run.truncate_def)
  show ?thesis using assms(1) p by (auto simp: reads_same_def same_for_def runs_on_def r runs)
qed

lemma loadProvider_same: "ai_providers a i = ai_providers b i \<Longrightarrow> loadProvider w i a = loadProvider w i b"
  by (simp add: loadProvider_def)

lemma loadRuntime_same:
  assumes "reads_same (in_TenantID inp) a b"
  shows "loadRuntime w inp a = loadRuntime w inp b"
proof -
  have t: "task_type a inp = task_type b inp" using assms by (simp add: task_type_def reads_same_def)
  have "loadProvider w (rt_provider r) a = loadProvider w (rt_provider r) b" if "ai_routes b (in_TenantID inp, task_type b inp) = Some r" for r
    using assms that by (intro loadProvider_same) (auto simp: reads_same_def)
  then show ?thesis using assms
    by (auto simp: loadRuntime_def t Let_def reads_same_def split: option.split)
qed

lemma run_checks_same:
  assumes "reads_same (in_TenantID inp) a b"
  shows "run_checks w inp a = run_checks w inp b"
proof -
  have e: "ai_caps a = ai_caps b" "ai_sys a = ai_sys b" "ai_factories a = ai_factories b"
    "\<And>n. IsKilled (ai_flags a) (in_TenantID inp) n = IsKilled (ai_flags b) (in_TenantID inp) n"
    using assms by (simp_all add: reads_same_def)
  show ?thesis by (simp only: run_checks_def loadRuntime_same [OF assms] e)
qed

lemma floor_unchanged: "enforceAutonomousFloor w T n c th a = (Inr u, a') \<Longrightarrow> a' = a"
  by (auto simp: enforceAutonomousFloor_def Let_def split: if_splits option.splits)

lemma floor_same:
  assumes "reads_same T a b"
  shows "fst (enforceAutonomousFloor w T n c th a) = fst (enforceAutonomousFloor w T n c th b)"
proof -
  have f: "filter (floor_run T n since) xs = filter (floor_run T n since) (filter (\<lambda>r. ru_tenant r = T) xs)" for since xs
    by (auto simp: floor_run_def intro: filter_cong)
  have "filter (floor_run T n since) (ai_runs a) = filter (floor_run T n since) (ai_runs b)" for since
    using assms f [of since "ai_runs a"] f [of since "ai_runs b"] by (simp add: reads_same_def)
  then show ?thesis by (simp add: enforceAutonomousFloor_def Let_def)
qed

lemma Reserve_same:
  assumes "reads_same T a b"
  shows "fst (ReserveCost w T k m a) = fst (ReserveCost w T k m b)"
proof -
  have f: "spent_today T k now xs = spent_today T k now (filter (\<lambda>r. ru_tenant r = T) xs)" for now xs
    by (auto simp: spent_today_def Let_def intro!: arg_cong [where f = sum_list] arg_cong [where f = "map ru_cost"] filter_cong)
  have "spent_today T k now (ai_runs a) = spent_today T k now (ai_runs b)" for now
    using assms f [of now "ai_runs a"] f [of now "ai_runs b"] by (simp add: reads_same_def)
  then have d: "reserveViaDB w T k m cap a = reserveViaDB w T k m cap b" for cap by (simp add: reserveViaDB_def)
  have l: "loadCap w T k a = loadCap w T k b" using assms by (simp add: loadCap_def reads_same_def)
  have "ai_counters a = ai_counters b" using assms by (simp add: reads_same_def)
  then show ?thesis by (simp add: ReserveCost_def l d incr_by_def Let_def split: sum.split)
qed

text \<open>The floor as it stands between the checks and the reservation.\<close>

definition floor_gate :: "ai_world \<Rightarrow> input \<Rightarrow> runtime_config \<Rightarrow> capability \<Rightarrow> ai_state \<Rightarrow> (ai_error, unit) result \<times> ai_state" where
  "floor_gate w inp cfg c s = (if rc_rung cfg = RungAutonomous
     then enforceAutonomousFloor w (in_TenantID inp) (in_CapabilityID inp) c (rc_confidence cfg) s else (Inr (), s))"

lemma fst_run_gates:
  "fst (run_gates w inp s) = (case run_checks w inp s of Inl er \<Rightarrow> Inl er | Inr (cfg, c, prov) \<Rightarrow>
     (case fst (floor_gate w inp cfg c s) of Inl er \<Rightarrow> Inl er | Inr _ \<Rightarrow>
       map_sum id (\<lambda>_. (cfg, hashSnapshot w inp, prov)) (fst (ReserveCost w (in_TenantID inp) (rc_costKind cfg) (in_Estimate inp) s))))"
proof -
  have un: "floor_gate w inp cfg c s = (Inr u, s') \<Longrightarrow> s' = s" for cfg c u s'
    using floor_unchanged by (auto simp: floor_gate_def split: if_splits)
  show ?thesis
    by (auto simp: run_gates_def floor_gate_def [symmetric] split: sum.split prod.split dest!: un)
qed

lemma run_gates_same:
  assumes "reads_same (in_TenantID inp) a b"
  shows "fst (run_gates w inp a) = fst (run_gates w inp b)"
  using floor_same [OF assms] Reserve_same [OF assms]
  by (simp add: fst_run_gates run_checks_same [OF assms] floor_gate_def split: sum.split)

text \<open>
  The admins of a tenant leave all other tenants alone. Whatever they request, with whichever statements failing: what
  \<open>Run\<close> decides on a request of another tenant (the refusal, or the configuration and the provider it goes on with) is what
  it decided before. Identifiers of tenants have no colon, which the kill switches rely on.
\<close>

theorem other_tenants_unaffected:
  assumes "ops_ok (staff_request T) ai_step rs s" and "ai_inv s" and "no_colon T" and "no_colon (in_TenantID inp)" and "T \<noteq> in_TenantID inp"
  shows "fst (run_gates w inp (runs_on (snd (run_ops ai_step rs s)))) = fst (run_gates w inp (runs_on s))"
proof -
  let ?I = "\<lambda>t. ai_inv t \<and> same_for (in_TenantID inp) t s"
  have "?I (snd (run_ops ai_step rs s))"
  proof (rule run_ops_invariant [where I = ?I, OF _ assms(1)])
    fix r t
    assume r: "staff_request T r t" and t: "?I t"
    have "fresh_request r t" using r by (simp add: staff_request_def)
    with t show "?I (snd (ai_step r t))"
      using ai_step_inv same_for_trans [OF ai_step_same_for [OF r assms(3-5)]] by blast
  qed (use assms(2) in simp)
  then have "reads_same (in_TenantID inp) (runs_on (snd (run_ops ai_step rs s))) (runs_on s)" using assms(2) by (intro same_for_reads) simp_all
  then show ?thesis by (rule run_gates_same)
qed


definition toy_meddling :: "ai_request list" where
  "toy_meddling = [(toy_admin ''admin'' ''u'', ''t'', toy_admin_env ''x1'', Delete_provider ''p1''),
     (toy_admin ''admin'' ''u'', ''t'', toy_admin_env ''x2'', Set_kill (Some (''tenant:u'', True, ''why''))),
     (toy_admin ''admin'' ''u'', ''t'', toy_admin_env ''x3'', Set_kill (Some (''tenant:t'', True, ''why'')))]"

lemma toy_meddling_ok: "ops_ok (staff_request ''u'') ai_step toy_meddling toy_ready"
  by (simp add: toy_meddling_def staff_request_def fresh_request_def admin_request_def toy_ready_def eval_admin route.extend_def rt_refs_def
      aiDeleteProvider_def own_provider_def provider_row.extend_def aiSetKill_def validateKillScope_def well_formed_part_def contains_any_def kill_allowed_def set_kill_def)

lemma toy_ready_passes: "\<exists>x. fst (run_gates toy_ai_world toy_input (runs_on toy_ready)) = Inr x"
proof -
  have "CheckDependencies [(''c'', toy_capability)] Map.empty ''c'' = Inr []" by code_simp
  then show ?thesis
    by (simp add: fst_run_gates run_checks_def toy_ready_def eval_admin loadRuntime_def route_of_def provider_of_def task_type_def Lookup_def toy_capability_def
        loadProvider_def ai_tenant.truncate_def ai_tenant.extend_def route.truncate_def route.extend_def provider_row.truncate_def provider_row.extend_def
        cap_config.truncate_def cap_config.extend_def zero_config_def IsKilled_def Build_def providerSupports_def toy_caps_def floor_gate_def rung_defs ReserveCost_def loadCap_def incr_by_def)
qed

theorem other_tenants_unaffected_witness:
  "\<exists>x. fst (run_gates toy_ai_world toy_input (runs_on (snd (run_ops ai_step toy_meddling toy_ready)))) = Inr x"
proof -
  have "no_colon ''u''" "no_colon (in_TenantID toy_input)" "''u'' \<noteq> in_TenantID toy_input" by (simp_all add: no_colon_def toy_input_def)
  from other_tenants_unaffected [OF toy_meddling_ok toy_ready_loads(1) this] toy_ready_passes show ?thesis by simp
qed

section \<open>Further facts\<close>

text \<open>The rows with all their columns implement the kill switches of theory KillSwitch.\<close>

lemma find_upsert: "List.find (\<lambda>r. kl_scope r = sc) (upsert_kill k rows) = (if kl_scope k = sc then Some k else List.find (\<lambda>r. kl_scope r = sc) rows)"
  by (induction rows) (auto simp: upsert_kill_def)

lemma set_kill_refines: "SetKill up sc killed (kills_on s) = (fst (set_kill up sc killed re u n s), kills_on (snd (set_kill up sc killed re u n s)))"
  by (auto simp: SetKill_def set_kill_def kills_on_def persist_kill_def cache_kill_def find_upsert boolToInt_def fun_eq_iff)

text \<open>A patch of the model name alone resets both rates, so that runs cost nothing from then on.\<close>

lemma patch_resets_rates:
  assumes "rq_in p = 0" and "rq_out p = 0"
  shows "rt_in (set_route p now r) = Some 0" and "rt_out (set_route p now r) = Some 0"
  using assms by (simp_all add: set_route_def)

lemma free_after_reset: "rc_costPerKInput cfg = 0 \<Longrightarrow> rc_costPerKOutput cfg = 0 \<Longrightarrow> computeActualCost cfg chat emb = 0"
  by (simp add: computeActualCost_def go_div_def i64_def split_beta)

text \<open>The first patch of a capability that does not name a rung stores the empty one, and no bound on the devices.\<close>

lemma first_patch_stores_zeros:
  assumes "ad_configs s (T, name) = None" and "cp_rung p = None" and "cp_blast_max p = None" and "cp_blast_window p = None"
  shows "cc_rung (merged_config e cap p (config_of T name s)) = [] \<and> cc_blast_max (merged_config e cap p (config_of T name s)) = 0
    \<and> cc_blast_window (merged_config e cap p (config_of T name s)) = 0"
  using assms by (simp add: merged_config_def config_of_def zero_config_def patched_or_def)

text \<open>The list of kill switches is filtered by the bare prefix: a tenant whose identifier starts with the caller's is included.\<close>

lemma kill_list_leaks:
  assumes "k \<in> set (ad_kills s)" and "kl_scope k = ''tenant:'' @ tenant_or_default c @ rest" and "ae_up e 0"
  shows "\<exists>ks. aiListKill e c s = Inr ks \<and> k \<in> set ks"
  using assms by (auto simp: aiListKill_def Let_def has_prefix_iff)

text \<open>A tenant admin lifts a kill switch that the owner set on the tenant.\<close>

lemma admin_lifts_owners_kill:
  assumes "tenant_or_default c = T" and "T \<noteq> []" and "no_colon T" and "well_formed_part T" and "ae_up e 0"
  shows "ad_flags (snd (snd (aiSetKill e c (Some (''tenant:'' @ T, False, why)) s))) (''tenant:'' @ T) = False"
proof -
  have sp: "split_on CHR '':'' T = [T]" using assms(3) by (induction T) (auto simp: no_colon_def)
  have "validateKillScope (''tenant:'' @ T)"
    using assms(2,4) by (simp add: validateKillScope_def sp well_formed_part_def contains_any_def)
  moreover have "kill_allowed c (''tenant:'' @ T) = Inr ()"
    by (simp add: kill_allowed_def assms(1) Let_def)
  ultimately show ?thesis using assms(5) by (simp add: aiSetKill_def set_kill_def)
qed

text \<open>An endpoint that does not resolve when it is stored passes, whatever it resolves to later.\<close>

lemma unresolved_endpoint_passes:
  assumes "ae_parse_url e url = Some (''http'', hostport, host)" and "hostport \<noteq> []" and "ae_lookup e host = []"
  shows "validateProviderBaseURL e url trust = Inr ()"
  using assms by (simp add: validateProviderBaseURL_def)

text \<open>A user who labelled a run labels it again.\<close>

lemma relabelled:
  assumes "ad_runs s = [r]" and "own_run i (targetTenant c q) r" and "ru_set_by r = Some (l_user_id c)" and "ae_up e 0" and "ae_up e 1"
  shows "map ru_outcome (ad_runs (snd (snd (aiLabelRun e c q i (Some (''unclear'', why)) s)))) = [Some ''unclear'']"
  using assms by (simp add: aiLabelRun_def Let_def text_of_def)

end
