(* ===== verification/Portal.thy ===== *)
theory Portal
  imports Tickets Limiter Sessions
begin

text \<open>
  The customers' portal (\<open>internal/handlers/portal.go\<close>): login and logout, the customer's own account, the tickets and comments
  that a customer may see and write, the limiter per customer, and the handlers with which admins manage the accounts.

  A customer is admitted by the portal middleware of \<open>AuthMiddleware\<close>, which looks accounts up in a map;
  \<open>portal_accounts\<close> is that map for the table of this theory. The constant that the dummy comparison uses, and the
  mail-address parser, do not influence the state.
\<close>

section \<open>Accounts\<close>

record customer_user =
  cus_id :: string
  cus_tenant :: string
  cus_email :: string
  cus_name :: string
  cus_pwhash :: string
  cus_device :: "string option"
  cus_last_login :: "int option"
  cus_created :: int
  cus_disabled :: int

definition portalSessionHours :: int where "portalSessionHours = 12"
definition maxPortalTicketTitleLen :: nat where "maxPortalTicketTitleLen = 256"
definition maxPortalTicketDescLen :: nat where "maxPortalTicketDescLen = 16 * 1024"
definition maxPortalCommentLen :: nat where "maxPortalCommentLen = 32 * 1024"

definition portal_accounts :: "customer_user list \<Rightarrow> string \<times> string \<rightharpoonup> customer_row" where
  "portal_accounts us = (\<lambda>(i, T). map_option (\<lambda>u. \<lparr>cu_disabled = cus_disabled u, cu_device = cus_device u\<rparr>)
     (List.find (\<lambda>u. cus_id u = i \<and> cus_tenant u = T) us))"

record portal_login_request =
  pl_email :: string
  pl_password :: string
  pl_tenant :: string

text \<open>A login: who it is, the token of the cookie, and the token against cross-site requests.\<close>

record portal_session =
  po_id :: string
  po_email :: string
  po_name :: string
  po_tenant :: string
  po_device :: string
  po_token :: string
  po_csrf :: string

definition portal_login ::
  "libs \<Rightarrow> world \<Rightarrow> string \<Rightarrow> string \<Rightarrow> portal_login_request option \<Rightarrow> customer_user list
    \<Rightarrow> (http_error, portal_session) result \<times> audit_entry list \<times> customer_user list" where
  "portal_login L w jti csrf body us =
     (case body of
        None \<Rightarrow> (Inl (HttpError 400 ''Invalid body''), [], us)
      | Some q \<Rightarrow>
        let email = to_lower (trim_space (pl_email q)) in
        if email = [] \<or> pl_password q = [] \<or> pl_tenant q = [] then (Inl (HttpError 400 ''email, password, and tenant_id required''), [], us)
        else (case (if w_db_up w then List.find (\<lambda>u. cus_tenant u = pl_tenant q \<and> cus_email u = email) us else None) of
                None \<Rightarrow> (Inl (HttpError 401 ''invalid credentials''), [], us)
              | Some u \<Rightarrow>
                if cus_disabled u = 1 then (Inl (HttpError 403 ''account disabled''), [], us)
                else if \<not> lb_bcrypt_ok L (cus_pwhash u) (pl_password q) then (Inl (HttpError 401 ''invalid credentials''), [], us)
                else let dev = text_of (cus_device u) in
                (case GeneratePortalJWT (w_jwt w) (w_secret w) (w_now w) jti (cus_id u) (pl_tenant q) dev portalSessionHours of
                   None \<Rightarrow> (Inl (HttpError 500 ''token issue failed''), [], us)
                 | Some token \<Rightarrow>
                   (Inr \<lparr>po_id = cus_id u, po_email = email, po_name = cus_name u, po_tenant = pl_tenant q, po_device = dev,
                      po_token = token, po_csrf = csrf\<rparr>,
                    [(pl_tenant q, cus_id u, ''portal.login'', ''customer'', cus_id u, ''portal login'')],
                    if w_db_up w then map (\<lambda>v. if cus_id v = cus_id u then v\<lparr>cus_last_login := Some (w_now w)\<rparr> else v) us else us))))"

text \<open>Logout clears the cookie: the portal has no session table, so the token itself stays as it is.\<close>

definition portal_logout :: "customer_user list \<Rightarrow> customer_user list" where
  "portal_logout us = us"

record portalCustomer =
  pc_id :: string
  pc_email :: string
  pc_name :: string
  pc_tenant :: string
  pc_device :: string

definition portal_me :: "bool \<Rightarrow> locals \<Rightarrow> customer_user list \<Rightarrow> (http_error, portalCustomer) result" where
  "portal_me db_up c us =
     (case (if db_up then List.find (\<lambda>u. cus_id u = l_customer_id c) us else None) of
        None \<Rightarrow> Inl (HttpError 404 ''customer not found'')
      | Some u \<Rightarrow> Inr \<lparr>pc_id = l_customer_id c, pc_email = cus_email u, pc_name = cus_name u, pc_tenant = l_tenant_id c,
          pc_device = l_customer_device_id c\<rparr>)"

section \<open>The limiter\<close>

text \<open>One bucket per path, customer and length of the window; the path is that of the request.\<close>

definition portal_key :: "string \<Rightarrow> string \<Rightarrow> nat \<Rightarrow> string" where
  "portal_key path customerID seconds = path @ ''|'' @ customerID @ ''|'' @ udigits seconds"

definition portal_hit :: "int \<Rightarrow> int \<Rightarrow> int \<Rightarrow> string \<Rightarrow> mem_limits \<Rightarrow> bool \<times> mem_limits" where
  "portal_hit maxRequests window now key st =
     (case st key of
        None \<Rightarrow> (True, st(key \<mapsto> (1, now + window)))
      | Some (n, resetAt) \<Rightarrow>
          if now > resetAt then (True, st(key \<mapsto> (1, now + window)))
          else (\<not> n + 1 > maxRequests, st(key \<mapsto> (n + 1, resetAt))))"

definition portalCustomerRateLimiter ::
  "int \<Rightarrow> nat \<Rightarrow> int \<Rightarrow> string \<Rightarrow> locals \<Rightarrow> mem_limits \<Rightarrow> (http_error, unit) result \<times> mem_limits" where
  "portalCustomerRateLimiter maxRequests seconds now path c st =
     (if l_customer_id c = [] then (Inl (HttpError 401 ''unauthenticated''), st)
      else case portal_hit maxRequests (int seconds * 1000000000) now (portal_key path (l_customer_id c) seconds) st of
        (ok, st') \<Rightarrow> (if ok then Inr () else Inl (HttpError 429 ''rate limit exceeded''), st'))"

section \<open>Tickets of a customer\<close>

record portal_state =
  pd_desk :: ticket_state
  pd_users :: "customer_user list"
  pd_limits :: mem_limits

definition own_device :: "locals \<Rightarrow> ticket_row \<Rightarrow> bool" where
  "own_device c t = (l_customer_device_id c = [] \<or> tik_device t = Some (l_customer_device_id c))"

record portal_ticket =
  pv_id :: string
  pv_title :: string
  pv_status :: string
  pv_priority :: string
  pv_created :: int
  pv_updated :: int

definition portal_list :: "ticket_env \<Rightarrow> locals \<Rightarrow> ticket_state \<Rightarrow> (http_error, portal_ticket list) result" where
  "portal_list e c s =
     (if \<not> te_read e then Inl (HttpError 500 ''Failed to query tickets'')
      else Inr (map (\<lambda>t. \<lparr>pv_id = tik_id t, pv_title = tik_title t, pv_status = tik_status t, pv_priority = tik_priority t,
            pv_created = tik_created t, pv_updated = tik_updated t\<rparr>)
        (take 200 (sort_key (\<lambda>t. - tik_created t) (filter (\<lambda>t. tik_tenant t = l_tenant_id c \<and> own_device c t) (tik_rows s))))))"

text \<open>The lookup that four handlers share: the row by identifier and tenant, then its device.\<close>

definition portal_find :: "ticket_env \<Rightarrow> locals \<Rightarrow> string \<Rightarrow> ticket_state \<Rightarrow> (http_error, ticket_row) result" where
  "portal_find e c i s =
     (case (if te_find e then List.find (\<lambda>t. tik_id t = i \<and> tik_tenant t = l_tenant_id c) (tik_rows s) else None) of
        None \<Rightarrow> Inl (HttpError 404 ''Ticket not found'')
      | Some t \<Rightarrow> if own_device c t then Inr t else Inl (HttpError 404 ''Ticket not found''))"

definition portal_ticket_json :: "ticket_row \<Rightarrow> ticket_json" where
  "portal_ticket_json t = (ticket_json_of t)\<lparr>tj_assigned := [], tj_due := 0\<rparr>"

definition portal_get :: "ticket_env \<Rightarrow> locals \<Rightarrow> string \<Rightarrow> ticket_state \<Rightarrow> (http_error, ticket_json) result" where
  "portal_get e c i s = map_sum id portal_ticket_json (portal_find e c i s)"

definition portal_row :: "ticket_env \<Rightarrow> locals \<Rightarrow> string \<Rightarrow> string \<Rightarrow> ticket_row" where
  "portal_row e c title desc = \<lparr>tik_id = te_id e, tik_title = title, tik_description = Some desc, tik_status = ''open'', tik_priority = ''medium'',
     tik_device = (if l_customer_device_id c \<noteq> [] then Some (l_customer_device_id c) else None), tik_assigned = None, tik_created = te_now e,
     tik_updated = te_now e, tik_due = None, tik_category = ''portal'', tik_tenant = l_tenant_id c, tik_triage = None, tik_resolution = None\<rparr>"

definition portal_create ::
  "ticket_env \<Rightarrow> locals \<Rightarrow> (string \<times> string) option \<Rightarrow> ticket_state \<Rightarrow> (http_error, string) result \<times> audit_entry list \<times> ticket_state" where
  "portal_create e c body s =
     (case body of
        None \<Rightarrow> (Inl (HttpError 400 ''Invalid body''), [], s)
      | Some (asked, desc) \<Rightarrow>
        let title = trim_space asked in
        if title = [] then (Inl (HttpError 400 ''title required''), [], s)
        else if length desc > maxPortalTicketDescLen then (Inl (HttpError 400 ''description too long''), [], s)
        else (case insert_ticket (te_write e) (portal_row e c (take maxPortalTicketTitleLen title) desc) s of
                None \<Rightarrow> (Inl (HttpError 500 ''Failed to create ticket''), [], s)
              | Some s' \<Rightarrow> (Inr (te_id e), [(l_tenant_id c, l_customer_id c, ''portal.ticket.create'', ''ticket'', te_id e, ''portal-submitted ticket'')], s')))"

definition portal_comments :: "ticket_env \<Rightarrow> locals \<Rightarrow> string \<Rightarrow> ticket_state \<Rightarrow> (http_error, (string \<times> string \<times> int) list) result" where
  "portal_comments e c i s =
     (case portal_find e c i s of Inl er \<Rightarrow> Inl er
      | Inr _ \<Rightarrow>
        if \<not> te_read e then Inl (HttpError 500 ''Failed to query comments'')
        else Inr (map (\<lambda>m. (cmt_id m, cmt_body m, cmt_created m)) (take 1000 (sort_key cmt_created
          (filter (\<lambda>m. cmt_ticket m = i \<and> cmt_tenant m = l_tenant_id c \<and> cmt_internal m = 0) (rev (cmt_rows s)))))))"

definition portal_remark :: "ticket_env \<Rightarrow> locals \<Rightarrow> string \<Rightarrow> string \<Rightarrow> comment_row" where
  "portal_remark e c i txt = \<lparr>cmt_id = te_id e, cmt_ticket = i, cmt_tenant = l_tenant_id c, cmt_user = l_customer_id c, cmt_body = txt,
     cmt_internal = 0, cmt_created = te_now e\<rparr>"

definition portal_comment ::
  "ticket_env \<Rightarrow> locals \<Rightarrow> string \<Rightarrow> string option \<Rightarrow> ticket_state \<Rightarrow> (http_error, string) result \<times> audit_entry list \<times> ticket_state" where
  "portal_comment e c i body s =
     (case body of
        None \<Rightarrow> (Inl (HttpError 400 ''Invalid body''), [], s)
      | Some txt \<Rightarrow>
        if trim_space txt = [] then (Inl (HttpError 400 ''body required''), [], s)
        else if length txt > maxPortalCommentLen then (Inl (HttpError 400 ''comment too long''), [], s)
        else (case portal_find e c i s of
                Inl er \<Rightarrow> (Inl er, [], s)
              | Inr _ \<Rightarrow>
                (case insert_comment (te_write e) (portal_remark e c i txt) s of
                   None \<Rightarrow> (Inl (HttpError 500 ''Failed to add comment''), [], s)
                 | Some s' \<Rightarrow> (Inr (te_id e), [(l_tenant_id c, l_customer_id c, ''portal.ticket.comment'', ''ticket'', i, ''portal-submitted comment'')],
                     update_tickets (te_bump e) (\<lambda>t. tik_id t = i) (tik_updated_update (\<lambda>_. te_now e)) s'))))"

section \<open>The requests of a customer\<close>

datatype portal_op =
    Portal_me
  | Portal_list
  | Portal_get string
  | Portal_create string "(string \<times> string) option"
  | Portal_comments string
  | Portal_comment string string "string option"

datatype portal_reply = Me portalCustomer | Listed "portal_ticket list" | Found ticket_json | Remarks "(string \<times> string \<times> int) list" | Made string

type_synonym portal_answer = "(http_error, portal_reply) result \<times> audit_entry list"

text \<open>The clock of the limiter is in nanoseconds, that of the tables in seconds.\<close>

definition limiter_now :: "ticket_env \<Rightarrow> int" where "limiter_now e = te_now e * 1000000000"

fun portal_step :: "locals \<Rightarrow> ticket_env \<times> portal_op \<Rightarrow> portal_state \<Rightarrow> portal_answer \<times> portal_state" where
  "portal_step c (e, Portal_me) s = ((map_sum id Me (portal_me (te_find e) c (pd_users s)), []), s)"
| "portal_step c (e, Portal_list) s = ((map_sum id Listed (portal_list e c (pd_desk s)), []), s)"
| "portal_step c (e, Portal_get i) s = ((map_sum id Found (portal_get e c i (pd_desk s)), []), s)"
| "portal_step c (e, Portal_create path b) s =
     (case portalCustomerRateLimiter 10 3600 (limiter_now e) path c (pd_limits s) of
        (Inl er, l) \<Rightarrow> ((Inl er, []), s\<lparr>pd_limits := l\<rparr>)
      | (Inr _, l) \<Rightarrow>
        (case portalCustomerRateLimiter 3 60 (limiter_now e) path c l of
           (Inl er, l) \<Rightarrow> ((Inl er, []), s\<lparr>pd_limits := l\<rparr>)
         | (Inr _, l) \<Rightarrow> (case portal_create e c b (pd_desk s) of (r, a, d) \<Rightarrow> ((map_sum id Made r, a), s\<lparr>pd_limits := l, pd_desk := d\<rparr>))))"
| "portal_step c (e, Portal_comments i) s = ((map_sum id Remarks (portal_comments e c i (pd_desk s)), []), s)"
| "portal_step c (e, Portal_comment path i b) s =
     (case portalCustomerRateLimiter 30 3600 (limiter_now e) path c (pd_limits s) of
        (Inl er, l) \<Rightarrow> ((Inl er, []), s\<lparr>pd_limits := l\<rparr>)
      | (Inr _, l) \<Rightarrow> (case portal_comment e c i b (pd_desk s) of (r, a, d) \<Rightarrow> ((map_sum id Made r, a), s\<lparr>pd_limits := l, pd_desk := d\<rparr>)))"

section \<open>A customer stays within the tickets of the account\<close>

definition portal_visible :: "locals \<Rightarrow> ticket_row \<Rightarrow> bool" where
  "portal_visible c t = (tik_tenant t = l_tenant_id c \<and> own_device c t)"

definition own_ids :: "locals \<Rightarrow> ticket_state \<Rightarrow> string list" where
  "own_ids c d = map tik_id (filter (portal_visible c) (tik_rows d))"

text \<open>Internal comments are not the customer's to see.\<close>

definition own_comment :: "locals \<Rightarrow> ticket_state \<Rightarrow> comment_row \<Rightarrow> bool" where
  "own_comment c d m = (cmt_tenant m = l_tenant_id c \<and> cmt_internal m = 0 \<and> cmt_ticket m \<in> set (own_ids c d))"

definition desk_view :: "locals \<Rightarrow> ticket_state \<Rightarrow> ticket_state" where
  "desk_view c d = \<lparr>tik_rows = filter (portal_visible c) (tik_rows d), cmt_rows = filter (own_comment c d) (cmt_rows d)\<rparr>"

definition desk_rest :: "locals \<Rightarrow> ticket_state \<Rightarrow> ticket_state" where
  "desk_rest c d = \<lparr>tik_rows = filter (\<lambda>t. \<not> portal_visible c t) (tik_rows d), cmt_rows = filter (\<lambda>m. \<not> own_comment c d m) (cmt_rows d)\<rparr>"

definition own_bucket :: "locals \<Rightarrow> string \<Rightarrow> bool" where
  "own_bucket c k = (has_suffix k (''|'' @ l_customer_id c @ ''|3600'') \<or> has_suffix k (''|'' @ l_customer_id c @ ''|60''))"

definition own_account :: "locals \<Rightarrow> customer_user list \<Rightarrow> (string \<times> string) option" where
  "own_account c us = map_option (\<lambda>u. (cus_email u, cus_name u)) (List.find (\<lambda>u. cus_id u = l_customer_id c) us)"

definition portal_view :: "locals \<Rightarrow> portal_state \<Rightarrow> ticket_state \<times> (string \<times> string) option \<times> mem_limits" where
  "portal_view c s = (desk_view c (pd_desk s), own_account c (pd_users s), (\<lambda>k. if own_bucket c k then pd_limits s k else None))"

definition portal_rest :: "locals \<Rightarrow> portal_state \<Rightarrow> ticket_state \<times> customer_user list \<times> mem_limits" where
  "portal_rest c s = (desk_rest c (pd_desk s), pd_users s, (\<lambda>k. if own_bucket c k then None else pd_limits s k))"

definition customer_op :: "locals \<Rightarrow> ticket_env \<times> portal_op \<Rightarrow> portal_state \<Rightarrow> bool" where
  "customer_op c op s = (distinct (map tik_id (tik_rows (pd_desk s))) \<and> fresh_id (te_id (fst op)) (pd_desk s))"

lemma own_ids_view [simp]: "own_ids c (desk_view c d) = own_ids c d"
  by (simp add: own_ids_def desk_view_def)

lemma own_comment_view [simp]: "own_comment c (desk_view c d) = own_comment c d"
  by (simp add: own_comment_def fun_eq_iff)

lemma find_in_own:
  "distinct (map tik_id rows) \<Longrightarrow> List.find (\<lambda>t. tik_id t = i \<and> tik_tenant t = l_tenant_id c) rows = Some t \<Longrightarrow>
     List.find (\<lambda>t. tik_id t = i \<and> tik_tenant t = l_tenant_id c) (filter (portal_visible c) rows) = (if own_device c t then Some t else None)"
proof (induction rows)
  case (Cons r rows)
  show ?case
  proof (cases "tik_id r = i \<and> tik_tenant r = l_tenant_id c")
    case True
    have "List.find (\<lambda>t. tik_id t = i \<and> tik_tenant t = l_tenant_id c) (filter (portal_visible c) rows) = None"
      using Cons.prems(1) True unfolding find_None_iff by auto (metis imageI)
    moreover have "portal_visible c r = own_device c r" using True by (simp add: portal_visible_def)
    ultimately show ?thesis using True Cons.prems(2) by auto
  next
    case False
    with Cons show ?thesis by auto
  qed
qed simp

lemma find_not_own:
  "List.find (\<lambda>t. tik_id t = i \<and> tik_tenant t = l_tenant_id c) rows = None \<Longrightarrow>
     List.find (\<lambda>t. tik_id t = i \<and> tik_tenant t = l_tenant_id c) (filter (portal_visible c) rows) = None"
  by (auto simp: find_None_iff)

lemma portal_find_view:
  assumes "distinct (map tik_id (tik_rows d))"
  shows "portal_find e c i (desk_view c d) = portal_find e c i d"
proof (cases "List.find (\<lambda>t. tik_id t = i \<and> tik_tenant t = l_tenant_id c) (tik_rows d)")
  case None
  then show ?thesis by (simp add: portal_find_def desk_view_def find_not_own)
next
  case (Some t)
  show ?thesis by (simp add: portal_find_def desk_view_def Some find_in_own [OF assms Some])
qed

lemma portal_find_own:
  assumes "portal_find e c i d = Inr t"
  shows "i \<in> set (own_ids c d)" and "tik_id t = i" and "t \<in> set (tik_rows d)" and "portal_visible c t"
proof -
  have f: "List.find (\<lambda>t. tik_id t = i \<and> tik_tenant t = l_tenant_id c) (tik_rows d) = Some t" "own_device c t"
    using assms by (auto simp: portal_find_def split: option.splits if_splits)
  from f(1) have m: "t \<in> set (tik_rows d)" "tik_id t = i" "tik_tenant t = l_tenant_id c" by (auto simp: find_Some_iff)
  with f(2) show "tik_id t = i" "t \<in> set (tik_rows d)" "portal_visible c t" by (auto simp: portal_visible_def)
  then show "i \<in> set (own_ids c d)" by (auto simp: own_ids_def)
qed

lemma portal_reads_view:
  assumes "distinct (map tik_id (tik_rows d))"
  shows "portal_list e c (desk_view c d) = portal_list e c d"
    and "portal_get e c i (desk_view c d) = portal_get e c i d"
    and "portal_comments e c i (desk_view c d) = portal_comments e c i d"
proof -
  have "filter (\<lambda>t. tik_tenant t = l_tenant_id c \<and> own_device c t) (tik_rows (desk_view c d))
      = filter (\<lambda>t. tik_tenant t = l_tenant_id c \<and> own_device c t) (tik_rows d)"
    by (auto simp: desk_view_def portal_visible_def [abs_def] intro: filter_cong)
  then show "portal_list e c (desk_view c d) = portal_list e c d" by (simp add: portal_list_def)
  show "portal_get e c i (desk_view c d) = portal_get e c i d" by (simp add: portal_get_def portal_find_view [OF assms])
  have flt: "filter (\<lambda>m. cmt_ticket m = i \<and> cmt_tenant m = l_tenant_id c \<and> cmt_internal m = 0) (rev (filter (own_comment c d) ms))
      = filter (\<lambda>m. cmt_ticket m = i \<and> cmt_tenant m = l_tenant_id c \<and> cmt_internal m = 0) (rev ms)" if "i \<in> set (own_ids c d)" for ms
    by (induction ms) (auto simp: own_comment_def that)
  show "portal_comments e c i (desk_view c d) = portal_comments e c i d"
  proof (cases "portal_find e c i d")
    case (Inr t)
    have "cmt_rows (desk_view c d) = filter (own_comment c d) (cmt_rows d)" by (simp add: desk_view_def)
    with flt [OF portal_find_own(1) [OF Inr]] show ?thesis by (simp add: portal_comments_def portal_find_view [OF assms] Inr)
  qed (simp add: portal_comments_def portal_find_view [OF assms])
qed

definition keeps_own :: "locals \<Rightarrow> 'a \<times> ticket_state \<Rightarrow> 'a \<times> ticket_state \<Rightarrow> ticket_state \<Rightarrow> bool" where
  "keeps_own c small big d = (fst small = fst big \<and> snd small = desk_view c (snd big) \<and> desk_rest c (snd big) = desk_rest c d)"

lemma keeps_own_same: "keeps_own c (r, desk_view c d) (r, d) d"
  by (simp add: keeps_own_def)

lemma own_comment_insert:
  assumes "fresh_id (tik_id t) d"
  shows "m \<in> set (cmt_rows d) \<Longrightarrow> own_comment c (d\<lparr>tik_rows := t # tik_rows d\<rparr>) m = own_comment c d m"
proof -
  assume "m \<in> set (cmt_rows d)"
  then have "cmt_ticket m \<noteq> tik_id t" using assms by (metis fresh_id_def image_eqI set_map)
  then show "own_comment c (d\<lparr>tik_rows := t # tik_rows d\<rparr>) m = own_comment c d m" by (simp add: own_comment_def own_ids_def)
qed

lemma insert_ticket_own:
  assumes "fresh_id (tik_id t) d" and "portal_visible c t"
  shows "insert_ticket ok t (desk_view c d) = map_option (desk_view c) (insert_ticket ok t d)"
    and "insert_ticket ok t d = Some d' \<Longrightarrow> desk_rest c d' = desk_rest c d"
proof -
  have "filter (own_comment c (d\<lparr>tik_rows := t # tik_rows d\<rparr>)) (cmt_rows d) = filter (own_comment c d) (cmt_rows d)"
    "filter (\<lambda>m. \<not> own_comment c (d\<lparr>tik_rows := t # tik_rows d\<rparr>) m) (cmt_rows d) = filter (\<lambda>m. \<not> own_comment c d m) (cmt_rows d)"
    by (auto intro!: filter_cong simp: own_comment_insert [OF assms(1)])
  with assms show "insert_ticket ok t (desk_view c d) = map_option (desk_view c) (insert_ticket ok t d)"
    "insert_ticket ok t d = Some d' \<Longrightarrow> desk_rest c d' = desk_rest c d"
    by (auto simp: insert_ticket_def desk_view_def desk_rest_def fresh_id_def split: if_splits)
qed

lemma insert_comment_own:
  assumes "fresh_id (cmt_id m) d" and "own_comment c d m"
  shows "insert_comment ok m (desk_view c d) = map_option (desk_view c) (insert_comment ok m d)"
    and "insert_comment ok m d = Some d' \<Longrightarrow> desk_rest c d' = desk_rest c d \<and> tik_rows d' = tik_rows d"
proof -
  have "own_comment c (d\<lparr>cmt_rows := ms\<rparr>) = own_comment c d" for ms by (simp add: own_comment_def own_ids_def fun_eq_iff)
  with assms show "insert_comment ok m (desk_view c d) = map_option (desk_view c) (insert_comment ok m d)"
    "insert_comment ok m d = Some d' \<Longrightarrow> desk_rest c d' = desk_rest c d \<and> tik_rows d' = tik_rows d"
    by (auto simp: insert_comment_def desk_view_def desk_rest_def fresh_id_def split: if_splits)
qed

lemma bump_own:
  assumes "distinct (map tik_id (tik_rows d))" and "i \<in> set (own_ids c d)"
  shows "desk_view c (update_tickets ok (\<lambda>t. tik_id t = i) (tik_updated_update f) d) = update_tickets ok (\<lambda>t. tik_id t = i) (tik_updated_update f) (desk_view c d)"
    and "desk_rest c (update_tickets ok (\<lambda>t. tik_id t = i) (tik_updated_update f) d) = desk_rest c d"
proof -
  let ?b = "\<lambda>t. if tik_id t = i then tik_updated_update f t else t"
  have vis: "portal_visible c (tik_updated_update f t) = portal_visible c t" for t by (simp add: portal_visible_def own_device_def)
  have m: "filter (portal_visible c) (map ?b rows) = map ?b (filter (portal_visible c) rows)" for rows
    by (rule filter_mapped) (rule vis)
  have "map tik_id (map ?b rows) = map tik_id rows" for rows by (induction rows) auto
  then have ids: "own_ids c (d\<lparr>tik_rows := map ?b (tik_rows d)\<rparr>) = own_ids c d" by (simp add: own_ids_def m del: map_map)
  then have own: "own_comment c (d\<lparr>tik_rows := map ?b (tik_rows d)\<rparr>) = own_comment c d" by (simp add: own_comment_def fun_eq_iff)
  have "tik_id t \<noteq> i" if "t \<in> set (tik_rows d)" "\<not> portal_visible c t" for t
    using assms that by (auto simp: own_ids_def distinct_map inj_on_def)
  then have rest: "map ?b (filter (\<lambda>t. \<not> portal_visible c t) (tik_rows d)) = filter (\<lambda>t. \<not> portal_visible c t) (tik_rows d)"
    by (intro map_if_none) auto
  have m': "filter (\<lambda>t. \<not> portal_visible c t) (map ?b (tik_rows d)) = map ?b (filter (\<lambda>t. \<not> portal_visible c t) (tik_rows d))"
    by (rule filter_mapped) (simp add: vis)
  show "desk_view c (update_tickets ok (\<lambda>t. tik_id t = i) (tik_updated_update f) d) = update_tickets ok (\<lambda>t. tik_id t = i) (tik_updated_update f) (desk_view c d)"
    by (simp add: update_tickets_def desk_view_def own m)
  show "desk_rest c (update_tickets ok (\<lambda>t. tik_id t = i) (tik_updated_update f) d) = desk_rest c d"
    by (simp add: update_tickets_def desk_rest_def own m' rest)
qed

lemma create_own:
  assumes "fresh_id (te_id e) d"
  shows "fst (portal_create e c b (desk_view c d)) = fst (portal_create e c b d)"
    and "keeps_own c (snd (portal_create e c b (desk_view c d))) (snd (portal_create e c b d)) d"
proof -
  have vis: "portal_visible c (portal_row e c x y)" for x y by (simp add: portal_visible_def own_device_def portal_row_def)
  have fr: "fresh_id (tik_id (portal_row e c x y)) d" for x y using assms by (simp add: portal_row_def)
  note ins = insert_ticket_own [OF fr vis]
  show "fst (portal_create e c b (desk_view c d)) = fst (portal_create e c b d)"
    by (auto simp: portal_create_def Let_def ins(1) split: option.splits prod.splits)
  show "keeps_own c (snd (portal_create e c b (desk_view c d))) (snd (portal_create e c b d)) d"
    by (auto simp: portal_create_def Let_def ins(1) keeps_own_def dest: ins(2) split: option.splits prod.splits)
qed

lemma comment_own:
  assumes d: "distinct (map tik_id (tik_rows d))" and "fresh_id (te_id e) d"
  shows "fst (portal_comment e c i b (desk_view c d)) = fst (portal_comment e c i b d)"
    and "keeps_own c (snd (portal_comment e c i b (desk_view c d))) (snd (portal_comment e c i b d)) d"
proof -
  have fr: "fresh_id (cmt_id (portal_remark e c i x)) d" for x using assms(2) by (simp add: portal_remark_def)
  show "fst (portal_comment e c i b (desk_view c d)) = fst (portal_comment e c i b d)"
    and "keeps_own c (snd (portal_comment e c i b (desk_view c d))) (snd (portal_comment e c i b d)) d"
  proof (atomize (full), cases "portal_find e c i d")
    case (Inl er)
    then show "fst (portal_comment e c i b (desk_view c d)) = fst (portal_comment e c i b d)
      \<and> keeps_own c (snd (portal_comment e c i b (desk_view c d))) (snd (portal_comment e c i b d)) d"
      by (auto simp: portal_comment_def portal_find_view [OF d] keeps_own_def split: option.splits)
  next
    case (Inr t)
    note own = portal_find_own(1) [OF Inr]
    have oc: "own_comment c d (portal_remark e c i x)" for x using own by (simp add: own_comment_def portal_remark_def)
    have bump: "desk_view c (update_tickets ok (\<lambda>t. tik_id t = i) (tik_updated_update f) s') = update_tickets ok (\<lambda>t. tik_id t = i) (tik_updated_update f) (desk_view c s')"
      "desk_rest c (update_tickets ok (\<lambda>t. tik_id t = i) (tik_updated_update f) s') = desk_rest c d"
      if "insert_comment w (portal_remark e c i x) d = Some s'" for ok f w x s'
    proof -
      from insert_comment_own(2) [OF fr oc that] have r: "desk_rest c s' = desk_rest c d" "tik_rows s' = tik_rows d" by auto
      have "distinct (map tik_id (tik_rows s'))" "i \<in> set (own_ids c s')" using d own r(2) by (simp_all add: own_ids_def)
      from bump_own [OF this] r(1) show "desk_view c (update_tickets ok (\<lambda>t. tik_id t = i) (tik_updated_update f) s')
          = update_tickets ok (\<lambda>t. tik_id t = i) (tik_updated_update f) (desk_view c s')"
        "desk_rest c (update_tickets ok (\<lambda>t. tik_id t = i) (tik_updated_update f) s') = desk_rest c d" by simp_all
    qed
    show "fst (portal_comment e c i b (desk_view c d)) = fst (portal_comment e c i b d)
      \<and> keeps_own c (snd (portal_comment e c i b (desk_view c d))) (snd (portal_comment e c i b d)) d"
      by (auto simp: portal_comment_def portal_find_view [OF d] Inr keeps_own_def insert_comment_own(1) [OF fr oc] bump split: option.splits)
  qed
qed

lemma portal_key_own: "w = 3600 \<or> w = 60 \<Longrightarrow> own_bucket c (portal_key path (l_customer_id c) w)"
proof -
  have n: "udigits 3600 = ''3600''" "udigits 60 = ''60''" by code_simp+
  have "has_suffix (path @ ''|'' @ l_customer_id c @ ''|3600'') (''|'' @ l_customer_id c @ ''|3600'')"
    "has_suffix (path @ ''|'' @ l_customer_id c @ ''|60'') (''|'' @ l_customer_id c @ ''|60'')"
    by (rule has_suffix_append)+
  then show "w = 3600 \<or> w = 60 \<Longrightarrow> own_bucket c (portal_key path (l_customer_id c) w)"
    by (auto simp: own_bucket_def portal_key_def n)
qed

text \<open>The limiter is that of the requests in memory, over other keys.\<close>

lemma portal_hit_mem: "portal_hit maxRequests window now k st = mem_hit maxRequests window now k st"
  by (simp add: portal_hit_def mem_hit_def split: option.splits)

definition own_limits :: "locals \<Rightarrow> mem_limits \<Rightarrow> mem_limits" where
  "own_limits c l = (\<lambda>k. if own_bucket c k then l k else None)"

definition other_limits :: "locals \<Rightarrow> mem_limits \<Rightarrow> mem_limits" where
  "other_limits c l = (\<lambda>k. if own_bucket c k then None else l k)"

lemma limiter_own:
  assumes "w = 3600 \<or> w = 60"
  shows "fst (portalCustomerRateLimiter n w now path c (own_limits c l)) = fst (portalCustomerRateLimiter n w now path c l)"
    and "snd (portalCustomerRateLimiter n w now path c (own_limits c l)) = own_limits c (snd (portalCustomerRateLimiter n w now path c l))"
    and "other_limits c (snd (portalCustomerRateLimiter n w now path c l)) = other_limits c l"
  using portal_key_own [OF assms, of c path]
  by (auto simp: portalCustomerRateLimiter_def portal_hit_def own_limits_def other_limits_def fun_eq_iff split: option.splits prod.splits)

definition small_portal :: "locals \<Rightarrow> portal_state \<Rightarrow> portal_state" where
  "small_portal c s = s\<lparr>pd_desk := desk_view c (pd_desk s), pd_limits := own_limits c (pd_limits s)\<rparr>"

text \<open>A step on the customer's part of the state is the customer's part of the step.\<close>

lemma portal_step_own:
  assumes "customer_op c op s"
  shows "fst (portal_step c op (small_portal c s)) = fst (portal_step c op s)
    \<and> snd (portal_step c op (small_portal c s)) = small_portal c (snd (portal_step c op s))
    \<and> portal_rest c (snd (portal_step c op s)) = portal_rest c s \<and> pd_users (snd (portal_step c op s)) = pd_users s"
proof -
  obtain e o1 where op: "op = (e, o1)" by (cases op)
  have d: "distinct (map tik_id (tik_rows (pd_desk s)))" and f: "fresh_id (te_id e) (pd_desk s)"
    using assms by (simp_all add: customer_op_def op)
  have sp: "pd_users (small_portal c s) = pd_users s" "pd_desk (small_portal c s) = desk_view c (pd_desk s)"
    "pd_limits (small_portal c s) = own_limits c (pd_limits s)" by (simp_all add: small_portal_def)
  note reads = portal_reads_view [OF d]
  have rest: "portal_rest c s = (desk_rest c (pd_desk s), pd_users s, other_limits c (pd_limits s))" for s
    by (simp add: portal_rest_def other_limits_def)
  show ?thesis
  proof (cases o1)
    case (Portal_create path b)
    obtain r1 l1 where l1: "portalCustomerRateLimiter 10 3600 (limiter_now e) path c (pd_limits s) = (r1, l1)" by force
    obtain r2 l2 where l2: "portalCustomerRateLimiter 3 60 (limiter_now e) path c l1 = (r2, l2)" by force
    have s1: "portalCustomerRateLimiter 10 3600 (limiter_now e) path c (own_limits c (pd_limits s)) = (r1, own_limits c l1)" "other_limits c l1 = other_limits c (pd_limits s)"
      using limiter_own [where w = 3600 and n = 10 and now = "limiter_now e" and path = path and c = c and l = "pd_limits s"] by (simp_all add: l1 prod_eq_iff)
    have s2: "portalCustomerRateLimiter 3 60 (limiter_now e) path c (own_limits c l1) = (r2, own_limits c l2)" "other_limits c l2 = other_limits c l1"
      using limiter_own [where w = 60 and n = 3 and now = "limiter_now e" and path = path and c = c and l = l1] by (simp_all add: l2 prod_eq_iff)
    from create_own [OF f, of c b] show ?thesis
      by (cases r1; cases r2) (auto simp: op Portal_create sp l1 l2 s1 s2 rest keeps_own_def small_portal_def split_beta)
  next
    case (Portal_comment path i b)
    obtain r1 l1 where l1: "portalCustomerRateLimiter 30 3600 (limiter_now e) path c (pd_limits s) = (r1, l1)" by force
    have s1: "portalCustomerRateLimiter 30 3600 (limiter_now e) path c (own_limits c (pd_limits s)) = (r1, own_limits c l1)" "other_limits c l1 = other_limits c (pd_limits s)"
      using limiter_own [where w = 3600 and n = 30 and now = "limiter_now e" and path = path and c = c and l = "pd_limits s"] by (simp_all add: l1 prod_eq_iff)
    from comment_own [OF d f, of c i b] show ?thesis
      by (cases r1) (auto simp: op Portal_comment sp l1 s1 rest keeps_own_def small_portal_def split_beta)
  qed (simp_all add: op sp reads)
qed

lemma portal_view_small: "portal_view c s = (pd_desk (small_portal c s), own_account c (pd_users s), pd_limits (small_portal c s))"
  by (simp add: portal_view_def small_portal_def own_limits_def)

lemma portal_me_account: "own_account c us = own_account c vs \<Longrightarrow> portal_me db_up c us = portal_me db_up c vs"
  by (cases "List.find (\<lambda>u. cus_id u = l_customer_id c) us"; cases "List.find (\<lambda>u. cus_id u = l_customer_id c) vs")
    (simp_all add: own_account_def portal_me_def)

lemma portal_step_users:
  assumes "own_account c (pd_users s) = own_account c us"
  shows "fst (portal_step c op (s\<lparr>pd_users := us\<rparr>)) = fst (portal_step c op s)
    \<and> snd (portal_step c op (s\<lparr>pd_users := us\<rparr>)) = (snd (portal_step c op s))\<lparr>pd_users := us\<rparr>"
proof -
  obtain e o1 where op: "op = (e, o1)" by (cases op)
  note portal_me_account [OF assms]
  then show ?thesis by (cases o1) (auto simp: op split_beta split: sum.splits)
qed

interpretation customer: isolated "portal_step c" "customer_op c" "portal_view c" "portal_rest c" for c
proof
  fix op s t
  assume g: "customer_op c op s" "customer_op c op t" and v: "portal_view c s = portal_view c t"
  from v have u: "own_account c (pd_users (small_portal c s)) = own_account c (pd_users t)"
    and eq: "small_portal c t = (small_portal c s)\<lparr>pd_users := pd_users t\<rparr>"
    by (simp_all add: portal_view_small) (simp_all add: small_portal_def)
  note s = portal_step_own [OF g(1)] and t = portal_step_own [OF g(2)] and us = portal_step_users [OF u, of op]
  have "small_portal c (snd (portal_step c op t)) = (small_portal c (snd (portal_step c op s)))\<lparr>pd_users := pd_users t\<rparr>"
    using s t us eq by simp
  then have "portal_view c (snd (portal_step c op s)) = portal_view c (snd (portal_step c op t))"
    using s t v by (simp add: portal_view_small)
  with s t us eq show "fst (portal_step c op s) = fst (portal_step c op t)
      \<and> portal_view c (snd (portal_step c op s)) = portal_view c (snd (portal_step c op t))" by simp
next
  fix op s
  assume "customer_op c op s"
  from portal_step_own [OF this] show "portal_rest c (snd (portal_step c op s)) = portal_rest c s" by blast
qed

text \<open>
  C34. A customer sees and changes nothing but the tickets of the account: whatever the requests, the answers and audit
  entries depend only on the tickets of the tenant (and device), their comments that are not internal, the own account and
  the own buckets of the limiter, and everything else stays as it was.
\<close>

theorem portal_customer_isolated:
  assumes "ops_ok (customer_op c) (portal_step c) ops s" and "ops_ok (customer_op c) (portal_step c) ops t"
    and "portal_view c s = portal_view c t"
  shows "fst (run_ops (portal_step c) ops s) = fst (run_ops (portal_step c) ops t)
    \<and> portal_rest c (snd (run_ops (portal_step c) ops s)) = portal_rest c s"
  using customer.run_view [OF assms] customer.run_others [OF assms(1)] by blast

definition toy_customer :: locals where
  "toy_customer = no_locals\<lparr>l_customer_id := ''c1'', l_tenant_id := ''t1'', l_customer_device_id := ''d1''\<rparr>"

definition toy_remark :: "string \<Rightarrow> int \<Rightarrow> comment_row" where
  "toy_remark i n = \<lparr>cmt_id = i, cmt_ticket = ''k1'', cmt_tenant = ''t1'', cmt_user = ''u1'', cmt_body = i, cmt_internal = n, cmt_created = 2\<rparr>"

definition toy_portal :: "string \<Rightarrow> portal_state" where
  "toy_portal other = \<lparr>pd_desk = \<lparr>tik_rows = [toy_ticket ''k1'' ''t1'' ''d1'', toy_ticket other ''t1'' ''d2''], cmt_rows = [toy_remark ''m1'' 0, toy_remark other 1]\<rparr>,
     pd_users = [], pd_limits = Map.empty\<rparr>"

definition toy_portal_ops :: "(ticket_env \<times> portal_op) list" where
  "toy_portal_ops = [(toy_ticket_env ''n1'', Portal_comments ''k1''), (toy_ticket_env ''n3'', Portal_comment ''/p'' ''k1'' (Some ''hello''))]"

theorem portal_customer_isolated_witness:
  "toy_portal ''x'' \<noteq> toy_portal ''y''
   \<and> fst (run_ops (portal_step toy_customer) toy_portal_ops (toy_portal ''x'')) = fst (run_ops (portal_step toy_customer) toy_portal_ops (toy_portal ''y''))
   \<and> fst (portal_comment (toy_ticket_env ''n3'') toy_customer ''k1'' (Some ''hello'') (pd_desk (toy_portal ''x''))) = Inr ''n3''"
proof -
  have step: "snd (portal_step toy_customer (toy_ticket_env ''n1'', Portal_comments ''k1'') s) = s" for s by simp
  have "customer_op toy_customer (toy_ticket_env n, o1) (toy_portal i)" if "n = ''n1'' \<or> n = ''n3''" "i = ''x'' \<or> i = ''y''" for n o1 i
    using that by (auto simp: customer_op_def toy_ticket_env_def toy_portal_def toy_ticket_def toy_remark_def fresh_id_def)
  then have ok: "ops_ok (customer_op toy_customer) (portal_step toy_customer) toy_portal_ops (toy_portal ''x'')"
    "ops_ok (customer_op toy_customer) (portal_step toy_customer) toy_portal_ops (toy_portal ''y'')"
    by (simp_all add: toy_portal_ops_def step del: portal_step.simps)
  have v: "portal_view toy_customer (toy_portal ''x'') = portal_view toy_customer (toy_portal ''y'')"
  proof -
    have "pd_limits (toy_portal i) = Map.empty" "pd_users (toy_portal i) = []" for i by (simp_all add: toy_portal_def)
    moreover have "desk_view toy_customer (pd_desk (toy_portal i)) = \<lparr>tik_rows = [toy_ticket ''k1'' ''t1'' ''d1''], cmt_rows = [toy_remark ''m1'' 0]\<rparr>" for i
      by (simp add: toy_portal_def desk_view_def own_comment_def own_ids_def portal_visible_def own_device_def toy_ticket_def
          toy_customer_def toy_remark_def no_locals_def)
    ultimately show ?thesis by (simp only: portal_view_def)
  qed
  have "fst (portal_comment (toy_ticket_env ''n3'') toy_customer ''k1'' (Some ''hello'') (pd_desk (toy_portal ''x''))) = Inr ''n3''" by code_simp
  moreover have "toy_portal ''x'' \<noteq> toy_portal ''y''" by (simp add: toy_portal_def toy_ticket_def)
  ultimately show ?thesis using portal_customer_isolated [OF ok v] by blast
qed

section \<open>Admins manage the accounts\<close>

record customer_json =
  cuj_id :: string
  cuj_tenant :: string
  cuj_email :: string
  cuj_name :: string
  cuj_device :: string
  cuj_disabled :: bool
  cuj_last_login :: int
  cuj_created :: int

definition customer_json_of :: "customer_user \<Rightarrow> customer_json" where
  "customer_json_of u = \<lparr>cuj_id = cus_id u, cuj_tenant = cus_tenant u, cuj_email = cus_email u, cuj_name = cus_name u,
     cuj_device = text_of (cus_device u), cuj_disabled = (cus_disabled u = 1),
     cuj_last_login = (case cus_last_login u of Some n \<Rightarrow> n | None \<Rightarrow> 0), cuj_created = cus_created u\<rparr>"

definition list_customers :: "ticket_env \<Rightarrow> locals \<Rightarrow> customer_user list \<Rightarrow> (http_error, customer_json list) result" where
  "list_customers e c us =
     (case AdminMiddleware c of Inl er \<Rightarrow> Inl er
      | Inr c \<Rightarrow> if \<not> te_read e then Inl (HttpError 500 ''Failed to query customers'')
          else Inr (map customer_json_of (take 1000 (sort_key (\<lambda>u. - cus_created u) (filter (\<lambda>u. tenant_visible c (cus_tenant u)) us)))))"

record customer_request =
  cr_email :: string
  cr_name :: string
  cr_password :: string
  cr_device :: string

text \<open>The unique index on tenant and address, and the primary key.\<close>

definition insert_customer :: "bool \<Rightarrow> customer_user \<Rightarrow> customer_user list \<Rightarrow> customer_user list option" where
  "insert_customer ok u us = (if ok \<and> list_all (\<lambda>v. cus_id v \<noteq> cus_id u \<and> (cus_tenant v, cus_email v) \<noteq> (cus_tenant u, cus_email u)) us
     then Some (u # us) else None)"

definition create_customer ::
  "libs \<Rightarrow> (string \<Rightarrow> bool) \<Rightarrow> (pw_error \<Rightarrow> string) \<Rightarrow> ticket_env \<Rightarrow> locals \<Rightarrow> customer_request option \<Rightarrow> customer_user list
    \<Rightarrow> (http_error, string) result \<times> audit_entry list \<times> customer_user list" where
  "create_customer L mail_ok pw_text e c body us =
     (case AdminMiddleware c of Inl er \<Rightarrow> (Inl er, [], us)
      | Inr c \<Rightarrow>
       (case body of
          None \<Rightarrow> (Inl (HttpError 400 ''Invalid body''), [], us)
        | Some q \<Rightarrow>
          let email = to_lower (trim_space (cr_email q)); name = trim_space (cr_name q) in
          if email = [] \<or> name = [] \<or> cr_password q = [] then (Inl (HttpError 400 ''email, name, password required''), [], us)
          else if \<not> mail_ok email then (Inl (HttpError 400 ''invalid email''), [], us)
          else (case ValidatePasswordStrength (cr_password q) of
             Inl er \<Rightarrow> (Inl (HttpError 400 (pw_text er)), [], us)
           | Inr _ \<Rightarrow>
             if cr_device q \<noteq> [] \<and> \<not> (te_find e \<and> (case te_device e (cr_device q) of None \<Rightarrow> False | Some T \<Rightarrow> tenant_visible c T))
             then (Inl (HttpError 400 ''device_id not in tenant''), [], us)
             else (case lb_bcrypt L (cr_password q) of
                None \<Rightarrow> (Inl (HttpError 500 ''hash failed''), [], us)
              | Some h \<Rightarrow>
                (case insert_customer (te_write e) \<lparr>cus_id = te_id e, cus_tenant = callerTenantID c, cus_email = email, cus_name = name,
                    cus_pwhash = h, cus_device = (if cr_device q \<noteq> [] then Some (cr_device q) else None), cus_last_login = None,
                    cus_created = te_now e, cus_disabled = 0\<rparr> us of
                   None \<Rightarrow> (Inl (HttpError 409 ''email already registered''), [], us)
                 | Some us' \<Rightarrow> (Inr (te_id e), [(callerTenantID c, l_user_id c, ''customer.create'', ''customer'', te_id e, ''created customer '' @ email)], us'))))))"

definition account_visible :: "ticket_env \<Rightarrow> locals \<Rightarrow> string \<Rightarrow> customer_user list \<Rightarrow> bool" where
  "account_visible e c i us = (te_find e \<and> list_ex (\<lambda>u. cus_id u = i \<and> tenant_visible c (cus_tenant u)) us)"

definition set_customer :: "string \<Rightarrow> (customer_user \<Rightarrow> customer_user) \<Rightarrow> customer_user list \<Rightarrow> customer_user list" where
  "set_customer i f us = map (\<lambda>u. if cus_id u = i then f u else u) us"

record customer_update =
  cz_name :: string
  cz_disabled :: "bool option"
  cz_password :: string

text \<open>Each part of an update is a statement of its own and may fail unnoticed: \<open>writes\<close> says which succeed.\<close>

record customer_writes =
  cw_name :: bool
  cw_disabled :: bool
  cw_password :: bool

definition update_customer ::
  "libs \<Rightarrow> (pw_error \<Rightarrow> string) \<Rightarrow> ticket_env \<Rightarrow> customer_writes \<Rightarrow> locals \<Rightarrow> string \<Rightarrow> customer_update option \<Rightarrow> customer_user list
    \<Rightarrow> (http_error, unit) result \<times> audit_entry list \<times> customer_user list" where
  "update_customer L pw_text e wr c i body us =
     (case AdminMiddleware c of Inl er \<Rightarrow> (Inl er, [], us)
      | Inr c \<Rightarrow>
        if \<not> account_visible e c i us then (Inl (HttpError 404 ''customer not found''), [], us)
        else (case body of
           None \<Rightarrow> (Inl (HttpError 400 ''Invalid body''), [], us)
         | Some q \<Rightarrow>
           let us = (if cz_name q \<noteq> [] \<and> cw_name wr then set_customer i (cus_name_update (\<lambda>_. cz_name q)) us else us);
               us = (case cz_disabled q of Some d \<Rightarrow> if cw_disabled wr then set_customer i (cus_disabled_update (\<lambda>_. if d then 1 else 0)) us else us
                      | None \<Rightarrow> us);
               done = (Inr (), [(callerTenantID c, l_user_id c, ''customer.update'', ''customer'', i, ''updated customer'')])
           in if cz_password q = [] then (fst done, snd done, us)
              else (case ValidatePasswordStrength (cz_password q) of
                 Inl er \<Rightarrow> (Inl (HttpError 400 (pw_text er)), [], us)
               | Inr _ \<Rightarrow> (case lb_bcrypt L (cz_password q) of
                    None \<Rightarrow> (Inl (HttpError 500 ''hash failed''), [], us)
                  | Some h \<Rightarrow> (fst done, snd done, if cw_password wr then set_customer i (cus_pwhash_update (\<lambda>_. h)) us else us)))))"

definition delete_customer ::
  "ticket_env \<Rightarrow> locals \<Rightarrow> string \<Rightarrow> customer_user list \<Rightarrow> (http_error, unit) result \<times> audit_entry list \<times> customer_user list" where
  "delete_customer e c i us =
     (case AdminMiddleware c of Inl er \<Rightarrow> (Inl er, [], us)
      | Inr c \<Rightarrow>
        if \<not> account_visible e c i us then (Inl (HttpError 404 ''customer not found''), [], us)
        else if \<not> te_write e then (Inl (HttpError 500 ''delete failed''), [], us)
        else (Inr (), [(callerTenantID c, l_user_id c, ''customer.delete'', ''customer'', i, ''deleted customer'')], filter (\<lambda>u. cus_id u \<noteq> i) us))"

section \<open>Sessions of the portal\<close>

definition portal_request :: "string \<Rightarrow> request" where
  "portal_request tok = \<lparr>r_method = ''GET'', r_path = ''/api/v1/portal/me'', r_protocol = ''https'', r_ip = ''9.9.9.9'',
     r_cookies = (\<lambda>k. if k = ''portal_token'' then tok else []), r_headers = (\<lambda>_. [])\<rparr>"

lemma portal_login_ok:
  assumes "portal_login L w jti csrf body us = (Inr po, a, us')"
  obtains q u where "body = Some q" "List.find (\<lambda>u. cus_tenant u = pl_tenant q \<and> cus_email u = to_lower (trim_space (pl_email q))) us = Some u"
    "cus_disabled u \<noteq> 1" "lb_bcrypt_ok L (cus_pwhash u) (pl_password q)" "pl_tenant q \<noteq> []" "po_id po = cus_id u" "po_tenant po = pl_tenant q"
    "GeneratePortalJWT (w_jwt w) (w_secret w) (w_now w) jti (cus_id u) (pl_tenant q) (text_of (cus_device u)) 12 = Some (po_token po)"
    "us' = map (\<lambda>v. if cus_id v = cus_id u then v\<lparr>cus_last_login := Some (w_now w)\<rparr> else v) us"
  using assms
  by (auto simp: portal_login_def Let_def portalSessionHours_def split: option.splits if_splits)

lemma portal_token_valid:
  assumes "jwt_lib_ok J" and "GeneratePortalJWT J secret iat jti u T d 12 = Some tok" and "T \<noteq> []" and "now < iat + 43200"
  shows "\<exists>d'. ValidatePortalJWT J secret now tok = Inr (u, T, d')"
proof -
  let ?c = "session_claims u T ''customer'' (add_hours iat 12) iat ''vaporrmm-portal'' jti"
  let ?cs = "if d \<noteq> [] then ?c(''did'' \<mapsto> CStr d) else ?c"
  have sign: "jwt_sign J secret ?cs = Some tok" using assms(2) by (simp add: GeneratePortalJWT_def Let_def)
  have e: "?cs ''exp'' = Some (CNum (add_hours iat 12))" by simp
  have "parsed_claims J secret now tok = Inr ?cs"
    using parsed_claims_signed [OF assms(1) sign e, of now] add_hours_small [of 12 iat] assms(4) by simp
  then show ?thesis using assms(3) by (auto simp: ValidatePortalJWT_ok claim_str_def)
qed

text \<open>
  The token of a portal login admits, for the twelve hours of its life, exactly the account that logged in, with its
  tenant and its present device, as long as the account is still there and enabled and the tenant is allowed; once an
  admin has disabled the account the same token is refused.
\<close>

theorem portal_session_roundtrip:
  assumes "jwt_lib_ok (w_jwt w)" and "portal_login L w jti csrf body us = (Inr po, a, us')"
    and "w_now w \<le> w_now w'" and "w_now w' < w_now w + 43200" and "w_jwt w' = w_jwt w" and "w_secret w' = w_secret w" and "w_db_up w'"
    and "po_token po \<noteq> []" and "cache (agents s) (HashToken (w_prims w') (po_token po)) = None"
    and "customers s = portal_accounts vs" and "List.find (\<lambda>u. cus_id u = po_id po \<and> cus_tenant u = po_tenant po) vs = Some v"
    and "TenantAllowed (w_env w') (w_now w') (w_db_up w') (tenant_tbl s) (po_tenant po)"
  shows "PortalAuthMiddleware w' (portal_request (po_token po)) no_locals s =
    (if cus_disabled v = 1 then Inl (HttpError 403 ''portal account disabled'')
     else Inr (no_locals\<lparr>l_auth_type := ''portal'', l_customer_id := po_id po, l_tenant_id := po_tenant po,
       l_customer_device_id := text_of (cus_device v)\<rparr>))"
proof -
  from assms(2) obtain q :: portal_login_request and u :: customer_user where q: "pl_tenant q \<noteq> []" "po_id po = cus_id u" "po_tenant po = pl_tenant q"
    "GeneratePortalJWT (w_jwt w) (w_secret w) (w_now w) jti (cus_id u) (pl_tenant q) (text_of (cus_device u)) 12 = Some (po_token po)"
    by (rule portal_login_ok) blast
  have T: "po_tenant po \<noteq> []" using q by simp
  obtain d' where valid: "ValidatePortalJWT (w_jwt w') (w_secret w') (w_now w') (po_token po) = Inr (po_id po, po_tenant po, d')"
    using portal_token_valid [OF assms(1) q(4,1) assms(4)] by (auto simp: assms(5,6) q)
  have tok: "request_token ''portal_token'' (HttpError 401 ''Missing portal authorization'') (portal_request (po_token po)) = Inr (po_token po)"
    using assms(8) by (simp add: request_token_def portal_request_def)
  show ?thesis
    by (simp add: PortalAuthMiddleware_def tok assms(7,9,10,11) valid portal_accounts_def assms(12) [simplified assms(7)] guard_def text_of_def)
qed

definition toy_account :: "int \<Rightarrow> customer_user" where
  "toy_account n = \<lparr>cus_id = ''c1'', cus_tenant = ''t1'', cus_email = ''a@b'', cus_name = ''A'', cus_pwhash = ''pw'', cus_device = None,
     cus_last_login = None, cus_created = 1, cus_disabled = n\<rparr>"

definition toy_portal_world :: world where
  "toy_portal_world = toy_world (session_claims ''c1'' ''t1'' ''customer'' 43300 100 ''vaporrmm-portal'' ''j'')"

definition toy_portal_session :: portal_session where
  "toy_portal_session = \<lparr>po_id = ''c1'', po_email = ''a@b'', po_name = ''A'', po_tenant = ''t1'', po_device = [], po_token = ''tokA'', po_csrf = ''x''\<rparr>"

lemma toy_portal_login:
  "fst (portal_login toy_libs toy_portal_world ''j'' ''x'' (Some \<lparr>pl_email = ''a@b'', pl_password = ''pw'', pl_tenant = ''t1''\<rparr>) [toy_account 0])
     = Inr toy_portal_session"
proof -
  have "add_hours 100 12 = 43300" by (simp add: add_hours_small)
  then have g: "GeneratePortalJWT (w_jwt toy_portal_world) (w_secret toy_portal_world) (w_now toy_portal_world) ''j'' ''c1'' ''t1'' [] 12 = Some ''tokA''"
    by (simp add: GeneratePortalJWT_def toy_portal_world_def toy_world_def jwt_sign_toy Let_def)
  have e: "to_lower (trim_space ''a@b'') = ''a@b''" by code_simp
  show ?thesis
    by (simp add: portal_login_def e toy_account_def text_of_def portalSessionHours_def g toy_libs_def toy_portal_session_def Let_def)
      (simp add: toy_portal_world_def toy_world_def)
qed

theorem portal_session_roundtrip_witness:
  "PortalAuthMiddleware toy_portal_world (portal_request ''tokA'') no_locals (toy_auth\<lparr>customers := portal_accounts [toy_account 1]\<rparr>)
     = Inl (HttpError 403 ''portal account disabled'')
   \<and> is_ok (PortalAuthMiddleware toy_portal_world (portal_request ''tokA'') no_locals (toy_auth\<lparr>customers := portal_accounts [toy_account 0]\<rparr>))"
proof -
  obtain a us' where login: "portal_login toy_libs toy_portal_world ''j'' ''x'' (Some \<lparr>pl_email = ''a@b'', pl_password = ''pw'', pl_tenant = ''t1''\<rparr>) [toy_account 0]
      = (Inr toy_portal_session, a, us')"
    using toy_portal_login by (metis prod.collapse)
  have J: "jwt_lib_ok (w_jwt toy_portal_world)" by (simp add: toy_portal_world_def toy_world_def jwt_lib_ok_toy)
  have up: "w_db_up toy_portal_world" by (simp add: toy_portal_world_def toy_world_def)
  have admit: "PortalAuthMiddleware toy_portal_world (portal_request (po_token toy_portal_session)) no_locals (toy_auth\<lparr>customers := portal_accounts [toy_account n]\<rparr>) =
    (if cus_disabled (toy_account n) = 1 then Inl (HttpError 403 ''portal account disabled'')
     else Inr (no_locals\<lparr>l_auth_type := ''portal'', l_customer_id := po_id toy_portal_session, l_tenant_id := po_tenant toy_portal_session,
       l_customer_device_id := text_of (cus_device (toy_account n))\<rparr>))" for n
    by (rule portal_session_roundtrip [OF J login order_refl _ refl refl up, where vs = "[toy_account n]"])
      (simp_all add: toy_portal_session_def toy_auth_def toy_account_def toy_portal_world_def toy_world_def empty_state_def TenantAllowed_def select_row_def)
  from admit [of 1] admit [of 0] show ?thesis by (simp add: toy_account_def toy_portal_session_def)
qed

section \<open>Tables stay well-formed\<close>

lemma portal_step_ok: "desk_ok (pd_desk s) \<Longrightarrow> desk_ok (pd_desk (snd (portal_step c op s)))"
proof -
  assume s: "desk_ok (pd_desk s)"
  obtain e o1 where op: "op = (e, o1)" by (cases op)
  have create: "desk_ok (snd (snd (portal_create e c b (pd_desk s))))" for b
  proof -
    have r: "ticket_ok (portal_row e c (take maxPortalTicketTitleLen t) x)" if "t \<noteq> []" for t x
      using that by (simp add: ticket_ok_def portal_row_def allowedTicketStatuses_def allowedTicketPriorities_def maxPortalTicketTitleLen_def)
    show ?thesis using s r
      by (auto simp: portal_create_def Let_def dest: desk_ok_insert(1) [OF s, rotated] split: option.splits prod.splits)
  qed
  have comment: "desk_ok (snd (snd (portal_comment e c i b (pd_desk s))))" for i b
    using s by (auto simp: portal_comment_def portal_remark_def intro!: bump_ok dest: desk_ok_insert(2) [OF s, rotated] split: option.splits sum.splits)
  show ?thesis
  proof (cases o1)
    case (Portal_create path b)
    with create [of b] s show ?thesis by (auto simp: op split_beta split: sum.splits)
  next
    case (Portal_comment path i b)
    with comment [of i b] s show ?thesis by (auto simp: op split_beta split: sum.splits)
  qed (simp_all add: op s)
qed

text \<open>Staff and customers work on one desk; so do the results of the triage.\<close>

datatype desk_event = By_staff locals ticket_env ticket_op | By_customer locals ticket_env portal_op | Triaged ticket_env string string string

fun do_desk_event :: "desk_event \<Rightarrow> portal_state \<Rightarrow> portal_state" where
  "do_desk_event (By_staff c e o1) s = s\<lparr>pd_desk := snd (ticket_step c (e, o1) (pd_desk s))\<rparr>"
| "do_desk_event (By_customer c e o1) s = snd (portal_step c (e, o1) s)"
| "do_desk_event (Triaged e T i x) s = s\<lparr>pd_desk := store_triage e T i x (pd_desk s)\<rparr>"

text \<open>
  Whatever staff and customers request, in any order and with any failures, every ticket keeps a title, a known status
  and a known priority, identifiers stay unique, and a comment is internal or not.
\<close>

theorem desk_stays_well_formed:
  assumes "desk_ok (pd_desk s)"
  shows "desk_ok (pd_desk (fold do_desk_event es s))"
  using assms
proof (induction es arbitrary: s)
  case (Cons ev es)
  have "desk_ok (pd_desk (do_desk_event ev s))"
  proof (cases ev)
    case (By_staff c e o1)
    then show ?thesis using ticket_step_ok [OF Cons.prems] by simp
  next
    case (By_customer c e o1)
    then show ?thesis using portal_step_ok [OF Cons.prems] by simp
  next
    case (Triaged e T i x)
    have "desk_ok (update_tickets ok hit (tik_triage_update f) (pd_desk s))" for ok hit f
      by (rule desk_ok_update [OF Cons.prems]) (simp_all add: ticket_ok_def)
    with Triaged show ?thesis by (simp add: store_triage_def)
  qed
  with Cons.IH show ?case by simp
qed simp

theorem desk_stays_well_formed_witness:
  "desk_ok (pd_desk (toy_portal ''x'')) \<and> desk_ok (pd_desk (fold do_desk_event [By_staff toy_staff (toy_ticket_env ''n1'') (Delete_ticket ''x''),
     By_customer toy_customer (toy_ticket_env ''n2'') (Portal_comment ''/p'' ''k1'' (Some ''hello''))] (toy_portal ''x'')))"
proof -
  have "desk_ok (pd_desk (toy_portal ''x''))" by code_simp
  with desk_stays_well_formed [OF this] show ?thesis by blast
qed

section \<open>The limiter per customer\<close>

text \<open>The key holds the path, so a customer has a budget of comments for each ticket, and for each spelling of a path.\<close>

lemma portal_limit_per_path:
  assumes "portal_key p (l_customer_id c) w \<noteq> portal_key q (l_customer_id c) w"
  shows "snd (portalCustomerRateLimiter n w now p c l) (portal_key q (l_customer_id c) w) = l (portal_key q (l_customer_id c) w)"
  using assms by (auto simp: portalCustomerRateLimiter_def portal_hit_def split: option.splits prod.splits)

text \<open>In one window at most \<open>n\<close> requests with the same path are admitted, by the contract of the limiter in memory.\<close>

lemma portal_limit_window:
  assumes "1 \<le> n" and "l k = None" and "sorted (t0 # map fst hs)" and "\<forall>(t, j) \<in> set hs. t < t0 + int w"
  shows "int (mem.admitted n w k ((t0, k) # hs) l) \<le> n"
  by (rule mem.admitted_from_fresh [where e = "t0 + int w"]) (use assms in \<open>simp_all add: mem_hit_def mem_view_def prune_limits_def\<close>)

text \<open>The owner may link an account to a device of another tenant.\<close>

lemma owner_links_foreign_device:
  "map (\<lambda>u. (cus_tenant u, cus_device u)) (snd (snd (create_customer toy_libs (\<lambda>_. True) (\<lambda>_. [])
      ((toy_ticket_env ''n1'')\<lparr>te_device := (\<lambda>d. Some ''t2'')\<rparr>) (no_locals\<lparr>l_user_role := ''super_admin'', l_tenant_id := ''t1''\<rparr>)
      (Some \<lparr>cr_email = ''a@b'', cr_name = ''A'', cr_password = ''Passw0rd'', cr_device = ''d2''\<rparr>) []))) = [(''t1'', Some ''d2'')]"
  by code_simp

end
