(* ===== verification/Oidc.thy ===== *)
theory Oidc
  imports Tickets Sessions
begin

text \<open>
  Single sign-on (\<open>internal/handlers/oidc.go\<close>): the configuration of a tenant's identity provider, the start of a login,
  which stores a state and redirects, and the callback, which exchanges the code, checks the identity token and signs the user in.

  An identity provider is what discovery at its issuer yields: the exchange of a code, and the check of an identity token, which gives
  the nonce and the claims of a token that the provider signed for the client. Discovery and exchange run over the guarded client of
  theory SafeHttp; what they answer, the random strings, identifiers and parsed URLs are the environment's. Statements are numbered
  in their order; \<open>oe_up\<close> says which succeed.
\<close>

section \<open>State\<close>

record oidc_config =
  oc_issuer :: string
  oc_client :: string
  oc_secret :: string
  oc_role :: string
  oc_enabled :: int
  oc_updated :: unix

record pending_login =
  sl_state :: string
  sl_tenant :: string
  sl_nonce :: string
  sl_verifier :: string
  sl_redirect :: string
  sl_expires :: unix
  sl_created :: unix

record id_claims =
  ic_email :: string
  ic_verified :: "bool option"
  ic_name :: string

record idp =
  ip_exchange :: "string \<times> string \<Rightarrow> string \<Rightarrow> string \<Rightarrow> string \<Rightarrow> string option option"
  ip_verify :: "string \<Rightarrow> string \<Rightarrow> (string \<times> id_claims option) option"

record oidc_env =
  oe_up :: "nat \<Rightarrow> bool"
  oe_world :: world
  oe_key :: "string option"
  oe_nonce :: "string option"
  oe_parse :: "string \<Rightarrow> (string \<times> string \<times> string) option"
  oe_lookup :: "string \<Rightarrow> ip_addr list option"
  oe_discover :: "string \<Rightarrow> idp option"
  oe_random :: "nat \<Rightarrow> string"
  oe_b64 :: "string \<Rightarrow> string"
  oe_host :: string
  oe_user :: string
  oe_session :: string
  oe_jti :: string

record sso_state =
  so_app :: app_state
  so_configs :: "string \<rightharpoonup> oidc_config"
  so_pending :: "pending_login list"

definition oidcStateTTL :: int where "oidcStateTTL = 10 * 60"
definition maxOIDCIssuer :: nat where "maxOIDCIssuer = 512"
definition maxOIDCClient :: nat where "maxOIDCClient = 256"
definition maxOIDCSecret :: nat where "maxOIDCSecret = 1024"

definition so_now :: "oidc_env \<Rightarrow> unix" where "so_now e = w_now (oe_world e)"

section \<open>Configuration\<close>

datatype issuer_error = Issuer_too_long | Issuer_unparsed | Issuer_scheme | Issuer_host | Issuer_refused url_error

definition validIssuerURL :: "oidc_env \<Rightarrow> string \<Rightarrow> (issuer_error, unit) result" where
  "validIssuerURL e raw =
     (if length raw > maxOIDCIssuer then Inl Issuer_too_long
      else case oe_parse e raw of
        None \<Rightarrow> Inl Issuer_unparsed
      | Some (scheme, hostport, _) \<Rightarrow>
          if scheme \<noteq> ''https'' \<and> scheme \<noteq> ''http'' then Inl Issuer_scheme
          else if hostport = [] then Inl Issuer_host
          else (case RejectPrivateHost (\<lambda>u. map_option (\<lambda>(sc, _, host). (sc, host)) (oe_parse e u)) (oe_lookup e) raw of
              Inl er \<Rightarrow> Inl (Issuer_refused er) | Inr _ \<Rightarrow> Inr ()))"

text \<open>The issuer, the client, its decrypted secret, the role of new users, and whether it is enabled.\<close>

definition fetchOIDCConfig :: "oidc_env \<Rightarrow> bool \<Rightarrow> string \<Rightarrow> sso_state \<Rightarrow> (string \<times> string \<times> string \<times> string \<times> bool) option" where
  "fetchOIDCConfig e up tenantID s =
     (case (if up then so_configs s tenantID else None) of
        None \<Rightarrow> None
      | Some cfg \<Rightarrow> (case Decrypt (w_prims (oe_world e)) (oe_key e) (oc_secret cfg) of
            Inl _ \<Rightarrow> None
          | Inr secret \<Rightarrow> Some (oc_issuer cfg, oc_client cfg, secret, oc_role cfg, oc_enabled cfg = 1)))"

record oidc_view =
  ov_issuer :: string
  ov_client :: string
  ov_role :: string
  ov_enabled :: bool

definition get_oidc :: "oidc_env \<Rightarrow> locals \<Rightarrow> sso_state \<Rightarrow> (http_error, oidc_view option) result" where
  "get_oidc e c s =
     (case AdminMiddleware c of Inl er \<Rightarrow> Inl er
      | Inr c \<Rightarrow>
        if \<not> oe_up e 0 then Inl (HttpError 500 ''lookup failed'')
        else Inr (map_option (\<lambda>cfg. \<lparr>ov_issuer = oc_issuer cfg, ov_client = oc_client cfg, ov_role = oc_role cfg, ov_enabled = (oc_enabled cfg = 1)\<rparr>)
          (so_configs s (tenant_or_default c))))"

record oidc_request =
  oq_issuer :: string
  oq_client :: string
  oq_secret :: string
  oq_role :: string
  oq_enabled :: bool

definition put_oidc ::
  "oidc_env \<Rightarrow> locals \<Rightarrow> oidc_request option \<Rightarrow> sso_state \<Rightarrow> (http_error, unit) result \<times> audit_entry list \<times> sso_state" where
  "put_oidc e c body s =
     (case AdminMiddleware c of Inl er \<Rightarrow> (Inl er, [], s)
      | Inr c \<Rightarrow>
       (case body of
          None \<Rightarrow> (Inl (HttpError 400 ''Invalid body''), [], s)
        | Some r \<Rightarrow>
          if \<not> is_ok (validIssuerURL e (oq_issuer r)) then (Inl (HttpError 400 ''invalid issuer''), [], s)
          else if oq_client r = [] \<or> length (oq_client r) > maxOIDCClient then (Inl (HttpError 400 ''client_id required''), [], s)
          else if oq_secret r = [] \<or> length (oq_secret r) > maxOIDCSecret then (Inl (HttpError 400 ''client_secret required''), [], s)
          else let role = (if oq_role r \<noteq> ''user'' \<and> oq_role r \<noteq> ''admin'' then ''user'' else oq_role r) in
          if oe_discover e (oq_issuer r) = None then (Inl (HttpError 400 ''issuer probe failed''), [], s)
          else (case Encrypt (w_prims (oe_world e)) (oe_key e) (oe_nonce e) (oq_secret r) of
             Inl _ \<Rightarrow> (Inl (HttpError 500 ''encrypt failed''), [], s)
           | Inr enc \<Rightarrow>
             if \<not> oe_up e 0 then (Inl (HttpError 500 ''save failed''), [], s)
             else let tenantID = tenant_or_default c in
               (Inr (), [(tenantID, l_user_id c, ''oidc.update'', ''oidc'', tenantID, ''OIDC config saved'')],
                s\<lparr>so_configs := (so_configs s)(tenantID \<mapsto> \<lparr>oc_issuer = oq_issuer r, oc_client = oq_client r, oc_secret = enc, oc_role = role,
                    oc_enabled = (if oq_enabled r then 1 else 0), oc_updated = so_now e\<rparr>)\<rparr>))))"

definition delete_oidc :: "oidc_env \<Rightarrow> locals \<Rightarrow> sso_state \<Rightarrow> (http_error, unit) result \<times> audit_entry list \<times> sso_state" where
  "delete_oidc e c s =
     (case AdminMiddleware c of Inl er \<Rightarrow> (Inl er, [], s)
      | Inr c \<Rightarrow> let tenantID = tenant_or_default c in
        if \<not> oe_up e 0 then (Inl (HttpError 500 ''delete failed''), [], s)
        else (Inr (), [(tenantID, l_user_id c, ''oidc.delete'', ''oidc'', tenantID, ''OIDC config removed'')],
              s\<lparr>so_configs := (so_configs s)(tenantID := None)\<rparr>))"

section \<open>The start of a login\<close>

definition control_free :: "string \<Rightarrow> string" where
  "control_free s = filter (\<lambda>c. c = CHR 0x09 \<or> (of_char c :: nat) \<ge> 32 \<and> c \<noteq> CHR 0x7F) s"

definition pkceChallenge :: "oidc_env \<Rightarrow> string \<Rightarrow> string" where
  "pkceChallenge e verifier = oe_b64 e (sha256 (w_prims (oe_world e)) verifier)"

text \<open>The redirect to the provider.\<close>

record auth_request =
  aq_issuer :: string
  aq_client :: string
  aq_redirect :: string
  aq_state :: string
  aq_nonce :: string
  aq_challenge :: string

definition redirect_uri :: "oidc_env \<Rightarrow> request \<Rightarrow> string" where
  "redirect_uri e r = (let forced = control_free (w_env (oe_world e) ''FORWARDED_HOST'');
     host = (if forced \<noteq> [] then forced else oe_host e) in r_protocol r @ ''://'' @ host @ ''/api/auth/oidc/callback'')"

definition pending_of :: "oidc_env \<Rightarrow> request \<Rightarrow> string \<Rightarrow> pending_login" where
  "pending_of e r tenantID = \<lparr>sl_state = oe_random e 0, sl_tenant = tenantID, sl_nonce = oe_random e 1, sl_verifier = oe_random e 2,
     sl_redirect = redirect_uri e r, sl_expires = so_now e + oidcStateTTL, sl_created = so_now e\<rparr>"

definition oidc_login :: "oidc_env \<Rightarrow> request \<Rightarrow> string \<Rightarrow> sso_state \<Rightarrow> (http_error, auth_request) result \<times> sso_state" where
  "oidc_login e r tenantQuery s =
     (let tenantID = trim_space tenantQuery in
      if tenantID = [] then (Inl (HttpError 400 ''tenant required''), s)
      else (case fetchOIDCConfig e (oe_up e 0) tenantID s of
         None \<Rightarrow> (Inl (HttpError 404 ''OIDC not configured for this tenant''), s)
       | Some (issuer, clientID, _, _, enabled) \<Rightarrow>
         if \<not> enabled then (Inl (HttpError 404 ''OIDC not configured for this tenant''), s)
         else if oe_discover e issuer = None then (Inl (HttpError 502 ''issuer unreachable''), s)
         else let p = pending_of e r tenantID in
         if \<not> oe_up e 1 \<or> sl_state p \<in> set (map sl_state (so_pending s)) then (Inl (HttpError 500 ''state store failed''), s)
         else (Inr \<lparr>aq_issuer = issuer, aq_client = clientID, aq_redirect = sl_redirect p, aq_state = sl_state p, aq_nonce = sl_nonce p,
                    aq_challenge = pkceChallenge e (sl_verifier p)\<rparr>, s\<lparr>so_pending := p # so_pending s\<rparr>)))"


section \<open>The callback\<close>

definition burn_state :: "bool \<Rightarrow> string \<Rightarrow> sso_state \<Rightarrow> sso_state" where
  "burn_state up x s = (if up then s\<lparr>so_pending := filter (\<lambda>p. sl_state p \<noteq> x) (so_pending s)\<rparr> else s)"

text \<open>From the stored state and the code to verified claims, and the role for a new user.\<close>

definition verified_identity :: "oidc_env \<Rightarrow> pending_login \<Rightarrow> string \<Rightarrow> sso_state \<Rightarrow> (http_error, id_claims \<times> string) result" where
  "verified_identity e p code s =
     (case fetchOIDCConfig e (oe_up e 2) (sl_tenant p) s of
        None \<Rightarrow> Inl (HttpError 403 ''OIDC not configured'')
      | Some (issuer, clientID, clientSecret, defaultRole, enabled) \<Rightarrow>
        if \<not> enabled then Inl (HttpError 403 ''OIDC not configured'')
        else (case oe_discover e issuer of
           None \<Rightarrow> Inl (HttpError 502 ''issuer unreachable'')
         | Some prov \<Rightarrow>
           (case ip_exchange prov (clientID, clientSecret) (sl_redirect p) code (sl_verifier p) of
              None \<Rightarrow> Inl (HttpError 400 ''token exchange failed'')
            | Some None \<Rightarrow> Inl (HttpError 400 ''missing id_token'')
            | Some (Some raw) \<Rightarrow>
              (case ip_verify prov clientID raw of
                 None \<Rightarrow> Inl (HttpError 401 ''id_token verify failed'')
               | Some (nonce, cl) \<Rightarrow>
                 if nonce \<noteq> sl_nonce p then Inl (HttpError 401 ''nonce mismatch'')
                 else (case cl of
                    None \<Rightarrow> Inl (HttpError 400 ''claims parse failed'')
                  | Some claims \<Rightarrow>
                    if ic_email claims = [] then Inl (HttpError 400 ''provider did not return email'')
                    else (case ic_verified claims of
                       None \<Rightarrow> Inl (HttpError 401 ''oidc: id_token missing email_verified claim; refusing to bind identity'')
                     | Some v \<Rightarrow> if \<not> v then Inl (HttpError 401 ''oidc: email_verified=false; refusing to bind identity'')
                         else Inr (claims, defaultRole)))))))"

definition jit_user :: "oidc_env \<Rightarrow> string \<Rightarrow> id_claims \<Rightarrow> string \<Rightarrow> user_row" where
  "jit_user e tenantID claims role = \<lparr>u_id = oe_user e, u_email = to_lower (ic_email claims), u_pwhash = [],
     u_name = (if ic_name claims = [] then ic_email claims else ic_name claims), u_role = role, u_created = so_now e,
     u_tenant = Some tenantID, u_last_login = None\<rparr>"

text \<open>The user of the tenant with this address, created when missing. Addresses are unique over all tenants.\<close>

definition provision :: "oidc_env \<Rightarrow> string \<Rightarrow> id_claims \<Rightarrow> string \<Rightarrow> app_state \<Rightarrow> (http_error, string \<times> string) result \<times> app_state" where
  "provision e tenantID claims defaultRole a =
     (if \<not> oe_up e 3 then (Inl (HttpError 500 ''user lookup failed''), a)
      else (case find_user a (\<lambda>u. u_tenant u = Some tenantID \<and> u_email u = to_lower (ic_email claims)) of
         Some u \<Rightarrow> (Inr (u_id u, u_role u), a)
       | None \<Rightarrow>
         let u = jit_user e tenantID claims defaultRole in
         if \<not> oe_up e 4 \<or> find_user a (\<lambda>v. u_email v = u_email u \<or> u_id v = u_id u) \<noteq> None
         then (Inl (HttpError 500 ''user provision failed''), a)
         else (Inr (u_id u, u_role u), a\<lparr>users := u # users a\<rparr>)))"

definition stamp_login :: "bool \<Rightarrow> unix \<Rightarrow> string \<Rightarrow> app_state \<Rightarrow> app_state" where
  "stamp_login up now uid a = (if up then a\<lparr>users := map (\<lambda>u. if u_id u = uid then u\<lparr>u_last_login := Some now\<rparr> else u) (users a)\<rparr> else a)"

definition createOIDCSession :: "oidc_env \<Rightarrow> bool \<Rightarrow> request \<Rightarrow> string \<Rightarrow> string \<Rightarrow> app_state \<Rightarrow> app_state option" where
  "createOIDCSession e up r jwt uid a =
     (if up then Some (a\<lparr>au := (au a)\<lparr>sessions := \<lparr>s_id = oe_session e, s_user = uid, s_hash = HashToken (w_prims (oe_world e)) jwt, s_ip = r_ip r,
        s_agent = r_headers r ''User-Agent'', s_created = so_now e, s_last_seen = so_now e\<rparr> # sessions (au a)\<rparr>\<rparr>) else None)"

text \<open>A login that succeeds sets the token as a cookie; the answer holds the user as well.\<close>

definition oidc_callback ::
  "oidc_env \<Rightarrow> request \<Rightarrow> string \<Rightarrow> string \<Rightarrow> sso_state \<Rightarrow> (http_error, string \<times> string) result \<times> audit_entry list \<times> sso_state" where
  "oidc_callback e r x code s =
     (if x = [] \<or> code = [] then (Inl (HttpError 400 ''missing state/code''), [], s)
      else (case (if oe_up e 0 then List.find (\<lambda>p. sl_state p = x) (so_pending s) else None) of
         None \<Rightarrow> (Inl (HttpError 400 ''invalid state''), [], s)
       | Some p \<Rightarrow>
         let s = burn_state (oe_up e 1) x s in
         if so_now e > sl_expires p then (Inl (HttpError 400 ''state expired''), [], s)
         else (case verified_identity e p code s of
            Inl er \<Rightarrow> (Inl er, [], s)
          | Inr (claims, defaultRole) \<Rightarrow>
            (case provision e (sl_tenant p) claims defaultRole (so_app s) of
               (Inl er, a) \<Rightarrow> (Inl er, [], s\<lparr>so_app := a\<rparr>)
             | (Inr (uid, role), a) \<Rightarrow>
               let a = stamp_login (oe_up e 5) (so_now e) uid a in
               (case GenerateJWT (w_jwt (oe_world e)) (w_secret (oe_world e)) (so_now e) (oe_jti e) uid (sl_tenant p) role 24 of
                  None \<Rightarrow> (Inl (HttpError 500 ''token issue failed''), [], s\<lparr>so_app := a\<rparr>)
                | Some jwt \<Rightarrow>
                  (case createOIDCSession e (oe_up e 6) r jwt uid a of
                     None \<Rightarrow> (Inl (HttpError 500 ''session create failed''), [], s\<lparr>so_app := a\<rparr>)
                   | Some a \<Rightarrow> (Inr (jwt, uid), [(sl_tenant p, uid, ''auth.oidc_login'', ''user'', uid, ''OIDC login'')], s\<lparr>so_app := a\<rparr>)))))))"

section \<open>Requests in any order\<close>

datatype sso_op =
    Put_oidc locals "oidc_request option"
  | Delete_oidc locals
  | Start_login string
  | Callback string string

datatype sso_reply = Configured | Sent_to_idp auth_request | Signed_in string string string

text \<open>A reply to a callback repeats its state.\<close>

fun sso_step :: "oidc_env \<times> request \<times> sso_op \<Rightarrow> sso_state \<Rightarrow> (http_error, sso_reply) result \<times> sso_state" where
  "sso_step (e, r, Put_oidc c b) s = (case put_oidc e c b s of (x, _, s') \<Rightarrow> (map_sum id (\<lambda>_. Configured) x, s'))"
| "sso_step (e, r, Delete_oidc c) s = (case delete_oidc e c s of (x, _, s') \<Rightarrow> (map_sum id (\<lambda>_. Configured) x, s'))"
| "sso_step (e, r, Start_login t) s = (case oidc_login e r t s of (x, s') \<Rightarrow> (map_sum id Sent_to_idp x, s'))"
| "sso_step (e, r, Callback x code) s = (case oidc_callback e r x code s of (y, _, s') \<Rightarrow> (map_sum id (\<lambda>(jwt, uid). Signed_in x jwt uid) y, s'))"

section \<open>A state admits one login\<close>

fun sign_ins :: "string \<Rightarrow> (http_error, sso_reply) result list \<Rightarrow> nat" where
  "sign_ins x [] = 0"
| "sign_ins x (Inr (Signed_in y jwt uid) # rs) = (if y = x then 1 else 0) + sign_ins x rs"
| "sign_ins x (_ # rs) = sign_ins x rs"

fun sent :: "string \<Rightarrow> (http_error, sso_reply) result list \<Rightarrow> nat" where
  "sent x [] = 0"
| "sent x (Inr (Sent_to_idp q) # rs) = (if aq_state q = x then 1 else 0) + sent x rs"
| "sent x (_ # rs) = sent x rs"

definition waiting :: "string \<Rightarrow> sso_state \<Rightarrow> nat" where
  "waiting x s = length (filter (\<lambda>p. sl_state p = x) (so_pending s))"

text \<open>The deletion of the state succeeds; that it may fail is ignored by the handler.\<close>

definition burns :: "oidc_env \<times> request \<times> sso_op \<Rightarrow> sso_state \<Rightarrow> bool" where
  "burns op s = (case op of (e, r, Callback x code) \<Rightarrow> oe_up e 1 | _ \<Rightarrow> True)"


lemma waiting_app [simp]: "waiting x (s\<lparr>so_app := a\<rparr>) = waiting x s" "waiting x (s\<lparr>so_configs := c\<rparr>) = waiting x s"
  by (simp_all add: waiting_def)

lemma waiting_burn: "waiting x (burn_state up y s) = (if up \<and> x = y then 0 else waiting x s)"
  by (auto simp: waiting_def burn_state_def filter_empty_conv intro!: arg_cong [where f = length] filter_cong)

text \<open>What a callback that signs in has gone through.\<close>

lemma callback_ok:
  assumes "oidc_callback e r x code s = (Inr (jwt, uid), ad, s')"
  shows "\<exists>p claims d role a b. List.find (\<lambda>p. sl_state p = x) (so_pending s) = Some p \<and> so_now e \<le> sl_expires p
    \<and> verified_identity e p code (burn_state (oe_up e 1) x s) = Inr (claims, d)
    \<and> provision e (sl_tenant p) claims d (so_app s) = (Inr (uid, role), a)
    \<and> GenerateJWT (w_jwt (oe_world e)) (w_secret (oe_world e)) (so_now e) (oe_jti e) uid (sl_tenant p) role 24 = Some jwt
    \<and> createOIDCSession e (oe_up e 6) r jwt uid (stamp_login (oe_up e 5) (so_now e) uid a) = Some b
    \<and> s' = (burn_state (oe_up e 1) x s)\<lparr>so_app := b\<rparr>"
proof -
  have app: "so_app (burn_state up x s) = so_app s" for up by (simp add: burn_state_def)
  show ?thesis using assms
    by (auto simp: oidc_callback_def Let_def app split: if_splits option.splits sum.splits prod.splits)
qed

lemma callback_waiting:
  "fst (oidc_callback e r x code s) = Inr y \<Longrightarrow> waiting x s > 0"
  "waiting z (snd (snd (oidc_callback e r x code s))) \<le> waiting z s"
  "fst (oidc_callback e r x code s) = Inr y \<Longrightarrow> oe_up e 1 \<Longrightarrow> waiting x (snd (snd (oidc_callback e r x code s))) = 0"
proof -
  show "waiting x s > 0" if "fst (oidc_callback e r x code s) = Inr y" for y
    using callback_ok [of e r x code s "fst y" "snd y"] that
    by (cases "oidc_callback e r x code s") (auto simp: waiting_def find_Some_iff filter_empty_conv)
  show "waiting z (snd (snd (oidc_callback e r x code s))) \<le> waiting z s"
    by (auto simp: oidc_callback_def Let_def waiting_burn split: option.split sum.split prod.split)
  show "waiting x (snd (snd (oidc_callback e r x code s))) = 0" if "fst (oidc_callback e r x code s) = Inr y" "oe_up e 1" for y
    using callback_ok [of e r x code s "fst y" "snd y"] that
    by (cases "oidc_callback e r x code s") (auto simp: waiting_burn)
qed

lemma login_waiting:
  "waiting z (snd (oidc_login e r t s)) = waiting z s + (case fst (oidc_login e r t s) of Inr q \<Rightarrow> (if aq_state q = z then 1 else 0) | Inl _ \<Rightarrow> 0)"
  by (auto simp: oidc_login_def Let_def waiting_def split: option.split)

lemma config_waiting: "waiting z (snd (snd (put_oidc e c b s))) = waiting z s" "waiting z (snd (snd (delete_oidc e c s))) = waiting z s"
  by (auto simp: put_oidc_def delete_oidc_def Let_def split: option.split sum.split)

lemma sso_step_count:
  assumes "burns op s" and "sso_step op s = (y, s1)"
  shows "sign_ins x [y] + waiting x s1 \<le> waiting x s + sent x [y]"
proof -
  obtain e r o1 where op: "op = (e, r, o1)" by (cases op)
  show ?thesis
  proof (cases o1)
    case (Put_oidc c b)
    then show ?thesis using assms(2) config_waiting(1) [of x e c b s] by (cases "fst (put_oidc e c b s)") (auto simp: op split_beta)
  next
    case (Delete_oidc c)
    then show ?thesis using assms(2) config_waiting(2) [of x e c s] by (cases "fst (delete_oidc e c s)") (auto simp: op split_beta)
  next
    case (Start_login t)
    then show ?thesis using assms(2) login_waiting [of x e r t s] by (cases "fst (oidc_login e r t s)") (auto simp: op split_beta)
  next
    case (Callback z code)
    then show ?thesis
      using assms callback_waiting(1,3) [of e r z code s] callback_waiting(2) [of x e r z code s]
      by (cases "fst (oidc_callback e r z code s)") (auto simp: op split_beta burns_def)
  qed
qed

lemma sign_ins_Cons: "sign_ins x (y # ys) = sign_ins x [y] + sign_ins x ys" "sent x (y # ys) = sent x [y] + sent x ys"
proof -
  show "sign_ins x (y # ys) = sign_ins x [y] + sign_ins x ys"
  proof (cases y)
    case (Inr z)
    then show ?thesis by (cases z) simp_all
  qed simp
  show "sent x (y # ys) = sent x [y] + sent x ys"
  proof (cases y)
    case (Inr z)
    then show ?thesis by (cases z) simp_all
  qed simp
qed

text \<open>
  A state admits one login. Whatever logins, callbacks and changes of the configuration are requested, of the callbacks with
  a state at most as many sign in as logins stored this state, before or during the run: drawn once, it is used once.
\<close>

theorem sso_state_single_use:
  assumes "ops_ok burns sso_step ops s"
  shows "sign_ins x (fst (run_ops sso_step ops s)) \<le> waiting x s + sent x (fst (run_ops sso_step ops s))"
proof -
  have "sign_ins x (fst (run_ops sso_step ops s)) + waiting x (snd (run_ops sso_step ops s)) \<le> waiting x s + sent x (fst (run_ops sso_step ops s))"
    using assms
  proof (induction ops arbitrary: s)
    case (Cons op ops)
    obtain y s1 where y: "sso_step op s = (y, s1)" by (cases "sso_step op s")
    from Cons.prems y have "ops_ok burns sso_step ops s1" "burns op s" by simp_all
    with Cons.IH [of s1] sso_step_count [OF this(2) y, of x] show ?case
      by (simp add: y split_beta sign_ins_Cons [of x y "fst (run_ops sso_step ops s1)"] del: sign_ins.simps sent.simps)
  qed simp
  then show ?thesis by simp
qed


section \<open>The session of a login\<close>

lemma verified_identity_ok:
  "verified_identity e p code s = Inr (cl, d) \<Longrightarrow> ic_verified cl = Some True \<and> ic_email cl \<noteq> []
     \<and> (\<exists>cfg. so_configs s (sl_tenant p) = Some cfg \<and> oc_enabled cfg = 1 \<and> d = oc_role cfg
         \<and> (\<exists>prov raw. oe_discover e (oc_issuer cfg) = Some prov \<and> ip_verify prov (oc_client cfg) raw = Some (sl_nonce p, Some cl)))"
  by (auto simp: verified_identity_def fetchOIDCConfig_def split: if_splits option.splits sum.splits prod.splits)

lemma provision_ok:
  assumes "provision e T cl d a = (Inr (uid, role), b)"
  shows "\<exists>u \<in> set (users b). u_id u = uid \<and> u_role u = role \<and> u_tenant u = Some T \<and> u_email u = to_lower (ic_email cl)
      \<and> (u \<in> set (users a) \<or> role = d) \<and> au b = au a"
  using assms
  by (auto simp: provision_def Let_def jit_user_def find_user_def find_Some_iff split: if_splits option.splits)

lemma stamp_login_keeps:
  "au (stamp_login up now uid a) = au a"
  "u \<in> set (users a) \<Longrightarrow> \<exists>v \<in> set (users (stamp_login up now uid a)). u_id v = u_id u \<and> u_role v = u_role u \<and> u_tenant v = u_tenant u \<and> u_email v = u_email u"
proof -
  show "au (stamp_login up now uid a) = au a" by (simp add: stamp_login_def)
  let ?f = "\<lambda>u. if u_id u = uid then u\<lparr>u_last_login := Some now\<rparr> else u"
  assume "u \<in> set (users a)"
  then show "\<exists>v \<in> set (users (stamp_login up now uid a)). u_id v = u_id u \<and> u_role v = u_role u \<and> u_tenant v = u_tenant u \<and> u_email v = u_email u"
  proof (cases up)
    case True
    have "?f u \<in> ?f ` set (users a)" using \<open>u \<in> set (users a)\<close> by (rule imageI)
    with True show ?thesis by (intro bexI [of _ "?f u"]) (simp_all add: stamp_login_def)
  next
    case False
    with \<open>u \<in> set (users a)\<close> show ?thesis by (auto simp: stamp_login_def)
  qed
qed

text \<open>A token with a session row is admitted as its user, subject to the state of the tenant.\<close>

lemma row_admits:
  assumes "request_token ''auth_token'' (HttpError 401 ''Missing authorization'') r = Inr tok" and "\<not> portal_path (r_path r)"
    and "cache (agents s) (HashToken (w_prims w) tok) = None" and "cache_get w s (HashToken (w_prims w) tok) = None" and "w_db_up w"
    and "session_user s (HashToken (w_prims w) tok) = Some u"
    and "ValidateJWT (w_jwt w) (w_secret w) (w_now w) tok = Inr (u, t, role)" and "role \<noteq> ''totp_pending''"
  shows "fst (AuthMiddleware w r c s) =
     (if IsSuperAdmin role \<or> TenantAllowed (w_env w) (w_now w) (w_db_up w) (tenant_tbl s) t
      then Inr (c\<lparr>l_auth_type := ''user'', l_user_id := u, l_user_role := role, l_tenant_id := t\<rparr>) else Inl (HttpError 403 ''Tenant inactive''))"
  using assms by (simp add: AuthMiddleware_def Let_def)

lemma created_session_admits:
  assumes "jwt_lib_ok (w_jwt w0)" and "w0 = oe_world e" and "w = w0\<lparr>w_now := now\<rparr>" and "now < so_now e + 24 * 3600" and "w_db_up w"
    and "request_token ''auth_token'' (HttpError 401 ''Missing authorization'') r' = Inr jwt" and "\<not> portal_path (r_path r')"
    and "cache (agents (au a)) (HashToken (w_prims w) jwt) = None" and "cache_get w (au a) (HashToken (w_prims w) jwt) = None"
    and g: "GenerateJWT (w_jwt w0) (w_secret w0) (so_now e) jti uid T role 24 = Some jwt"
    and ses: "createOIDCSession e up r jwt uid a = Some b" and role: "role \<in> {''user'', ''admin'', ''super_admin''}" and T: "T \<noteq> []"
  shows "fst (AuthMiddleware w r' c (au b)) = (if IsSuperAdmin role \<or> TenantAllowed (w_env w) now True (tenant_tbl (au a)) T
      then Inr (c\<lparr>l_auth_type := ''user'', l_user_id := uid, l_user_role := role, l_tenant_id := T\<rparr>) else Inl (HttpError 403 ''Tenant inactive''))"
proof -
  have v: "ValidateJWT (w_jwt w) (w_secret w) (w_now w) jwt = Inr (uid, T, role)"
    using session_token_roundtrip [OF assms(1) g, of now] role T assms(4) by (auto simp: assms(3))
  from ses have b: "agents (au b) = agents (au a)" "redis_sessions (au b) = redis_sessions (au a)" "tenant_tbl (au b) = tenant_tbl (au a)"
      "session_user (au b) (HashToken (w_prims w) jwt) = Some uid"
    by (auto simp: createOIDCSession_def session_user_def assms(2,3) split: if_splits)
  show ?thesis using row_admits [OF assms(6,7) _ _ assms(5) b(4) v, of c] assms(5,8,9) b(1-3) role by (auto simp: assms(3) cache_get_def)
qed

text \<open>
  C37. Single sign-on signs in whom the tenant's provider vouched for. When a callback succeeds, its state was stored, for a tenant, at
  most ten minutes before; the provider of the tenant's enabled configuration signed a token with the nonce of this state and a
  verified address; the user is a row of that tenant with this address, an existing one or a new one with the configured role. For
  24 hours the cookie is admitted as exactly this user with the role of the row, unless the tenant is inactive.
\<close>

theorem sso_login_admits:
  assumes "oidc_callback e r x code s = (Inr (jwt, uid), ad, s')" and "jwt_lib_ok (w_jwt (oe_world e))"
    and "w = (oe_world e)\<lparr>w_now := now\<rparr>" and "now < so_now e + 24 * 3600" and "w_db_up w"
    and "request_token ''auth_token'' (HttpError 401 ''Missing authorization'') r' = Inr jwt" and "\<not> portal_path (r_path r')"
    and "cache (agents (au (so_app s))) (HashToken (w_prims w) jwt) = None" and "cache_get w (au (so_app s)) (HashToken (w_prims w) jwt) = None"
  shows "\<exists>p cl cfg prov raw u. p \<in> set (so_pending s) \<and> sl_state p = x \<and> so_now e \<le> sl_expires p
    \<and> so_configs s (sl_tenant p) = Some cfg \<and> oc_enabled cfg = 1 \<and> oe_discover e (oc_issuer cfg) = Some prov
    \<and> ip_verify prov (oc_client cfg) raw = Some (sl_nonce p, Some cl) \<and> ic_verified cl = Some True
    \<and> u \<in> set (users (so_app s')) \<and> u_id u = uid \<and> u_tenant u = Some (sl_tenant p) \<and> u_email u = to_lower (ic_email cl)
    \<and> (uid \<in> u_id ` set (users (so_app s)) \<or> u_role u = oc_role cfg)
    \<and> (u_role u \<in> {''user'', ''admin'', ''super_admin''} \<and> sl_tenant p \<noteq> [] \<longrightarrow> fst (AuthMiddleware w r' c (au (so_app s'))) =
         (if IsSuperAdmin (u_role u) \<or> TenantAllowed (w_env w) now True (tenant_tbl (au (so_app s))) (sl_tenant p)
          then Inr (c\<lparr>l_auth_type := ''user'', l_user_id := uid, l_user_role := u_role u, l_tenant_id := sl_tenant p\<rparr>)
          else Inl (HttpError 403 ''Tenant inactive'')))"
proof -
  from callback_ok [OF assms(1)] obtain p :: pending_login and cl d role a b where p: "List.find (\<lambda>p. sl_state p = x) (so_pending s) = Some p" "so_now e \<le> sl_expires p"
    and v: "verified_identity e p code (burn_state (oe_up e 1) x s) = Inr (cl, d)"
    and pr: "provision e (sl_tenant p) cl d (so_app s) = (Inr (uid, role), a)"
    and g: "GenerateJWT (w_jwt (oe_world e)) (w_secret (oe_world e)) (so_now e) (oe_jti e) uid (sl_tenant p) role 24 = Some jwt"
    and ses: "createOIDCSession e (oe_up e 6) r jwt uid (stamp_login (oe_up e 5) (so_now e) uid a) = Some b"
    and s': "s' = (burn_state (oe_up e 1) x s)\<lparr>so_app := b\<rparr>" by blast
  from provision_ok [OF pr] obtain u0 where u0: "u0 \<in> set (users a)" "u_id u0 = uid" "u_role u0 = role" "u_tenant u0 = Some (sl_tenant p)"
      "u_email u0 = to_lower (ic_email cl)" "u0 \<in> set (users (so_app s)) \<or> role = d" "au a = au (so_app s)" by blast
  from stamp_login_keeps(2) [OF u0(1)] u0 obtain u where u: "u \<in> set (users (stamp_login (oe_up e 5) (so_now e) uid a))" "u_id u = uid" "u_role u = role"
      "u_tenant u = Some (sl_tenant p)" "u_email u = to_lower (ic_email cl)" by metis
  from ses have ub: "users b = users (stamp_login (oe_up e 5) (so_now e) uid a)" by (auto simp: createOIDCSession_def split: if_splits)
  have au: "au (stamp_login (oe_up e 5) (so_now e) uid a) = au (so_app s)" by (simp add: stamp_login_keeps u0(7))
  note admitted = created_session_admits [OF assms(2) HOL.refl assms(3-7) _ _ g ses, unfolded au, OF assms(8,9)]
  from verified_identity_ok [OF v] obtain cfg prov raw where cfg: "so_configs s (sl_tenant p) = Some cfg" "oc_enabled cfg = 1" "d = oc_role cfg"
      "oe_discover e (oc_issuer cfg) = Some prov" "ip_verify prov (oc_client cfg) raw = Some (sl_nonce p, Some cl)" and ver: "ic_verified cl = Some True"
    by (auto simp: burn_state_def split: if_splits)
  have "p \<in> set (so_pending s)" "sl_state p = x" using p(1) by (auto simp: find_Some_iff)
  moreover have "uid \<in> u_id ` set (users (so_app s)) \<or> u_role u = oc_role cfg" using u0(2,6) u(3) cfg(3) by auto
  ultimately show ?thesis
    using p(2) cfg(1,2,4,5) ver u ub admitted
    by (intro exI [of _ p] exI [of _ cl] exI [of _ cfg] exI [of _ prov] exI [of _ raw] exI [of _ u]) (simp add: s')
qed


section \<open>An admin with a provider of its own\<close>

text \<open>
  A tenant with the owner's account and an admin. The admin configures a provider that asserts any address, here the owner's, and
  signs in as the owner: the role of an existing row is taken over, whichever it is.
\<close>

definition toy_sso_user :: "string \<Rightarrow> string \<Rightarrow> string \<Rightarrow> user_row" where
  "toy_sso_user i email role = \<lparr>u_id = i, u_email = email, u_pwhash = ''pw'', u_name = [], u_role = role, u_created = 1, u_tenant = Some ''t1'', u_last_login = None\<rparr>"

definition toy_sso :: sso_state where
  "toy_sso = \<lparr>so_app = \<lparr>au = toy_auth, users = [toy_sso_user ''u1'' ''a@b'' ''admin'', toy_sso_user ''root'' ''o@b'' ''super_admin''], resets = [], totps = Map.empty,
       backup_codes = [], loginAttempts = Map.empty, ipAttempts = Map.empty\<rparr>, so_configs = Map.empty, so_pending = []\<rparr>"

definition toy_idp :: idp where
  "toy_idp = \<lparr>ip_exchange = (\<lambda>_ _ _ _. Some (Some ''raw'')), ip_verify = (\<lambda>_ _. Some (''n'', Some \<lparr>ic_email = ''o@b'', ic_verified = Some True, ic_name = []\<rparr>))\<rparr>"

definition toy_sso_env :: oidc_env where
  "toy_sso_env = \<lparr>oe_up = (\<lambda>_. True), oe_world = toy_world (session_claims ''root'' ''t1'' ''super_admin'' 86500 100 ''vaporrmm'' ''j''), oe_key = None, oe_nonce = None,
     oe_parse = (\<lambda>_. Some (''https'', ''idp'', ''idp'')), oe_lookup = (\<lambda>_. Some []), oe_discover = (\<lambda>_. Some toy_idp),
     oe_random = (\<lambda>i. if i = 0 then ''x'' else if i = 1 then ''n'' else ''v''), oe_b64 = (\<lambda>b. b), oe_host = ''h'', oe_user = ''u9'', oe_session = ''s9'', oe_jti = ''j''\<rparr>"

definition toy_put :: "oidc_env \<times> request \<times> sso_op" where
  "toy_put = (toy_sso_env, bearer_request [], Put_oidc (no_locals\<lparr>l_user_id := ''u1'', l_user_role := ''admin'', l_tenant_id := ''t1''\<rparr>)
     (Some \<lparr>oq_issuer = ''https://idp'', oq_client = ''c'', oq_secret = ''s'', oq_role = ''user'', oq_enabled = True\<rparr>))"

definition toy_sso_ops :: "(oidc_env \<times> request \<times> sso_op) list" where
  "toy_sso_ops = [toy_put, (toy_sso_env, bearer_request [], Start_login ''t1''), (toy_sso_env, bearer_request [], Callback ''x'' ''c''),
     (toy_sso_env, bearer_request [], Callback ''x'' ''c'')]"

definition toy_configured :: sso_state where
  "toy_configured = toy_sso\<lparr>so_configs := [''t1'' \<mapsto> \<lparr>oc_issuer = ''https://idp'', oc_client = ''c'', oc_secret = ''s'', oc_role = ''user'', oc_enabled = 1, oc_updated = 100\<rparr>]\<rparr>"

definition toy_pending :: pending_login where
  "toy_pending = \<lparr>sl_state = ''x'', sl_tenant = ''t1'', sl_nonce = ''n'', sl_verifier = ''v'', sl_redirect = redirect_uri toy_sso_env (bearer_request []),
     sl_expires = 700, sl_created = 100\<rparr>"

lemma toy_secret: "Decrypt toy_prims None ''s'' = Inr ''s''" by code_simp

lemma toy_put_step: "sso_step toy_put toy_sso = (Inr Configured, toy_configured)"
  by (simp add: toy_put_def put_oidc_def AdminMiddleware_def guard_def no_locals_def toy_sso_env_def validIssuerURL_def maxOIDCIssuer_def maxOIDCClient_def
      maxOIDCSecret_def RejectPrivateHost_def Encrypt_def Let_def tenant_or_default_def toy_configured_def toy_sso_def so_now_def toy_world_def)

lemma toy_login_step:
  "\<exists>q. sso_step (toy_sso_env, bearer_request [], Start_login ''t1'') toy_configured = (Inr (Sent_to_idp q), toy_configured\<lparr>so_pending := [toy_pending]\<rparr>)
     \<and> aq_state q = ''x''"
proof -
  have t: "trim_space ''t1'' = ''t1''" by code_simp
  show ?thesis
    by (simp add: oidc_login_def t fetchOIDCConfig_def pending_of_def toy_pending_def toy_configured_def toy_sso_def oidcStateTTL_def Let_def
        toy_sso_env_def toy_world_def so_now_def toy_secret)
qed


lemma toy_callback:
  "\<exists>ad s'. oidc_callback toy_sso_env (bearer_request []) ''x'' ''c'' (toy_configured\<lparr>so_pending := [toy_pending]\<rparr>) = (Inr (''tokA'', ''root''), ad, s')
     \<and> so_pending s' = [] \<and> users (so_app s') = users (stamp_login True 100 ''root'' (so_app toy_sso))"
proof -
  have "add_hours 100 24 = 86500" by (simp add: add_hours_small)
  then have g: "GenerateJWT (w_jwt (oe_world toy_sso_env)) (w_secret (oe_world toy_sso_env)) (so_now toy_sso_env) (oe_jti toy_sso_env) ''root'' ''t1'' ''super_admin'' 24
      = Some ''tokA''"
    by (simp add: GenerateJWT_def toy_sso_env_def toy_world_def jwt_sign_toy so_now_def)
  have v: "verified_identity toy_sso_env toy_pending ''c'' (burn_state True ''x'' (toy_configured\<lparr>so_pending := [toy_pending]\<rparr>))
      = Inr (\<lparr>ic_email = ''o@b'', ic_verified = Some True, ic_name = []\<rparr>, ''user'')"
    by (simp add: verified_identity_def fetchOIDCConfig_def burn_state_def toy_configured_def toy_sso_def toy_pending_def)
      (simp add: toy_sso_env_def toy_world_def toy_secret toy_idp_def)
  have l: "to_lower ''o@b'' = ''o@b''" by code_simp
  have p: "provision toy_sso_env ''t1'' \<lparr>ic_email = ''o@b'', ic_verified = Some True, ic_name = []\<rparr> ''user'' (so_app toy_sso)
      = (Inr (''root'', ''super_admin''), so_app toy_sso)"
    by (simp add: provision_def toy_sso_env_def find_user_def l toy_sso_def toy_sso_user_def)
  have up: "oe_up toy_sso_env n" for n by (simp add: toy_sso_env_def)
  have a: "so_app (burn_state b y (toy_configured\<lparr>so_pending := [toy_pending]\<rparr>)) = so_app toy_sso" for b y
    by (simp add: burn_state_def toy_configured_def)
  have f: "sl_state toy_pending = ''x''" "sl_tenant toy_pending = ''t1''" "so_now toy_sso_env \<le> sl_expires toy_pending"
    by (simp_all add: toy_pending_def so_now_def toy_sso_env_def toy_world_def)
  show ?thesis using f(3) by (simp add: oidc_callback_def up f(1,2) v a p g createOIDCSession_def)
      (simp add: burn_state_def f Let_def so_now_def toy_sso_env_def toy_world_def)
qed

lemma toy_sso_run:
  "\<exists>q er. fst (run_ops sso_step toy_sso_ops toy_sso) = [Inr Configured, Inr (Sent_to_idp q), Inr (Signed_in ''x'' ''tokA'' ''root''), Inl er]"
proof -
  obtain q where q: "sso_step (toy_sso_env, bearer_request [], Start_login ''t1'') toy_configured = (Inr (Sent_to_idp q), toy_configured\<lparr>so_pending := [toy_pending]\<rparr>)"
    using toy_login_step by blast
  obtain ad s' where c: "oidc_callback toy_sso_env (bearer_request []) ''x'' ''c'' (toy_configured\<lparr>so_pending := [toy_pending]\<rparr>) = (Inr (''tokA'', ''root''), ad, s')"
    and e: "so_pending s' = []" using toy_callback by blast
  have d: "oidc_callback toy_sso_env (bearer_request []) ''x'' ''c'' s' = (Inl (HttpError 400 ''invalid state''), [], s')"
    by (simp add: oidc_callback_def e)
  show ?thesis by (simp add: toy_sso_ops_def toy_put_step q c d del: sso_step.simps(1-3))
qed

theorem sso_state_single_use_witness:
  "sign_ins ''x'' (fst (run_ops sso_step toy_sso_ops toy_sso)) \<le> waiting ''x'' toy_sso + sent ''x'' (fst (run_ops sso_step toy_sso_ops toy_sso))
   \<and> sign_ins ''x'' (fst (run_ops sso_step toy_sso_ops toy_sso)) = 1"
proof -
  have "burns op s" if "op \<in> set toy_sso_ops" for op s using that by (auto simp: burns_def toy_sso_ops_def toy_put_def toy_sso_env_def)
  then have "ops_ok burns sso_step ops s" if "set ops \<subseteq> set toy_sso_ops" for ops s using that by (induction ops arbitrary: s) auto
  then have ok: "ops_ok burns sso_step toy_sso_ops toy_sso" by blast
  have "sign_ins ''x'' (fst (run_ops sso_step toy_sso_ops toy_sso)) = 1" using toy_sso_run by auto
  with sso_state_single_use [OF ok, of "''x''"] show ?thesis by simp
qed

theorem sso_login_admits_witness:
  "\<exists>ad s'. oidc_callback toy_sso_env (bearer_request []) ''x'' ''c'' (toy_configured\<lparr>so_pending := [toy_pending]\<rparr>) = (Inr (''tokA'', ''root''), ad, s')
     \<and> fst (AuthMiddleware (oe_world toy_sso_env) (bearer_request ''tokA'') no_locals (au (so_app s')))
       = Inr (no_locals\<lparr>l_auth_type := ''user'', l_user_id := ''root'', l_user_role := ''super_admin'', l_tenant_id := ''t1''\<rparr>)"
proof -
  obtain ad s' where c: "oidc_callback toy_sso_env (bearer_request []) ''x'' ''c'' (toy_configured\<lparr>so_pending := [toy_pending]\<rparr>) = (Inr (''tokA'', ''root''), ad, s')"
    and us: "users (so_app s') = users (stamp_login True 100 ''root'' (so_app toy_sso))" using toy_callback by blast
  let ?w = "oe_world toy_sso_env"
  have J: "jwt_lib_ok (w_jwt ?w)" by (simp add: toy_sso_env_def toy_world_def jwt_lib_ok_toy)
  have w: "?w = ?w\<lparr>w_now := 100\<rparr>" "100 < so_now toy_sso_env + 24 * 3600" "w_db_up ?w" by (simp_all add: toy_sso_env_def toy_world_def so_now_def)
  have h: "cache (agents (au (so_app (toy_configured\<lparr>so_pending := [toy_pending]\<rparr>)))) k = None" "cache_get ?w (au (so_app (toy_configured\<lparr>so_pending := [toy_pending]\<rparr>))) k = None" for k
    by (simp_all add: toy_configured_def toy_sso_def toy_auth_def empty_state_def cache_get_def)
  have b: "\<not> portal_path (r_path (bearer_request ''tokA''))" by (simp add: bearer_request_def portal_path_def)
  from sso_login_admits [OF c J w bearer_request_token b h, of no_locals]
  obtain p u where p: "p \<in> set (so_pending (toy_configured\<lparr>so_pending := [toy_pending]\<rparr>))" and u: "u \<in> set (users (so_app s'))" "u_id u = ''root''"
    and adm: "u_role u \<in> {''user'', ''admin'', ''super_admin''} \<and> sl_tenant p \<noteq> [] \<longrightarrow> fst (AuthMiddleware ?w (bearer_request ''tokA'') no_locals (au (so_app s'))) =
         (if IsSuperAdmin (u_role u) \<or> TenantAllowed (w_env ?w) 100 True (tenant_tbl (au (so_app (toy_configured\<lparr>so_pending := [toy_pending]\<rparr>)))) (sl_tenant p)
          then Inr (no_locals\<lparr>l_auth_type := ''user'', l_user_id := ''root'', l_user_role := u_role u, l_tenant_id := sl_tenant p\<rparr>)
          else Inl (HttpError 403 ''Tenant inactive''))" by blast
  have "sl_tenant p = ''t1''" using p by (simp add: toy_pending_def)
  moreover have "u_role u = ''super_admin''" using u by (auto simp: us stamp_login_def toy_sso_def toy_sso_user_def)
  ultimately show ?thesis using c adm by (simp add: IsSuperAdmin_def)
qed

text \<open>The admin of the run has become the owner.\<close>

lemma owner_through_own_idp:
  "\<exists>q er. fst (run_ops sso_step toy_sso_ops toy_sso) = [Inr Configured, Inr (Sent_to_idp q), Inr (Signed_in ''x'' ''tokA'' ''root''), Inl er]
     \<and> map u_role (filter (\<lambda>u. u_id u = ''root'') (users (so_app toy_sso))) = [''super_admin'']
     \<and> map u_role (filter (\<lambda>u. u_id u = ''u1'') (users (so_app toy_sso))) = [''admin'']"
  using toy_sso_run by (simp add: toy_sso_def toy_sso_user_def)

text \<open>Nothing binds the callback to the browser that started the login.\<close>

lemma callback_from_any_browser: "fst (oidc_callback e r' x code s) = fst (oidc_callback e r x code s)"
  by (simp add: oidc_callback_def Let_def createOIDCSession_def split: option.split sum.split prod.split)

text \<open>An address that another tenant knows cannot sign in.\<close>

lemma known_elsewhere_refused:
  assumes "List.find (\<lambda>u. u_tenant u = Some T \<and> u_email u = to_lower (ic_email cl)) (users a) = None"
    and "v \<in> set (users a)" and "u_email v = to_lower (ic_email cl)" and "oe_up e 3"
  shows "provision e T cl d a = (Inl (HttpError 500 ''user provision failed''), a)"
proof -
  have "List.find (\<lambda>u. u_email u = to_lower (ic_email cl) \<or> u_id u = oe_user e) (users a) \<noteq> None"
    using assms(2,3) by (auto simp: find_None_iff)
  then show ?thesis using assms(1,4) by (simp add: provision_def find_user_def Let_def jit_user_def)
qed

text \<open>Addresses are compared in lower case with rows that keep the case they were created with: such a user gets a second account.\<close>

lemma mixed_case_second_account:
  assumes "users a = [v]" and "u_email v \<noteq> to_lower (ic_email cl)" and "u_id v \<noteq> oe_user e" and "oe_up e 3" and "oe_up e 4"
  shows "provision e T cl d a = (Inr (oe_user e, d), a\<lparr>users := [jit_user e T cl d, v]\<rparr>)"
  using assms by (simp add: provision_def find_user_def Let_def jit_user_def)

text \<open>That the deletion failed is ignored: the state stays, and can be presented again.\<close>

lemma failed_deletion_keeps_state:
  assumes "oidc_callback e r x code s = (Inr (jwt, uid), ad, s')" and "\<not> oe_up e 1"
  shows "so_pending s' = so_pending s"
  using callback_ok [OF assms(1)] assms(2) by (auto simp: burn_state_def)

text \<open>An issuer over plain http is accepted.\<close>

lemma plain_http_issuer:
  assumes "length raw \<le> maxOIDCIssuer" and "oe_parse e raw = Some (''http'', host, name)" and "host \<noteq> []" and "name \<noteq> []" and "oe_lookup e name = Some []"
  shows "validIssuerURL e raw = Inr ()"
  using assms by (simp add: validIssuerURL_def RejectPrivateHost_def)

end
