(* ===== verification/Rag.thy ===== *)
theory Rag
  imports AiSearch Tickets
begin

text \<open>
  Retrieval (\<open>internal/ai/rag/rag.go\<close>): the index of texts by their embeddings and the search for the nearest ones in a
  scope, with the goroutine that indexes a ticket once it is closed.

  The table \<open>ai_embeddings\<close> is a list of rows. Vectors are stored as the text that is sent to the database; its distance
  operator \<open>ra_distance\<close> is a parameter, with \<open>None\<close> for the NaN that it yields on a vector of length zero. What the
  provider answers to an embedding call, the rendering of a number and the statements that fail are given by the environment.
\<close>

section \<open>Closures of the chokepoint\<close>

text \<open>
  A call of \<open>Run\<close> whose closure leaves a value in a variable around it. The value is that of the provider and the model
  which the gates chose.
\<close>

definition run_capturing ::
  "ai_world \<Rightarrow> string \<Rightarrow> input \<Rightarrow> (provider \<Rightarrow> string \<Rightarrow> call_outcome \<times> 'a) \<Rightarrow> ai_state \<Rightarrow> (ai_error, 'a) result \<times> ai_state" where
  "run_capturing w runID inp fn s =
     (case Run w runID inp (\<lambda>prov model. fst (fn prov model)) s of
        (Inl e, s') \<Rightarrow> (Inl e, s')
      | (Inr _, s') \<Rightarrow>
        (case run_gates w inp s of
           (Inl e, _) \<Rightarrow> (Inl e, s')
         | (Inr (cfg, _, prov), _) \<Rightarrow> (Inr (snd (fn prov (rc_modelName cfg))), s')))"

text \<open>A run that ends well was admitted, and its closure neither panicked nor returned an error.\<close>

definition went_well :: "call_outcome \<Rightarrow> bool" where
  "went_well r = (case r of Panicked _ \<Rightarrow> False | Called _ _ _ err \<Rightarrow> err = None)"

lemma settle_ok:
  assumes "run_settle w runID inp cfg snap (callSafely r) s = (Inr out, s')"
  shows "went_well r"
  using assms by (cases r) (auto simp: run_settle_def callSafely_def went_well_def Let_def split: sum.splits option.splits prod.splits if_splits)

lemma run_capturing_ok:
  assumes "run_capturing w runID inp fn s = (Inr a, s')"
  shows "run_admitted w inp s \<and> (\<exists>prov model. a = snd (fn prov model) \<and> went_well (fst (fn prov model)))"
proof -
  obtain cfg snap prov s1 where g: "run_gates w inp s = (Inr (cfg, snap, prov), s1)"
    using assms by (auto simp: run_capturing_def Run_def split: sum.splits prod.splits)
  with assms obtain out where r: "run_settle w runID inp cfg snap (callSafely (fst (fn prov (rc_modelName cfg)))) s1 = (Inr out, s')"
    and a: "a = snd (fn prov (rc_modelName cfg))"
    by (auto simp: run_capturing_def Run_def split: sum.splits prod.splits)
  from settle_ok [OF r] gates_admitted [OF g] a show ?thesis by blast
qed

text \<open>The state after it is that after \<open>Run\<close>.\<close>

lemma run_capturing_state: "snd (run_capturing w runID inp fn s) = snd (Run w runID inp (\<lambda>prov model. fst (fn prov model)) s)"
  by (auto simp: run_capturing_def split: sum.splits prod.splits)

section \<open>Tables and environment\<close>

definition DefaultModel :: string where "DefaultModel = ''text-embedding-3-small''"
definition DefaultDim :: nat where "DefaultDim = 1536"

definition SourceTicket :: string where "SourceTicket = ''ticket''"
definition SourceKB :: string where "SourceKB = ''kb''"
definition SourceRunbook :: string where "SourceRunbook = ''runbook''"

record embedding_row =
  eb_id :: string
  eb_tenant :: string
  eb_customer :: "string option"
  eb_kind :: string
  eb_source :: string
  eb_hash :: string
  eb_model :: string
  eb_dim :: nat
  eb_vector :: string
  eb_created :: int

text \<open>\<open>rg_models\<close> is the column \<open>embedding_model_name\<close> of the rule that a tenant has for embeddings.\<close>

record rag_state =
  rg_ai :: ai_state
  rg_rows :: "embedding_row list"
  rg_models :: "string \<rightharpoonup> string option"

datatype rag_query = Q_model | Q_hash | Q_upsert | Q_search

datatype f32 = Finite rat | Infinite | NotANumber

datatype embed_answer = Embed_panic string | Embed_error string | Embedded embed_response "f32 list list"

record rag_env =
  ra_world :: ai_world
  ra_run :: string
  ra_row :: string
  ra_now :: int
  ra_up :: "rag_query \<Rightarrow> bool"
  ra_embed :: "provider \<Rightarrow> string \<Rightarrow> string \<Rightarrow> embed_answer"
  ra_float :: "rat \<Rightarrow> string"
  ra_distance :: "string \<Rightarrow> string \<Rightarrow> rat option"

text \<open>Of \<open>Rag_run\<close> the chokepoint's error is the cause.\<close>

datatype rag_error = Rag_dialect | Rag_tenant | Rag_text | Rag_run ai_error | Rag_no_vectors | Rag_dimension nat | Rag_upsert | Rag_query

definition vectorLiteral :: "(rat \<Rightarrow> string) \<Rightarrow> f32 list \<Rightarrow> string" where
  "vectorLiteral fmt v = ''['' @ str_join '','' (map (\<lambda>f. fmt (case f of Finite x \<Rightarrow> if x > 10 ^ 38 \<or> x < - (10 ^ 38) then 0 else x
     | Infinite \<Rightarrow> 0 | NotANumber \<Rightarrow> 0)) v) @ '']''"

definition hashText :: "crypto_prims \<Rightarrow> string \<Rightarrow> string" where
  "hashText P s = hexEncode (sha256 P s)"

definition embeddingModelFor :: "rag_env \<Rightarrow> string \<Rightarrow> rag_state \<Rightarrow> string" where
  "embeddingModelFor e tenantID s =
     (let model = (if ra_up e Q_model then (case rg_models s tenantID of None \<Rightarrow> [] | Some m \<Rightarrow> text_of m) else [])
      in if model = [] then DefaultModel else model)"

section \<open>Index and Retrieve\<close>

definition rag_capability :: "string \<Rightarrow> capability" where
  "rag_capability name = \<lparr>cb_Name = name, cb_Category = ''assistance'', cb_Description = [], cb_Stage = 0,
     cb_RequiredCaps = \<lparr>cp_Streaming = False, cp_ToolCalling = False, cp_Embeddings = True, cp_JSONMode = False, cp_MaxContext = 0\<rparr>,
     cb_DependsOn = [], cb_DefaultRung = [], cb_DefaultScope = no_scope,
     cb_DefaultPromotion = \<lparr>pm_PrecisionMin = 0, pm_FalsePositiveRateMax = 0, pm_LabelingRateMin = 0, pm_WeeksCleanRequired = 0, pm_MinSamples = 0\<rparr>,
     cb_PreferredTaskType = ''embed''\<rparr>"

definition rag_input :: "prompt_scope \<Rightarrow> string \<Rightarrow> input" where
  "rag_input scope capability = \<lparr>in_TenantID = ps_TenantID scope, in_CapabilityID = capability, in_CustomerID = ps_CustomerID scope,
     in_DeviceID = [], in_TicketID = [], in_RunType = RunTypeEmbed, in_Devices = [], in_Estimate = 0, in_Chain = []\<rparr>"

text \<open>Both operations embed one text through the chokepoint and check the vector that comes back.\<close>

definition embed_closure :: "rag_env \<Rightarrow> string \<Rightarrow> string \<Rightarrow> provider \<Rightarrow> string \<Rightarrow> call_outcome \<times> f32 list list" where
  "embed_closure e model txt prov _ = (case ra_embed e prov model txt of
       Embed_panic m \<Rightarrow> (Panicked m, [])
     | Embed_error er \<Rightarrow> (Called None None [] (Some er), [])
     | Embedded resp vs \<Rightarrow> (Called None (Some resp) [] None, vs))"

definition embed_text ::
  "rag_env \<Rightarrow> prompt_scope \<Rightarrow> string \<Rightarrow> string \<Rightarrow> string \<Rightarrow> ai_state \<Rightarrow> (rag_error, f32 list) result \<times> ai_state" where
  "embed_text e scope capability model txt s =
     (case run_capturing (ra_world e) (ra_run e) (rag_input scope capability) (embed_closure e model txt) s of
        (Inl er, s') \<Rightarrow> (Inl (Rag_run er), s')
      | (Inr [], s') \<Rightarrow> (Inl Rag_no_vectors, s')
      | (Inr (vec # _), s') \<Rightarrow> if length vec \<noteq> DefaultDim then (Inl (Rag_dimension (length vec)), s') else (Inr vec, s'))"

definition same_key :: "string \<Rightarrow> string \<Rightarrow> string \<Rightarrow> string \<Rightarrow> embedding_row \<Rightarrow> bool" where
  "same_key T kind source model r = (eb_tenant r = T \<and> eb_kind r = kind \<and> eb_source r = source \<and> eb_model r = model)"

text \<open>\<open>INSERT ... ON CONFLICT ... DO UPDATE\<close>.\<close>

definition upsert :: "embedding_row \<Rightarrow> embedding_row list \<Rightarrow> embedding_row list" where
  "upsert new rows =
     (let hit = same_key (eb_tenant new) (eb_kind new) (eb_source new) (eb_model new) in
      if list_ex hit rows
      then map (\<lambda>r. if hit r then r\<lparr>eb_hash := eb_hash new, eb_vector := eb_vector new, eb_customer := eb_customer new, eb_created := eb_created new\<rparr> else r) rows
      else rows @ [new])"

definition Index ::
  "rag_env \<Rightarrow> prompt_scope \<Rightarrow> string \<Rightarrow> string \<Rightarrow> string \<Rightarrow> rag_state \<Rightarrow> (rag_error, unit) result \<times> rag_state" where
  "Index e scope kind sourceID txt s =
     (case SupportedDialect (ra_world e) of
        Inl _ \<Rightarrow> (Inl Rag_dialect, s)
      | Inr _ \<Rightarrow>
        if ps_TenantID scope = [] then (Inl Rag_tenant, s)
        else if txt = [] then (Inl Rag_text, s)
        else
        let textHash = hashText (rw_prims (ra_world e)) txt; model = embeddingModelFor e (ps_TenantID scope) s;
            existing = (if ra_up e Q_hash then List.find (same_key (ps_TenantID scope) kind sourceID model) (rg_rows s) else None)
        in if (case existing of None \<Rightarrow> False | Some r \<Rightarrow> eb_hash r = textHash) then (Inr (), s)
           else (case embed_text e scope ''rag.index'' model txt (rg_ai s) of
             (Inl er, ai) \<Rightarrow> (Inl er, s\<lparr>rg_ai := ai\<rparr>)
           | (Inr vec, ai) \<Rightarrow>
             if \<not> ra_up e Q_upsert then (Inl Rag_upsert, s\<lparr>rg_ai := ai\<rparr>)
             else (Inr (), s\<lparr>rg_ai := ai, rg_rows := upsert \<lparr>eb_id = ra_row e, eb_tenant = ps_TenantID scope,
               eb_customer = nullable (ps_CustomerID scope), eb_kind = kind, eb_source = sourceID, eb_hash = textHash, eb_model = model,
               eb_dim = DefaultDim, eb_vector = vectorLiteral (ra_float e) vec, eb_created = ra_now e\<rparr> (rg_rows s)\<rparr>)))"

record hit =
  ht_kind :: string
  ht_source :: string
  ht_customer :: string
  ht_text :: string
  ht_score :: "rat option"

text \<open>NaN is the last in the database's order.\<close>

definition score_key :: "rat option \<Rightarrow> bool \<times> rat" where
  "score_key d = (case d of None \<Rightarrow> (True, 0) | Some x \<Rightarrow> (False, x))"

definition retrievable :: "prompt_scope \<Rightarrow> string \<Rightarrow> embedding_row \<Rightarrow> bool" where
  "retrievable scope kind r = (eb_tenant r = ps_TenantID scope \<and> eb_kind r = kind
     \<and> (ps_CustomerID scope = [] \<or> eb_customer r = Some (ps_CustomerID scope) \<or> eb_customer r = None))"

definition hit_of :: "(string \<Rightarrow> rat option) \<Rightarrow> embedding_row \<Rightarrow> hit" where
  "hit_of near r = \<lparr>ht_kind = eb_kind r, ht_source = eb_source r, ht_customer = text_of (eb_customer r), ht_text = [], ht_score = near (eb_vector r)\<rparr>"

definition clamp_topK :: "int \<Rightarrow> nat" where
  "clamp_topK k = nat (if k \<le> 0 \<or> k > 100 then 10 else k)"

text \<open>The order of rows at the same distance is left open by the database; here it is that of the table.\<close>

definition Retrieve ::
  "rag_env \<Rightarrow> prompt_scope \<Rightarrow> string \<Rightarrow> string \<Rightarrow> int \<Rightarrow> rag_state \<Rightarrow> (rag_error, hit list) result \<times> rag_state" where
  "Retrieve e scope kind queryText topK s =
     (case SupportedDialect (ra_world e) of
        Inl _ \<Rightarrow> (Inl Rag_dialect, s)
      | Inr _ \<Rightarrow>
        if ps_TenantID scope = [] then (Inl Rag_tenant, s)
        else
        let model = embeddingModelFor e (ps_TenantID scope) s in
        (case embed_text e scope ''rag.query'' model queryText (rg_ai s) of
           (Inl er, ai) \<Rightarrow> (Inl er, s\<lparr>rg_ai := ai\<rparr>)
         | (Inr vec, ai) \<Rightarrow>
           if \<not> ra_up e Q_search then (Inl Rag_query, s\<lparr>rg_ai := ai\<rparr>)
           else let near = ra_distance e (vectorLiteral (ra_float e) vec) in
             (Inr (map (hit_of near) (take (clamp_topK topK)
               (sort_key (\<lambda>r. score_key (near (eb_vector r))) (filter (retrievable scope kind) (rg_rows s))))), s\<lparr>rg_ai := ai\<rparr>)))"

text \<open>The goroutine of an update that asked for a final status: it indexes what it reads of the ticket, in the caller's tenant.\<close>

definition index_goroutine :: "rag_env \<Rightarrow> bool \<Rightarrow> locals \<Rightarrow> string \<Rightarrow> ticket_state \<Rightarrow> rag_state \<Rightarrow> rag_state" where
  "index_goroutine e ok c ticketID ts s =
     snd (Index e \<lparr>ps_TenantID = tenant_or_default c, ps_CustomerID = []\<rparr> SourceTicket ticketID (index_text ok c ticketID ts) s)"

section \<open>The index\<close>

definition emb_key :: "embedding_row \<Rightarrow> string \<times> string \<times> string \<times> string" where
  "emb_key r = (eb_tenant r, eb_kind r, eb_source r, eb_model r)"

lemma same_key_iff: "same_key T kind source model r \<longleftrightarrow> emb_key r = (T, kind, source, model)"
  by (auto simp: same_key_def emb_key_def)

lemma upsert_keys: "map emb_key (upsert new rows) = map emb_key rows \<or>
    map emb_key (upsert new rows) = map emb_key rows @ [emb_key new] \<and> emb_key new \<notin> emb_key ` set rows"
  by (auto simp: upsert_def Let_def emb_key_def same_key_def list_ex_iff)

lemma upsert_distinct: "distinct (map emb_key rows) \<Longrightarrow> distinct (map emb_key (upsert new rows))"
  using upsert_keys [of new rows] by auto

lemma upsert_other_tenants: "filter (\<lambda>r. eb_tenant r \<noteq> eb_tenant new) (upsert new rows) = filter (\<lambda>r. eb_tenant r \<noteq> eb_tenant new) rows"
  unfolding upsert_def Let_def by (auto simp: same_key_def intro!: filter_map_none)

lemma upsert_found:
  "\<exists>r. List.find (same_key (eb_tenant new) (eb_kind new) (eb_source new) (eb_model new)) (upsert new rows) = Some r \<and> eb_hash r = eb_hash new"
proof -
  let ?hit = "same_key (eb_tenant new) (eb_kind new) (eb_source new) (eb_model new)"
  have ex: "\<exists>r\<in>set (upsert new rows). ?hit r"
  proof (cases "list_ex ?hit rows")
    case True
    then obtain r where "r \<in> set rows" "?hit r" by (auto simp: list_ex_iff)
    with True show ?thesis unfolding upsert_def Let_def
      by (intro bexI [of _ "r\<lparr>eb_hash := eb_hash new, eb_vector := eb_vector new, eb_customer := eb_customer new, eb_created := eb_created new\<rparr>"])
        (auto simp: same_key_def)
  qed (simp add: upsert_def same_key_def)
  have hash: "\<forall>r\<in>set (upsert new rows). ?hit r \<longrightarrow> eb_hash r = eb_hash new"
    by (auto simp: upsert_def Let_def same_key_def list_ex_iff)
  from ex have "List.find ?hit (upsert new rows) \<noteq> None" by (auto simp: find_None_iff)
  then obtain r where "List.find ?hit (upsert new rows) = Some r" by auto
  with hash find_in [OF this] show ?thesis by blast
qed

text \<open>What a call of \<open>Index\<close> does to the table.\<close>

lemma Index_rows:
  "rg_rows (snd (Index e scope kind i txt s)) = rg_rows s \<or>
   (\<exists>new. rg_rows (snd (Index e scope kind i txt s)) = upsert new (rg_rows s) \<and> eb_tenant new = ps_TenantID scope
      \<and> eb_customer new = nullable (ps_CustomerID scope) \<and> eb_kind new = kind \<and> eb_source new = i)"
  by (auto simp: Index_def Let_def split: sum.split prod.split)

lemma Index_models [simp]: "rg_models (snd (Index e scope kind i txt s)) = rg_models s"
  by (auto simp: Index_def Let_def split: sum.split prod.split)

lemma Index_distinct: "distinct (map emb_key (rg_rows s)) \<Longrightarrow> distinct (map emb_key (rg_rows (snd (Index e scope kind i txt s))))"
  using Index_rows [of e scope kind i "txt" s] upsert_distinct by auto

lemma Index_other_tenants:
  "filter (\<lambda>r. eb_tenant r \<noteq> ps_TenantID scope) (rg_rows (snd (Index e scope kind i txt s))) = filter (\<lambda>r. eb_tenant r \<noteq> ps_TenantID scope) (rg_rows s)"
  using Index_rows [of e scope kind i "txt" s] upsert_other_tenants by metis

section \<open>Properties\<close>

text \<open>
  A text that was indexed is up to date: to index it again costs nothing. Whatever the provider would answer, the second call
  succeeds without it and changes nothing, as long as the lookups answer and the model for embeddings is the same.
\<close>

theorem index_idempotent:
  assumes "Index e scope kind i txt s = (Inr (), s')"
    and "rw_postgres (ra_world e')" and "ra_up e' Q_hash" and "rw_prims (ra_world e') = rw_prims (ra_world e)"
    and "embeddingModelFor e' (ps_TenantID scope) s' = embeddingModelFor e (ps_TenantID scope) s"
  shows "Index e' scope kind i txt s' = (Inr (), s')"
proof -
  let ?hit = "same_key (ps_TenantID scope) kind i (embeddingModelFor e (ps_TenantID scope) s)"
  have in_order: "ps_TenantID scope \<noteq> []" "txt \<noteq> []"
    using assms(1) by (auto simp: Index_def split: sum.splits if_splits)
  have "\<exists>r. List.find ?hit (rg_rows s') = Some r \<and> eb_hash r = hashText (rw_prims (ra_world e)) txt"
  proof (cases "\<exists>r. ra_up e Q_hash \<and> List.find ?hit (rg_rows s) = Some r \<and> eb_hash r = hashText (rw_prims (ra_world e)) txt")
    case True
    with assms(1) show ?thesis by (auto simp: Index_def Let_def split: sum.splits if_splits)
  next
    case False
    with assms(1) obtain new where "rg_rows s' = upsert new (rg_rows s)" "eb_tenant new = ps_TenantID scope" "eb_kind new = kind"
      "eb_source new = i" "eb_model new = embeddingModelFor e (ps_TenantID scope) s" "eb_hash new = hashText (rw_prims (ra_world e)) txt"
      by (auto simp: Index_def Let_def split: sum.splits if_splits option.splits prod.splits)
    with upsert_found [of new "rg_rows s"] show ?thesis by auto
  qed
  with in_order assms(2-5) show ?thesis by (auto simp: Index_def SupportedDialect_def)
qed

text \<open>What the closest rows in scope are.\<close>

lemma take_sorted_nearest:
  fixes f :: "'a \<Rightarrow> 'b::linorder"
  shows "\<exists>rest. mset xs = mset (take n (sort_key f xs)) + rest
    \<and> (\<forall>r\<in>#rest. \<forall>p\<in>set (take n (sort_key f xs)). f p \<le> f r)"
proof (intro exI conjI)
  have "mset (take n (sort_key f xs)) + mset (drop n (sort_key f xs)) = mset (take n (sort_key f xs) @ drop n (sort_key f xs))"
    by (rule mset_append [symmetric])
  then show "mset xs = mset (take n (sort_key f xs)) + mset (drop n (sort_key f xs))" by simp
  have "sorted (map f (take n (sort_key f xs)) @ map f (drop n (sort_key f xs)))"
    by (metis append_take_drop_id map_append sorted_sort_key)
  then show "\<forall>r\<in>#mset (drop n (sort_key f xs)). \<forall>p\<in>set (take n (sort_key f xs)). f p \<le> f r"
    by (auto simp: sorted_append)
qed

lemma Retrieve_ok:
  assumes "Retrieve e scope kind q k s = (Inr hits, s')"
  shows "\<exists>prov resp vec vs near. run_admitted (ra_world e) (rag_input scope ''rag.query'') (rg_ai s)
    \<and> ra_embed e prov (embeddingModelFor e (ps_TenantID scope) s) q = Embedded resp (vec # vs)
    \<and> near = ra_distance e (vectorLiteral (ra_float e) vec)
    \<and> hits = map (hit_of near) (take (clamp_topK k) (sort_key (\<lambda>r. score_key (near (eb_vector r))) (filter (retrievable scope kind) (rg_rows s))))
    \<and> rg_rows s' = rg_rows s"
proof -
  from assms obtain vec ai where v: "embed_text e scope ''rag.query'' (embeddingModelFor e (ps_TenantID scope) s) q (rg_ai s) = (Inr vec, ai)"
    by (auto simp: Retrieve_def Let_def split: sum.splits if_splits prod.splits)
  then obtain vs where r: "run_capturing (ra_world e) (ra_run e) (rag_input scope ''rag.query'')
      (embed_closure e (embeddingModelFor e (ps_TenantID scope) s) q) (rg_ai s) = (Inr (vec # vs), ai)"
    by (auto simp: embed_text_def split: sum.splits list.splits if_splits prod.splits)
  from run_capturing_ok [OF this] obtain prov m where "run_admitted (ra_world e) (rag_input scope ''rag.query'') (rg_ai s)"
    and c: "vec # vs = snd (embed_closure e (embeddingModelFor e (ps_TenantID scope) s) q prov m)"
      "went_well (fst (embed_closure e (embeddingModelFor e (ps_TenantID scope) s) q prov m))" by blast
  moreover from c obtain resp where "ra_embed e prov (embeddingModelFor e (ps_TenantID scope) s) q = Embedded resp (vec # vs)"
    by (cases "ra_embed e prov (embeddingModelFor e (ps_TenantID scope) s) q") (auto simp: embed_closure_def went_well_def)
  moreover have "hits = map (hit_of (ra_distance e (vectorLiteral (ra_float e) vec))) (take (clamp_topK k)
      (sort_key (\<lambda>r. score_key (ra_distance e (vectorLiteral (ra_float e) vec) (eb_vector r))) (filter (retrievable scope kind) (rg_rows s))))"
    "rg_rows s' = rg_rows s"
    using assms v by (auto simp: Retrieve_def Let_def split: sum.splits if_splits)
  ultimately show ?thesis by blast
qed


text \<open>A tenant with two texts of its own, one of another customer's, and a text of another tenant.\<close>

definition toy_rag_ai :: ai_state where
  "toy_rag_ai = toy_ai\<lparr>ai_caps := [(''rag.query'', rag_capability ''rag.query''), (''rag.index'', rag_capability ''rag.index'')],
     ai_factories := [(''k'', \<lambda>_. Inr \<lparr>pd_Kind = ''k'', pd_Caps = toy_caps\<lparr>cp_Embeddings := True\<rparr>\<rparr>)],
     ai_routes := [(''t'', ''embed'') \<mapsto> \<lparr>rt_provider = ''p'', rt_model = ''m'', rt_max_cost = None, rt_in = None, rt_out = None\<rparr>]\<rparr>"

definition toy_embedding :: "string \<Rightarrow> string option \<Rightarrow> string \<Rightarrow> string \<Rightarrow> embedding_row" where
  "toy_embedding T c i v = \<lparr>eb_id = i, eb_tenant = T, eb_customer = c, eb_kind = SourceTicket, eb_source = i, eb_hash = [], eb_model = DefaultModel,
     eb_dim = DefaultDim, eb_vector = v, eb_created = 0\<rparr>"

definition toy_rag :: rag_state where
  "toy_rag = \<lparr>rg_ai = toy_rag_ai, rg_rows = [toy_embedding ''t'' None ''k1'' ''far'', toy_embedding ''u'' None ''k2'' ''near'',
     toy_embedding ''t'' (Some ''x'') ''k3'' ''near'', toy_embedding ''t'' (Some ''y'') ''k4'' ''near'', toy_embedding ''t'' None ''k5'' ''nil''], rg_models = Map.empty\<rparr>"

definition toy_rag_env :: rag_env where
  "toy_rag_env = \<lparr>ra_world = toy_ai_world, ra_run = ''r1'', ra_row = ''e1'', ra_now = 5, ra_up = (\<lambda>_. True),
     ra_embed = (\<lambda>_ _ _. Embedded \<lparr>em_PromptTokens = 1, em_ModelVersion = ''v''\<rparr> [replicate DefaultDim (Finite 0)]),
     ra_float = (\<lambda>_. ''0''), ra_distance = (\<lambda>_ v. if v = ''nil'' then None else if v = ''far'' then Some 1 else Some 0)\<rparr>"

definition toy_rag_scope :: prompt_scope where
  "toy_rag_scope = \<lparr>ps_TenantID = ''t'', ps_CustomerID = ''x''\<rparr>"

lemma toy_rag_run:
  assumes "ps_TenantID sc = ''t''" and "cap = ''rag.query'' \<or> cap = ''rag.index''"
  shows "\<exists>ai. run_capturing toy_ai_world ''r1'' (rag_input sc cap) (embed_closure toy_rag_env model q) toy_rag_ai
    = (Inr [replicate DefaultDim (Finite 0)], ai)"
proof -
  define cfg where "cfg = (case loadRuntime toy_ai_world (rag_input sc cap) toy_rag_ai of Inr cfg \<Rightarrow> cfg)"
  have checks: "\<exists>prov. run_checks toy_ai_world (rag_input sc cap) toy_rag_ai = Inr (cfg, rag_capability cap, prov)"
    and rung: "rc_rung cfg = []"
    using assms by (auto simp: cfg_def run_checks_def SupportedDialect_def toy_ai_world_def rag_input_def toy_rag_ai_def toy_ai_def rag_capability_def IsKilled_def
      loadRuntime_def task_type_def Lookup_def loadProvider_def Build_def providerSupports_def toy_caps_def CheckDependencies_def)
  then obtain prov where c: "run_checks toy_ai_world (rag_input sc cap) toy_rag_ai = Inr (cfg, rag_capability cap, prov)" by blast
  have g: "run_gates toy_ai_world (rag_input sc cap) toy_rag_ai = (Inr (cfg, hashSnapshot toy_ai_world (rag_input sc cap), prov), toy_rag_ai)"
    using rung by (simp add: run_gates_def c rung_defs ReserveCost_def) (simp add: rag_input_def)
  have "\<not> rw_down toy_ai_world Q_persist" by (simp add: toy_ai_world_def)
  then show ?thesis
    by (simp add: run_capturing_def Run_def g embed_closure_def toy_rag_env_def callSafely_def run_settle_def Let_def persistRun_def)
qed

lemma toy_retrieved:
  "\<exists>s'. Retrieve toy_rag_env toy_rag_scope SourceTicket q 2 toy_rag = (Inr [\<lparr>ht_kind = SourceTicket, ht_source = ''k3'', ht_customer = ''x'', ht_text = [], ht_score = Some 0\<rparr>,
     \<lparr>ht_kind = SourceTicket, ht_source = ''k1'', ht_customer = [], ht_text = [], ht_score = Some 1\<rparr>], s')"
proof -
  obtain ai where "run_capturing toy_ai_world ''r1'' (rag_input toy_rag_scope ''rag.query'') (embed_closure toy_rag_env DefaultModel q) toy_rag_ai
      = (Inr [replicate DefaultDim (Finite 0)], ai)"
    using toy_rag_run [of toy_rag_scope "''rag.query''"] by (auto simp: toy_rag_scope_def)
  then have "embed_text toy_rag_env toy_rag_scope ''rag.query'' DefaultModel q toy_rag_ai = (Inr (replicate DefaultDim (Finite 0)), ai)"
    by (simp add: embed_text_def toy_rag_env_def)
  moreover have "embeddingModelFor toy_rag_env ''t'' toy_rag = DefaultModel" by (simp add: embeddingModelFor_def toy_rag_def DefaultModel_def)
  ultimately show ?thesis
    by (simp add: Retrieve_def SupportedDialect_def toy_rag_def)
      (simp add: toy_rag_env_def toy_rag_scope_def toy_ai_world_def retrievable_def toy_embedding_def clamp_topK_def score_key_def hit_of_def text_of_def less_eq_prod_def)
qed


section \<open>What the indexing of tickets does\<close>

text \<open>
  Tickets are indexed without their customer, so what one customer reported is retrieved in the scope of every other customer
  of the tenant.
\<close>

lemma closed_ticket_seen_by_every_customer:
  assumes "rg_rows (index_goroutine e ok c i ts s) = rg_rows s @ [new]"
  shows "retrievable \<lparr>ps_TenantID = tenant_or_default c, ps_CustomerID = x\<rparr> SourceTicket new"
proof -
  from assms Index_rows [of e "\<lparr>ps_TenantID = tenant_or_default c, ps_CustomerID = []\<rparr>" SourceTicket i "index_text ok c i ts" s]
  obtain n where n: "upsert n (rg_rows s) = rg_rows s @ [new]" "eb_tenant n = tenant_or_default c" "eb_customer n = None" "eb_kind n = SourceTicket"
    by (auto simp: index_goroutine_def nullable_def)
  from n(1) have "n = new" by (auto simp: upsert_def Let_def split: if_splits dest: arg_cong [where f = length])
  with n show ?thesis by (simp add: retrievable_def)
qed

text \<open>
  A row of an earlier model for embeddings stays and is compared with queries of the present one: after a change of the model
  every text that was indexed again is in the table twice, and both are retrieved.
\<close>

lemma models_are_mixed: "retrievable scope kind (r\<lparr>eb_model := m, eb_vector := v\<rparr>) \<longleftrightarrow> retrievable scope kind r"
  by (simp add: retrievable_def)

end
