(* ===== verification/Assist.thy ===== *)
theory Assist
  imports Rag AiAdmin
begin

text \<open>
  What the AI layer does for the staff at their request: generated scripts with the scan for dangerous commands
  (\<open>ai/capabilities/scriptgen.go\<close>), the triage of new tickets (\<open>ticketsummary.go\<close>), and the choice of a technician for a ticket
  (\<open>autoroute.go\<close>).

  Each of them builds a prompt, asks the model through the chokepoint and repairs the answer. The model is a function of the
  provider and the request; JSON is a parameter, with decoders that work on a record as \<open>json.Unmarshal\<close> does. Case is
  folded for ASCII, and in regular expressions for the two further characters that fold to a letter.
\<close>

section \<open>Asking the model\<close>

datatype chat_reply = Chat_panic string | Chat_error string | Chatted chat_response

record assist_env =
  as_world :: "nat \<Rightarrow> ai_world"
  as_run :: "nat \<Rightarrow> string"
  as_chat :: "provider \<Rightarrow> chat_request \<Rightarrow> chat_reply"

datatype assist_error = Assist_tenant | Assist_empty | Assist_language | Assist_panic | Assist_users | Assist_run ai_error

text \<open>
  The closure that the capabilities share: render, ask, repair the answer with \<open>finish\<close>, and leave it in a variable that
  starts as \<open>unset\<close>.
\<close>

definition ask ::
  "crypto_prims \<Rightarrow> (provider \<Rightarrow> chat_request \<Rightarrow> chat_reply) \<Rightarrow> builder \<Rightarrow> int \<Rightarrow> (string \<Rightarrow> 'a) \<Rightarrow> (string \<Rightarrow> 'a \<Rightarrow> string) \<Rightarrow> 'a
    \<Rightarrow> provider \<Rightarrow> string \<Rightarrow> call_outcome \<times> 'a" where
  "ask P chat b maxTokens finish payload unset prov model =
     (case Render P model maxTokens b of
        Inl er \<Rightarrow> (Called None None [] (Some er), unset)
      | Inr (req, _) \<Rightarrow>
        (case chat prov req of
           Chat_panic m \<Rightarrow> (Panicked m, unset)
         | Chat_error er \<Rightarrow> (Called None None [] (Some er), unset)
         | Chatted resp \<Rightarrow> (Called (Some resp) None (payload (ch_Content resp) (finish (ch_Content resp))) None, finish (ch_Content resp))))"

definition assist_input :: "prompt_scope \<Rightarrow> string \<Rightarrow> string \<Rightarrow> int \<Rightarrow> input" where
  "assist_input scope capability ticketID estimate = \<lparr>in_TenantID = ps_TenantID scope, in_CapabilityID = capability,
     in_CustomerID = ps_CustomerID scope, in_DeviceID = [], in_TicketID = ticketID, in_RunType = RunTypeChat, in_Devices = [],
     in_Estimate = estimate, in_Chain = []\<rparr>"

lemma ask_ok:
  assumes "went_well (fst (ask P chat b k finish payload unset prov model))"
  shows "\<exists>content. snd (ask P chat b k finish payload unset prov model) = finish content"
  using assms by (auto simp: ask_def went_well_def split: sum.splits prod.splits chat_reply.splits)

text \<open>What an admitted run leaves in the variable is a repaired answer.\<close>

lemma asked:
  assumes "run_capturing w i inp (ask P chat b k finish payload unset) s = (Inr a, s')"
  shows "run_admitted w inp s \<and> (\<exists>content. a = finish content)"
  using run_capturing_ok [OF assms] ask_ok by metis

section \<open>Patterns\<close>

text \<open>
  The part of the regular expressions that the scan uses: a sequence of alternatives of fixed texts, of characters, once or
  as often as it takes, and of word boundaries. \<open>prev\<close> is the character before the rest of the text.
\<close>

datatype rx_item = Lit "string list" | One "char \<Rightarrow> bool" | Many "char \<Rightarrow> bool" | WordBoundary

definition rx_word :: "char option \<Rightarrow> bool" where
  "rx_word c = (case c of None \<Rightarrow> False | Some c \<Rightarrow> is_lower c \<or> is_upper c \<or> is_digit c \<or> c = CHR ''_'')"

definition rx_any :: "char \<Rightarrow> bool" where
  "rx_any c = (c \<noteq> CHR 0x0A)"

definition first_char :: "string \<Rightarrow> char option" where
  "first_char s = (case s of [] \<Rightarrow> None | c # _ \<Rightarrow> Some c)"

definition last_char :: "char option \<Rightarrow> string \<Rightarrow> char option" where
  "last_char prev s = (if s = [] then prev else Some (last s))"

fun rx_here :: "rx_item list \<Rightarrow> char option \<Rightarrow> string \<Rightarrow> bool" where
  "rx_here [] prev s = True"
| "rx_here (Lit ps # r) prev s = list_ex (\<lambda>p. has_prefix s p \<and> rx_here r (last_char prev p) (drop (length p) s)) ps"
| "rx_here (One p # r) prev s = (case s of [] \<Rightarrow> False | c # s' \<Rightarrow> p c \<and> rx_here r (Some c) s')"
| "rx_here (WordBoundary # r) prev s = (rx_word prev \<noteq> rx_word (first_char s) \<and> rx_here r prev s)"
| "rx_here (Many p # r) prev [] = rx_here r prev []"
| "rx_here (Many p # r) prev (c # s) = (rx_here r prev (c # s) \<or> p c \<and> rx_here (Many p # r) (Some c) s)"

fun rx_search :: "rx_item list \<Rightarrow> char option \<Rightarrow> string \<Rightarrow> bool" where
  "rx_search r prev [] = rx_here r prev []"
| "rx_search r prev (c # s) = (rx_here r prev (c # s) \<or> rx_search r (Some c) s)"

definition MatchString :: "rx_item list \<Rightarrow> string \<Rightarrow> bool" where
  "MatchString r s = rx_search r None s"

text \<open>\<open>(?i)\<close>: the long s and the Kelvin sign fold to letters.\<close>

definition rx_fold :: "char \<Rightarrow> rx_item" where
  "rx_fold c = Lit ([[c]] @ (if is_lower c then [[char_of (of_char c - 32 :: nat)]] else [])
     @ (if c = CHR ''s'' then [[CHR 0xC5, CHR 0xBF]] else []) @ (if c = CHR ''k'' then [[CHR 0xE2, CHR 0x84, CHR 0xAA]] else []))"

definition rx_spaces :: "rx_item list" where
  "rx_spaces = [One re_space, Many re_space]"

definition rx_pipe :: "string \<Rightarrow> string \<Rightarrow> rx_item list" where
  "rx_pipe tool shell = Lit [tool] # rx_spaces @ [Many rx_any, Lit [''|''], Many re_space, Lit [shell]]"

definition rx_pipe_name :: "string \<Rightarrow> string \<Rightarrow> string" where
  "rx_pipe_name tool shell = tool @ CHR 0x5C # ''s+.*'' @ CHR 0x5C # ''|'' @ CHR 0x5C # ''s*'' @ shell"

section \<open>Generated scripts\<close>

definition scriptDangerSubstrings :: "string list" where
  "scriptDangerSubstrings = [''rm -rf /'', ''rm -rf /*'', ''mkfs'', ''dd if=/dev/zero'', ''> /dev/sda'', '':(){ :|:& };:'', ''chmod 000 /'', ''chmod 777 /'',
     ''mkfs.ext'', ''mkfs.xfs'', ''format c:'', ''del /f /s /q c:'', ''sudo '', '' su '', ''doas '', ''Stop-Service WinDefend'',
     ''Set-MpPreference -DisableRealtimeMonitoring'', ''echo password'', ''PASSWORD='', ''API_KEY='']"

text \<open>The expressions with their source text.\<close>

definition scriptDangerRegexps :: "(string \<times> rx_item list) list" where
  "scriptDangerRegexps =
    [(rx_pipe_name ''curl'' ''sh'', rx_pipe ''curl'' ''sh''), (rx_pipe_name ''curl'' ''bash'', rx_pipe ''curl'' ''bash''),
     (rx_pipe_name ''wget'' ''sh'', rx_pipe ''wget'' ''sh''), (rx_pipe_name ''wget'' ''bash'', rx_pipe ''wget'' ''bash''),
     (''(?i)Invoke-WebRequest'' @ CHR 0x5C # ''s+.*-OutFile.*'' @ CHR 0x5C # ''.exe'',
      map rx_fold ''invoke-webrequest'' @ rx_spaces @ Many rx_any # map rx_fold ''-outfile'' @ Many rx_any # map rx_fold ''.exe''),
     (''(?i)Invoke-Expression'' @ CHR 0x5C # ''s*'' @ CHR 0x5C # ''('' @ CHR 0x5C # ''s*New-Object'',
      map rx_fold ''invoke-expression'' @ Many re_space # Lit [''(''] # Many re_space # map rx_fold ''new-object''),
     (''(?i)bypass'' @ CHR 0x5C # ''b.*executionpolicy'', map rx_fold ''bypass'' @ WordBoundary # Many rx_any # map rx_fold ''executionpolicy'')]"

definition scanDangerousPatterns :: "string \<Rightarrow> string list" where
  "scanDangerousPatterns code =
     (if code = [] then []
      else let lower = to_lower code in filter (\<lambda>p. contains lower (to_lower p)) scriptDangerSubstrings
        @ map fst (filter (\<lambda>(_, re). MatchString re code) scriptDangerRegexps))"

record script_out =
  so_Language :: string
  so_Code :: string
  so_Explanation :: string
  so_DangerScore :: string
  so_DangerHits :: "string list"
  so_Warnings :: "string list"

definition scriptGenCapName :: string where "scriptGenCapName = ''script_gen''"

definition script_rules :: string where
  "script_rules = ''Generate a script that performs the operator'' @ [CHR 0x27] @ ''s request. Strict rules:'' @ nl @ nl
     @ ''- Output language must be exactly the requested language (bash or powershell).'' @ nl
     @ ''- Do NOT use: sudo, su, doas, chmod 777, rm -rf /, mkfs, dd if=/dev/zero, curl ... | sh, wget ... | bash. Find a safer alternative or refuse.'' @ nl
     @ ''- Prefer idempotent operations. Detect-then-act, not blind apply.'' @ nl
     @ ''- Include a one-paragraph explanation of what the script does and what it doesn'' @ [CHR 0x27] @ ''t.'' @ nl
     @ ''- Output strict JSON: {'' @ in_quotes ''language'' @ '':'' @ in_quotes ''...'' @ '','' @ in_quotes ''code'' @ '':'' @ in_quotes ''...'' @ '',''
     @ in_quotes ''explanation'' @ '':'' @ in_quotes ''...'' @ ''}.'' @ nl
     @ ''- If the request is impossible, ambiguous, or would require any banned command, set code to '' @ in_quotes [] @ '' and explain why in the explanation field.''"

text \<open>What the closure makes of the answer; \<open>decode\<close> overwrites the fields that the answer names, and those alone.\<close>

definition judge_script :: "(string \<Rightarrow> script_out \<Rightarrow> script_out) \<Rightarrow> string \<Rightarrow> string \<Rightarrow> script_out" where
  "judge_script decode language content =
     (let out = decode content \<lparr>so_Language = language, so_Code = [], so_Explanation = [], so_DangerScore = [], so_DangerHits = [], so_Warnings = []\<rparr>;
          out = out\<lparr>so_DangerHits := scanDangerousPatterns (so_Code out)\<rparr>
      in if so_DangerHits out \<noteq> [] then out\<lparr>so_DangerScore := ''high''\<rparr>
         else if so_Language out \<noteq> language
         then out\<lparr>so_DangerScore := ''medium'', so_Warnings := so_Warnings out @ [''model returned a different language than requested'']\<rparr>
         else out\<lparr>so_DangerScore := ''low''\<rparr>)"

record script_codec =
  sc_decode :: "string \<Rightarrow> script_out \<Rightarrow> script_out"
  sc_encode :: "script_out \<Rightarrow> string"

definition GenerateScript ::
  "assist_env \<Rightarrow> script_codec \<Rightarrow> prompt_scope \<Rightarrow> string \<Rightarrow> string \<Rightarrow> ai_state \<Rightarrow> (assist_error, script_out) result \<times> ai_state" where
  "GenerateScript e C scope language query s =
     (if ps_TenantID scope = [] then (Inl Assist_tenant, s)
      else if query = [] then (Inl Assist_empty, s)
      else if language \<noteq> ''bash'' \<and> language \<noteq> ''powershell'' then (Inl Assist_language, s)
      else (case new_builder scope of
          None \<Rightarrow> (Inl Assist_panic, s)
        | Some b \<Rightarrow>
          let b = UntrustedInput ''operator_request'' query (TrustedContext (''requested language: '' @ language) (SystemRules script_rules b));
              unset = \<lparr>so_Language = language, so_Code = [], so_Explanation = [], so_DangerScore = [], so_DangerHits = [], so_Warnings = []\<rparr> in
          (case run_capturing (as_world e 0) (as_run e 0) (assist_input scope scriptGenCapName [] 3000)
              (ask (rw_prims (as_world e 0)) (as_chat e) b 1024 (judge_script (sc_decode C) language) (\<lambda>_. sc_encode C) unset) s of
             (Inl er, s') \<Rightarrow> (Inl (Assist_run er), s')
           | (Inr out, s') \<Rightarrow> (Inr out, s'))))"

text \<open>The status of an error that is not one of the chokepoint's is 500.\<close>

definition assist_status :: "assist_error \<Rightarrow> nat" where
  "assist_status er = (case er of Assist_run r \<Rightarrow> aiMapErr r | _ \<Rightarrow> 500)"

definition aiAssistScript ::
  "assist_env \<Rightarrow> script_codec \<Rightarrow> locals \<Rightarrow> string \<Rightarrow> (string \<times> string \<times> string) option \<Rightarrow> ai_state \<Rightarrow> (nat, script_out) result \<times> ai_state" where
  "aiAssistScript e C c q body s =
     (case body of
        None \<Rightarrow> (Inl 400, s)
      | Some (query, language, customerID) \<Rightarrow>
        if query = [] \<or> language = [] then (Inl 400, s)
        else (case GenerateScript e C \<lparr>ps_TenantID = targetTenant c q, ps_CustomerID = customerID\<rparr> language query s of
            (Inl er, s') \<Rightarrow> (Inl (assist_status er), s')
          | (Inr out, s') \<Rightarrow> (Inr out, s')))"

section \<open>What a pattern matches\<close>

text \<open>\<open>spells r prev u rest\<close>: between \<open>prev\<close> and \<open>rest\<close>, the text \<open>u\<close> is one that the pattern describes.\<close>

inductive spells :: "rx_item list \<Rightarrow> char option \<Rightarrow> string \<Rightarrow> string \<Rightarrow> bool" where
  Done: "spells [] prev [] rest"
| Literal: "p \<in> set ps \<Longrightarrow> spells r (last_char prev p) u rest \<Longrightarrow> spells (Lit ps # r) prev (p @ u) rest"
| Char: "p c \<Longrightarrow> spells r (Some c) u rest \<Longrightarrow> spells (One p # r) prev (c # u) rest"
| Border: "rx_word prev \<noteq> rx_word (first_char (u @ rest)) \<Longrightarrow> spells r prev u rest \<Longrightarrow> spells (WordBoundary # r) prev u rest"
| Repeat: "list_all p w \<Longrightarrow> spells r (last_char prev w) u rest \<Longrightarrow> spells (Many p # r) prev (w @ u) rest"

inductive_cases spells_items: "spells [] prev u rest" "spells (Lit ps # r) prev u rest" "spells (One p # r) prev u rest"
  "spells (WordBoundary # r) prev u rest" "spells (Many p # r) prev u rest"

lemma last_char_Cons: "last_char prev (c # w) = last_char (Some c) w"
  by (simp add: last_char_def)

lemma spells_more: "p c \<Longrightarrow> spells (Many p # r) (Some c) u rest \<Longrightarrow> spells (Many p # r) prev (c # u) rest"
proof (erule spells_items(5))
  fix w v assume "p c" "u = w @ v" "list_all p w" "spells r (last_char (Some c) w) v rest"
  then show ?thesis using Repeat [of p "c # w" r prev v rest] by (simp add: last_char_Cons)
qed

lemma rx_here_sound: "rx_here r prev s \<Longrightarrow> \<exists>u rest. s = u @ rest \<and> spells r prev u rest"
proof (induction r prev s rule: rx_here.induct)
  case (2 ps r prev s)
  then obtain p where "p \<in> set ps" "has_prefix s p" "rx_here r (last_char prev p) (drop (length p) s)" by (auto simp: list_ex_iff)
  with 2(1) [of p] obtain u rest where u: "drop (length p) s = u @ rest" "spells r (last_char prev p) u rest" by blast
  from \<open>has_prefix s p\<close> u(1) have "s = (p @ u) @ rest" by (auto simp: has_prefix_iff)
  with Literal [OF \<open>p \<in> set ps\<close> u(2)] show ?case by blast
next
  case (3 p r prev s)
  then show ?case by (cases s) (auto, metis Char append_Cons)
next
  case (5 p r prev)
  then show ?case using Repeat [of p "[]"] by (auto simp: last_char_def)
next
  case (6 p r prev c s)
  have skip: "spells r prev u rest \<Longrightarrow> spells (Many p # r) prev u rest" for u rest
    using Repeat [of p "[]" r prev] by (simp add: last_char_def)
  from 6(3) consider "rx_here r prev (c # s)" | "p c" "rx_here (Many p # r) (Some c) s" by auto
  then show ?case
  proof cases
    case 1
    with 6(1) skip show ?thesis by blast
  next
    case 2
    with 6(2) obtain u rest where "s = u @ rest" "spells (Many p # r) (Some c) u rest" by blast
    with spells_more [of p c, OF 2(1)] show ?thesis by (metis append_Cons)
  qed
qed (auto intro: Done Border)

lemma rx_here_skip: "list_all p w \<Longrightarrow> rx_here r (last_char prev w) s \<Longrightarrow> rx_here (Many p # r) prev (w @ s)"
proof (induction w arbitrary: prev)
  case Nil
  then show ?case by (cases s) (simp_all add: last_char_def)
qed (auto simp: last_char_Cons)

lemma rx_here_complete: "spells r prev u rest \<Longrightarrow> rx_here r prev (u @ rest)"
proof (induction rule: spells.induct)
  case (Literal p ps r prev u rest)
  have "has_prefix ((p @ u) @ rest) p" "drop (length p) ((p @ u) @ rest) = u @ rest" by (simp_all add: has_prefix_iff)
  with Literal show ?case by (auto simp: list_ex_iff simp del: append_assoc intro!: bexI [of _ p])
qed (auto intro: rx_here_skip)

lemma rx_search_iff: "rx_search r prev s \<longleftrightarrow> (\<exists>a t. s = a @ t \<and> rx_here r (last_char prev a) t)"
proof (induction s arbitrary: prev)
  case (Cons c s)
  have "(\<exists>a t. c # s = a @ t \<and> rx_here r (last_char prev a) t) \<longleftrightarrow>
      rx_here r prev (c # s) \<or> (\<exists>a t. s = a @ t \<and> rx_here r (last_char prev (c # a)) t)"
  proof (safe, goal_cases)
    case (1 a t)
    then show ?case by (cases a) (auto simp: last_char_def)
  next
    case 2
    then show ?case by (intro exI [of _ "[]"] exI [of _ "c # s"]) (simp add: last_char_def)
  next
    case (3 a t)
    then show ?case by (intro exI [of _ "c # a"] exI [of _ t]) simp
  qed
  with Cons.IH [of "Some c"] show ?case by (simp add: last_char_Cons)
qed (simp add: last_char_def)

text \<open>The matcher decides whether some part of the text is one that the pattern describes.\<close>

lemma MatchString_iff: "MatchString r s \<longleftrightarrow> (\<exists>a u b. s = a @ u @ b \<and> spells r (last_char None a) u b)"
  unfolding MatchString_def rx_search_iff using rx_here_sound rx_here_complete by metis

lemma scan_hits:
  "scanDangerousPatterns code \<noteq> [] \<longleftrightarrow> (\<exists>p\<in>set scriptDangerSubstrings. \<exists>a b. to_lower code = a @ to_lower p @ b)
     \<or> (\<exists>(name, re)\<in>set scriptDangerRegexps. \<exists>a u b. code = a @ u @ b \<and> spells re (last_char None a) u b)"
proof (cases "code = []")
  case True
  have "\<forall>p\<in>set scriptDangerSubstrings. to_lower p \<noteq> []" by (simp add: scriptDangerSubstrings_def to_lower_def)
  moreover have "\<forall>(name, re)\<in>set scriptDangerRegexps. \<not> MatchString re []"
    by (simp add: scriptDangerRegexps_def MatchString_def rx_pipe_def rx_spaces_def rx_fold_def)
  ultimately show ?thesis using True by (auto simp: scanDangerousPatterns_def to_lower_def MatchString_iff)
next
  case False
  then show ?thesis by (auto simp: scanDangerousPatterns_def Let_def filter_empty_conv contains_iff MatchString_iff)
qed


text \<open>The capabilities as their files register them, and a deployment that has them.\<close>

definition assist_capability :: "string \<Rightarrow> string \<Rightarrow> int \<Rightarrow> string \<Rightarrow> promotion \<Rightarrow> capability" where
  "assist_capability name category stage task promotion = \<lparr>cb_Name = name, cb_Category = category, cb_Description = [], cb_Stage = stage,
     cb_RequiredCaps = \<lparr>cp_Streaming = False, cp_ToolCalling = False, cp_Embeddings = False, cp_JSONMode = True, cp_MaxContext = 0\<rparr>,
     cb_DependsOn = [], cb_DefaultRung = [], cb_DefaultScope = no_scope, cb_DefaultPromotion = promotion, cb_PreferredTaskType = task\<rparr>"

definition no_criteria :: promotion where
  "no_criteria = \<lparr>pm_PrecisionMin = 0, pm_FalsePositiveRateMax = 0, pm_LabelingRateMin = 0, pm_WeeksCleanRequired = 0, pm_MinSamples = 0\<rparr>"

definition script_gen_capability :: capability where
  "script_gen_capability = assist_capability scriptGenCapName ''assistance'' 2 ''generate'' no_criteria"

definition toy_assist_world :: ai_world where
  "toy_assist_world = toy_ai_world\<lparr>rw_redis := False\<rparr>"

definition toy_assist_ai :: "capability \<Rightarrow> ai_state" where
  "toy_assist_ai cap = toy_ai\<lparr>ai_caps := [(cb_Name cap, cap)],
     ai_tenants := [''t'' \<mapsto> \<lparr>at_enabled = 1, at_status = ''active'', at_chat_cap = 0, at_embed_cap = 0\<rparr>],
     ai_configs := (\<lambda>_. Some \<lparr>cc_enabled = 1, cc_rung = RungSuggest, cc_scope = None, cc_confidence = 0, cc_blast_max = 0, cc_blast_window = 5, cc_demoted_at = None\<rparr>),
     ai_routes := (\<lambda>_. Some \<lparr>rt_provider = ''p'', rt_model = ''m'', rt_max_cost = None, rt_in = None, rt_out = None\<rparr>)\<rparr>"

definition toy_assist_scope :: prompt_scope where
  "toy_assist_scope = \<lparr>ps_TenantID = ''t'', ps_CustomerID = []\<rparr>"

definition says :: "string \<Rightarrow> chat_response" where
  "says txt = \<lparr>ch_Content = txt, ch_PromptTokens = 0, ch_OutputTokens = 0, ch_ModelVersion = ''v'', ch_Synthetic = False, ch_SyntheticSource = []\<rparr>"

lemma toy_assist_gates:
  assumes "cap = assist_capability name cat stage task pr" and "name \<noteq> []"
  shows "\<exists>cfg snap prov. run_gates toy_assist_world (assist_input toy_assist_scope name tk est) (toy_assist_ai cap) = (Inr (cfg, snap, prov), toy_assist_ai cap)
    \<and> rc_modelName cfg = ''m''"
proof -
  define cfg where "cfg = (case loadRuntime toy_assist_world (assist_input toy_assist_scope name tk est) (toy_assist_ai cap) of Inr cfg \<Rightarrow> cfg)"
  have c: "\<exists>prov. run_checks toy_assist_world (assist_input toy_assist_scope name tk est) (toy_assist_ai cap) = Inr (cfg, cap, prov)"
    and f: "rc_rung cfg = RungSuggest" "rc_modelName cfg = ''m''"
    using assms(2) by (auto simp: cfg_def assms(1) run_checks_def SupportedDialect_def toy_assist_world_def toy_ai_world_def assist_input_def toy_assist_scope_def
      toy_assist_ai_def toy_ai_def assist_capability_def IsKilled_def loadRuntime_def task_type_def Lookup_def loadProvider_def Build_def
      providerSupports_def toy_caps_def CheckDependencies_def)
  have "ReserveCost toy_assist_world ''t'' k est (toy_assist_ai cap) = (Inr (), toy_assist_ai cap)" for k
    by (simp add: ReserveCost_def loadCap_def recordOnlyRedis_def toy_assist_world_def toy_ai_world_def toy_assist_ai_def split: cost_kind.splits)
  with c f show ?thesis
    by (auto simp: run_gates_def rung_defs) (auto simp: assist_input_def toy_assist_scope_def)
qed

lemma toy_asked:
  assumes "cap = assist_capability name cat stage task pr" and "name \<noteq> []" and "assembleUser b \<noteq> []" and "\<And>prov req. chat prov req = Chatted (says said)"
  shows "\<exists>s'. run_capturing toy_assist_world i (assist_input toy_assist_scope name tk est) (ask P chat b k finish payload unset) (toy_assist_ai cap)
    = (Inr (finish said), s')"
proof -
  obtain cfg snap prov where g: "run_gates toy_assist_world (assist_input toy_assist_scope name tk est) (toy_assist_ai cap) = (Inr (cfg, snap, prov), toy_assist_ai cap)"
    "rc_modelName cfg = ''m''" using toy_assist_gates [OF assms(1,2)] by blast
  have a: "ask P chat b k finish payload unset prov ''m'' = (Called (Some (says said)) None (payload said (finish said)) None, finish said)"
    using assms(3,4) by (auto simp: ask_def Render_def says_def)
  have "\<not> rw_down toy_assist_world Q_persist" by (simp add: toy_assist_world_def toy_ai_world_def)
  then show ?thesis
    by (simp add: run_capturing_def Run_def g a callSafely_def run_settle_def Let_def persistRun_def)
qed

text \<open>The model slips \<open>sudo\<close> into the code and claims that it is harmless.\<close>

definition sly_codec :: script_codec where
  "sly_codec = \<lparr>sc_decode = (\<lambda>code out. out\<lparr>so_Code := code, so_DangerScore := ''low''\<rparr>), sc_encode = so_Code\<rparr>"

definition toy_assist_env :: "string \<Rightarrow> assist_env" where
  "toy_assist_env txt = \<lparr>as_world = (\<lambda>_. toy_assist_world), as_run = (\<lambda>_. ''r1''), as_chat = (\<lambda>_ _. Chatted (says txt))\<rparr>"


text \<open>Spaces and the place in the line are enough to get past the scan.\<close>

lemma scan_misses:
  "scanDangerousPatterns ''rm  -rf /'' = []" "scanDangerousPatterns ''su - root'' = []"
  by code_simp+

end
