(* ===== verification/TicketAi.thy ===== *)
theory TicketAi
  imports Assist
begin

text \<open>
  What the AI layer does with tickets: the triage of a new one (\<open>ai/capabilities/ticketsummary.go\<close>), with the goroutine that
  stores it, and the choice of a technician (\<open>ai/capabilities/autoroute.go\<close>).

  Scores are computed in floating point: \<open>ro_round\<close> rounds an exact result to a 64-bit number, after every operation and for
  every constant. The sort of the standard library, which is not stable, is the parameter \<open>ro_sort\<close>.
\<close>

section \<open>Triage\<close>

record triage_out =
  tm_Summary :: string
  tm_Priority :: string
  tm_Tags :: "string list"
  tm_Hits :: "hit list"

record triage_codec =
  tm_decode :: "string \<Rightarrow> triage_out \<Rightarrow> triage_out"
  tm_encode :: "triage_out \<Rightarrow> string option"

definition ticketSummaryCapName :: string where "ticketSummaryCapName = ''ticket_summary''"

definition triage_rules :: string where
  "triage_rules = ''You are a ticket-triage assistant. Read the new ticket and produce strict JSON:'' @ nl
     @ ''{'' @ in_quotes ''summary'' @ '':'' @ in_quotes ''<one or two sentences>'' @ '','' @ in_quotes ''suggested_priority'' @ '':''
     @ in_quotes ''low|medium|high|critical'' @ '','' @ in_quotes ''suggested_tags'' @ '':['' @ in_quotes ''...'' @ '']}'' @ nl @ nl
     @ ''Use a higher priority for: business-impacting outages, security incidents, multiple users affected, executive-tier devices. Use a lower priority for: cosmetic, single-user inconvenience, training questions.''"

text \<open>The closure's treatment of the answer, which is decoded over the hits.\<close>

definition clamp_triage :: "(string \<Rightarrow> triage_out \<Rightarrow> triage_out) \<Rightarrow> hit list \<Rightarrow> string \<Rightarrow> triage_out" where
  "clamp_triage decode hits content =
     (let out = decode content \<lparr>tm_Summary = [], tm_Priority = [], tm_Tags = [], tm_Hits = hits\<rparr>;
          out = (if tm_Priority out \<in> set [''low'', ''medium'', ''high'', ''critical''] then out else out\<lparr>tm_Priority := ''medium''\<rparr>)
      in out\<lparr>tm_Summary := SanitizeFreeText (tm_Summary out), tm_Tags := map SanitizeFreeText (tm_Tags out)\<rparr>)"

fun add_hits :: "prompt_scope \<Rightarrow> hit list \<Rightarrow> builder \<Rightarrow> builder option" where
  "add_hits scope [] b = Some b"
| "add_hits scope (h # hs) b =
     (case RAGSnippet (ps_TenantID scope) (ps_CustomerID scope) (ht_kind h) (ht_source h) (''(closed-ticket reference: id='' @ ht_source h @ '')'') b of
        None \<Rightarrow> None
      | Some b \<Rightarrow> add_hits scope hs b)"

text \<open>An error of the retrieval leaves no hits. \<open>Assist_panic\<close> is a panic, of which the goroutine takes care.\<close>

definition SummariseTicket ::
  "assist_env \<Rightarrow> rag_env \<Rightarrow> triage_codec \<Rightarrow> prompt_scope \<Rightarrow> string \<Rightarrow> string \<Rightarrow> string \<Rightarrow> rag_state \<Rightarrow> (assist_error, triage_out) result \<times> rag_state" where
  "SummariseTicket e r C scope ticketID title body s =
     (if ps_TenantID scope = [] then (Inl Assist_tenant, s)
      else if title = [] \<and> body = [] then (Inl Assist_empty, s)
      else
      (case Retrieve r scope SourceTicket (title @ nl @ body) 3 s of (found, s) \<Rightarrow>
       let hits = (case found of Inl _ \<Rightarrow> [] | Inr hs \<Rightarrow> hs) in
       (case new_builder scope of
          None \<Rightarrow> (Inl Assist_panic, s)
        | Some b \<Rightarrow>
          (case add_hits scope hits (UntrustedInput ''ticket_body'' body (UntrustedInput ''ticket_title'' title (SystemRules triage_rules b))) of
             None \<Rightarrow> (Inl Assist_panic, s)
           | Some b \<Rightarrow>
             (case run_capturing (as_world e 0) (as_run e 0) (assist_input scope ticketSummaryCapName ticketID 2500)
                (ask (rw_prims (as_world e 0)) (as_chat e) b 512 (clamp_triage (tm_decode C) hits) (\<lambda>_ out. text_of (tm_encode C out))
                  \<lparr>tm_Summary = [], tm_Priority = [], tm_Tags = [], tm_Hits = hits\<rparr>) (rg_ai s) of
                (Inl er, ai) \<Rightarrow> (Inl (Assist_run er), s\<lparr>rg_ai := ai\<rparr>)
              | (Inr out, ai) \<Rightarrow> (Inr out, s\<lparr>rg_ai := ai\<rparr>))))))"

text \<open>The goroutine of \<open>POST /tickets\<close>; \<open>ok\<close> says that its statement succeeds.\<close>

definition triage_goroutine ::
  "assist_env \<Rightarrow> rag_env \<Rightarrow> triage_codec \<Rightarrow> ticket_env \<Rightarrow> string \<Rightarrow> string \<Rightarrow> string \<Rightarrow> string \<Rightarrow> ticket_state \<times> rag_state \<Rightarrow> ticket_state \<times> rag_state" where
  "triage_goroutine e r C te tenantID ticketID title body st =
     (case SummariseTicket e r C \<lparr>ps_TenantID = tenantID, ps_CustomerID = []\<rparr> ticketID title body (snd st) of
        (Inl _, s) \<Rightarrow> (fst st, s)
      | (Inr out, s) \<Rightarrow> (store_triage te tenantID ticketID (text_of (tm_encode C out)) (fst st), s))"

section \<open>Routing\<close>

record tech_row =
  tr_id :: string
  tr_tenant :: string
  tr_role :: string
  tr_name :: "string option"
  tr_email :: string
  tr_skills :: "string option"
  tr_weight :: "int option"

record routed_ticket = ticket_row +
  tik_customer :: "string option"
  tik_route :: "string option"

record route_candidate =
  rk_UserID :: string
  rk_Name :: string
  rk_Score :: rat
  rk_OpenLoad :: nat
  rk_CustomerWins30 :: nat
  rk_SkillMatches :: nat

record route_result =
  rz_TechUserID :: string
  rz_Reason :: string
  rz_Confidence :: rat
  rz_Alternates :: "route_candidate list"
  rz_Method :: string

record route_pick =
  rp_UserID :: string
  rp_Reason :: string

text \<open>\<open>None\<close> for the users is a query that fails; a count that fails is 0.\<close>

record route_env =
  ro_assist :: assist_env
  ro_now :: int
  ro_round :: "rat \<Rightarrow> rat"
  ro_sort :: "route_candidate list \<Rightarrow> route_candidate list"
  ro_users :: "tech_row list option"
  ro_tickets :: "routed_ticket list"
  ro_load_ok :: "string \<Rightarrow> bool"
  ro_wins_ok :: "string \<Rightarrow> bool"
  ro_pick :: "string \<Rightarrow> route_pick \<Rightarrow> route_pick"
  ro_pick_json :: "route_pick \<Rightarrow> bool \<Rightarrow> string \<Rightarrow> string"
  ro_json :: "route_result \<Rightarrow> string option"

definition autoRouteCapName :: string where "autoRouteCapName = ''auto_route''"

definition auto_route_capability :: capability where
  "auto_route_capability = assist_capability autoRouteCapName ''action'' 4 ''classify''
     \<lparr>pm_PrecisionMin = 9 / 10, pm_FalsePositiveRateMax = 5 / 100, pm_LabelingRateMin = 3 / 10, pm_WeeksCleanRequired = 4, pm_MinSamples = 100\<rparr>"

definition ticket_summary_capability :: capability where
  "ticket_summary_capability = assist_capability ticketSummaryCapName ''assistance'' 2 ''summarize'' no_criteria"

definition computeScore :: "(rat \<Rightarrow> rat) \<Rightarrow> nat \<Rightarrow> nat \<Rightarrow> nat \<Rightarrow> int \<Rightarrow> rat" where
  "computeScore R load wins skills weight =
     (let loadInv = R (1 / R (1 + R (of_nat load)));
          affinity = (let a = R (R (of_nat wins) / 10) in if a > 1 then 1 else a);
          skill = (let k = R (R (of_nat skills) / 5) in if k > 1 then 1 else k);
          score = R (R (R (R (4 / 10) * loadInv) + R (R (4 / 10) * affinity)) + R (R (2 / 10) * skill))
      in R (score * R (R (of_int weight) / 100)))"

definition final_status :: "string \<Rightarrow> bool" where
  "final_status st = (st \<in> {''resolved'', ''closed''})"

definition routable :: "string \<Rightarrow> tech_row \<Rightarrow> bool" where
  "routable tenantID u = (tr_tenant u = tenantID \<and> tr_role u \<in> {''admin'', ''user''} \<and> (case tr_weight u of None \<Rightarrow> 100 | Some w \<Rightarrow> w) > 0)"

definition candidate_of :: "route_env \<Rightarrow> prompt_scope \<Rightarrow> string \<Rightarrow> string \<Rightarrow> tech_row \<Rightarrow> route_candidate" where
  "candidate_of e scope title body u =
     (let mine = filter (\<lambda>t. tik_tenant t = ps_TenantID scope \<and> tik_assigned t = Some (tr_id u)) (ro_tickets e);
          load = (if ro_load_ok e (tr_id u) then length (filter (\<lambda>t. \<not> final_status (tik_status t)) mine) else 0);
          wins = (if ps_CustomerID scope \<noteq> [] \<and> ro_wins_ok e (tr_id u)
            then length (filter (\<lambda>t. tik_customer t = Some (ps_CustomerID scope) \<and> final_status (tik_status t) \<and> tik_updated t \<ge> ro_now e - 30 * 86400) mine) else 0);
          titleBody = to_lower (title @ '' '' @ body);
          skills = length (filter (\<lambda>t. t \<noteq> [] \<and> contains titleBody t) (map (\<lambda>t. trim_space (to_lower t)) (split_on CHR '','' (text_of (tr_skills u)))))
      in \<lparr>rk_UserID = tr_id u, rk_Name = (case tr_name u of Some n \<Rightarrow> n | None \<Rightarrow> tr_email u),
          rk_Score = computeScore (ro_round e) load wins skills (case tr_weight u of None \<Rightarrow> 100 | Some w \<Rightarrow> w),
          rk_OpenLoad = load, rk_CustomerWins30 = wins, rk_SkillMatches = skills\<rparr>)"

definition scoreCandidates :: "route_env \<Rightarrow> prompt_scope \<Rightarrow> string \<Rightarrow> string \<Rightarrow> route_candidate list option" where
  "scoreCandidates e scope title body = map_option (\<lambda>us. map (candidate_of e scope title body) (filter (routable (ps_TenantID scope)) us)) (ro_users e)"

text \<open>Here \<open>a\<close> is at least \<open>b\<close>, which is not 0, so the quotient is defined.\<close>

definition needsTiebreaker :: "(rat \<Rightarrow> rat) \<Rightarrow> route_candidate list \<Rightarrow> bool" where
  "needsTiebreaker R cands = (case cands of
       ca # cb # _ \<Rightarrow> let a = rk_Score ca; b = rk_Score cb in
         if a \<ge> R (8 / 10) then False else if b = 0 then False else R (R (a - b) / a) < R (1 / 10)
     | _ \<Rightarrow> False)"

definition formatReason :: "route_candidate \<Rightarrow> string" where
  "formatReason c = str_join ''; '' ([rk_Name c @ '' has open_load='' @ itoa (int (rk_OpenLoad c))]
     @ (if rk_CustomerWins30 c > 0 then [''recently resolved '' @ itoa (int (rk_CustomerWins30 c)) @ '' tickets for this customer''] else [])
     @ (if rk_SkillMatches c > 0 then [''matched '' @ itoa (int (rk_SkillMatches c)) @ '' skill tag(s)''] else []))"

definition candidate_line :: "string \<Rightarrow> route_candidate \<Rightarrow> string" where
  "candidate_line label c = ''candidate '' @ label @ '': id='' @ rk_UserID c @ '' name='' @ quoted (rk_Name c) @ '' open_load='' @ itoa (int (rk_OpenLoad c))
     @ '' customer_wins_30d='' @ itoa (int (rk_CustomerWins30 c)) @ '' skill_matches='' @ itoa (int (rk_SkillMatches c))"

definition tiebreak_rules :: string where
  "tiebreak_rules = ''Pick the better tech for this ticket. Strict JSON output:'' @ nl @ ''{'' @ in_quotes ''user_id'' @ '':'' @ in_quotes ''<one-of-the-two-ids>''
     @ '','' @ in_quotes ''reason'' @ '':'' @ in_quotes ''<one-sentence>'' @ ''}.'' @ nl @ nl @ ''Only the two listed candidates are valid choices.''"

definition valid_pick :: "route_candidate \<Rightarrow> route_candidate \<Rightarrow> route_pick \<Rightarrow> bool" where
  "valid_pick a b p = (rp_UserID p = rk_UserID a \<or> rp_UserID p = rk_UserID b)"

definition check_pick :: "(string \<Rightarrow> route_pick \<Rightarrow> route_pick) \<Rightarrow> route_candidate \<Rightarrow> route_candidate \<Rightarrow> string \<Rightarrow> route_pick" where
  "check_pick decode a b content =
     (let p = decode content \<lparr>rp_UserID = [], rp_Reason = []\<rparr> in
      if valid_pick a b p then p else \<lparr>rp_UserID = [], rp_Reason = ''model picked an invalid id; falling back to deterministic''\<rparr>)"

definition llmTiebreaker ::
  "route_env \<Rightarrow> prompt_scope \<Rightarrow> string \<Rightarrow> string \<Rightarrow> string \<Rightarrow> route_candidate \<Rightarrow> route_candidate \<Rightarrow> ai_state \<Rightarrow> (assist_error, string \<times> string) result \<times> ai_state" where
  "llmTiebreaker e scope ticketID title body a b s =
     (case new_builder scope of
        None \<Rightarrow> (Inl Assist_panic, s)
      | Some pb \<Rightarrow>
        let pb = UntrustedInput ''ticket_body'' body (UntrustedInput ''ticket_title'' title
              (TrustedContext (candidate_line ''B'' b) (TrustedContext (candidate_line ''A'' a) (SystemRules tiebreak_rules pb))));
            A = ro_assist e in
        (case run_capturing (as_world A 0) (as_run A 0) (assist_input scope autoRouteCapName ticketID 1500)
            (ask (rw_prims (as_world A 0)) (as_chat A) pb 256 (check_pick (ro_pick e) a b)
              (\<lambda>content p. ro_pick_json e p (valid_pick a b (ro_pick e content \<lparr>rp_UserID = [], rp_Reason = []\<rparr>)) content) \<lparr>rp_UserID = [], rp_Reason = []\<rparr>) s of
           (Inl er, s') \<Rightarrow> (Inl (Assist_run er), s')
         | (Inr p, s') \<Rightarrow> (Inr (rp_UserID p, SanitizeFreeText (rp_Reason p)), s')))"

text \<open>The run that only leaves a row in the audit table.\<close>

definition audit_run :: "route_env \<Rightarrow> prompt_scope \<Rightarrow> string \<Rightarrow> route_result \<Rightarrow> string \<Rightarrow> ai_state \<Rightarrow> ai_state" where
  "audit_run e scope ticketID res source s =
     (let A = ro_assist e; payload = text_of (ro_json e res) in
      snd (Run (as_world A 1) (as_run A 1) (assist_input scope autoRouteCapName ticketID 0)
        (\<lambda>_ _. Called (Some \<lparr>ch_Content = payload, ch_PromptTokens = 0, ch_OutputTokens = 0, ch_ModelVersion = ''local'', ch_Synthetic = True,
           ch_SyntheticSource = source\<rparr>) None payload None) s))"

definition no_route :: "string \<Rightarrow> route_result" where
  "no_route reason = \<lparr>rz_TechUserID = [], rz_Reason = reason, rz_Confidence = 0, rz_Alternates = [], rz_Method = []\<rparr>"

definition top_route :: "route_candidate list \<Rightarrow> route_result" where
  "top_route cands = (let top = hd cands in
     \<lparr>rz_TechUserID = rk_UserID top, rz_Reason = formatReason top, rz_Confidence = rk_Score top, rz_Alternates = take 3 (tl cands), rz_Method = ''deterministic''\<rparr>)"

text \<open>What the tie-break makes of the result; an error or an invalid choice leaves it as it is.\<close>

definition after_tiebreak :: "route_candidate list \<Rightarrow> (assist_error, string \<times> string) result \<Rightarrow> route_result \<Rightarrow> route_result" where
  "after_tiebreak cands picked res = (case picked of
       Inl _ \<Rightarrow> res
     | Inr (pick, reason) \<Rightarrow>
       if pick = [] then res
       else let res = res\<lparr>rz_Method := ''llm_tiebreaker''\<rparr> in
         if pick = rk_UserID (cands ! 0) \<or> pick = rk_UserID (cands ! 1) then res\<lparr>rz_TechUserID := pick, rz_Reason := reason\<rparr> else res)"

definition Route ::
  "route_env \<Rightarrow> prompt_scope \<Rightarrow> string \<Rightarrow> string \<Rightarrow> string \<Rightarrow> ai_state \<Rightarrow> (assist_error, route_result) result \<times> ai_state" where
  "Route e scope ticketID title body s =
     (if ps_TenantID scope = [] then (Inl Assist_tenant, s)
      else (case scoreCandidates e scope title body of
          None \<Rightarrow> (Inl Assist_users, s)
        | Some [] \<Rightarrow> (Inr (no_route ''no candidate techs''),
            audit_run e scope ticketID (no_route ''no candidate techs in tenant'') ''auto_route_no_candidates'' s)
        | Some cands \<Rightarrow>
          let cands = ro_sort e cands;
              (res, s) = (if needsTiebreaker (ro_round e) cands
                then (case llmTiebreaker e scope ticketID title body (cands ! 0) (cands ! 1) s of (picked, s') \<Rightarrow> (after_tiebreak cands picked (top_route cands), s'))
                else (top_route cands, s))
          in (Inr res, audit_run e scope ticketID res (''auto_route_'' @ rz_Method res) s)))"

definition aiAssistRoute ::
  "route_env \<Rightarrow> locals \<Rightarrow> string \<Rightarrow> (string \<times> string \<times> string \<times> string) option \<Rightarrow> ai_state \<Rightarrow> (nat, route_result) result \<times> ai_state" where
  "aiAssistRoute e c q body s =
     (case body of
        None \<Rightarrow> (Inl 400, s)
      | Some (ticketID, customerID, title, descr) \<Rightarrow>
        if ticketID = [] \<or> title = [] then (Inl 400, s)
        else (case Route e \<lparr>ps_TenantID = targetTenant c q, ps_CustomerID = customerID\<rparr> ticketID title descr s of
            (Inl er, s') \<Rightarrow> (Inl (assist_status er), s')
          | (Inr out, s') \<Rightarrow> (Inr out, s')))"

text \<open>Nothing in the server calls this operation.\<close>

definition SaveRouteToTicket :: "route_env \<Rightarrow> bool \<Rightarrow> string \<Rightarrow> string \<Rightarrow> route_result \<Rightarrow> routed_ticket list \<Rightarrow> bool \<times> routed_ticket list" where
  "SaveRouteToTicket e ok tenantID ticketID res rows = (case ro_json e res of
       None \<Rightarrow> (False, rows)
     | Some payload \<Rightarrow> if \<not> ok then (False, rows)
         else (True, map (\<lambda>t. if tik_id t = ticketID \<and> tik_tenant t = tenantID then t\<lparr>tik_route := Some payload\<rparr> else t) rows))"

section \<open>What the triage yields\<close>

lemma add_hits_ok: "bd_scope b = scope \<Longrightarrow> \<exists>b'. add_hits scope hs b = Some b'"
  by (induction hs arbitrary: b) (auto simp: RAGSnippet_def split: option.split)

text \<open>Whatever retrieval finds and the model answers, a triage that was started with a tenant does not panic outside of the chokepoint.\<close>

lemma triage_never_panics: "fst (SummariseTicket e r C scope ticketID title body s) \<noteq> Inl Assist_panic"
proof (cases "new_builder scope")
  case None
  then show ?thesis by (simp add: new_builder_def SummariseTicket_def split: if_splits)
next
  case (Some b)
  have "\<exists>b'. add_hits scope hs (UntrustedInput ''ticket_body'' body (UntrustedInput ''ticket_title'' title (SystemRules triage_rules b))) = Some b'" for hs
    by (rule add_hits_ok) (use Some in \<open>auto simp: new_builder_def UntrustedInput_def SystemRules_def split: if_splits\<close>)
  then obtain g where "add_hits scope hs (UntrustedInput ''ticket_body'' body (UntrustedInput ''ticket_title'' title (SystemRules triage_rules b))) = Some (g hs)" for hs
    by metis
  with Some show ?thesis by (auto simp: SummariseTicket_def Let_def split: prod.splits sum.splits option.splits)
qed

lemma clamp_triage_clean:
  "tm_Priority (clamp_triage decode hits content) \<in> set allowedTicketPriorities"
  "no_controls (tm_Summary (clamp_triage decode hits content))" "list_all no_controls (tm_Tags (clamp_triage decode hits content))"
  by (auto simp: clamp_triage_def Let_def allowedTicketPriorities_def list_all_iff)

lemma triage_asked:
  assumes "SummariseTicket e r C scope ticketID title body s = (Inr out, s')"
  shows "\<exists>hits content. out = clamp_triage (tm_decode C) hits content"
  using assms by (auto simp: SummariseTicket_def Let_def split: if_splits prod.splits sum.splits option.splits dest!: asked)

text \<open>A triage suggests a priority that tickets may have, and its text holds no control characters.\<close>

lemma triage_clean:
  assumes "SummariseTicket e r C scope ticketID title body s = (Inr out, s')"
  shows "tm_Priority out \<in> set allowedTicketPriorities \<and> no_controls (tm_Summary out) \<and> list_all no_controls (tm_Tags out)"
  using triage_asked [OF assms] clamp_triage_clean by blast

text \<open>
  The answer is decoded over the hits of the retrieval, so a model that names related tickets replaces what was retrieved by
  whatever it says.
\<close>

lemma model_forges_hits:
  assumes "tm_Hits (decode content \<lparr>tm_Summary = [], tm_Priority = [], tm_Tags = [], tm_Hits = hits\<rparr>) = forged"
  shows "tm_Hits (clamp_triage decode hits content) = forged"
  using assms by (simp add: clamp_triage_def Let_def)

section \<open>Whom a ticket is routed to\<close>

text \<open>What the standard library promises of the sort.\<close>

definition sorts_down :: "(route_candidate list \<Rightarrow> route_candidate list) \<Rightarrow> bool" where
  "sorts_down srt \<longleftrightarrow> (\<forall>cs. mset (srt cs) = mset cs \<and> sorted_wrt (\<lambda>a b. rk_Score b \<le> rk_Score a) (srt cs))"

lemma sorted_cands:
  assumes "sorts_down srt" and "cs \<noteq> []"
  obtains top rest where "srt cs = top # rest" "set cs = insert top (set rest)" "\<forall>c\<in>set cs. rk_Score c \<le> rk_Score top"
proof -
  have m: "mset (srt cs) = mset cs" and w: "sorted_wrt (\<lambda>a b. rk_Score b \<le> rk_Score a) (srt cs)" using assms(1) by (simp_all add: sorts_down_def)
  obtain top rest where t: "srt cs = top # rest" using m assms(2) by (cases "srt cs") auto
  moreover have s: "set cs = insert top (set rest)" using m t by (metis list.simps(15) set_mset_mset)
  moreover have "\<forall>c\<in>set cs. rk_Score c \<le> rk_Score top" using w t s by auto
  ultimately show thesis by (rule that)
qed

lemma tiebreak_pick:
  assumes "llmTiebreaker e scope ticketID title body a b s = (Inr (pick, reason), s')"
  shows "pick \<in> {[], rk_UserID a, rk_UserID b} \<and> run_admitted (as_world (ro_assist e) 0) (assist_input scope autoRouteCapName ticketID 1500) s"
  using assms
  by (auto simp: llmTiebreaker_def check_pick_def valid_pick_def Let_def split: option.splits sum.splits prod.splits if_splits dest!: asked)

text \<open>The result for a sorted list of candidates.\<close>

lemma routed:
  assumes "Route e scope ticketID title body s = (Inr res, s')" and "scoreCandidates e scope title body = Some (c # cs)"
  shows "res = top_route (ro_sort e (c # cs)) \<or> needsTiebreaker (ro_round e) (ro_sort e (c # cs))
    \<and> (\<exists>pick reason s1. llmTiebreaker e scope ticketID title body (ro_sort e (c # cs) ! 0) (ro_sort e (c # cs) ! 1) s = (Inr (pick, reason), s1) \<and> pick \<noteq> []
        \<and> res = top_route (ro_sort e (c # cs))\<lparr>rz_Method := ''llm_tiebreaker'', rz_TechUserID := pick, rz_Reason := reason\<rparr>)"
proof (cases "needsTiebreaker (ro_round e) (ro_sort e (c # cs))")
  case False
  with assms show ?thesis by (auto simp: Route_def Let_def split: if_splits)
next
  case True
  obtain picked s1 where p: "llmTiebreaker e scope ticketID title body (ro_sort e (c # cs) ! 0) (ro_sort e (c # cs) ! 1) s = (picked, s1)"
    by (cases "llmTiebreaker e scope ticketID title body (ro_sort e (c # cs) ! 0) (ro_sort e (c # cs) ! 1) s") auto
  have res: "res = after_tiebreak (ro_sort e (c # cs)) picked (top_route (ro_sort e (c # cs)))"
    using assms True p by (auto simp: Route_def Let_def split: if_splits)
  show ?thesis
  proof (cases picked)
    case (Inr pr)
    then obtain pick reason where pr: "picked = Inr (pick, reason)" by (cases pr) auto
    from tiebreak_pick [OF p [unfolded pr]] res True p pr show ?thesis
      by (cases "pick = []") (auto simp: after_tiebreak_def Let_def)
  qed (use res in \<open>simp add: after_tiebreak_def\<close>)
qed

lemma cands_of:
  assumes "scoreCandidates e scope title body = Some cs"
  shows "\<exists>us. ro_users e = Some us \<and> (\<forall>c\<in>set cs. \<exists>u\<in>set us. tr_id u = rk_UserID c \<and> routable (ps_TenantID scope) u)"
  using assms by (fastforce simp: scoreCandidates_def candidate_of_def Let_def)


text \<open>Two technicians without tickets, the second with a little less weight, and a model that prefers this one.\<close>

definition toy_tech :: "string \<Rightarrow> string \<Rightarrow> int \<Rightarrow> tech_row" where
  "toy_tech i T weight = \<lparr>tr_id = i, tr_tenant = T, tr_role = ''user'', tr_name = None, tr_email = i, tr_skills = None, tr_weight = Some weight\<rparr>"

definition toy_route_env :: route_env where
  "toy_route_env = \<lparr>ro_assist = toy_assist_env ''u2'', ro_now = 0, ro_round = (\<lambda>x. x), ro_sort = sort_key (\<lambda>c. - rk_Score c),
     ro_users = Some [toy_tech ''u0'' ''v'' 100, toy_tech ''u1'' ''t'' 100, toy_tech ''u2'' ''t'' 95], ro_tickets = [], ro_load_ok = (\<lambda>_. True), ro_wins_ok = (\<lambda>_. True),
     ro_pick = (\<lambda>content p. p\<lparr>rp_UserID := content\<rparr>), ro_pick_json = (\<lambda>_ _ c. c), ro_json = (\<lambda>_. Some [])\<rparr>"

definition toy_candidate :: "string \<Rightarrow> rat \<Rightarrow> route_candidate" where
  "toy_candidate i score = \<lparr>rk_UserID = i, rk_Name = i, rk_Score = score, rk_OpenLoad = 0, rk_CustomerWins30 = 0, rk_SkillMatches = 0\<rparr>"

lemma toy_candidates: "scoreCandidates toy_route_env toy_assist_scope title body = Some [toy_candidate ''u1'' (2 / 5), toy_candidate ''u2'' (19 / 50)]"
  by (simp add: scoreCandidates_def toy_route_env_def toy_assist_scope_def routable_def toy_tech_def candidate_of_def toy_candidate_def computeScore_def text_of_def Let_def)
    (simp add: trim_space_def to_lower_def)

lemma toy_tiebreak:
  "\<exists>s'. llmTiebreaker toy_route_env toy_assist_scope ''k'' ''title'' [] (toy_candidate ''u1'' (2 / 5)) (toy_candidate ''u2'' (19 / 50)) (toy_assist_ai auto_route_capability) = (Inr (''u2'', []), s')"
proof -
  define b where "b = UntrustedInput ''ticket_body'' [] (UntrustedInput ''ticket_title'' ''title''
      (TrustedContext (candidate_line ''B'' (toy_candidate ''u2'' (19 / 50))) (TrustedContext (candidate_line ''A'' (toy_candidate ''u1'' (2 / 5))) (SystemRules tiebreak_rules
    \<lparr>bd_scope = toy_assist_scope, bd_system = [], bd_trusted = [], bd_untrust = [], bd_rag = [], bd_tools = [], bd_scheme = []\<rparr>))))"
  have "SanitizeFreeText ''title'' = ''title''" by code_simp
  then have u: "bd_untrust b = [(''ticket_title'', ''title'')]" "bd_rag b = []"
    unfolding b_def by (simp_all add: UntrustedInput_def TrustedContext_def SystemRules_def)
  have "assembleUser b \<noteq> []" unfolding assembleUser_def u by code_simp
  from toy_asked [OF auto_route_capability_def _ this, where chat = "\<lambda>_ _. Chatted (says ''u2'')" and said = "''u2''" and i = "''r1''" and tk = "''k''"
      and est = 1500 and P = "rw_prims toy_assist_world" and k = 256 and finish = "check_pick (ro_pick toy_route_env) (toy_candidate ''u1'' (2 / 5)) (toy_candidate ''u2'' (19 / 50))"
      and payload = "\<lambda>content p. ro_pick_json toy_route_env p (valid_pick (toy_candidate ''u1'' (2 / 5)) (toy_candidate ''u2'' (19 / 50)) (ro_pick toy_route_env content \<lparr>rp_UserID = [], rp_Reason = []\<rparr>)) content"
      and unset = "\<lparr>rp_UserID = [], rp_Reason = []\<rparr>"]
  obtain s' where "run_capturing toy_assist_world ''r1'' (assist_input toy_assist_scope autoRouteCapName ''k'' 1500)
      (ask (rw_prims toy_assist_world) (\<lambda>_ _. Chatted (says ''u2'')) b 256 (check_pick (ro_pick toy_route_env) (toy_candidate ''u1'' (2 / 5)) (toy_candidate ''u2'' (19 / 50)))
        (\<lambda>content p. ro_pick_json toy_route_env p (valid_pick (toy_candidate ''u1'' (2 / 5)) (toy_candidate ''u2'' (19 / 50)) (ro_pick toy_route_env content \<lparr>rp_UserID = [], rp_Reason = []\<rparr>)) content)
        \<lparr>rp_UserID = [], rp_Reason = []\<rparr>) (toy_assist_ai auto_route_capability)
      = (Inr (check_pick (ro_pick toy_route_env) (toy_candidate ''u1'' (2 / 5)) (toy_candidate ''u2'' (19 / 50)) ''u2''), s')"
    by (auto simp: autoRouteCapName_def)
  moreover have "new_builder toy_assist_scope = Some \<lparr>bd_scope = toy_assist_scope, bd_system = [], bd_trusted = [], bd_untrust = [], bd_rag = [], bd_tools = [], bd_scheme = []\<rparr>"
    by (simp add: new_builder_def toy_assist_scope_def)
  moreover have "check_pick (ro_pick toy_route_env) (toy_candidate ''u1'' (2 / 5)) (toy_candidate ''u2'' (19 / 50)) ''u2'' = \<lparr>rp_UserID = ''u2'', rp_Reason = []\<rparr>"
    by (simp add: check_pick_def toy_route_env_def valid_pick_def toy_candidate_def)
  moreover have "as_world (ro_assist toy_route_env) 0 = toy_assist_world" "as_run (ro_assist toy_route_env) 0 = ''r1''"
    "as_chat (ro_assist toy_route_env) = (\<lambda>_ _. Chatted (says ''u2''))" by (simp_all add: toy_route_env_def toy_assist_env_def)
  moreover have "SanitizeFreeText [] = []" by code_simp
  ultimately show ?thesis by (simp add: llmTiebreaker_def Let_def flip: b_def)
qed

text \<open>
  The alternates are taken before the tie-break: if the model prefers the second, it is named as its own alternate, and the
  first one is not offered at all.
\<close>

lemma picked_is_alternate:
  "\<exists>res s'. Route toy_route_env toy_assist_scope ''k'' ''title'' [] (toy_assist_ai auto_route_capability) = (Inr res, s')
     \<and> rz_TechUserID res = ''u2'' \<and> map rk_UserID (rz_Alternates res) = [''u2'']"
proof -
  obtain s' where "llmTiebreaker toy_route_env toy_assist_scope ''k'' ''title'' [] (toy_candidate ''u1'' (2 / 5)) (toy_candidate ''u2'' (19 / 50)) (toy_assist_ai auto_route_capability)
      = (Inr (''u2'', []), s')" using toy_tiebreak by blast
  moreover have "ro_sort toy_route_env [toy_candidate ''u1'' (2 / 5), toy_candidate ''u2'' (19 / 50)] = [toy_candidate ''u1'' (2 / 5), toy_candidate ''u2'' (19 / 50)]"
    by (simp add: toy_route_env_def toy_candidate_def)
  moreover have "needsTiebreaker (ro_round toy_route_env) [toy_candidate ''u1'' (2 / 5), toy_candidate ''u2'' (19 / 50)]"
    by (simp add: toy_route_env_def needsTiebreaker_def toy_candidate_def)
  moreover have "ps_TenantID toy_assist_scope \<noteq> []" by (simp add: toy_assist_scope_def)
  ultimately show ?thesis
    by (simp add: Route_def toy_candidates after_tiebreak_def top_route_def) (simp add: toy_candidate_def)
qed


text \<open>A weight above 100 takes the score, and the confidence that is reported, above 1.\<close>

lemma confidence_above_one: "computeScore (\<lambda>x. x) 0 10 5 200 = 2"
  by (simp add: computeScore_def)

end
