(* ===== verification/Spec2Isabelle.thy ===== *)
theory Spec2Isabelle
  imports AuditProps Limiter Sessions KillSwitch Orchestrator DeviceDedup Alerts Onboarding AiAdminProps Portal Oidc TicketAi
begin

text \<open>
  VaporwareRMM is a remote monitoring and management server for many tenants: administrators and customers' portal users
  sign in to a Go server, agents on the managed machines register with it, send heartbeats, poll for commands and post
  their results, and an AI layer classifies, groups and remediates alerts. This development models the parts of
  \<open>packages/server\<close> and \<open>packages/agent\<close> that decide who may do what, what the audit trail
  proves, what reaches a machine and what the AI layer may do on its own. Paths below are relative to
  \<open>packages/server/internal\<close> unless they start with \<open>packages\<close>.

  \<^bold>\<open>How the parts interact.\<close> A request passes the cross-site check, the rate limiter and one of three
  authentication middlewares, which consult the session tables, the token cache, Redis and the tenant gate; then a handler
  reads and writes tables and appends to the tenant's audit chain. Registration issues the tokens that the agent middleware
  accepts. Handlers and playbooks queue rows in \<open>device_commands\<close>, which agents poll. Every AI capability
  goes through one chokepoint, \<open>ai.Run\<close>, which checks kill switches, tenant and capability configuration
  and cost caps before it calls a provider, and signs a row of \<open>ai_runs\<close>; remediation adds a severity gate,
  the blast radius and a probe that checks the effect later and rolls back.

  \<^bold>\<open>The theories.\<close>

  \<^item> \<open>Prelude\<close>: results, Go's strings as byte lists and the functions of \<open>strings\<close>,
  \<open>strconv\<close> and \<open>fmt\<close> that the code uses, decimal printing and its injectivity, JSON values,
  64-bit wrap-around, tables as lists.
  \<^item> \<open>Crypto\<close> (\<open>crypto/crypto.go\<close>): keys from the environment, encryption of stored secrets,
  HMAC signatures. The ciphers are fields of a record of primitives.
  \<^item> \<open>AuditChain\<close>, \<open>AuditRetention\<close>, \<open>AuditProps\<close> (\<open>events/audit_chain.go\<close>,
  \<open>events/events.go\<close>): canonical payload, chained writers, the verifier, compaction by retention and backfill.
  The properties say that writers, compaction and backfill keep the chain verifiable, that changing or deleting rows is
  noticed, and where that promise ends.
  \<^item> \<open>Http\<close>, \<open>Jwt\<close>, \<open>TenantGate\<close>, \<open>AgentTokens\<close>,
  \<open>AuthMiddleware\<close> (\<open>auth/auth.go\<close>, \<open>redis/redis.go\<close>): requests, role gates and the
  cross-site check; the four kinds of signed tokens; suspension with its grace period; agent tokens with their cache, proof
  of possession and the one-time bypass; the admin, portal and agent middlewares. The properties are round trips of tokens,
  disjoint scopes, the window in which a replaced token is accepted, and that a handler runs only behind its checks.
  \<^item> \<open>Limiter\<close> (\<open>auth/auth.go\<close>, \<open>redis/redis.go\<close>, \<open>events/events.go\<close>):
  the request limiter in memory and in Redis, the limiters per address and of conflict webhooks, with the sharp bound of one
  and the unbounded refusal of the other.
  \<^item> \<open>Sessions\<close> (\<open>handlers/auth.go\<close>, \<open>handlers/totp.go\<close>,
  \<open>handlers/tenants.go\<close>): login with throttling and second factors, logout, password reset and change, second
  factor setup, impersonation.
  \<^item> \<open>Registration\<close> (\<open>handlers/agent.go\<close>): registration with proof of possession and the token
  it issues, heartbeats with their sanitised numbers.
  \<^item> \<open>Commands\<close> (\<open>handlers/devices.go\<close>, \<open>scripts.go\<close>, \<open>bulk.go\<close>,
  \<open>patches_v2.go\<close>, \<open>maintenance.go\<close>, \<open>agent.go\<close>, \<open>packages/agent/main.go\<close>,
  \<open>ai/playbooks/agentbridge.go\<close>): every writer of \<open>device_commands\<close>, the poll, the agent's
  execution, the results and the wait of a playbook.
  \<^item> \<open>AiRegistry\<close>, \<open>AiRun\<close>, \<open>KillSwitch\<close> (\<open>ai/*.go\<close>): the registries of
  capabilities, providers and tools with the rung ladder; the chokepoint with cost caps, the signed run row and its
  verification; the kill switches and their cache.
  \<^item> \<open>BlastRadius\<close>, \<open>Playbooks\<close> (\<open>ai/playbooks\<close>): the budget of
  actions per window, the severity gate, the four playbooks and the commands that they build.
  \<^item> \<open>AlertDedup\<close>, \<open>Remediate\<close>, \<open>Orchestrator\<close> (\<open>ai/capabilities\<close>,
  \<open>handlers/ai.go\<close>): alert signatures and clusters, the remediation of an alert with all its gates, the manual
  run, the probes and the passes of several nodes over them.
  \<^item> \<open>DeviceDedup\<close> (\<open>db/dedup_devices.go\<close>, \<open>packages/server/main.go\<close>): the startup pass that
  merges duplicate devices and installs the unique index, wherever it stops.
  \<^item> \<open>SafeHttp\<close> (\<open>httputil/safehttp.go\<close>): the addresses that the server refuses to connect to, as
  prefixes, and the two clients.
  \<^item> \<open>Broadcast\<close>, \<open>Alerts\<close> (\<open>events/events.go\<close>, \<open>handlers/webhooks.go\<close>,
  \<open>handlers/alerts.go\<close>): messages to browsers on all nodes, webhooks, alert mail; incidents with their limiter, rules and mail
  settings.
  \<^item> \<open>Tenants\<close>, \<open>Onboarding\<close> (\<open>handlers/tenants.go\<close>, \<open>middleware/tenant_host.go\<close>,
  \<open>handlers/invites.go\<close>, \<open>handlers/signup.go\<close>): the table of tenants and its invariant, slugs and host names with
  their cache; invites with the user cap, and self-serve signup.
  \<^item> \<open>AiSearch\<close> (\<open>ai/prompt\<close>, \<open>ai/tools\<close>, \<open>ai/capabilities/nlsearch.go\<close>): the prompt
  builder with its scope, the read-only tools, the bounded loop of the fleet search and its confinement to a tenant.
  \<^item> \<open>AiAdmin\<close>, \<open>AiAdminProps\<close> (\<open>handlers/ai.go\<close>): the settings of the AI layer as
  admins and the owner change them, over the tables that \<open>Run\<close> reads; which provider a run uses, that tenant admins do not
  escalate and do not reach the runs of others.
  \<^item> \<open>Tickets\<close>, \<open>Portal\<close> (\<open>handlers/tickets.go\<close>, \<open>handlers/portal.go\<close>): tickets and comments,
  the customers' portal with its sessions and limiter. A locale states isolation of a party (answers from its view, the rest
  left alone) and is interpreted on the staff of a tenant and on a customer.
  \<^item> \<open>Oidc\<close> (\<open>handlers/oidc.go\<close>): single sign-on, from the configuration of a provider to the session that
  the middleware admits; a stored state admits one login.
  \<^item> \<open>Rag\<close> (\<open>ai/rag/rag.go\<close>), \<open>Assist\<close>, \<open>TicketAi\<close> (\<open>ai/capabilities/scriptgen.go\<close>,
  \<open>ticketsummary.go\<close>, \<open>autoroute.go\<close>): the index of texts and the search for the nearest ones in a scope;
  generated scripts with the scan for dangerous commands, whose matcher is proved against a description of what an expression
  stands for; the triage of new tickets and the choice of a technician. All of them reach the model through \<open>Run\<close>.

  \<^bold>\<open>How code becomes definitions.\<close> A struct is a record, an error return is a value of a sum, a
  handler is a function of the request, the answers of its environment and the state to a response and the new state,
  with the guards and early returns of the source in their order. A table is a list of records (newest first, ties by
  insertion order) or a map by its key; a failing query is a flag or function in the environment record of the theory. Hash
  functions, ciphers, JSON, JWT signing, bcrypt, the wall clock, random identifiers, Redis and providers are parameters; what a
  property needs of them is a named hypothesis (\<open>prims_ok\<close>, \<open>env_ok\<close>, \<open>jwt_ok\<close> and the like) that a
  witness meets with concrete functions. Integers that can overflow are wrapped by \<open>i64\<close>. Sections under one mutex
  are one step; where goroutines or nodes interleave (token cache, bypass, kill switches, cost caps, probes) the steps are an
  inductive relation or a list of events and the property is about every order.

  \<^bold>\<open>Interfaces.\<close> The locales state contracts that several parts share, and each is interpreted on the
  code's own definitions: keyed registries that refuse duplicates and their sorted listings (capabilities, tools, providers,
  playbooks), counters with a fixed or renewed window (request limiters, conflict webhooks), and budgets of actions per
  window (blast radius, alert limiter in memory and in Redis), and isolation of a party (staff of a tenant, customers).

  \<^bold>\<open>Bounds and fuel.\<close> All loops are structural or have a measure, so no fuel is needed. The wait for a
  command terminates by a measure on the time that is left, since every pause is at least half a second of it.

  \<^bold>\<open>What is not modelled.\<close> Case mapping is modelled on ASCII only. Log lines and metrics are left
  out where nothing reads them back. Of devices and their inventory, only registration, heartbeat, deduplication
  and commands are modelled. SQL migrations, the transport of mail, the browser client, the provider clients, monitors, reports,
  branding, the VPN and remote-desktop integrations and the command line are outside: they are
  I/O, configuration or text, or calls of libraries that are not in the repository. The manifest lists each part with its
  reason.
\<close>

end
